(* ===== verification/PyText.thy ===== *)
theory PyText imports Main begin

text \<open>
  The part of Python's string library that the modelled code uses: \<open>str.strip\<close> and
  \<open>str.replace(old, '')\<close>, \<open>str.split(sep)\<close>, \<open>int(text)\<close>, \<open>int(text, 16)\<close>, and the text
  form of \<open>uuid.UUID\<close> in both directions. Strings are ASCII: a character is one byte.
\<close>

section \<open>Whitespace and stripping\<close>

definition is_py_space :: "char \<Rightarrow> bool" where
  "is_py_space c = (let n = of_char c :: nat in (9 \<le> n \<and> n \<le> 13) \<or> (28 \<le> n \<and> n \<le> 32))"

definition strip_by :: "(char \<Rightarrow> bool) \<Rightarrow> string \<Rightarrow> string" where
  "strip_by p s = rev (dropWhile p (rev (dropWhile p s)))"

definition py_strip :: "string \<Rightarrow> string" where
  "py_strip s = strip_by is_py_space s"

definition is_blank :: "string \<Rightarrow> bool" where
  "is_blank s = (py_strip s = [])"

lemma dropWhile_eq_Nil: "dropWhile p s = [] \<longleftrightarrow> (\<forall>c\<in>set s. p c)"
  by (induction s) auto

lemma strip_by_eq_Nil: "strip_by p s = [] \<longleftrightarrow> (\<forall>c\<in>set s. p c)"
proof -
  have "(\<forall>c\<in>set (dropWhile p s). p c) \<longleftrightarrow> (\<forall>c\<in>set s. p c)"
    by (induction s) auto
  then show ?thesis
    by (simp add: strip_by_def dropWhile_eq_Nil)
qed

lemma is_blank_iff: "is_blank s \<longleftrightarrow> (\<forall>c\<in>set s. is_py_space c)"
  by (simp add: is_blank_def py_strip_def strip_by_eq_Nil)

lemma strip_by_id:
  assumes "\<forall>c\<in>set s. \<not> p c"
  shows "strip_by p s = s"
proof -
  have drop: "\<And>t. \<forall>c\<in>set t. \<not> p c \<Longrightarrow> dropWhile p t = t"
    by (metis dropWhile_eq_self_iff hd_in_set)
  show ?thesis
    using assms by (simp add: strip_by_def drop)
qed

section \<open>Removing a substring\<close>

text \<open>\<open>s.replace(old, '')\<close> for a non-empty \<open>old\<close>: occurrences are removed from left to right.\<close>

fun starts_with :: "string \<Rightarrow> string \<Rightarrow> bool" where
  "starts_with [] s = True"
| "starts_with (c # p) [] = False"
| "starts_with (c # p) (d # s) = (c = d \<and> starts_with p s)"

function py_remove :: "string \<Rightarrow> string \<Rightarrow> string" where
  "py_remove old [] = []"
| "py_remove old (c # s) =
    (if old \<noteq> [] \<and> starts_with old (c # s) then py_remove old (drop (length old) (c # s))
     else c # py_remove old s)"
  by pat_completeness auto
termination
  by (relation "measure (\<lambda>(old, s). length s)") auto

lemma starts_with_head: "starts_with (a # p) s \<Longrightarrow> a \<in> set s"
  by (cases s) auto

lemma py_remove_absent: "a \<notin> set s \<Longrightarrow> py_remove (a # p) s = s"
  by (induction s) auto

section \<open>Hexadecimal numbers\<close>

definition hex_char :: "nat \<Rightarrow> char" where
  "hex_char d = char_of (if d < 10 then 48 + d else 87 + d)"

definition hex_value :: "char \<Rightarrow> nat option" where
  "hex_value c = (let n = of_char c :: nat in
     if 48 \<le> n \<and> n \<le> 57 then Some (n - 48)
     else if 97 \<le> n \<and> n \<le> 102 then Some (n - 87)
     else if 65 \<le> n \<and> n \<le> 70 then Some (n - 55)
     else None)"

fun hex_digits :: "nat \<Rightarrow> nat \<Rightarrow> string" where
  "hex_digits 0 n = []"
| "hex_digits (Suc k) n = hex_digits k (n div 16) @ [hex_char (n mod 16)]"

text \<open>Digits of \<open>int(text, 16)\<close>; a single underscore is allowed between two digits.\<close>

fun hex_scan :: "nat \<Rightarrow> string \<Rightarrow> nat option" where
  "hex_scan acc [] = Some acc"
| "hex_scan acc (c # s) =
    (if c = CHR ''_'' then
       (case s of [] \<Rightarrow> None
        | d # t \<Rightarrow> (case hex_value d of None \<Rightarrow> None | Some v \<Rightarrow> hex_scan (16 * acc + v) t))
     else (case hex_value c of None \<Rightarrow> None | Some v \<Rightarrow> hex_scan (16 * acc + v) s))"

definition hex_number :: "string \<Rightarrow> nat option" where
  "hex_number s = (case s of [] \<Rightarrow> None
     | c # t \<Rightarrow> (case hex_value c of None \<Rightarrow> None | Some v \<Rightarrow> hex_scan v t))"

definition hex_prefixed :: "string \<Rightarrow> nat option" where
  "hex_prefixed s = (case s of
       c # x # t \<Rightarrow>
         if c = CHR ''0'' \<and> (x = CHR ''x'' \<or> x = CHR ''X'') then
           hex_number (case t of u # t' \<Rightarrow> if u = CHR ''_'' then t' else t | [] \<Rightarrow> t)
         else hex_number s
     | _ \<Rightarrow> hex_number s)"

definition py_int16 :: "string \<Rightarrow> int option" where
  "py_int16 text = (case py_strip text of
       [] \<Rightarrow> None
     | c # t \<Rightarrow>
         if c = CHR ''-'' then map_option (\<lambda>n. - int n) (hex_prefixed t)
         else if c = CHR ''+'' then map_option int (hex_prefixed t)
         else map_option int (hex_prefixed (c # t)))"

lemma length_hex_digits [simp]: "length (hex_digits k n) = k"
  by (induction k arbitrary: n) auto

lemma of_char_hex_char: "d < 16 \<Longrightarrow> of_char (hex_char d) = (if d < 10 then 48 + d else 87 + d)"
  by (auto simp: hex_char_def)

lemma hex_value_char [simp]: "d < 16 \<Longrightarrow> hex_value (hex_char d) = Some d"
  by (auto simp: hex_value_def of_char_hex_char Let_def)

lemma hex_char_plain:
  assumes "d < 16"
  shows "hex_char d \<noteq> CHR ''_''" "hex_char d \<noteq> CHR ''-''" "hex_char d \<noteq> CHR ''+''"
    "hex_char d \<noteq> CHR ''x''" "hex_char d \<noteq> CHR ''X''" "hex_char d \<noteq> CHR ''u''"
    "hex_char d \<noteq> CHR ''{''" "hex_char d \<noteq> CHR ''}''" "\<not> is_py_space (hex_char d)"
proof -
  have ne: "hex_char d \<noteq> c" if "of_char c \<noteq> (if d < 10 then 48 + d else 87 + d)" for c
    using that of_char_hex_char [OF assms] by metis
  show "hex_char d \<noteq> CHR ''_''" "hex_char d \<noteq> CHR ''-''" "hex_char d \<noteq> CHR ''+''"
    "hex_char d \<noteq> CHR ''x''" "hex_char d \<noteq> CHR ''X''" "hex_char d \<noteq> CHR ''u''"
    "hex_char d \<noteq> CHR ''{''" "hex_char d \<noteq> CHR ''}''"
    using assms by (auto intro!: ne split: if_splits)
  show "\<not> is_py_space (hex_char d)"
    using of_char_hex_char [OF assms] assms by (auto simp: is_py_space_def split: if_splits)
qed

lemma in_hex_digits: "c \<in> set (hex_digits k n) \<Longrightarrow> \<exists>d<16. c = hex_char d"
proof (induction k arbitrary: n)
  case (Suc k)
  then show ?case
    by (cases "c \<in> set (hex_digits k (n div 16))") (auto intro!: exI [of _ "n mod 16"])
qed simp

lemma hex_scan_append:
  assumes "\<forall>c\<in>set s. \<exists>d<16. c = hex_char d"
  shows "hex_scan acc (s @ t) = Option.bind (hex_scan acc s) (\<lambda>a. hex_scan a t)"
  using assms
  by (induction s arbitrary: acc) (auto simp: hex_char_plain)

lemma hex_scan_digits: "n < 16 ^ k \<Longrightarrow> hex_scan acc (hex_digits k n) = Some (acc * 16 ^ k + n)"
proof (induction k arbitrary: n)
  case 0
  then show ?case by simp
next
  case (Suc k)
  have lt: "n div 16 < 16 ^ k"
    using Suc.prems by (simp add: less_mult_imp_div_less mult.commute)
  have m: "n mod 16 < 16" by simp
  have "hex_scan acc (hex_digits (Suc k) n) =
      hex_scan (acc * 16 ^ k + n div 16) [hex_char (n mod 16)]"
    by (simp only: hex_digits.simps)
      (subst hex_scan_append, use in_hex_digits in blast, simp add: Suc.IH [OF lt])
  also have "\<dots> = Some (16 * (acc * 16 ^ k + n div 16) + n mod 16)"
    using hex_char_plain(1) [OF m] hex_value_char [OF m] by simp
  also have "16 * (acc * 16 ^ k + n div 16) + n mod 16 = acc * 16 ^ Suc k + n"
    by (simp add: algebra_simps)
  finally show ?case .
qed

section \<open>Decimal numbers\<close>

text \<open>\<open>str(i)\<close> of an integer.\<close>

fun dec_digits :: "nat \<Rightarrow> string" where
  "dec_digits n = (if n < 10 then [char_of (48 + n)] else dec_digits (n div 10) @ [char_of (48 + n mod 10)])"

declare dec_digits.simps [simp del]

definition py_str_int :: "int \<Rightarrow> string" where
  "py_str_int i = (if i < 0 then CHR ''-'' # dec_digits (nat (- i)) else dec_digits (nat i))"

text \<open>
  \<open>int(text)\<close>: surrounding white space, a sign, decimal digits with single underscores between them;
  \<open>None\<close> is the \<open>ValueError\<close>.
\<close>

definition dec_value :: "char \<Rightarrow> nat option" where
  "dec_value c = (let n = of_char c :: nat in if 48 \<le> n \<and> n \<le> 57 then Some (n - 48) else None)"

fun dec_scan :: "nat \<Rightarrow> string \<Rightarrow> nat option" where
  "dec_scan acc [] = Some acc"
| "dec_scan acc (c # s) =
    (if c = CHR ''_'' then
       (case s of [] \<Rightarrow> None
        | d # t \<Rightarrow> (case dec_value d of None \<Rightarrow> None | Some v \<Rightarrow> dec_scan (10 * acc + v) t))
     else (case dec_value c of None \<Rightarrow> None | Some v \<Rightarrow> dec_scan (10 * acc + v) s))"

definition dec_number :: "string \<Rightarrow> nat option" where
  "dec_number s = (case s of [] \<Rightarrow> None
     | c # t \<Rightarrow> (case dec_value c of None \<Rightarrow> None | Some v \<Rightarrow> dec_scan v t))"

definition py_int :: "string \<Rightarrow> int option" where
  "py_int text = (case py_strip text of
       [] \<Rightarrow> None
     | c # t \<Rightarrow>
         if c = CHR ''-'' then map_option (\<lambda>n. - int n) (dec_number t)
         else if c = CHR ''+'' then map_option int (dec_number t)
         else map_option int (dec_number (c # t)))"

definition dec_char :: "nat \<Rightarrow> char" where
  "dec_char d = char_of (48 + d)"

lemma dec_char_value: "d < 10 \<Longrightarrow> of_char (dec_char d) = 48 + d"
  by (simp add: dec_char_def)

lemma dec_value_char [simp]: "d < 10 \<Longrightarrow> dec_value (dec_char d) = Some d"
  by (simp add: dec_value_def dec_char_value)

lemma dec_char_plain:
  assumes "d < 10"
  shows "dec_char d \<noteq> CHR ''_''" "dec_char d \<noteq> CHR ''-''" "dec_char d \<noteq> CHR ''+''"
    "dec_char d \<noteq> CHR ''.''" "\<not> is_py_space (dec_char d)"
proof -
  have ne: "dec_char d \<noteq> c" if "of_char c \<noteq> 48 + d" for c
    using that dec_char_value [OF assms] by metis
  show "dec_char d \<noteq> CHR ''_''" "dec_char d \<noteq> CHR ''-''" "dec_char d \<noteq> CHR ''+''" "dec_char d \<noteq> CHR ''.''"
    using assms by (auto intro!: ne)
  show "\<not> is_py_space (dec_char d)"
    using dec_char_value [OF assms] assms by (simp add: is_py_space_def)
qed

lemma dec_digits_step:
  "dec_digits n = (if n < 10 then [dec_char n] else dec_digits (n div 10) @ [dec_char (n mod 10)])"
  by (subst dec_digits.simps) (simp add: dec_char_def)

lemma in_dec_digits: "c \<in> set (dec_digits n) \<Longrightarrow> \<exists>d<10. c = dec_char d"
proof (induction n rule: dec_digits.induct)
  case (1 n)
  show ?case
  proof (cases "n < 10")
    case True
    then show ?thesis
      using 1(2) by (auto simp: dec_digits_step [of n])
  next
    case False
    then consider "c \<in> set (dec_digits (n div 10))" | "c = dec_char (n mod 10)"
      using 1(2) by (auto simp: dec_digits_step [of n])
    then show ?thesis
      using 1(1) [OF False] by cases (auto intro!: exI [of _ "n mod 10"])
  qed
qed

lemma dec_scan_append:
  assumes "\<forall>c\<in>set s. \<exists>d<10. c = dec_char d"
  shows "dec_scan acc (s @ t) = Option.bind (dec_scan acc s) (\<lambda>a. dec_scan a t)"
  using assms by (induction s arbitrary: acc) (auto simp: dec_char_plain)

lemma dec_number_digits: "dec_number (dec_digits n) = Some n"
proof (induction n rule: dec_digits.induct)
  case (1 n)
  show ?case
  proof (cases "n < 10")
    case True
    then show ?thesis
      by (simp add: dec_digits_step [of n] dec_number_def)
  next
    case False
    let ?s = "dec_digits (n div 10)"
    obtain c t where s: "?s = c # t"
      by (cases ?s) (use dec_digits_step [of "n div 10"] in \<open>auto split: if_splits\<close>)
    have all: "\<forall>c\<in>set ?s. \<exists>d<10. c = dec_char d"
      by (intro ballI) (rule in_dec_digits)
    obtain v where v: "dec_value c = Some v" "dec_scan v t = Some (n div 10)"
      using 1 [OF False] by (auto simp: s dec_number_def split: option.splits)
    have "dec_number (dec_digits n) = dec_scan v (t @ [dec_char (n mod 10)])"
      using False v(1) by (simp add: dec_digits_step [of n] s dec_number_def)
    also have "\<dots> = Some n"
      using all v(2) by (subst dec_scan_append) (auto simp: s dec_char_plain)
    finally show ?thesis .
  qed
qed

lemma py_int_digits [simp]: "py_int (dec_digits n) = Some (int n)"
proof -
  have "py_strip (dec_digits n) = dec_digits n"
    unfolding py_strip_def
  proof (rule strip_by_id, rule ballI)
    fix a assume "a \<in> set (dec_digits n)"
    then show "\<not> is_py_space a"
      using in_dec_digits dec_char_plain(5) by metis
  qed
  moreover obtain d t where s: "dec_digits n = dec_char d # t" "d < 10"
    using in_dec_digits [of "hd (dec_digits n)" n] dec_number_digits [of n]
    by (cases "dec_digits n") (auto simp: dec_number_def)
  ultimately show ?thesis
    using dec_number_digits [of n] dec_char_plain(2,3) [OF s(2)] by (simp add: py_int_def)
qed

text \<open>\<open>text.split(sep)\<close> for a separator of one character.\<close>

fun py_split :: "char \<Rightarrow> string \<Rightarrow> string list" where
  "py_split sep [] = [[]]"
| "py_split sep (c # s) =
    (if c = sep then [] # py_split sep s
     else case py_split sep s of [] \<Rightarrow> [[c]] | w # ws \<Rightarrow> (c # w) # ws)"

lemma py_split_plain: "sep \<notin> set s \<Longrightarrow> py_split sep s = [s]"
  by (induction s) auto

lemma py_split_append: "sep \<notin> set s \<Longrightarrow> py_split sep (s @ sep # t) = s # py_split sep t"
  by (induction s) auto

section \<open>UUID text\<close>

text \<open>\<open>str(u)\<close> of a UUID, and the constructor \<open>UUID(text)\<close>, which raises \<open>ValueError\<close> (here
  \<open>None\<close>) on anything else than 32 hexadecimal digits with the usual decorations.\<close>

definition uuid_str :: "nat \<Rightarrow> string" where
  "uuid_str u = (let h = hex_digits 32 u in
     take 8 h @ ''-'' @ take 4 (drop 8 h) @ ''-'' @ take 4 (drop 12 h) @ ''-''
       @ take 4 (drop 16 h) @ ''-'' @ drop 20 h)"

definition uuid_parse :: "string \<Rightarrow> nat option" where
  "uuid_parse text =
    (let h = py_remove ''uuid:'' (py_remove ''urn:'' text);
         h = filter (\<lambda>c. c \<noteq> CHR ''-'') (strip_by (\<lambda>c. c = CHR ''{'' \<or> c = CHR ''}'') h)
     in if length h \<noteq> 32 then None
        else (case py_int16 h of None \<Rightarrow> None
              | Some i \<Rightarrow> if 0 \<le> i \<and> i < 2 ^ 128 then Some (nat i) else None))"

lemma py_int16_plain:
  assumes h: "\<forall>c\<in>set h. \<exists>d<16. c = hex_char d" and len: "2 \<le> length h"
    and scan: "hex_scan 0 h = Some n"
  shows "py_int16 h = Some (int n)"
proof -
  obtain c x t where s: "h = c # x # t"
    using len by (cases h; cases "tl h") auto
  have "\<exists>d<16. c = hex_char d" and "\<exists>e<16. x = hex_char e"
    using h by (simp_all add: s)
  then obtain d e where d: "d < 16" "c = hex_char d" and e: "e < 16" "x = hex_char e"
    by blast
  have strip: "py_strip h = h"
    unfolding py_strip_def
  proof (rule strip_by_id, rule ballI)
    fix a assume "a \<in> set h"
    then obtain e where "e < 16" "a = hex_char e"
      using h by blast
    then show "\<not> is_py_space a"
      by (simp add: hex_char_plain(9))
  qed
  have "hex_number h = Some n"
    using scan d by (simp add: hex_number_def s hex_char_plain)
  then have "hex_prefixed h = Some n"
    using e by (simp add: hex_prefixed_def s hex_char_plain)
  then show ?thesis
    unfolding py_int16_def strip using d by (simp add: s hex_char_plain)
qed

lemma py_int16_digits:
  assumes "n < 16 ^ k" "2 \<le> k"
  shows "py_int16 (hex_digits k n) = Some (int n)"
proof (rule py_int16_plain)
  show "\<forall>c\<in>set (hex_digits k n). \<exists>d<16. c = hex_char d"
    by (intro ballI) (rule in_hex_digits)
  show "2 \<le> length (hex_digits k n)"
    using assms(2) by simp
  show "hex_scan 0 (hex_digits k n) = Some n"
    using hex_scan_digits [OF assms(1), of 0] by simp
qed

lemma take_drop_join: "take n (drop m s) @ drop (m + n) s = drop m s"
  by (metis add.commute append_take_drop_id drop_drop)

lemma uuid_groups:
  "take 8 h @ take 4 (drop 8 h) @ take 4 (drop 12 h) @ take 4 (drop 16 h) @ drop 20 h = h"
  using take_drop_join [of 4 8 h] take_drop_join [of 4 12 h] take_drop_join [of 4 16 h]
  by simp

lemma uuid_parse_str:
  assumes "u < 2 ^ 128"
  shows "uuid_parse (uuid_str u) = Some u"
proof -
  let ?h = "hex_digits 32 u"
  have lt: "u < 16 ^ 32"
    using assms by simp
  have parts: "\<And>i j. set (take i (drop j ?h)) \<subseteq> set ?h"
    by (meson order_trans set_drop_subset set_take_subset)
  have elem: "c = CHR ''-'' \<or> c \<in> set ?h" if "c \<in> set (uuid_str u)" for c
    using that parts set_take_subset [of 8 ?h] set_drop_subset [of 20 ?h]
    by (auto simp: uuid_str_def Let_def)
  have no_u: "CHR ''u'' \<notin> set (uuid_str u)"
  proof
    assume "CHR ''u'' \<in> set (uuid_str u)"
    with elem [of "CHR ''u''"] have "CHR ''u'' \<in> set ?h"
      by simp
    then show False
      using in_hex_digits [of "CHR ''u''" 32 u] hex_char_plain(6) by metis
  qed
  have strip: "strip_by (\<lambda>c. c = CHR ''{'' \<or> c = CHR ''}'') (uuid_str u) = uuid_str u"
  proof (rule strip_by_id, intro ballI)
    fix c assume "c \<in> set (uuid_str u)"
    with elem [of c] have "c = CHR ''-'' \<or> (\<exists>d<16. c = hex_char d)"
      using in_hex_digits by blast
    then show "\<not> (c = CHR ''{'' \<or> c = CHR ''}'')"
      using hex_char_plain(7,8) by fastforce
  qed
  have keep: "filter (\<lambda>c. c \<noteq> CHR ''-'') t = t" if "set t \<subseteq> set ?h" for t
  proof (rule filter_True, rule ballI)
    fix c assume "c \<in> set t"
    then have "c \<in> set ?h"
      using \<open>set t \<subseteq> set ?h\<close> by blast
    then obtain d where "d < 16" "c = hex_char d"
      using in_hex_digits by blast
    then show "c \<noteq> CHR ''-''"
      by (simp add: hex_char_plain(2))
  qed
  have "filter (\<lambda>c. c \<noteq> CHR ''-'') (uuid_str u) =
      take 8 ?h @ take 4 (drop 8 ?h) @ take 4 (drop 12 ?h) @ take 4 (drop 16 ?h) @ drop 20 ?h"
    unfolding uuid_str_def Let_def
    by (simp add: keep parts set_take_subset set_drop_subset)
  also have "\<dots> = ?h"
    by (rule uuid_groups)
  finally have filt: "filter (\<lambda>c. c \<noteq> CHR ''-'') (uuid_str u) = ?h" .
  have int16: "py_int16 ?h = Some (int u)"
    using py_int16_digits [OF lt] by simp
  have "int u < 2 ^ 128"
    using assms by (metis of_nat_less_iff of_nat_numeral of_nat_power)
  then show ?thesis
    unfolding uuid_parse_def Let_def
    by (simp only: py_remove_absent [OF no_u] strip filt) (simp add: int16)
qed

end
