(* ===== verification/Prelude.thy ===== *)
theory Prelude imports Complex_Main PyText begin

text \<open>
  Shared vocabulary of the development: the types every component uses (identifiers, time
  stamps, JSON values, application errors), dictionaries as association lists in insertion
  order, the table operations that the repositories of \<open>packages/\<close> issue through SQLAlchemy,
  and the generic lemmas and simplification collections about them.
\<close>

named_theorems sql_simps \<open>rewrite rules for the table operations\<close>
named_theorems dict_simps \<open>rewrite rules for dictionaries\<close>

section \<open>Basic types\<close>

text \<open>
  A UUID is used only as an identity, so a natural number stands for it. A time stamp counts
  seconds. \<open>string\<close> is a list of bytes; every string literal of the model is ASCII.
\<close>

type_synonym uuid = nat
type_synonym timestamp = int

text \<open>
  A Python float: a finite value, kept as the rational it denotes, an infinity or NaN.
  JSON values as \<open>json.loads\<close> or a JSONB column delivers them; an object is an association
  list, in the order of the Python dictionary.
\<close>

datatype pyfloat = Fin rat | PosInf | NegInf | NaN

datatype json =
    JNull
  | JBool bool
  | JInt int
  | JFloat pyfloat
  | JStr string
  | JArr "json list"
  | JObj "(string \<times> json) list"

text \<open>
  \<open>AppError\<close> (\<open>packages/common/errors.py\<close>): the code, the retry flag and the \<open>fields\<close>
  mapping. The user-facing message, a Chinese sentence, is left out, also from \<open>to_dict\<close>.
\<close>

record app_error =
  err_code :: string
  err_retryable :: bool
  err_fields :: "(string \<times> json) list"

definition mk_error :: "string \<Rightarrow> bool \<Rightarrow> (string \<times> json) list \<Rightarrow> app_error" where
  "mk_error c r fs = \<lparr>err_code = c, err_retryable = r, err_fields = fs\<rparr>"

definition error_to_dict :: "app_error \<Rightarrow> json" where
  "error_to_dict e = JObj
     [(''code'', JStr (err_code e)), (''retryable'', JBool (err_retryable e)),
      (''fields'', JObj (err_fields e))]"

lemma mk_error_simps [simp]:
  "err_code (mk_error c r fs) = c"
  "err_retryable (mk_error c r fs) = r"
  "err_fields (mk_error c r fs) = fs"
  by (simp_all add: mk_error_def)

lemma mk_error_inject [simp]:
  "mk_error c r fs = mk_error c' r' fs' \<longleftrightarrow> c = c' \<and> r = r' \<and> fs = fs'"
  by (auto simp: mk_error_def)

section \<open>Dictionaries\<close>

text \<open>
  A Python dictionary with string or UUID keys is an association list with distinct keys in
  insertion order: \<open>d[k] = v\<close> overwrites in place or appends at the end.
\<close>

definition dict_get :: "('k \<times> 'v) list \<Rightarrow> 'k \<Rightarrow> 'v option" where
  "dict_get d k = map_of d k"

fun dict_set :: "('k \<times> 'v) list \<Rightarrow> 'k \<Rightarrow> 'v \<Rightarrow> ('k \<times> 'v) list" where
  "dict_set [] k v = [(k, v)]"
| "dict_set ((k', v') # d) k v = (if k' = k then (k, v) # d else (k', v') # dict_set d k v)"

definition dict_of :: "('k \<times> 'v) list \<Rightarrow> ('k \<times> 'v) list" where
  "dict_of kvs = foldl (\<lambda>d (k, v). dict_set d k v) [] kvs"

definition dict_keys :: "('k \<times> 'v) list \<Rightarrow> 'k list" where
  "dict_keys d = map fst d"

lemma dict_get_set [dict_simps]:
  "dict_get (dict_set d k v) k' = (if k' = k then Some v else dict_get d k')"
  by (induction d) (auto simp: dict_get_def)

lemma dict_keys_set [dict_simps]:
  "dict_keys (dict_set d k v) = (if k \<in> set (dict_keys d) then dict_keys d else dict_keys d @ [k])"
  by (induction d k v rule: dict_set.induct) (auto simp: dict_keys_def)

lemma distinct_dict_set: "distinct (dict_keys d) \<Longrightarrow> distinct (dict_keys (dict_set d k v))"
  by (simp add: dict_keys_set)

lemma dict_get_None_iff [dict_simps]: "dict_get d k = None \<longleftrightarrow> k \<notin> set (dict_keys d)"
  by (simp add: dict_get_def dict_keys_def map_of_eq_None_iff)

lemma dict_get_Some_key: "dict_get d k = Some v \<Longrightarrow> k \<in> set (dict_keys d)"
  using dict_get_None_iff [of d k] by auto

lemma foldl_dict_set_distinct:
  "distinct (dict_keys d) \<Longrightarrow> distinct (dict_keys (foldl (\<lambda>d (k, v). dict_set d k v) d kvs))"
  by (induction kvs arbitrary: d) (auto simp: distinct_dict_set split: prod.splits)

lemma distinct_dict_of: "distinct (dict_keys (dict_of kvs))"
  unfolding dict_of_def by (rule foldl_dict_set_distinct) (simp add: dict_keys_def)

lemma foldl_dict_set_keys:
  "set (dict_keys (foldl (\<lambda>d (k, v). dict_set d k v) d kvs)) = set (dict_keys d) \<union> set (map fst kvs)"
  by (induction kvs arbitrary: d) (auto simp: dict_keys_set split: prod.splits if_splits)

lemma dict_keys_dict_of [dict_simps]: "set (dict_keys (dict_of kvs)) = set (map fst kvs)"
  by (simp add: dict_of_def foldl_dict_set_keys) (simp add: dict_keys_def)

lemma in_map_filter: "y \<in> set (List.map_filter f xs) \<longleftrightarrow> (\<exists>x\<in>set xs. f x = Some y)"
  by (induction xs) (auto simp: List.map_filter_simps split: option.splits)

section \<open>Tables\<close>

text \<open>
  A table is the list of its rows. \<open>UPDATE ... WHERE p\<close> maps over it, its \<open>rowcount\<close> is the
  number of rows that satisfy \<open>p\<close>, and \<open>SELECT ... WHERE key = k\<close> finds a row by its primary key.
\<close>

definition sql_update :: "('r \<Rightarrow> bool) \<Rightarrow> ('r \<Rightarrow> 'r) \<Rightarrow> 'r list \<Rightarrow> 'r list" where
  "sql_update p f rows = map (\<lambda>r. if p r then f r else r) rows"

definition sql_rowcount :: "('r \<Rightarrow> bool) \<Rightarrow> 'r list \<Rightarrow> nat" where
  "sql_rowcount p rows = length (filter p rows)"

definition sql_find :: "('r \<Rightarrow> bool) \<Rightarrow> 'r list \<Rightarrow> 'r option" where
  "sql_find p rows = find p rows"

definition unique_rows :: "('r \<Rightarrow> 'k) \<Rightarrow> 'r list \<Rightarrow> bool" where
  "unique_rows key rows = distinct (map key rows)"

lemma sql_update_Nil [simp]: "sql_update p f [] = []"
  by (simp add: sql_update_def)

lemma sql_update_Cons [simp]:
  "sql_update p f (r # rs) = (if p r then f r else r) # sql_update p f rs"
  by (simp add: sql_update_def)

lemma length_sql_update [simp]: "length (sql_update p f rows) = length rows"
  by (simp add: sql_update_def)

lemma set_sql_update: "set (sql_update p f rows) = (\<lambda>r. if p r then f r else r) ` set rows"
  by (simp add: sql_update_def)

lemma in_sql_updateE:
  assumes "r \<in> set (sql_update p f rows)"
  obtains r' where "r' \<in> set rows" and "r = (if p r' then f r' else r')"
  using assms by (auto simp: set_sql_update)

lemma sql_rowcount_0_iff [sql_simps]: "sql_rowcount p rows = 0 \<longleftrightarrow> (\<forall>r\<in>set rows. \<not> p r)"
  by (auto simp: sql_rowcount_def filter_empty_conv)

lemma sql_rowcount_pos_iff [sql_simps]: "0 < sql_rowcount p rows \<longleftrightarrow> (\<exists>r\<in>set rows. p r)"
  by (auto simp: sql_rowcount_def filter_empty_conv)

lemma sql_update_id: "sql_rowcount p rows = 0 \<Longrightarrow> sql_update p f rows = rows"
  unfolding sql_update_def sql_rowcount_0_iff by (rule map_idI) simp

lemma sql_find_Some_iff:
  "unique_rows key rows \<Longrightarrow>
    sql_find (\<lambda>r. key r = k) rows = Some r \<longleftrightarrow> r \<in> set rows \<and> key r = k"
  by (induction rows) (auto simp: sql_find_def unique_rows_def image_iff)

lemma sql_find_SomeD: "sql_find p rows = Some r \<Longrightarrow> r \<in> set rows \<and> p r"
  by (auto simp: sql_find_def find_Some_iff)

lemma sql_find_None_iff [sql_simps]: "sql_find p rows = None \<longleftrightarrow> (\<forall>r\<in>set rows. \<not> p r)"
  by (auto simp: sql_find_def find_None_iff)

lemma unique_rows_Nil [simp]: "unique_rows key []"
  by (simp add: unique_rows_def)

lemma unique_rows_snoc [sql_simps]:
  "unique_rows key (rows @ [r]) \<longleftrightarrow> unique_rows key rows \<and> key r \<notin> key ` set rows"
  by (auto simp: unique_rows_def)

lemma unique_rows_eq:
  "unique_rows key rows \<Longrightarrow> r \<in> set rows \<Longrightarrow> r' \<in> set rows \<Longrightarrow> key r = key r' \<Longrightarrow> r = r'"
  by (auto simp: unique_rows_def distinct_map inj_on_def)

lemma unique_rows_image:
  "unique_rows key rows \<Longrightarrow> S \<subseteq> set rows \<Longrightarrow> r \<in> set rows \<Longrightarrow> key r \<in> key ` S \<longleftrightarrow> r \<in> S"
  using unique_rows_eq [of key rows r] by blast

lemma sql_find_append:
  "sql_find p (xs @ ys) = (case sql_find p xs of None \<Rightarrow> sql_find p ys | Some r \<Rightarrow> Some r)"
  by (induction xs) (auto simp: sql_find_def)

text \<open>With a unique key, a statement about one key meets at most one row.\<close>

lemma filter_unique:
  assumes "unique_rows key rows" and "\<And>r. p r \<Longrightarrow> key r = k"
  shows "filter p rows =
    (case sql_find (\<lambda>r. key r = k) rows of None \<Rightarrow> [] | Some r \<Rightarrow> if p r then [r] else [])"
  using assms(1)
proof (induction rows)
  case Nil
  then show ?case by (simp add: sql_find_def)
next
  case (Cons a rs)
  then have u: "unique_rows key rs" and notin: "key a \<notin> key ` set rs"
    by (simp_all add: unique_rows_def)
  show ?case
  proof (cases "key a = k")
    case True
    have "\<not> p x" if "x \<in> set rs" for x
      using notin assms(2) [of x] True that by (metis imageI)
    then have "filter p rs = []"
      by (simp add: filter_empty_conv)
    then show ?thesis
      using True by (simp add: sql_find_def)
  next
    case False
    then have "\<not> p a"
      using assms(2) by blast
    then show ?thesis
      using False Cons.IH [OF u] by (simp add: sql_find_def)
  qed
qed

lemma find_filter: "sql_find p rows = (case filter p rows of [] \<Rightarrow> None | r # _ \<Rightarrow> Some r)"
  by (induction rows) (auto simp: sql_find_def)

lemma find_unique:
  assumes "unique_rows key rows" and "\<And>r. p r \<Longrightarrow> key r = k"
  shows "sql_find p rows =
    (case sql_find (\<lambda>r. key r = k) rows of None \<Rightarrow> None | Some r \<Rightarrow> if p r then Some r else None)"
  using filter_unique [of key rows p k] assms
  by (simp add: find_filter [of p] split: option.split)

lemma rowcount_unique:
  assumes "unique_rows key rows" and "\<And>r. p r \<Longrightarrow> key r = k"
  shows "sql_rowcount p rows =
    (case sql_find (\<lambda>r. key r = k) rows of None \<Rightarrow> 0 | Some r \<Rightarrow> if p r then 1 else 0)"
  using filter_unique [of key rows p k] assms
  by (simp add: sql_rowcount_def split: option.split)

subsection \<open>The key of a row survives an update\<close>

text \<open>
  The contract of every \<open>UPDATE\<close> of the repositories: it writes columns other than the primary
  key. What follows from it (keys stay unique, a row is found under its key before and after) is
  proved once here and used through an interpretation for each \<open>UPDATE\<close>.
\<close>

locale row_update =
  fixes key :: "'r \<Rightarrow> 'k"
    and upd :: "'r \<Rightarrow> 'r"
  assumes key_upd: "key (upd r) = key r"
begin

lemma map_key_update: "map key (sql_update p upd rows) = map key rows"
  by (induction rows) (auto simp: key_upd)

lemma keys_update: "key ` set (sql_update p upd rows) = key ` set rows"
  by (metis list.set_map map_key_update)

lemma unique_update: "unique_rows key (sql_update p upd rows) \<longleftrightarrow> unique_rows key rows"
  by (simp add: unique_rows_def map_key_update)

lemma find_update:
  "sql_find (\<lambda>r. key r = k) (sql_update p upd rows) =
    map_option (\<lambda>r. if p r then upd r else r) (sql_find (\<lambda>r. key r = k) rows)"
  by (induction rows) (auto simp: sql_find_def key_upd)

lemma find_update_other:
  "(\<And>r. p r \<Longrightarrow> key r \<noteq> k) \<Longrightarrow>
    sql_find (\<lambda>r. key r = k) (sql_update p upd rows) = sql_find (\<lambda>r. key r = k) rows"
  by (induction rows) (auto simp: sql_find_def key_upd)

end

subsection \<open>Optimistic locking\<close>

text \<open>
  The contract of an \<open>UPDATE\<close> that increments the row's version. A caller that adds
  \<open>WHERE key = k AND version = v\<close> wins at most once for each \<open>(k, v)\<close>: whoever comes second with
  the version it read before finds no row.
\<close>

locale versioned_update = row_update key upd
  for key :: "'r \<Rightarrow> 'k" and upd :: "'r \<Rightarrow> 'r" +
  fixes ver :: "'r \<Rightarrow> nat"
  assumes ver_upd: "ver (upd r) = Suc (ver r)"
begin

lemma cas_once:
  assumes "\<And>r. p r \<Longrightarrow> key r = k \<and> ver r = v" and "\<And>r. q r \<Longrightarrow> key r = k \<and> ver r = v"
    and "unique_rows key rows" and "0 < sql_rowcount p rows"
  shows "sql_rowcount q (sql_update p upd rows) = 0"
proof -
  obtain r where r: "r \<in> set rows" "p r"
    using assms(4) by (auto simp: sql_rowcount_pos_iff)
  have "\<not> q r'" if r': "r' \<in> set (sql_update p upd rows)" for r'
  proof
    assume q: "q r'"
    obtain r0 where r0: "r0 \<in> set rows" "r' = (if p r0 then upd r0 else r0)"
      using r' by (rule in_sql_updateE)
    have "key r0 = k"
      using assms(2) [OF q] r0(2) key_upd [of r0] by (metis (full_types))
    then have "r0 = r"
      using unique_rows_eq [OF assms(3) r0(1) r(1)] assms(1) [OF r(2)] by simp
    then have "ver r' = Suc v"
      using r0(2) r(2) assms(1) [OF r(2)] ver_upd by simp
    then show False
      using assms(2) [OF q] by simp
  qed
  then show ?thesis
    by (simp add: sql_rowcount_0_iff)
qed

lemma find_ver_mono:
  assumes "sql_find (\<lambda>r. key r = k) rows = Some r"
  shows "\<exists>r'. sql_find (\<lambda>r. key r = k) (sql_update p upd rows) = Some r' \<and> ver r \<le> ver r'"
  using assms by (simp add: find_update ver_upd)

end

end
