(* ===== verification/JobModel.thy ===== *)
theory JobModel imports Prelude begin

text \<open>
  The data of the job queue: \<open>packages/jobs/entities.py\<close> (status, job row, references) and the
  kind policies of \<open>packages/common/job_policy.py\<close>, which decide who may submit a kind of job,
  on which queue it runs and for how long.
\<close>

section \<open>Job rows\<close>

datatype job_status =
    ACCEPTED | QUEUED | RUNNING | RETRY_WAIT | SUCCEEDED | FAILED | CANCEL_REQUESTED | CANCELLED

fun status_value :: "job_status \<Rightarrow> string" where
  "status_value ACCEPTED = ''accepted''"
| "status_value QUEUED = ''queued''"
| "status_value RUNNING = ''running''"
| "status_value RETRY_WAIT = ''retry_wait''"
| "status_value SUCCEEDED = ''succeeded''"
| "status_value FAILED = ''failed''"
| "status_value CANCEL_REQUESTED = ''cancel_requested''"
| "status_value CANCELLED = ''cancelled''"

lemma status_value_inject [simp]: "status_value s = status_value t \<longleftrightarrow> s = t"
  by (cases s; cases t) simp_all

definition TERMINAL_STATUSES :: "job_status list" where
  "TERMINAL_STATUSES = [SUCCEEDED, FAILED, CANCELLED]"

definition LEASEABLE_STATUSES :: "job_status list" where
  "LEASEABLE_STATUSES = [ACCEPTED, QUEUED, RETRY_WAIT]"

abbreviation terminal :: "job_status \<Rightarrow> bool" where
  "terminal s \<equiv> s \<in> set TERMINAL_STATUSES"

abbreviation leaseable :: "job_status \<Rightarrow> bool" where
  "leaseable s \<equiv> s \<in> set LEASEABLE_STATUSES"

lemma terminal_iff: "terminal s \<longleftrightarrow> s = SUCCEEDED \<or> s = FAILED \<or> s = CANCELLED"
  by (auto simp: TERMINAL_STATUSES_def)

lemma leaseable_iff: "leaseable s \<longleftrightarrow> s = ACCEPTED \<or> s = QUEUED \<or> s = RETRY_WAIT"
  by (auto simp: LEASEABLE_STATUSES_def)

lemma leaseable_not_terminal: "leaseable s \<Longrightarrow> \<not> terminal s"
  by (auto simp: leaseable_iff terminal_iff)

text \<open>A row of the \<open>job\<close> table. \<open>payload\<close> is a JSON object or NULL.\<close>

record job =
  job_id :: uuid
  department_id :: uuid
  kind :: string
  status :: job_status
  payload :: "json option"
  idempotency_key :: string
  attempt :: nat
  max_attempts :: nat
  run_after :: "timestamp option"
  lease_owner :: "string option"
  lease_expires_at :: "timestamp option"
  result :: "json option"
  last_error :: "json option"
  created_by :: "uuid option"
  created_at :: timestamp
  updated_at :: timestamp
  lock_version :: nat

record job_ref =
  ref_job_id :: uuid
  ref_status :: job_status
  ref_kind :: string
  ref_stage :: json
  ref_progress :: nat
  ref_retryable :: bool

record job_result =
  res_job_id :: uuid
  res_status :: job_status
  res_payload :: "json option"
  res_last_error :: "json option"

section \<open>Kind policies\<close>

record kind_policy =
  required_permission :: string
  queue :: string
  timeout_seconds :: nat
  soft_timeout_seconds :: nat
  max_retries :: nat
  allow_general_submit :: bool

definition KindPolicy :: "string \<Rightarrow> string \<Rightarrow> nat \<Rightarrow> nat \<Rightarrow> nat \<Rightarrow> bool \<Rightarrow> kind_policy" where
  "KindPolicy p q t st r g =
    \<lparr>required_permission = p, queue = q, timeout_seconds = t, soft_timeout_seconds = st,
     max_retries = r, allow_general_submit = g\<rparr>"

definition POLICIES :: "(string \<times> kind_policy) list" where
  "POLICIES =
    [(''flow_execute'', KindPolicy ''job:submit'' ''irip-normal'' 3600 3000 3 True),
     (''flow_resume'', KindPolicy ''job:submit'' ''irip-fast'' 600 540 2 True),
     (''ingestion'', KindPolicy ''job:submit'' ''irip-fast'' 600 540 3 True),
     (''model_train'', KindPolicy ''job:submit'' ''irip-normal'' 7200 6600 3 True),
     (''model_predict'', KindPolicy ''job:submit'' ''irip-fast'' 600 540 3 True),
     (''model_publish'', KindPolicy ''job:submit'' ''irip-normal'' 1800 1500 2 True),
     (''backup'', KindPolicy ''system:manage'' ''irip-ops'' 7200 6600 0 False),
     (''restore'', KindPolicy ''system:manage'' ''irip-ops'' 14400 13800 0 False),
     (''audit_export'', KindPolicy ''system:manage'' ''irip-ops'' 3600 3000 0 False)]"

datatype policy_error = ValueError | PermissionError_privileged | PermissionError_missing

definition validate :: "string \<Rightarrow> string set \<Rightarrow> bool \<Rightarrow> policy_error + kind_policy" where
  "validate k user_permissions via_general =
    (case dict_get POLICIES k of
       None \<Rightarrow> Inl ValueError
     | Some policy \<Rightarrow>
         if via_general \<and> \<not> allow_general_submit policy then Inl PermissionError_privileged
         else if required_permission policy \<notin> user_permissions then Inl PermissionError_missing
         else Inr policy)"

definition is_general_submit_allowed :: "string \<Rightarrow> bool" where
  "is_general_submit_allowed k =
    (case dict_get POLICIES k of Some policy \<Rightarrow> allow_general_submit policy | None \<Rightarrow> False)"

definition get_policy :: "string \<Rightarrow> kind_policy option" where
  "get_policy k = dict_get POLICIES k"

definition registered_kinds :: "string list" where
  "registered_kinds = dict_keys POLICIES"

text \<open>
  The handlers that \<open>_register_handlers\<close> (\<open>apps/worker/tasks/__init__.py\<close>) gives the executor of
  a worker, by kind, and the second check of the kind that the handlers make.
\<close>

definition registered_handlers :: "string list" where
  "registered_handlers =
    [''flow_execute'', ''flow_resume'', ''model_train'', ''model_predict'', ''model_publish'',
     ''backup'', ''audit_export'']"

definition validate_job_kind :: "string \<Rightarrow> app_error option" where
  "validate_job_kind k =
    (if k \<in> set (dict_keys POLICIES) then None
     else Some (mk_error ''unknown_job_kind'' False [(''kind'', JStr k)]))"

lemma policy_cases:
  assumes "dict_get POLICIES k = Some p"
  shows "(k, p) \<in> set POLICIES"
  using assms by (simp add: dict_get_def map_of_SomeD)

lemma KindPolicy_sel [simp]:
  "required_permission (KindPolicy p q t st r g) = p"
  "queue (KindPolicy p q t st r g) = q"
  "timeout_seconds (KindPolicy p q t st r g) = t"
  "soft_timeout_seconds (KindPolicy p q t st r g) = st"
  "max_retries (KindPolicy p q t st r g) = r"
  "allow_general_submit (KindPolicy p q t st r g) = g"
  by (simp_all add: KindPolicy_def)

lemma validate_Inr_iff:
  "validate k perms g = Inr p \<longleftrightarrow>
    dict_get POLICIES k = Some p \<and> (g \<longrightarrow> allow_general_submit p) \<and> required_permission p \<in> perms"
  by (auto simp: validate_def split: option.splits)

lemma policy_privileged:
  "(k, p) \<in> set POLICIES \<Longrightarrow>
    (allow_general_submit p \<longleftrightarrow> required_permission p = ''job:submit'') \<and>
    (\<not> allow_general_submit p \<longleftrightarrow> required_permission p = ''system:manage'') \<and>
    (\<not> allow_general_submit p \<longleftrightarrow> queue p = ''irip-ops'') \<and>
    (\<not> allow_general_submit p \<longleftrightarrow> max_retries p = 0) \<and>
    soft_timeout_seconds p < timeout_seconds p"
  by (auto simp: POLICIES_def)

text \<open>
  Submission policy. \<open>JobKindPolicy.validate\<close> accepts a kind through the general endpoint
  exactly when the kind is one of the six unprivileged kinds and the caller holds
  \<open>job:submit\<close>; through a dedicated endpoint a privileged kind needs \<open>system:manage\<close>; the
  returned policy always has its soft timeout before the hard one.
\<close>

theorem validate_policy:
  "(\<exists>p. validate k perms True = Inr p) \<longleftrightarrow>
     k \<in> {''flow_execute'', ''flow_resume'', ''ingestion'', ''model_train'', ''model_predict'',
           ''model_publish''} \<and> ''job:submit'' \<in> perms"
  unfolding validate_Inr_iff by (auto simp: POLICIES_def dict_get_def)

end
