(* ===== verification/JobStore.thy ===== *)
theory JobStore imports JobModel begin

text \<open>
  The job repository (\<open>packages/jobs/repository.py\<close>): one definition per statement, over the
  list of job rows and the outbox. Every statement sees only the rows that row-level security
  admits: \<open>vis\<close> says which departments are visible to the session. \<open>now\<close> is the database clock,
  \<open>clock\<close> the application's.
\<close>

section \<open>State\<close>

record outbox_event =
  ev_id :: uuid
  aggregate_type :: string
  aggregate_id :: uuid
  event_type :: string
  ev_payload :: "json option"
  occurred_at :: timestamp
  delivered_at :: "timestamp option"

record job_db =
  db_jobs :: "job list"
  db_outbox :: "outbox_event list"

type_synonym visibility = "uuid \<Rightarrow> bool"

definition job_row :: "visibility \<Rightarrow> uuid \<Rightarrow> job \<Rightarrow> bool" where
  "job_row vis jid j = (vis (department_id j) \<and> job_id j = jid)"

text \<open>\<open>OutboxEvent(...)\<close> with its server defaults, and \<open>OutboxDispatcher.enqueue\<close>.\<close>

definition mk_event :: "uuid \<Rightarrow> timestamp \<Rightarrow> uuid \<Rightarrow> string \<Rightarrow> json option \<Rightarrow> outbox_event" where
  "mk_event eid now agg typ p =
    \<lparr>ev_id = eid, aggregate_type = ''job'', aggregate_id = agg, event_type = typ, ev_payload = p,
     occurred_at = now, delivered_at = None\<rparr>"

definition enqueue :: "outbox_event \<Rightarrow> job_db \<Rightarrow> job_db" where
  "enqueue e db = db\<lparr>db_outbox := db_outbox db @ [e]\<rparr>"

section \<open>Reading\<close>

text \<open>An \<open>INSERT\<close> of an existing primary key is refused with an integrity error.\<close>

definition insert_job :: "job \<Rightarrow> job list \<Rightarrow> job list option" where
  "insert_job j rows = (if job_id j \<in> job_id ` set rows then None else Some (rows @ [j]))"

definition get_job :: "visibility \<Rightarrow> uuid \<Rightarrow> job list \<Rightarrow> job option" where
  "get_job vis jid rows = sql_find (job_row vis jid) rows"

text \<open>\<open>scalar_one_or_none\<close>: no row, one row, or \<open>MultipleResultsFound\<close>.\<close>

datatype 'a one_or_none = NoRow | OneRow 'a | MultipleResultsFound

definition scalar_one_or_none :: "'a list \<Rightarrow> 'a one_or_none" where
  "scalar_one_or_none rows = (case rows of [] \<Rightarrow> NoRow | [r] \<Rightarrow> OneRow r | _ \<Rightarrow> MultipleResultsFound)"

definition get_by_idempotency_dept ::
    "visibility \<Rightarrow> uuid \<Rightarrow> string \<Rightarrow> job list \<Rightarrow> job one_or_none" where
  "get_by_idempotency_dept vis dept key rows =
    scalar_one_or_none (filter (\<lambda>j. vis (department_id j) \<and> department_id j = dept
                                   \<and> idempotency_key j = key) rows)"

section \<open>Writing\<close>

subsection \<open>\<open>update_status\<close>\<close>

definition status_values :: "timestamp \<Rightarrow> job_status \<Rightarrow> json option \<Rightarrow> json option \<Rightarrow> job \<Rightarrow> job" where
  "status_values now s res err j =
    j\<lparr>status := s, updated_at := now, lock_version := lock_version j + 1,
      result := (if res = None then result j else res),
      last_error := (if err = None then last_error j else err)\<rparr>"

definition status_where ::
    "visibility \<Rightarrow> uuid \<Rightarrow> job_status \<Rightarrow> nat option \<Rightarrow> job \<Rightarrow> bool" where
  "status_where vis jid s expected j =
    (job_row vis jid j
     \<and> (case expected of None \<Rightarrow> True | Some v \<Rightarrow> lock_version j = v)
     \<and> (terminal s \<longrightarrow> \<not> terminal (status j)))"

definition update_status ::
    "visibility \<Rightarrow> timestamp \<Rightarrow> uuid \<Rightarrow> job_status \<Rightarrow> json option \<Rightarrow> json option \<Rightarrow> nat option
      \<Rightarrow> job list \<Rightarrow> bool \<times> job list" where
  "update_status vis now jid s res err expected rows =
    (0 < sql_rowcount (status_where vis jid s expected) rows,
     sql_update (status_where vis jid s expected) (status_values now s res err) rows)"

subsection \<open>Leases\<close>

definition lease_free :: "timestamp \<Rightarrow> job \<Rightarrow> bool" where
  "lease_free now j =
    (lease_owner j = None \<or> (case lease_expires_at j of None \<Rightarrow> False | Some e \<Rightarrow> e < now))"

definition lease_values :: "timestamp \<Rightarrow> string \<Rightarrow> timestamp \<Rightarrow> job \<Rightarrow> job" where
  "lease_values now owner expires_at j =
    j\<lparr>lease_owner := Some owner, lease_expires_at := Some expires_at, status := RUNNING,
      updated_at := now, lock_version := lock_version j + 1\<rparr>"

definition lease_where :: "visibility \<Rightarrow> timestamp \<Rightarrow> uuid \<Rightarrow> job \<Rightarrow> bool" where
  "lease_where vis now jid j = (job_row vis jid j \<and> leaseable (status j) \<and> lease_free now j)"

definition acquire_lease ::
    "visibility \<Rightarrow> timestamp \<Rightarrow> uuid \<Rightarrow> string \<Rightarrow> timestamp \<Rightarrow> job list \<Rightarrow> bool \<times> job list" where
  "acquire_lease vis now jid owner expires_at rows =
    (0 < sql_rowcount (lease_where vis now jid) rows,
     sql_update (lease_where vis now jid) (lease_values now owner expires_at) rows)"

definition acquire_lease_with_fencing ::
    "visibility \<Rightarrow> timestamp \<Rightarrow> uuid \<Rightarrow> string \<Rightarrow> timestamp \<Rightarrow> job list
      \<Rightarrow> (bool \<times> nat) \<times> job list" where
  "acquire_lease_with_fencing vis now jid owner expires_at rows =
    (case map (lease_values now owner expires_at) (filter (lease_where vis now jid) rows) of
       [] \<Rightarrow> ((False, 0), rows)
     | r # _ \<Rightarrow> ((True, lock_version r),
                  sql_update (lease_where vis now jid) (lease_values now owner expires_at) rows))"

definition owner_where :: "visibility \<Rightarrow> uuid \<Rightarrow> string \<Rightarrow> job \<Rightarrow> bool" where
  "owner_where vis jid owner j = (job_row vis jid j \<and> lease_owner j = Some owner)"

definition renew_values :: "timestamp \<Rightarrow> timestamp \<Rightarrow> job \<Rightarrow> job" where
  "renew_values now new_expires_at j = j\<lparr>lease_expires_at := Some new_expires_at, updated_at := now\<rparr>"

definition renew_lease ::
    "visibility \<Rightarrow> timestamp \<Rightarrow> uuid \<Rightarrow> string \<Rightarrow> timestamp \<Rightarrow> job list \<Rightarrow> bool \<times> job list" where
  "renew_lease vis now jid owner new_expires_at rows =
    (0 < sql_rowcount (owner_where vis jid owner) rows,
     sql_update (owner_where vis jid owner) (renew_values now new_expires_at) rows)"

definition release_values :: "timestamp \<Rightarrow> job \<Rightarrow> job" where
  "release_values now j = j\<lparr>lease_owner := None, lease_expires_at := None, updated_at := now\<rparr>"

definition release_lease :: "visibility \<Rightarrow> timestamp \<Rightarrow> uuid \<Rightarrow> string \<Rightarrow> job list \<Rightarrow> job list" where
  "release_lease vis now jid owner rows =
    sql_update (owner_where vis jid owner) (release_values now) rows"

subsection \<open>The reaper\<close>

text \<open>
  \<open>reap_and_redeliver\<close> is a \<open>SELECT\<close> followed, in the same transaction, by an \<open>UPDATE\<close> of the
  selected rows that are still running and one \<open>job.requeued\<close> event for each selected row. Other
  transactions may commit between the two statements, so they are two definitions; \<open>eids\<close> gives
  the identifiers of the new events.
\<close>

definition reap_select :: "visibility \<Rightarrow> timestamp \<Rightarrow> job list \<Rightarrow> uuid list" where
  "reap_select vis clock rows =
    map job_id (filter (\<lambda>j. vis (department_id j) \<and> status j = RUNNING
      \<and> (case lease_expires_at j of None \<Rightarrow> False | Some e \<Rightarrow> e < clock)) rows)"

definition reap_values :: "timestamp \<Rightarrow> job \<Rightarrow> job" where
  "reap_values now j =
    j\<lparr>status := QUEUED, lease_owner := None, lease_expires_at := None, updated_at := now,
      lock_version := lock_version j + 1\<rparr>"

definition reap_where :: "visibility \<Rightarrow> uuid list \<Rightarrow> job \<Rightarrow> bool" where
  "reap_where vis ids j = (vis (department_id j) \<and> job_id j \<in> set ids \<and> status j = RUNNING)"

definition reap_write ::
    "visibility \<Rightarrow> timestamp \<Rightarrow> (uuid \<Rightarrow> uuid) \<Rightarrow> uuid list \<Rightarrow> job_db \<Rightarrow> job_db" where
  "reap_write vis now eids ids db =
    (if ids = [] then db
     else db\<lparr>db_jobs := sql_update (reap_where vis ids) (reap_values now) (db_jobs db),
             db_outbox := db_outbox db
               @ map (\<lambda>i. mk_event (eids i) now i ''job.requeued'' None) ids\<rparr>)"

definition reap_and_redeliver ::
    "visibility \<Rightarrow> timestamp \<Rightarrow> timestamp \<Rightarrow> (uuid \<Rightarrow> uuid) \<Rightarrow> job_db \<Rightarrow> uuid list \<times> job_db" where
  "reap_and_redeliver vis clock now eids db =
    (let ids = reap_select vis clock (db_jobs db) in (ids, reap_write vis now eids ids db))"

subsection \<open>The remaining statements\<close>

definition attempt_values :: "timestamp \<Rightarrow> job \<Rightarrow> job" where
  "attempt_values now j = j\<lparr>attempt := attempt j + 1, updated_at := now\<rparr>"

definition increment_attempt :: "visibility \<Rightarrow> timestamp \<Rightarrow> uuid \<Rightarrow> job list \<Rightarrow> job list" where
  "increment_attempt vis now jid rows = sql_update (job_row vis jid) (attempt_values now) rows"

definition run_after_values :: "timestamp \<Rightarrow> timestamp \<Rightarrow> job \<Rightarrow> job" where
  "run_after_values now t j = j\<lparr>run_after := Some t, status := RETRY_WAIT, updated_at := now\<rparr>"

definition set_run_after :: "visibility \<Rightarrow> timestamp \<Rightarrow> uuid \<Rightarrow> timestamp \<Rightarrow> job list \<Rightarrow> job list" where
  "set_run_after vis now jid t rows = sql_update (job_row vis jid) (run_after_values now t) rows"

section \<open>Facts\<close>

subsection \<open>Every statement keeps the primary key\<close>

interpretation status_upd: versioned_update job_id "status_values now s res err" lock_version
  for now s res err
  by unfold_locales (simp_all add: status_values_def)

interpretation lease_upd: versioned_update job_id "lease_values now owner expires_at" lock_version
  for now owner expires_at
  by unfold_locales (simp_all add: lease_values_def)

interpretation reap_upd: versioned_update job_id "reap_values now" lock_version
  for now
  by unfold_locales (simp_all add: reap_values_def)

interpretation renew_upd: row_update job_id "renew_values now e"
  for now e
  by unfold_locales (simp add: renew_values_def)

interpretation release_upd: row_update job_id "release_values now"
  for now
  by unfold_locales (simp add: release_values_def)

interpretation attempt_upd: row_update job_id "attempt_values now"
  for now
  by unfold_locales (simp add: attempt_values_def)

interpretation run_after_upd: row_update job_id "run_after_values now t"
  for now t
  by unfold_locales (simp add: run_after_values_def)

text \<open>\<open>job_at rows k\<close> is the row with primary key \<open>k\<close>, visible or not.\<close>

definition job_at :: "job list \<Rightarrow> uuid \<Rightarrow> job option" where
  "job_at rows k = sql_find (\<lambda>j. job_id j = k) rows"

named_theorems job_at_simps \<open>the row with a given key after each statement\<close>

lemma job_at_update_status [job_at_simps]:
  "job_at (snd (update_status vis now jid s res err e rows)) k =
    map_option (\<lambda>j. if status_where vis jid s e j then status_values now s res err j else j)
      (job_at rows k)"
  by (simp add: job_at_def update_status_def status_upd.find_update)

lemma job_at_acquire_lease [job_at_simps]:
  "job_at (snd (acquire_lease vis now jid owner e rows)) k =
    map_option (\<lambda>j. if lease_where vis now jid j then lease_values now owner e j else j)
      (job_at rows k)"
  by (simp add: job_at_def acquire_lease_def lease_upd.find_update)

lemma acquire_fencing_rows:
  "snd (acquire_lease_with_fencing vis now jid owner e rows) =
    sql_update (lease_where vis now jid) (lease_values now owner e) rows"
proof (cases "filter (lease_where vis now jid) rows")
  case Nil
  then have "sql_rowcount (lease_where vis now jid) rows = 0"
    by (simp add: sql_rowcount_def)
  then show ?thesis
    using Nil by (simp add: acquire_lease_with_fencing_def sql_update_id)
next
  case (Cons r rs)
  then show ?thesis
    by (simp add: acquire_lease_with_fencing_def)
qed

lemma job_at_acquire_fencing [job_at_simps]:
  "job_at (snd (acquire_lease_with_fencing vis now jid owner e rows)) k =
    map_option (\<lambda>j. if lease_where vis now jid j then lease_values now owner e j else j)
      (job_at rows k)"
  by (simp add: job_at_def acquire_fencing_rows lease_upd.find_update)

lemma job_at_renew [job_at_simps]:
  "job_at (snd (renew_lease vis now jid owner e rows)) k =
    map_option (\<lambda>j. if owner_where vis jid owner j then renew_values now e j else j) (job_at rows k)"
  by (simp add: job_at_def renew_lease_def renew_upd.find_update)

lemma job_at_release [job_at_simps]:
  "job_at (release_lease vis now jid owner rows) k =
    map_option (\<lambda>j. if owner_where vis jid owner j then release_values now j else j) (job_at rows k)"
  by (simp add: job_at_def release_lease_def release_upd.find_update)

lemma job_at_reap [job_at_simps]:
  "job_at (db_jobs (reap_write vis now eids ids db)) k =
    map_option (\<lambda>j. if reap_where vis ids j then reap_values now j else j) (job_at (db_jobs db) k)"
proof (cases "ids = []")
  case True
  then show ?thesis
    by (cases "job_at (db_jobs db) k") (simp_all add: reap_write_def reap_where_def)
next
  case False
  then show ?thesis
    by (simp add: job_at_def reap_write_def reap_upd.find_update)
qed

lemma job_at_key: "job_at rows k = Some j \<Longrightarrow> job_id j = k"
  by (auto simp: job_at_def dest: sql_find_SomeD)

lemma job_at_in: "job_at rows k = Some j \<Longrightarrow> j \<in> set rows"
  by (auto simp: job_at_def dest: sql_find_SomeD)

lemma job_at_iff:
  "unique_rows job_id rows \<Longrightarrow> job_at rows k = Some j \<longleftrightarrow> j \<in> set rows \<and> job_id j = k"
  unfolding job_at_def by (rule sql_find_Some_iff)

lemma job_at_insert [job_at_simps]:
  "insert_job j rows = Some rows' \<Longrightarrow>
    job_at rows' k = (if job_id j = k then Some j else job_at rows k)"
proof (cases "sql_find (\<lambda>j. job_id j = k) rows")
  case None
  assume "insert_job j rows = Some rows'"
  then show ?thesis
    using None
    by (auto simp: insert_job_def job_at_def sql_find_append split: if_splits) (simp_all add: sql_find_def)
next
  case (Some j')
  assume "insert_job j rows = Some rows'"
  then show ?thesis
    using Some sql_find_SomeD [OF Some]
    by (auto simp: insert_job_def job_at_def sql_find_append split: if_splits)
qed

lemma unique_insert: "insert_job j rows = Some rows' \<Longrightarrow> unique_rows job_id rows \<Longrightarrow> unique_rows job_id rows'"
  by (auto simp: insert_job_def unique_rows_snoc split: if_splits)

lemma get_job_at: "unique_rows job_id rows \<Longrightarrow>
    get_job vis jid rows = (case job_at rows jid of None \<Rightarrow> None
      | Some j \<Rightarrow> if vis (department_id j) then Some j else None)"
  unfolding get_job_def job_at_def
  by (subst find_unique [where key = job_id and k = jid])
    (auto simp: job_row_def dest!: sql_find_SomeD split: option.split)

lemma acquire_fencing_result:
  assumes "unique_rows job_id rows"
  shows "fst (acquire_lease_with_fencing vis now jid owner e rows) =
    (case job_at rows jid of None \<Rightarrow> (False, 0)
     | Some j \<Rightarrow> if lease_where vis now jid j then (True, lock_version j + 1) else (False, 0))"
  unfolding acquire_lease_with_fencing_def job_at_def
  by (subst filter_unique [OF assms, where k = jid])
    (auto simp: lease_where_def job_row_def lease_values_def split: option.split)

lemma update_status_result:
  assumes "unique_rows job_id rows"
  shows "fst (update_status vis now jid s res err e rows) \<longleftrightarrow>
    (case job_at rows jid of None \<Rightarrow> False | Some j \<Rightarrow> status_where vis jid s e j)"
  unfolding update_status_def job_at_def
  by (subst rowcount_unique [OF assms, where k = jid])
    (auto simp: status_where_def job_row_def split: option.split)

end
