(* ===== verification/Pagination.thy ===== *)
theory Pagination imports Prelude "HOL-Library.Product_Lexorder" begin

text \<open>
  Keyset pagination as the list endpoints of the services do it: a cursor holding the sort value of
  the last row of the page before, one row more than the limit to learn whether another page
  follows. Jobs are listed newest first with the creation time as cursor; recipes, runs, parameters
  and departments oldest first with a cursor of several columns. \<open>all_pages\<close> is the client that
  follows the cursors; it is not code of the repository but the reading of what a list endpoint
  promises. The locale \<open>keyset\<close> holds what both orders share.
\<close>

section \<open>Pages\<close>

text \<open>
  A cursor as it arrives: undecodable text, or the key that the base64 text of a page before holds.
\<close>

type_synonym 'k cursor_arg = "(string + 'k) option"

definition beyond :: "('k \<Rightarrow> 'k \<Rightarrow> bool) \<Rightarrow> ('r \<Rightarrow> 'k) \<Rightarrow> 'k option \<Rightarrow> 'r \<Rightarrow> bool" where
  "beyond lt key cursor r = (case cursor of None \<Rightarrow> True | Some c \<Rightarrow> lt c (key r))"

definition below :: "('r \<Rightarrow> int) \<Rightarrow> int option \<Rightarrow> 'r \<Rightarrow> bool" where
  "below key cursor r = (case cursor of None \<Rightarrow> True | Some c \<Rightarrow> key r < c)"

definition newest_first :: "('r \<Rightarrow> int) \<Rightarrow> 'r list \<Rightarrow> 'r list" where
  "newest_first key rows = sort_key (\<lambda>r. - key r) rows"

definition keyset_page ::
    "('r \<Rightarrow> int) \<Rightarrow> nat \<Rightarrow> int option \<Rightarrow> 'r list \<Rightarrow> 'r list \<times> int option \<times> bool" where
  "keyset_page key limit cursor rows =
    (let fetched = take (limit + 1) (newest_first key (filter (below key cursor) rows));
         has_more = limit < length fetched;
         page = take limit fetched
     in (page, if has_more \<and> page \<noteq> [] then Some (key (last page)) else None, has_more))"

text \<open>
  The ascending form. The row that the cursor names is \<open>rows[limit - 1]\<close>, which for a limit of 0 is
  the last row.
\<close>

definition keyset_asc ::
    "('r \<Rightarrow> 'k::linorder) \<Rightarrow> nat \<Rightarrow> 'k option \<Rightarrow> 'r list \<Rightarrow> 'r list \<times> 'k option" where
  "keyset_asc key limit cursor rows =
    (let fetched = take (limit + 1) (sort_key key (filter (beyond (<) key cursor) rows))
     in (take limit fetched,
         if limit < length fetched
         then Some (key (if limit = 0 then last fetched else fetched ! (limit - 1)))
         else None))"

fun all_pages :: "nat \<Rightarrow> ('k option \<Rightarrow> 'r list \<times> 'k option \<times> bool) \<Rightarrow> 'k option \<Rightarrow> 'r list" where
  "all_pages 0 fetch cursor = []"
| "all_pages (Suc n) fetch cursor =
    (case fetch cursor of (page, next_cursor, has_more) \<Rightarrow>
       (case next_cursor of None \<Rightarrow> page | Some c \<Rightarrow> page @ all_pages n fetch (Some c)))"

lemma all_pages_map:
  assumes "\<And>c. fetch' c = (case fetch c of (page, next_cursor, hm) \<Rightarrow> (map g page, next_cursor, hm))"
  shows "all_pages n fetch' cursor = map g (all_pages n fetch cursor)"
  by (induction n arbitrary: cursor) (simp_all add: assms split: prod.splits option.splits)

section \<open>What both orders share\<close>

locale keyset =
  fixes key :: "'r \<Rightarrow> 'k"
    and lt :: "'k \<Rightarrow> 'k \<Rightarrow> bool"
    and arrange :: "'r list \<Rightarrow> 'r list"
  assumes arrange_filter: "arrange (filter p rows) = filter p (arrange rows)"
    and length_arrange: "length (arrange rows) = length rows"
    and arranged: "distinct (map key rows) \<Longrightarrow> sorted_wrt (\<lambda>a b. lt (key a) (key b)) (arrange rows)"
    and lt_irrefl: "\<not> lt k k"
    and lt_trans: "lt a b \<Longrightarrow> lt b c \<Longrightarrow> lt a c"
begin

lemma filter_beyond_last:
  assumes "sorted_wrt (\<lambda>a b. lt (key a) (key b)) s" and "take n s \<noteq> []"
  shows "filter (beyond lt key (Some (key (last (take n s))))) s = drop n s"
proof -
  let ?t = "take n s" and ?l = "last (take n s)"
  have split: "s = butlast ?t @ ?l # drop n s"
    by (metis append_Cons append_butlast_last_id append_eq_append_conv2 append_take_drop_id
        assms(2) append.assoc append_Nil)
  have sw: "sorted_wrt (\<lambda>a b. lt (key a) (key b)) (butlast ?t @ ?l # drop n s)"
    using assms(1) split by simp
  have "\<not> lt (key ?l) (key r)" if "r \<in> set (butlast ?t)" for r
  proof
    assume "lt (key ?l) (key r)"
    moreover have "lt (key r) (key ?l)"
      using sw that by (simp add: sorted_wrt_append)
    ultimately show False
      using lt_trans lt_irrefl by blast
  qed
  moreover have "lt (key ?l) (key r)" if "r \<in> set (drop n s)" for r
    using sw that by (simp add: sorted_wrt_append)
  ultimately have "filter (beyond lt key (Some (key ?l))) (butlast ?t @ ?l # drop n s) = drop n s"
    by (auto simp: beyond_def filter_empty_conv lt_irrefl intro!: filter_True)
  then show ?thesis
    using split by simp
qed

lemma pages_complete:
  assumes dist: "distinct (map key rows)" and pos: "0 < limit" and len: "length rows \<le> n"
    and fetch: "\<And>c. fetch c = (let s = filter (beyond lt key c) (arrange rows) in
      (take limit s, if limit < length s then Some (key (last (take limit s))) else None, limit < length s))"
  shows "all_pages (Suc n) fetch cursor = filter (beyond lt key cursor) (arrange rows)"
proof -
  let ?s = "arrange rows"
  have "all_pages (Suc n) fetch cursor = filter (beyond lt key cursor) ?s"
    if "length (filter (beyond lt key cursor) ?s) \<le> n" for n cursor
    using that
  proof (induction n arbitrary: cursor)
    case 0
    then show ?case by (simp add: fetch)
  next
    case (Suc n)
    let ?f = "filter (beyond lt key cursor) ?s"
    show ?case
    proof (cases "limit < length ?f")
      case False
      then show ?thesis by (simp add: fetch Let_def)
    next
      case True
      let ?c = "Some (key (last (take limit ?f)))"
      have ne: "take limit ?f \<noteq> []"
        using True pos by auto
      have sub: "beyond lt key cursor r" if "beyond lt key ?c r" for r
      proof -
        have "last (take limit ?f) \<in> set ?f"
          using ne by (meson in_set_takeD last_in_set)
        then show ?thesis
          using that lt_trans by (auto simp: beyond_def split: option.splits)
      qed
      have "filter (beyond lt key ?c) ?s = filter (beyond lt key ?c) ?f"
        unfolding filter_filter by (rule filter_cong [OF refl]) (use sub in blast)
      also have "\<dots> = drop limit ?f"
        using filter_beyond_last [OF sorted_wrt_filter [OF arranged [OF dist]] ne] .
      finally have rest: "filter (beyond lt key ?c) ?s = drop limit ?f" .
      have "all_pages (Suc n) fetch ?c = drop limit ?f"
        using Suc.IH [of ?c] rest Suc.prems pos True by simp
      then have "take limit ?f @ all_pages (Suc n) fetch ?c = ?f"
        by simp
      then show ?thesis
        using True ne by (subst all_pages.simps(2)) (simp add: fetch Let_def del: all_pages.simps)
    qed
  qed
  moreover have "length (filter (beyond lt key cursor) ?s) \<le> n"
    using len length_filter_le [of "beyond lt key cursor" ?s] by (simp add: length_arrange)
  ultimately show ?thesis by blast
qed

end

section \<open>Newest first\<close>

lemma newest_first_filter: "newest_first key (filter p rows) = filter p (newest_first key rows)"
  by (simp add: newest_first_def filter_sort)

lemma set_newest_first [simp]: "set (newest_first key rows) = set rows"
  by (simp add: newest_first_def)

lemma length_newest_first [simp]: "length (newest_first key rows) = length rows"
  by (simp add: newest_first_def)

lemma map_insort_key: "map f (insort_key (\<lambda>x. g (f x)) x xs) = insort_key g (f x) (map f xs)"
  by (induction xs) auto

lemma map_newest_first: "map f (newest_first (\<lambda>x. key (f x)) rows) = newest_first key (map f rows)"
  unfolding newest_first_def
  by (induction rows) (simp_all add: map_insort_key [where g = "\<lambda>r. - key r"])

lemma strictly_decreasing:
  "sorted_wrt (\<lambda>a b. - key a \<le> - key b) xs \<Longrightarrow> distinct (map key xs) \<Longrightarrow>
    sorted_wrt (\<lambda>a b. key b < key a) xs" for key :: "'r \<Rightarrow> int"
  by (induction xs) (auto simp: order_less_le image_iff)

lemma newest_first_decreasing:
  assumes "distinct (map key rows)"
  shows "sorted_wrt (\<lambda>a b. key b < key a) (newest_first key rows)"
proof (rule strictly_decreasing)
  show "sorted_wrt (\<lambda>a b. - key a \<le> - key b) (newest_first key rows)"
    using sorted_sort_key [of "\<lambda>r. - key r" rows]
    by (simp add: newest_first_def sorted_map)
  show "distinct (map key (newest_first key rows))"
    using assms by (simp add: distinct_map newest_first_def)
qed

lemma below_beyond: "below key = beyond (\<lambda>c k. k < c) key"
  by (simp add: fun_eq_iff below_def beyond_def)

interpretation newest: keyset key "\<lambda>c k. k < c" "newest_first key" for key :: "'r \<Rightarrow> int"
  by unfold_locales (auto simp: newest_first_filter newest_first_decreasing)

lemma keyset_page_alt:
  "keyset_page key limit cursor rows =
    (let s = filter (below key cursor) (newest_first key rows) in
     (take limit s,
      if limit < length s \<and> take limit s \<noteq> [] then Some (key (last (take limit s))) else None,
      limit < length s))"
  unfolding keyset_page_def newest_first_filter Let_def by (auto simp: min_def)

lemma all_pages_complete:
  assumes "distinct (map key rows)" and "0 < limit" and "length rows \<le> n"
  shows "all_pages (Suc n) (\<lambda>c. keyset_page key limit c rows) cursor =
    filter (below key cursor) (newest_first key rows)"
  unfolding below_beyond
  by (rule newest.pages_complete [OF assms]) (use assms(2) in \<open>auto simp: keyset_page_alt Let_def below_beyond\<close>)

section \<open>Oldest first\<close>

lemma strictly_increasing:
  "sorted (map key xs) \<Longrightarrow> distinct (map key xs) \<Longrightarrow> sorted_wrt (\<lambda>a b. key a < key b) xs"
  for key :: "'r \<Rightarrow> 'k::linorder"
  by (induction xs) (auto simp: order_less_le image_iff)

lemma distinct_map_sort_key: "distinct (map key (sort_key key rows)) = distinct (map key rows)"
  by (simp add: distinct_map)

interpretation oldest: keyset key "(<)" "sort_key key" for key :: "'r \<Rightarrow> 'k::linorder"
  by unfold_locales (auto simp: filter_sort distinct_map_sort_key intro!: strictly_increasing)

lemma keyset_asc_alt:
  assumes "0 < limit"
  shows "keyset_asc key limit cursor rows =
    (let s = filter (beyond (<) key cursor) (sort_key key rows) in
     (take limit s, if limit < length s then Some (key (last (take limit s))) else None))"
proof -
  let ?s = "sort_key key (filter (beyond (<) key cursor) rows)"
  have "?s ! (limit - 1) = last (take limit ?s)" if "limit < length ?s"
  proof -
    have "take limit ?s \<noteq> []"
      using that assms by (metis length_0_conv less_nat_zero_code neq0_conv take_eq_Nil)
    then show ?thesis
      using that by (subst last_conv_nth) (simp_all add: min_def)
  qed
  then show ?thesis
    using assms unfolding keyset_asc_def filter_sort Let_def by (auto simp: min_def)
qed

lemma asc_pages_complete:
  assumes "distinct (map key rows)" and "0 < limit" and "length rows \<le> n"
    and "\<And>c. fetch c = (case keyset_asc key limit c rows of (p, next_cursor) \<Rightarrow> (p, next_cursor, next_cursor \<noteq> None))"
  shows "all_pages (Suc n) fetch None = sort_key key rows"
proof -
  have "all_pages (Suc n) fetch None = filter (beyond (<) key None) (sort_key key rows)"
    by (rule oldest.pages_complete [OF assms(1-3)]) (simp add: assms(4) keyset_asc_alt [OF assms(2)] Let_def)
  then show ?thesis
    by (simp add: beyond_def)
qed

end
