(* ===== verification/JobService.thy ===== *)
theory JobService imports JobStore Pagination begin

text \<open>
  \<open>JobService\<close> (\<open>packages/jobs/service.py\<close>): accepting a job under an idempotency key, asking
  for its cancellation, reading one job and listing jobs. Each operation is one transaction. The
  two operations that read a row and then write on the strength of what they read are split into
  the read and the write, because other transactions may commit in between; the composition is
  the operation run alone.
\<close>

section \<open>Outcomes\<close>

text \<open>What a service call may raise: an \<open>AppError\<close>, or an exception of the database layer.\<close>

datatype service_error = App app_error | MultipleResults | IntegrityError

abbreviation not_found_error :: "uuid \<Rightarrow> app_error" where
  "not_found_error jid \<equiv> mk_error ''not_found'' False [(''job_id'', JStr (uuid_str jid))]"

definition mk_ref :: "uuid \<Rightarrow> job_status \<Rightarrow> string \<Rightarrow> job_ref" where
  "mk_ref jid s k =
    \<lparr>ref_job_id = jid, ref_status = s, ref_kind = k, ref_stage = JStr [], ref_progress = 0,
     ref_retryable = False\<rparr>"

section \<open>\<open>accept\<close>\<close>

definition new_job ::
    "timestamp \<Rightarrow> uuid \<Rightarrow> uuid \<Rightarrow> string \<Rightarrow> json \<Rightarrow> string \<Rightarrow> uuid \<Rightarrow> job" where
  "new_job now dept actor k p key jid =
    \<lparr>job_id = jid, department_id = dept, kind = k, status = ACCEPTED, payload = Some p,
     idempotency_key = key, attempt = 0, max_attempts = 3, run_after = None, lease_owner = None,
     lease_expires_at = None, result = None, last_error = None, created_by = Some actor,
     created_at = now, updated_at = now, lock_version = 0\<rparr>"

text \<open>The check of the kind and the query of the idempotency key: \<open>Inr None\<close> goes on to insert.\<close>

definition accept_read ::
    "visibility \<Rightarrow> uuid \<Rightarrow> string \<Rightarrow> string \<Rightarrow> job_db \<Rightarrow> service_error + job_ref option" where
  "accept_read vis dept k key db =
    (if k = [] \<or> is_blank k then
       Inl (App (mk_error ''validation_failed'' False [(''kind'', JStr ''required'')]))
     else case get_by_idempotency_dept vis dept key (db_jobs db) of
       MultipleResultsFound \<Rightarrow> Inl MultipleResults
     | OneRow j \<Rightarrow> Inr (Some (mk_ref (job_id j) (status j) (kind j)))
     | NoRow \<Rightarrow> Inr None)"

definition accept_write ::
    "timestamp \<Rightarrow> uuid \<Rightarrow> uuid \<Rightarrow> string \<Rightarrow> json \<Rightarrow> string \<Rightarrow> uuid \<Rightarrow> uuid \<Rightarrow> job_db
      \<Rightarrow> (service_error + job_ref) \<times> job_db" where
  "accept_write now dept actor k p key jid eid db =
    (case insert_job (new_job now dept actor k p key jid) (db_jobs db) of
       None \<Rightarrow> (Inl IntegrityError, db)
     | Some rows \<Rightarrow>
         (Inr (mk_ref jid ACCEPTED k),
          enqueue (mk_event eid now jid ''job.accepted''
            (Some (JObj [(''job_id'', JStr (uuid_str jid)), (''kind'', JStr k)])))
            (db\<lparr>db_jobs := rows\<rparr>)))"

definition accept ::
    "visibility \<Rightarrow> timestamp \<Rightarrow> uuid \<Rightarrow> uuid \<Rightarrow> string \<Rightarrow> json \<Rightarrow> string \<Rightarrow> uuid \<Rightarrow> uuid \<Rightarrow> job_db
      \<Rightarrow> (service_error + job_ref) \<times> job_db" where
  "accept vis now dept actor k p key jid eid db =
    (case accept_read vis dept k key db of
       Inl e \<Rightarrow> (Inl e, db)
     | Inr (Some r) \<Rightarrow> (Inr r, db)
     | Inr None \<Rightarrow> accept_write now dept actor k p key jid eid db)"

section \<open>\<open>request_cancel\<close>\<close>

definition cancel_read :: "visibility \<Rightarrow> uuid \<Rightarrow> job_db \<Rightarrow> app_error + job" where
  "cancel_read vis jid db =
    (case get_job vis jid (db_jobs db) of
       None \<Rightarrow> Inl (not_found_error jid)
     | Some j \<Rightarrow>
         if terminal (status j)
         then Inl (mk_error ''conflict'' False [(''status'', JStr (status_value (status j)))])
         else Inr j)"

definition cancel_values :: "timestamp \<Rightarrow> job \<Rightarrow> job" where
  "cancel_values now j =
    j\<lparr>status := CANCEL_REQUESTED, updated_at := now, lock_version := lock_version j + 1\<rparr>"

definition cancel_where :: "visibility \<Rightarrow> uuid \<Rightarrow> nat \<Rightarrow> job \<Rightarrow> bool" where
  "cancel_where vis jid v j = (job_row vis jid j \<and> lock_version j = v)"

definition cancel_write ::
    "visibility \<Rightarrow> timestamp \<Rightarrow> uuid \<Rightarrow> uuid \<Rightarrow> uuid \<Rightarrow> job \<Rightarrow> job_db
      \<Rightarrow> (app_error + job_ref) \<times> job_db" where
  "cancel_write vis now jid actor eid read db =
    (if sql_rowcount (cancel_where vis jid (lock_version read)) (db_jobs db) = 0
     then (Inl (mk_error ''conflict'' True [(''lock_version'', JInt (int (lock_version read)))]), db)
     else (Inr (mk_ref jid CANCEL_REQUESTED (kind read)),
           enqueue (mk_event eid now jid ''job.cancel_requested''
             (Some (JObj [(''job_id'', JStr (uuid_str jid)), (''actor_id'', JStr (uuid_str actor))])))
             (db\<lparr>db_jobs := sql_update (cancel_where vis jid (lock_version read))
                             (cancel_values now) (db_jobs db)\<rparr>)))"

definition request_cancel ::
    "visibility \<Rightarrow> timestamp \<Rightarrow> uuid \<Rightarrow> uuid \<Rightarrow> uuid \<Rightarrow> job_db \<Rightarrow> (app_error + job_ref) \<times> job_db" where
  "request_cancel vis now jid actor eid db =
    (case cancel_read vis jid db of
       Inl e \<Rightarrow> (Inl e, db)
     | Inr j \<Rightarrow> cancel_write vis now jid actor eid j db)"

section \<open>Reading jobs\<close>

definition job_retryable :: "job \<Rightarrow> bool" where
  "job_retryable j = (attempt j < max_attempts j \<and> \<not> terminal (status j))"

definition job_stage :: "job \<Rightarrow> json" where
  "job_stage j = (case last_error j of
     Some (JObj d) \<Rightarrow> (case dict_get d ''stage'' of None \<Rightarrow> JStr [] | Some v \<Rightarrow> v)
   | _ \<Rightarrow> JStr [])"

definition job_progress :: "job \<Rightarrow> nat" where
  "job_progress j = (if terminal (status j) then 100 else if status j = RUNNING then 50 else 0)"

definition get_ref :: "visibility \<Rightarrow> uuid \<Rightarrow> job_db \<Rightarrow> app_error + job_ref" where
  "get_ref vis jid db =
    (case get_job vis jid (db_jobs db) of
       None \<Rightarrow> Inl (not_found_error jid)
     | Some j \<Rightarrow> Inr \<lparr>ref_job_id = job_id j, ref_status = status j, ref_kind = kind j,
         ref_stage = job_stage j, ref_progress = job_progress j, ref_retryable = job_retryable j\<rparr>)"

definition get_raw :: "visibility \<Rightarrow> uuid \<Rightarrow> job_db \<Rightarrow> app_error + job" where
  "get_raw vis jid db =
    (case get_job vis jid (db_jobs db) of None \<Rightarrow> Inl (not_found_error jid) | Some j \<Rightarrow> Inr j)"

text \<open>
  \<open>list\<close>. The outer joins give each job one row per flow run that refers to it, and one row with
  NULL names otherwise: \<open>names\<close> is what the joined tables hold for a job. The cursor arrives
  parsed: \<open>Inl\<close> is the text that \<open>datetime.fromisoformat\<close> rejects, \<open>Inr\<close> a time.
\<close>

type_synonym name_rows = "uuid \<Rightarrow> (string option \<times> string option) list"

definition joined :: "name_rows \<Rightarrow> job \<Rightarrow> (job \<times> string option \<times> string option) list" where
  "joined names j = (case names (job_id j) of [] \<Rightarrow> [(j, None, None)] | ns \<Rightarrow> map (\<lambda>n. (j, n)) ns)"

definition list_selected ::
    "visibility \<Rightarrow> string option \<Rightarrow> string option \<Rightarrow> job_db \<Rightarrow> job list" where
  "list_selected vis st k db =
    filter (\<lambda>j. vis (department_id j)
      \<and> (case st of None \<Rightarrow> True | Some s \<Rightarrow> status_value (status j) = s)
      \<and> (case k of None \<Rightarrow> True | Some k \<Rightarrow> kind j = k)) (db_jobs db)"

definition list_item ::
    "job \<times> string option \<times> string option \<Rightarrow> job \<times> json \<times> nat \<times> bool \<times> string \<times> string" where
  "list_item r = (case r of (j, flow_name, dept_name) \<Rightarrow>
    (j, job_stage j, job_progress j, job_retryable j,
     case flow_name of None \<Rightarrow> [] | Some n \<Rightarrow> n, case dept_name of None \<Rightarrow> [] | Some n \<Rightarrow> n))"

definition list_jobs ::
    "visibility \<Rightarrow> name_rows \<Rightarrow> string option \<Rightarrow> string option \<Rightarrow> (string + timestamp) option \<Rightarrow> nat
      \<Rightarrow> job_db
      \<Rightarrow> app_error + ((job \<times> json \<times> nat \<times> bool \<times> string \<times> string) list \<times> timestamp option \<times> bool)"
where
  "list_jobs vis names st k cursor limit db =
    (case cursor of
       Some (Inl text) \<Rightarrow> Inl (mk_error ''invalid_cursor'' False [(''cursor'', JStr text)])
     | _ \<Rightarrow>
         (case keyset_page (\<lambda>r. created_at (fst r)) limit
                 (case cursor of Some (Inr c) \<Rightarrow> Some c | _ \<Rightarrow> None)
                 (concat (map (joined names) (list_selected vis st k db))) of
            (page, next_cursor, has_more) \<Rightarrow> Inr (map list_item page, next_cursor, has_more)))"

section \<open>Facts\<close>

interpretation cancel_upd: versioned_update job_id "cancel_values now" lock_version
  for now
  by unfold_locales (simp_all add: cancel_values_def)

lemma cancel_rowcount:
  "unique_rows job_id rows \<Longrightarrow>
    sql_rowcount (cancel_where vis jid v) rows =
      (case job_at rows jid of None \<Rightarrow> 0 | Some j \<Rightarrow> if cancel_where vis jid v j then 1 else 0)"
  unfolding job_at_def by (rule rowcount_unique) (auto simp: cancel_where_def job_row_def)

lemma cancel_write_jobs:
  "db_jobs (snd (cancel_write vis now jid actor eid j db)) =
    sql_update (cancel_where vis jid (lock_version j)) (cancel_values now) (db_jobs db)"
  by (simp add: cancel_write_def enqueue_def sql_update_id)

lemma job_at_cancel_write [job_at_simps]:
  "job_at (db_jobs (snd (cancel_write vis now jid actor eid r db))) k =
    map_option (\<lambda>j. if cancel_where vis jid (lock_version r) j then cancel_values now j else j)
      (job_at (db_jobs db) k)"
  by (simp add: job_at_def cancel_write_jobs cancel_upd.find_update)

lemma job_at_accept_write [job_at_simps]:
  "fst (accept_write now dept actor kd p key jid eid db) = Inr r \<Longrightarrow>
    job_at (db_jobs (snd (accept_write now dept actor kd p key jid eid db))) k =
      (if k = jid then Some (new_job now dept actor kd p key jid) else job_at (db_jobs db) k)"
  by (auto simp: accept_write_def enqueue_def job_at_insert new_job_def split: option.splits)

text \<open>Jobs of one department with one idempotency key: at most one when the keys are unique.\<close>

definition idem_key :: "job \<Rightarrow> uuid \<times> string" where
  "idem_key j = (department_id j, idempotency_key j)"

lemma idem_key_eq [simp]:
  "idem_key j = (d, k) \<longleftrightarrow> department_id j = d \<and> idempotency_key j = k"
  by (auto simp: idem_key_def)

lemma get_by_idempotency_unique:
  assumes "unique_rows idem_key rows" and "vis dept"
  shows "get_by_idempotency_dept vis dept key rows =
    (case sql_find (\<lambda>j. idem_key j = (dept, key)) rows of None \<Rightarrow> NoRow | Some j \<Rightarrow> OneRow j)"
  unfolding get_by_idempotency_dept_def
  by (subst filter_unique [OF assms(1), where k = "(dept, key)"])
    (use assms(2) in \<open>auto simp: scalar_one_or_none_def dest!: sql_find_SomeD split: option.split\<close>)

lemma accept_db:
  "snd (accept vis now dept actor k p key jid eid db) = db \<or>
   (accept_read vis dept k key db = Inr None \<and>
    insert_job (new_job now dept actor k p key jid) (db_jobs db) =
      Some (db_jobs (snd (accept vis now dept actor k p key jid eid db))))"
  by (auto simp: accept_def accept_write_def enqueue_def split: sum.split option.split)

lemma accept_read_None:
  "accept_read vis dept k key db = Inr None \<Longrightarrow> vis dept \<Longrightarrow>
    \<forall>j\<in>set (db_jobs db). idem_key j \<noteq> (dept, key)"
  by (auto simp: accept_read_def get_by_idempotency_dept_def scalar_one_or_none_def
      filter_empty_conv split: if_splits one_or_none.splits list.splits)

lemma accept_existing:
  assumes "unique_rows idem_key (db_jobs db)" and "vis dept" and "j \<in> set (db_jobs db)"
    and "idem_key j = (dept, key)" and "\<not> is_blank k"
  shows "accept vis now dept actor k p key jid eid db =
    (Inr (mk_ref (job_id j) (status j) (kind j)), db)"
proof -
  have "sql_find (\<lambda>j. idem_key j = (dept, key)) (db_jobs db) = Some j"
    using assms sql_find_Some_iff [of idem_key "db_jobs db" "(dept, key)" j] by simp
  then show ?thesis
    using assms
    by (auto simp: accept_def accept_read_def get_by_idempotency_unique is_blank_def
        py_strip_def strip_by_def)
qed

lemma joined_single:
  "\<forall>j. length (names j) \<le> 1 \<Longrightarrow> \<exists>n. joined names j = [(j, n)]"
  by (cases "names (job_id j)"; cases "tl (names (job_id j))")
    (auto simp: joined_def, metis One_nat_def le_zero_eq length_Cons not_less_eq_eq list.size(3) nat.distinct(1))

lemma concat_joined:
  assumes "\<forall>j. length (names j) \<le> 1"
  shows "map fst (concat (map (joined names) js)) = js"
proof (induction js)
  case (Cons j js)
  then show ?case
    using joined_single [OF assms, of j] by auto
qed simp

section \<open>Properties\<close>



text \<open>
  Two concurrent submissions. The check of the idempotency key and the insert are separate
  statements and nothing in the schema forbids a second row (the documented
  \<open>UNIQUE(department_id, idempotency_key)\<close> is gone): two calls that both read before either
  writes create two jobs for one key, and from then on \<open>accept\<close> for this key raises
  \<open>MultipleResultsFound\<close>.
\<close>

theorem accept_race_duplicates:
  assumes "vis dept" and "\<not> is_blank k" and "jid \<noteq> jid'"
    and "accept_read vis dept k key db = Inr None" and "{jid, jid'} \<inter> job_id ` set (db_jobs db) = {}"
  shows "\<exists>db'' r r'.
     (case accept_write now dept actor k p key jid eid db of
        (a, db') \<Rightarrow> (case accept_write now' dept actor' k p' key jid' eid' db' of (b, d) \<Rightarrow> (a, b, d)))
       = (Inr r, Inr r', db'') \<and>
     ref_job_id r \<noteq> ref_job_id r' \<and>
     accept vis now3 dept actor3 k p3 key jid3 eid3 db'' = (Inl MultipleResults, db'')"
proof -
  have none: "filter (\<lambda>j. vis (department_id j) \<and> department_id j = dept \<and> idempotency_key j = key)
      (db_jobs db) = []"
    using accept_read_None [OF assms(4,1)] by (auto simp: filter_empty_conv)
  show ?thesis
    using assms none
    by (auto simp: accept_write_def insert_job_def enqueue_def new_job_def mk_ref_def accept_def
        accept_read_def get_by_idempotency_dept_def scalar_one_or_none_def is_blank_def
        py_strip_def strip_by_def split: prod.split)
qed

lemma accept_race_duplicates_witness:
  "\<exists>db'' r r'.
     (case accept_write 5 1 6 ''backup'' JNull ''k'' 11 90 \<lparr>db_jobs = [], db_outbox = []\<rparr> of
        (a, db') \<Rightarrow> (case accept_write 5 1 6 ''backup'' JNull ''k'' 12 91 db' of (b, d) \<Rightarrow> (a, b, d)))
       = (Inr r, Inr r', db'') \<and>
     ref_job_id r \<noteq> ref_job_id r' \<and>
     accept (\<lambda>d. True) 6 1 6 ''backup'' JNull ''k'' 13 92 db'' = (Inl MultipleResults, db'')"
  by (rule accept_race_duplicates)
    (simp_all add: is_blank_iff is_py_space_def accept_read_def get_by_idempotency_dept_def
      scalar_one_or_none_def)

text \<open>
  Cancelling. \<open>request_cancel\<close> run alone succeeds exactly on a visible job that is not in a
  terminal status; it then moves that row, and no other, to \<open>cancel_requested\<close> with the next lock
  version and appends one \<open>job.cancel_requested\<close> event for it; otherwise nothing is written and
  the answer is \<open>not_found\<close> for a job the caller cannot see and a final \<open>conflict\<close> for a
  terminal one.
\<close>

theorem request_cancel_effect:
  assumes "unique_rows job_id (db_jobs db)"
  shows "case job_at (db_jobs db) jid of
      None \<Rightarrow> request_cancel vis now jid actor eid db = (Inl (not_found_error jid), db)
    | Some j \<Rightarrow>
        if \<not> vis (department_id j) then request_cancel vis now jid actor eid db = (Inl (not_found_error jid), db)
        else if terminal (status j) then
          request_cancel vis now jid actor eid db =
            (Inl (mk_error ''conflict'' False [(''status'', JStr (status_value (status j)))]), db)
        else
          fst (request_cancel vis now jid actor eid db) = Inr (mk_ref jid CANCEL_REQUESTED (kind j)) \<and>
          (\<forall>k. job_at (db_jobs (snd (request_cancel vis now jid actor eid db))) k =
             (if k = jid then Some (cancel_values now j) else job_at (db_jobs db) k)) \<and>
          map aggregate_id (db_outbox (snd (request_cancel vis now jid actor eid db))) =
            map aggregate_id (db_outbox db) @ [jid]"
proof (cases "job_at (db_jobs db) jid")
  case (Some j)
  note key = job_at_key [OF Some]
  show ?thesis
  proof (cases "vis (department_id j) \<and> \<not> terminal (status j)")
    case True
    then have rd: "request_cancel vis now jid actor eid db = cancel_write vis now jid actor eid j db"
      using assms Some by (simp add: request_cancel_def cancel_read_def get_job_at)
    have w: "cancel_where vis jid (lock_version j) j"
      using True key by (simp add: cancel_where_def job_row_def)
    have count: "sql_rowcount (cancel_where vis jid (lock_version j)) (db_jobs db) = 1"
      using w Some by (simp add: cancel_rowcount [OF assms])
    have rows: "job_at (db_jobs (snd (cancel_write vis now jid actor eid j db))) k =
        (if k = jid then Some (cancel_values now j) else job_at (db_jobs db) k)" for k
    proof (cases "k = jid")
      case False
      then show ?thesis
        by (cases "job_at (db_jobs db) k")
          (auto simp: job_at_simps cancel_where_def job_row_def dest: job_at_key)
    qed (use Some w in \<open>simp add: job_at_simps\<close>)
    show ?thesis
      using True Some count rows
      by (simp add: rd) (simp add: cancel_write_def enqueue_def mk_event_def)
  qed (use assms Some in \<open>auto simp: request_cancel_def cancel_read_def get_job_at\<close>)
qed (use assms in \<open>simp add: request_cancel_def cancel_read_def get_job_at\<close>)

lemma request_cancel_effect_witness:
  "fst (request_cancel (\<lambda>d. True) 9 11 6 95
      \<lparr>db_jobs = [new_job 5 1 6 ''backup'' JNull ''k'' 11], db_outbox = []\<rparr>) =
    Inr (mk_ref 11 CANCEL_REQUESTED ''backup'')"
  using request_cancel_effect [where jid = 11 and vis = "\<lambda>d. True" and now = 9 and actor = 6 and eid = 95
      and db = "\<lparr>db_jobs = [new_job 5 1 6 ''backup'' JNull ''k'' 11], db_outbox = []\<rparr>"]
  by (simp add: job_at_def sql_find_def new_job_def unique_rows_def terminal_iff)

text \<open>
  Listing. Following the cursors of \<open>list\<close> enumerates every visible job that passes the status
  and kind filters exactly once, newest first, when no two jobs were created at the same instant
  and no job belongs to more than one flow run.
\<close>

theorem list_jobs_complete:
  assumes "0 < limit" and "distinct (map created_at (db_jobs db))" and "\<forall>j. length (names j) \<le> 1"
  shows "map (\<lambda>(j, _). j) (all_pages (Suc (length (db_jobs db)))
      (\<lambda>c. case list_jobs vis names st k (map_option Inr c) limit db of
             Inl e \<Rightarrow> ([], None, False) | Inr page \<Rightarrow> page) None)
    = newest_first created_at (list_selected vis st k db)"
proof -
  let ?sel = "list_selected vis st k db"
  let ?rows = "concat (map (joined names) ?sel)"
  let ?key = "\<lambda>r. created_at (fst r)"
  have fst_rows: "map fst ?rows = ?sel"
    using concat_joined [OF assms(3)] .
  have len: "length ?rows \<le> length (db_jobs db)"
    using arg_cong [OF fst_rows, of length]
    by (simp only: length_map list_selected_def length_filter_le)
  have "distinct (map created_at ?sel)"
    using assms(2) by (simp add: list_selected_def distinct_map_filter)
  moreover have "map ?key ?rows = map created_at ?sel"
    using arg_cong [OF fst_rows, of "map created_at"] by (simp only: map_map comp_def)
  ultimately have dist: "distinct (map ?key ?rows)"
    by simp
  define fetch where "fetch c = (case list_jobs vis names st k (map_option Inr c) limit db of
      Inl e \<Rightarrow> ([], None, False) | Inr page \<Rightarrow> page)" for c
  have fetch: "fetch c = (case keyset_page ?key limit c ?rows of (p, n, h) \<Rightarrow> (map list_item p, n, h))" for c
    by (cases c) (simp_all add: fetch_def list_jobs_def split: prod.split)
  have pages: "all_pages n fetch c = map list_item (all_pages n (\<lambda>c. keyset_page ?key limit c ?rows) c)" for n c
    by (induction n arbitrary: c) (simp_all add: fetch split: prod.split option.split)
  have "all_pages (Suc (length (db_jobs db))) fetch None =
      map list_item (newest_first ?key ?rows)"
    using all_pages_complete [OF dist assms(1) len, of None]
    by (simp add: pages below_def del: all_pages.simps)
  moreover have "(\<lambda>(j, _). j) \<circ> list_item = fst"
    by (auto simp: list_item_def fun_eq_iff split: prod.split)
  moreover have "map fst (newest_first ?key ?rows) = newest_first created_at ?sel"
    by (simp add: map_newest_first [where f = fst] fst_rows)
  ultimately show ?thesis
    by (simp add: fetch_def [abs_def, symmetric] del: all_pages.simps)
qed

lemma list_jobs_complete_witness:
  "map (\<lambda>(j, _). j) (all_pages 3
      (\<lambda>c. case list_jobs (\<lambda>d. d = 1) (\<lambda>j. []) (Some ''accepted'') None (map_option Inr c) 1
               \<lparr>db_jobs = [new_job 5 1 6 ''backup'' JNull ''k'' 11, new_job 8 1 6 ''backup'' JNull ''l'' 12],
                db_outbox = []\<rparr> of
             Inl e \<Rightarrow> ([], None, False) | Inr page \<Rightarrow> page) None)
    = [new_job 8 1 6 ''backup'' JNull ''l'' 12, new_job 5 1 6 ''backup'' JNull ''k'' 11]"
  using list_jobs_complete [where limit = 1 and vis = "\<lambda>d. d = 1" and names = "\<lambda>j. []" and
      st = "Some ''accepted''" and k = None and
      db = "\<lparr>db_jobs = [new_job 5 1 6 ''backup'' JNull ''k'' 11, new_job 8 1 6 ''backup'' JNull ''l'' 12],
             db_outbox = []\<rparr>"]
  by (simp add: new_job_def list_selected_def newest_first_def numeral_3_eq_3 del: all_pages.simps)

text \<open>
  Ties are lost. The cursor is the bare creation time and the next page asks for strictly older
  rows, so of two jobs created at the same instant that fall on different pages the second one is
  on no page at all.
\<close>

theorem list_jobs_drops_ties:
  assumes "vis (department_id a)" and "vis (department_id b)" and "created_at a = created_at b"
  shows "map (\<lambda>(j, _). j) (all_pages (Suc n)
      (\<lambda>c. case list_jobs vis (\<lambda>_. []) None None (map_option Inr c) 1
               \<lparr>db_jobs = [a, b], db_outbox = []\<rparr> of
             Inl e \<Rightarrow> ([], None, False) | Inr page \<Rightarrow> page) None) = [a]"
proof -
  have "all_pages n
      (\<lambda>c. case list_jobs vis (\<lambda>_. []) None None (map_option Inr c) 1
               \<lparr>db_jobs = [a, b], db_outbox = []\<rparr> of
             Inl e \<Rightarrow> ([], None, False) | Inr page \<Rightarrow> page) (Some (created_at b)) = []"
    by (cases n) (simp_all add: list_jobs_def list_selected_def joined_def keyset_page_def below_def
        newest_first_def assms)
  then show ?thesis
    using assms
    by (simp add: list_jobs_def list_selected_def joined_def keyset_page_def below_def
        newest_first_def list_item_def)
qed

lemma list_jobs_drops_ties_witness:
  "map (\<lambda>(j, _). j) (all_pages (Suc 4)
      (\<lambda>c. case list_jobs (\<lambda>_. True) (\<lambda>_. []) None None (map_option Inr c) 1
               \<lparr>db_jobs = [new_job 5 1 6 ''backup'' JNull ''k'' 11, new_job 5 1 6 ''backup'' JNull ''l'' 12],
                db_outbox = []\<rparr> of
             Inl e \<Rightarrow> ([], None, False) | Inr page \<Rightarrow> page) None)
   = [new_job 5 1 6 ''backup'' JNull ''k'' 11]"
  by (rule list_jobs_drops_ties) (simp_all add: new_job_def)

end
