(* ===== verification/PyJson.thy ===== *)
theory PyJson imports Prelude "HOL-Library.List_Lexorder" "HOL-Library.Char_ord" begin

text \<open>
  What the code does with JSON values in Python: reading a string or an object, truth values,
  \<open>str\<close> and \<open>UUID(str(...))\<close> of a value, and the order in which \<open>json.dumps\<close> writes keys.
\<close>

type_synonym dict = "(string \<times> json) list"

text \<open>Reading a value of a declared type; \<open>None\<close> where the value is missing or of another type.\<close>

fun json_str :: "json option \<Rightarrow> string option" where
  "json_str (Some (JStr s)) = Some s"
| "json_str _ = None"

fun json_obj :: "json \<Rightarrow> (string \<times> json) list option" where
  "json_obj (JObj d) = Some d"
| "json_obj _ = None"

fun all_some :: "'a option list \<Rightarrow> 'a list option" where
  "all_some [] = Some []"
| "all_some (x # xs) = (case (x, all_some xs) of (Some a, Some r) \<Rightarrow> Some (a # r) | _ \<Rightarrow> None)"

text \<open>
  \<open>str(v)\<close> of a JSON value, as far as the code can use it: the text of a string or of an integer.
  The text of any other JSON value is neither a job kind nor a UUID, so \<open>None\<close> stands for it.
\<close>

fun json_text :: "json \<Rightarrow> string option" where
  "json_text (JStr s) = Some s"
| "json_text (JInt i) = Some (py_str_int i)"
| "json_text _ = None"

text \<open>\<open>UUID(str(v))\<close>, with \<open>None\<close> for the \<open>ValueError\<close>.\<close>

definition json_uuid :: "json \<Rightarrow> uuid option" where
  "json_uuid v = Option.bind (json_text v) uuid_parse"

text \<open>\<open>bool(v)\<close>.\<close>

fun py_truthy :: "json \<Rightarrow> bool" where
  "py_truthy JNull = False"
| "py_truthy (JBool b) = b"
| "py_truthy (JInt i) = (i \<noteq> 0)"
| "py_truthy (JFloat x) = (x \<noteq> Fin 0)"
| "py_truthy (JStr s) = (s \<noteq> [])"
| "py_truthy (JArr vs) = (vs \<noteq> [])"
| "py_truthy (JObj d) = (d \<noteq> [])"

text \<open>\<open>json.dumps(..., sort_keys=True)\<close> writes every object with its keys sorted.\<close>

fun canonical :: "json \<Rightarrow> json" where
  "canonical (JArr vs) = JArr (map canonical vs)"
| "canonical (JObj d) = JObj (sort_key fst (map (\<lambda>(k, v). (k, canonical v)) d))"
| "canonical v = v"

lemma json_uuid_str: "u < 2 ^ 128 \<Longrightarrow> json_uuid (JStr (uuid_str u)) = Some u"
  by (simp add: json_uuid_def uuid_parse_str)

lemma uuid_str_not_Nil [simp]: "uuid_str u \<noteq> []"
  by (simp add: uuid_str_def Let_def)

lemma all_some_mapI: "(\<And>x. x \<in> set xs \<Longrightarrow> f x = Some (g x)) \<Longrightarrow> all_some (map f xs) = Some (map g xs)"
  by (induction xs) auto

end
