(* ===== verification/JobOutbox.thy ===== *)
theory JobOutbox imports JobService PyJson begin

text \<open>
  The transactional outbox: \<open>OutboxDispatcher\<close> (\<open>packages/jobs/outbox.py\<close>) and the periodic
  \<open>OutboxDispatcherService\<close> (\<open>packages/jobs/dispatcher.py\<close>) with its routing table, and the
  identity that research events carry (\<open>packages/jobs/research_principal.py\<close>).
\<close>

section \<open>Messages\<close>

record task_message =
  task_name :: string
  task_args :: "string list"
  task_kwargs :: "(string \<times> string) list"
  task_queue :: string

text \<open>\<open>event.payload or {}\<close>.\<close>

fun payload_dict :: "json option \<Rightarrow> (string \<times> json) list" where
  "payload_dict (Some (JObj d)) = d"
| "payload_dict _ = []"

section \<open>The research principal\<close>

record research_principal =
  actor_id :: uuid
  principal_department_id :: uuid
  workspace_id :: uuid

definition uuid_field :: "(string \<times> json) list \<Rightarrow> string \<Rightarrow> uuid option" where
  "uuid_field d k = Option.bind (Option.bind (dict_get d k) json_text) uuid_parse"

definition from_payload :: "(string \<times> json) list \<Rightarrow> research_principal option" where
  "from_payload d =
    (case uuid_field d ''actor_id'' of None \<Rightarrow> None | Some a \<Rightarrow>
     (case uuid_field d ''department_id'' of None \<Rightarrow> None | Some dep \<Rightarrow>
      (case uuid_field d ''workspace_id'' of None \<Rightarrow> None | Some w \<Rightarrow>
         Some \<lparr>actor_id = a, principal_department_id = dep, workspace_id = w\<rparr>)))"

definition as_kwargs :: "research_principal \<Rightarrow> (string \<times> string) list" where
  "as_kwargs p =
    [(''actor_id'', uuid_str (actor_id p)),
     (''department_id'', uuid_str (principal_department_id p)),
     (''workspace_id'', uuid_str (workspace_id p))]"

section \<open>Sending one event\<close>

text \<open>
  \<open>broker e = None\<close>: no \<open>TaskSender\<close> is configured; \<open>Some False\<close>: \<open>send_task\<close> raises for this
  event. The result is the message that went out, or \<open>None\<close> where the method returns \<open>False\<close>.
\<close>

type_synonym broker = "(outbox_event \<Rightarrow> bool) option"

definition kind_queue :: "json option \<Rightarrow> string" where
  "kind_queue p =
    (case Option.bind (dict_get (payload_dict p) ''kind'') json_text of
       None \<Rightarrow> ''irip-normal''
     | Some k \<Rightarrow> (case get_policy k of None \<Rightarrow> ''irip-normal'' | Some pol \<Rightarrow> queue pol))"

definition job_message :: "outbox_event \<Rightarrow> task_message" where
  "job_message e =
    \<lparr>task_name = ''jobs.execute'', task_args = [uuid_str (aggregate_id e)], task_kwargs = [],
     task_queue = kind_queue (ev_payload e)\<rparr>"

definition send_to_broker :: "broker \<Rightarrow> outbox_event \<Rightarrow> task_message option" where
  "send_to_broker broker e =
    (case broker of None \<Rightarrow> None | Some accepts \<Rightarrow> if accepts e then Some (job_message e) else None)"

definition RESEARCH_EVENT_ROUTES :: "(string \<times> string \<times> string) list" where
  "RESEARCH_EVENT_ROUTES =
    [(''research.plan.requested'', ''research.plans.generate'', ''irip-research''),
     (''research.recommendation.requested'', ''research.recommendations.generate'', ''irip-research''),
     (''research.run.requested'', ''research.run.execute'', ''irip-research''),
     (''research.candidate_extraction.requested'', ''research.candidates.extract'', ''irip-research'')]"

definition send_to_celery :: "broker \<Rightarrow> outbox_event \<Rightarrow> task_message option" where
  "send_to_celery broker e =
    (case broker of None \<Rightarrow> None
     | Some accepts \<Rightarrow>
         (case dict_get RESEARCH_EVENT_ROUTES (event_type e) of
            Some (name, q) \<Rightarrow>
              (case from_payload (payload_dict (ev_payload e)) of
                 None \<Rightarrow> None
               | Some p \<Rightarrow>
                   if accepts e
                   then Some \<lparr>task_name = name, task_args = [uuid_str (aggregate_id e)],
                              task_kwargs = as_kwargs p, task_queue = q\<rparr>
                   else None)
          | None \<Rightarrow> if accepts e then Some (job_message e) else None))"

section \<open>Dispatching\<close>

text \<open>
  The \<open>SELECT\<close>: undelivered events in order of occurrence, at most \<open>batch_size\<close>; \<open>locked\<close> are the
  rows another dispatcher holds, which \<open>SKIP LOCKED\<close> leaves out. Then the events are sent one by
  one and each sent one is marked.
\<close>

definition pending :: "outbox_event \<Rightarrow> bool" where
  "pending e = (delivered_at e = None)"

definition dispatch_select :: "(uuid \<Rightarrow> bool) \<Rightarrow> nat \<Rightarrow> outbox_event list \<Rightarrow> outbox_event list" where
  "dispatch_select locked batch_size ob =
    take batch_size (sort_key occurred_at (filter (\<lambda>e. pending e \<and> \<not> locked (ev_id e)) ob))"

definition mark_delivered :: "timestamp \<Rightarrow> uuid \<Rightarrow> outbox_event list \<Rightarrow> outbox_event list" where
  "mark_delivered clock eid ob = sql_update (\<lambda>e. ev_id e = eid) (\<lambda>e. e\<lparr>delivered_at := Some clock\<rparr>) ob"

fun dispatch_loop ::
    "(outbox_event \<Rightarrow> task_message option) \<Rightarrow> timestamp \<Rightarrow> outbox_event list \<Rightarrow> outbox_event list
      \<Rightarrow> nat \<times> task_message list \<times> outbox_event list" where
  "dispatch_loop send clock [] ob = (0, [], ob)"
| "dispatch_loop send clock (e # es) ob =
    (case send e of
       None \<Rightarrow> dispatch_loop send clock es ob
     | Some m \<Rightarrow>
         (case dispatch_loop send clock es (mark_delivered clock (ev_id e) ob) of
            (n, ms, ob') \<Rightarrow> (n + 1, m # ms, ob')))"

definition outbox_dispatch ::
    "broker \<Rightarrow> timestamp \<Rightarrow> nat \<Rightarrow> outbox_event list \<Rightarrow> nat \<times> task_message list \<times> outbox_event list" where
  "outbox_dispatch broker clock batch_size ob =
    dispatch_loop (send_to_broker broker) clock (dispatch_select (\<lambda>_. False) batch_size ob) ob"

definition service_dispatch ::
    "broker \<Rightarrow> (uuid \<Rightarrow> bool) \<Rightarrow> timestamp \<Rightarrow> nat \<Rightarrow> outbox_event list
      \<Rightarrow> nat \<times> task_message list \<times> outbox_event list" where
  "service_dispatch broker locked clock batch_size ob =
    dispatch_loop (send_to_celery broker) clock (dispatch_select locked batch_size ob) ob"

definition DEFAULT_BATCH_SIZE :: nat where
  "DEFAULT_BATCH_SIZE = 100"

definition run_dispatch ::
    "broker \<Rightarrow> (uuid \<Rightarrow> bool) \<Rightarrow> timestamp \<Rightarrow> outbox_event list
      \<Rightarrow> nat \<times> task_message list \<times> outbox_event list" where
  "run_dispatch broker locked clock ob = service_dispatch broker locked clock DEFAULT_BATCH_SIZE ob"

definition get_undelivered_count :: "outbox_event list \<Rightarrow> nat" where
  "get_undelivered_count ob = length (filter pending ob)"

definition reset_where :: "uuid option \<Rightarrow> outbox_event \<Rightarrow> bool" where
  "reset_where agg e =
    (\<not> pending e \<and> (case agg of None \<Rightarrow> True | Some a \<Rightarrow> aggregate_id e = a))"

definition reset_delivered :: "uuid option \<Rightarrow> outbox_event list \<Rightarrow> nat \<times> outbox_event list" where
  "reset_delivered agg ob =
    (sql_rowcount (reset_where agg) ob,
     sql_update (reset_where agg) (\<lambda>e. e\<lparr>delivered_at := None\<rparr>) ob)"

section \<open>Facts\<close>

interpretation mark_upd: row_update ev_id "\<lambda>e. e\<lparr>delivered_at := Some clock\<rparr>"
  for clock
  by unfold_locales simp

lemma mark_delivered_ids [simp]: "map ev_id (mark_delivered clock eid ob) = map ev_id ob"
  by (simp add: mark_delivered_def mark_upd.map_key_update)

text \<open>What a dispatch does to the outbox: exactly the selected events that were sent are marked.\<close>

lemma dispatch_loop_outbox:
  "dispatch_loop send clock es ob =
    (length (filter (\<lambda>e. send e \<noteq> None) es),
     List.map_filter send es,
     sql_update (\<lambda>e. ev_id e \<in> ev_id ` {x \<in> set es. send x \<noteq> None})
       (\<lambda>e. e\<lparr>delivered_at := Some clock\<rparr>) ob)"
proof (induction es arbitrary: ob)
  case Nil
  then show ?case
    by (simp add: map_filter_simps sql_update_def)
next
  case (Cons e es)
  show ?case
  proof (cases "send e")
    case None
    then have "{x \<in> set (e # es). send x \<noteq> None} = {x \<in> set es. send x \<noteq> None}"
      by auto
    then show ?thesis
      using None Cons.IH [of ob] by (simp add: map_filter_simps)
  next
    case (Some m)
    then show ?thesis
      by (auto simp: Cons.IH map_filter_simps mark_delivered_def sql_update_def intro!: map_cong)
  qed
qed

lemma in_dispatch_select:
  "e \<in> set (dispatch_select locked n ob) \<Longrightarrow> e \<in> set ob \<and> pending e \<and> \<not> locked (ev_id e)"
  by (auto simp: dispatch_select_def dest!: in_set_takeD)

lemma from_payload_kwargs:
  assumes "actor_id p < 2 ^ 128" "principal_department_id p < 2 ^ 128" "workspace_id p < 2 ^ 128"
  shows "from_payload (map (\<lambda>(k, v). (k, JStr v)) (as_kwargs p)) = Some p"
  by (simp add: from_payload_def uuid_field_def as_kwargs_def dict_get_def
      uuid_parse_str [OF assms(1)] uuid_parse_str [OF assms(2)] uuid_parse_str [OF assms(3)])

lemma service_dispatch_alt:
  "service_dispatch broker locked clock n ob =
    (let sent = filter (\<lambda>e. send_to_celery broker e \<noteq> None) (dispatch_select locked n ob) in
     (length sent, List.map_filter (send_to_celery broker) (dispatch_select locked n ob),
      sql_update (\<lambda>e. ev_id e \<in> ev_id ` set sent) (\<lambda>e. e\<lparr>delivered_at := Some clock\<rparr>) ob))"
  by (auto simp: service_dispatch_def dispatch_loop_outbox Let_def intro!: arg_cong [where f = "\<lambda>p. sql_update p _ ob"])

lemma length_map_filter: "length (List.map_filter f xs) = length (filter (\<lambda>x. f x \<noteq> None) xs)"
  by (induction xs) (auto simp: map_filter_simps split: option.splits)

lemma unique_selected:
  assumes "unique_rows ev_id ob"
  shows "distinct (map ev_id (sort_key occurred_at (filter p ob)))"
proof -
  have "distinct (map ev_id (filter p ob))"
    using assms by (simp add: unique_rows_def distinct_map_filter)
  then show ?thesis
    by (simp add: distinct_map)
qed

lemma pending_after_mark:
  "length (filter pending (sql_update (\<lambda>e. ev_id e \<in> I) (\<lambda>e. e\<lparr>delivered_at := Some clock\<rparr>) ob)) =
    length (filter (\<lambda>e. ev_id e \<notin> I) (filter pending ob))"
  by (induction ob) (auto simp: pending_def)

lemma filter_not_taken:
  assumes "distinct (map key xs)"
  shows "filter (\<lambda>x. key x \<notin> key ` set (take n xs)) xs = drop n xs"
proof -
  have d: "distinct (map key (take n xs @ drop n xs))"
    using assms by simp
  have "filter (\<lambda>x. key x \<notin> key ` set (take n xs)) (take n xs @ drop n xs) = drop n xs"
    using d unfolding map_append distinct_append filter_append
    by (auto simp: filter_empty_conv intro!: filter_True)
  then show ?thesis
    by simp
qed

lemma undelivered_after_dispatch:
  assumes "unique_rows ev_id ob" and "\<forall>e\<in>set ob. pending e \<longrightarrow> send_to_celery broker e \<noteq> None"
  shows "get_undelivered_count (snd (snd (service_dispatch broker (\<lambda>_. False) clock n ob))) =
    get_undelivered_count ob - n"
proof -
  let ?srt = "sort_key occurred_at (filter pending ob)"
  have sel: "dispatch_select (\<lambda>_. False) n ob = take n ?srt"
    by (simp add: dispatch_select_def)
  have "filter (\<lambda>e. send_to_celery broker e \<noteq> None) (take n ?srt) = take n ?srt"
    using assms(2) by (intro filter_True) (auto dest!: in_set_takeD)
  then have "get_undelivered_count (snd (snd (service_dispatch broker (\<lambda>_. False) clock n ob))) =
      length (filter (\<lambda>e. ev_id e \<notin> ev_id ` set (take n ?srt)) (filter pending ob))"
    unfolding service_dispatch_alt Let_def sel
    by (simp only: snd_conv get_undelivered_count_def pending_after_mark)
  also have "\<dots> = length (sort_key occurred_at
      (filter (\<lambda>e. ev_id e \<notin> ev_id ` set (take n ?srt)) (filter pending ob)))"
    by simp
  also have "\<dots> = length (filter (\<lambda>e. ev_id e \<notin> ev_id ` set (take n ?srt)) ?srt)"
    by (simp only: filter_sort)
  also have "\<dots> = length (drop n ?srt)"
    by (simp only: filter_not_taken [OF unique_selected [OF assms(1)]])
  finally show ?thesis
    by (simp add: get_undelivered_count_def)
qed

fun dispatch_rounds :: "broker \<Rightarrow> timestamp \<Rightarrow> nat \<Rightarrow> nat \<Rightarrow> outbox_event list \<Rightarrow> outbox_event list" where
  "dispatch_rounds broker clock n 0 ob = ob"
| "dispatch_rounds broker clock n (Suc k) ob =
    dispatch_rounds broker clock n k (snd (snd (service_dispatch broker (\<lambda>_. False) clock n ob)))"

lemma dispatch_keeps_sendable:
  assumes "\<forall>e\<in>set ob. pending e \<longrightarrow> send_to_celery broker e \<noteq> None"
  shows "\<forall>e\<in>set (snd (snd (service_dispatch broker locked clock n ob))).
    pending e \<longrightarrow> send_to_celery broker e \<noteq> None"
  using assms by (auto simp: service_dispatch_alt Let_def set_sql_update pending_def split: if_splits)

lemma dispatch_keeps_unique:
  "unique_rows ev_id ob \<Longrightarrow> unique_rows ev_id (snd (snd (service_dispatch broker locked clock n ob)))"
  by (simp add: service_dispatch_alt Let_def mark_upd.unique_update)

section \<open>Properties\<close>

text \<open>
  What one dispatch does. The messages sent are those of the selected events that can be sent,
  in order of occurrence; exactly these events are stamped with the dispatch time, every other
  event keeps its delivery state (an event that could not be sent stays pending), the returned
  count is the number of messages and never exceeds the batch size, and an event delivered before
  or locked by another dispatcher is never sent again.
\<close>

theorem dispatch_marks_exactly_sent:
  assumes "unique_rows ev_id ob" and "service_dispatch broker locked clock n ob = (cnt, ms, ob')"
  shows "cnt = length ms \<and> cnt \<le> n \<and>
    ms = List.map_filter (send_to_celery broker) (dispatch_select locked n ob) \<and>
    ob' = map (\<lambda>e. if e \<in> set (dispatch_select locked n ob) \<and> send_to_celery broker e \<noteq> None
                   then e\<lparr>delivered_at := Some clock\<rparr> else e) ob \<and>
    (\<forall>e\<in>set (dispatch_select locked n ob). delivered_at e = None \<and> \<not> locked (ev_id e))"
proof -
  let ?sel = "dispatch_select locked n ob"
  let ?sent = "filter (\<lambda>e. send_to_celery broker e \<noteq> None) ?sel"
  have "length ?sel \<le> n"
    by (simp add: dispatch_select_def)
  then have len: "length ?sent \<le> n"
    using length_filter_le [of _ ?sel] order_trans by blast
  have sub: "set ?sent \<subseteq> set ob"
    using in_dispatch_select by auto
  have "ev_id e \<in> ev_id ` set ?sent \<longleftrightarrow> e \<in> set ?sent" if "e \<in> set ob" for e
    using unique_rows_image [OF assms(1) sub that] .
  then have "ob' = map (\<lambda>e. if e \<in> set ?sent then e\<lparr>delivered_at := Some clock\<rparr> else e) ob"
    using assms(2) by (auto simp: service_dispatch_alt Let_def sql_update_def intro!: map_cong)
  then show ?thesis
    using assms(2) len in_dispatch_select [of _ locked n ob]
    by (auto simp: service_dispatch_alt Let_def length_map_filter pending_def)
qed

definition sample_event :: outbox_event where
  "sample_event = mk_event 7 3 11 ''job.accepted'' (Some (JObj [(''kind'', JStr ''backup'')]))"

lemma dispatch_marks_exactly_sent_witness:
  "service_dispatch (Some (\<lambda>_. True)) (\<lambda>_. False) 9 100 [sample_event] =
     (1, [job_message sample_event], [sample_event\<lparr>delivered_at := Some 9\<rparr>]) \<and>
   task_queue (job_message sample_event) = ''irip-ops'' \<and>
   (1::nat) = length [job_message sample_event]"
proof -
  have run: "service_dispatch (Some (\<lambda>_. True)) (\<lambda>_. False) 9 100 [sample_event] =
     (1, [job_message sample_event], [sample_event\<lparr>delivered_at := Some 9\<rparr>])"
    by (simp add: service_dispatch_def dispatch_select_def pending_def sample_event_def mk_event_def
        send_to_celery_def RESEARCH_EVENT_ROUTES_def dict_get_def mark_delivered_def)
  have "task_queue (job_message sample_event) = ''irip-ops''"
    by (simp add: job_message_def sample_event_def mk_event_def kind_queue_def dict_get_def
        get_policy_def POLICIES_def)
  then show ?thesis
    using run conjunct1 [OF dispatch_marks_exactly_sent [OF _ run]] unfolding unique_rows_def by simp
qed



text \<open>
  A full batch of undeliverable events starves the rest. Events that cannot be sent (a research
  event whose payload holds no valid principal, for instance) stay at the head of the order; when
  they fill the batch, no run of the dispatcher ever sends or marks anything again.
\<close>

theorem outbox_starvation:
  assumes "\<forall>e\<in>set (dispatch_select (\<lambda>_. False) n ob). send_to_celery broker e = None"
  shows "dispatch_rounds broker clock n k ob = ob \<and>
    fst (snd (service_dispatch broker (\<lambda>_. False) clock n ob)) = []"
proof -
  have none: "filter (\<lambda>e. send_to_celery broker e \<noteq> None) (dispatch_select (\<lambda>_. False) n ob) = []"
    using assms by (simp add: filter_empty_conv)
  then have "service_dispatch broker (\<lambda>_. False) clock n ob = (0, [], ob)"
    using length_map_filter [of "send_to_celery broker" "dispatch_select (\<lambda>_. False) n ob"]
    by (simp add: service_dispatch_alt sql_update_def)
  moreover from this have "dispatch_rounds broker clock n k ob = ob"
    by (induction k) simp_all
  ultimately show ?thesis by simp
qed

lemma outbox_starvation_witness:
  "dispatch_rounds (Some (\<lambda>_. True)) 9 1 4
     [mk_event 1 1 20 ''research.run.requested'' None, mk_event 2 2 21 ''job.requeued'' None]
   = [mk_event 1 1 20 ''research.run.requested'' None, mk_event 2 2 21 ''job.requeued'' None] \<and>
   fst (snd (service_dispatch (Some (\<lambda>_. True)) (\<lambda>_. False) 9 1
     [mk_event 1 1 20 ''research.run.requested'' None, mk_event 2 2 21 ''job.requeued'' None])) = []"
  by (rule outbox_starvation)
    (simp add: dispatch_select_def pending_def mk_event_def send_to_celery_def
      RESEARCH_EVENT_ROUTES_def dict_get_def from_payload_def uuid_field_def)

text \<open>
  Redelivery leaves the queue of the kind. The event that \<open>accept\<close> writes is routed to the queue
  of the job's policy; an event that requeues the same job carries no kind, so the job is
  redelivered on \<open>irip-normal\<close> whatever its policy says.
\<close>

theorem redelivery_queue:
  assumes "get_policy k = Some pol"
  shows "task_queue (job_message (mk_event eid now jid ''job.accepted''
           (Some (JObj [(''job_id'', JStr (uuid_str jid)), (''kind'', JStr k)])))) = queue pol \<and>
         task_queue (job_message (mk_event eid' now' jid ''job.requeued'' None)) = ''irip-normal''"
  using assms by (simp add: job_message_def mk_event_def kind_queue_def dict_get_def)

lemma redelivery_queue_witness:
  "task_queue (job_message (mk_event 1 5 9 ''job.accepted''
      (Some (JObj [(''job_id'', JStr (uuid_str 9)), (''kind'', JStr ''restore'')])))) = ''irip-ops'' \<and>
   task_queue (job_message (mk_event 2 6 9 ''job.requeued'' None)) = ''irip-normal''"
  using redelivery_queue [where k = "''restore''" and pol = "KindPolicy ''system:manage'' ''irip-ops'' 14400 13800 0 False"]
  by (simp add: get_policy_def POLICIES_def dict_get_def)

end
