(* ===== verification/JobWorker.thy ===== *)
theory JobWorker imports JobOutbox begin

text \<open>
  The worker side (\<open>packages/jobs/worker.py\<close>): the lease manager, the three ways of committing an
  execution, and \<open>JobExecutor.execute\<close> run without interference. \<open>JobSystem\<close> runs the same pieces
  concurrently.
\<close>

section \<open>Lease manager\<close>

definition LEASE_TTL_SECONDS :: int where
  "LEASE_TTL_SECONDS = 30"

definition HEARTBEAT_INTERVAL_SECONDS :: int where
  "HEARTBEAT_INTERVAL_SECONDS = 10"

definition lease_acquire ::
    "visibility \<Rightarrow> timestamp \<Rightarrow> timestamp \<Rightarrow> int \<Rightarrow> uuid \<Rightarrow> string \<Rightarrow> job list \<Rightarrow> bool \<times> job list" where
  "lease_acquire vis now clock ttl jid owner rows = acquire_lease vis now jid owner (clock + ttl) rows"

definition acquire_with_fencing ::
    "visibility \<Rightarrow> timestamp \<Rightarrow> timestamp \<Rightarrow> int \<Rightarrow> uuid \<Rightarrow> string \<Rightarrow> job list
      \<Rightarrow> (bool \<times> nat) \<times> job list" where
  "acquire_with_fencing vis now clock ttl jid owner rows =
    acquire_lease_with_fencing vis now jid owner (clock + ttl) rows"

definition heartbeat ::
    "visibility \<Rightarrow> timestamp \<Rightarrow> timestamp \<Rightarrow> int \<Rightarrow> uuid \<Rightarrow> string \<Rightarrow> job list \<Rightarrow> bool \<times> job list" where
  "heartbeat vis now clock ttl jid owner rows = renew_lease vis now jid owner (clock + ttl) rows"

definition lease_release :: "visibility \<Rightarrow> timestamp \<Rightarrow> uuid \<Rightarrow> string \<Rightarrow> job list \<Rightarrow> job list" where
  "lease_release vis now jid owner rows = release_lease vis now jid owner rows"

definition reap_expired ::
    "visibility \<Rightarrow> timestamp \<Rightarrow> timestamp \<Rightarrow> (uuid \<Rightarrow> uuid) \<Rightarrow> job_db \<Rightarrow> uuid list \<times> job_db" where
  "reap_expired vis clock now eids db = reap_and_redeliver vis clock now eids db"

section \<open>Committing an execution\<close>

definition commit_success ::
    "visibility \<Rightarrow> timestamp \<Rightarrow> uuid \<Rightarrow> nat \<Rightarrow> json option \<Rightarrow> job_db \<Rightarrow> bool \<times> job_db" where
  "commit_success vis now jid lv res db =
    (case update_status vis now jid SUCCEEDED res None (Some lv) (db_jobs db) of
       (ok, rows) \<Rightarrow> (ok, db\<lparr>db_jobs := rows\<rparr>))"

definition commit_failure ::
    "visibility \<Rightarrow> timestamp \<Rightarrow> uuid \<Rightarrow> nat \<Rightarrow> app_error \<Rightarrow> job_db \<Rightarrow> job_db" where
  "commit_failure vis now jid lv e db =
    db\<lparr>db_jobs := snd (update_status vis now jid FAILED None (Some (error_to_dict e)) (Some lv)
                        (db_jobs db))\<rparr>"

definition retry_error :: "string \<Rightarrow> json" where
  "retry_error msg = JObj [(''code'', JStr ''transient_error''), (''message'', JStr msg)]"

definition retry_values :: "timestamp \<Rightarrow> timestamp \<Rightarrow> nat \<Rightarrow> string \<Rightarrow> job \<Rightarrow> job" where
  "retry_values now clock att msg j =
    j\<lparr>status := RETRY_WAIT, attempt := att + 1, run_after := Some (clock + 2 ^ att),
      last_error := Some (retry_error msg), updated_at := now, lock_version := lock_version j + 1\<rparr>"

definition retry_where :: "visibility \<Rightarrow> uuid \<Rightarrow> nat \<Rightarrow> job \<Rightarrow> bool" where
  "retry_where vis jid lv j = (job_row vis jid j \<and> lock_version j = lv)"

text \<open>The event is inserted whether or not the \<open>UPDATE\<close> found the row.\<close>

definition commit_retry ::
    "visibility \<Rightarrow> timestamp \<Rightarrow> timestamp \<Rightarrow> uuid \<Rightarrow> nat \<Rightarrow> nat \<Rightarrow> string \<Rightarrow> uuid \<Rightarrow> job_db \<Rightarrow> job_db" where
  "commit_retry vis now clock jid lv att msg eid db =
    enqueue (mk_event eid now jid ''job.retry_wait''
        (Some (JObj [(''attempt'', JInt (int att + 1)), (''reason'', JStr (take 500 msg))])))
      (db\<lparr>db_jobs := sql_update (retry_where vis jid lv) (retry_values now clock att msg)
                      (db_jobs db)\<rparr>)"

section \<open>\<open>execute\<close>\<close>

text \<open>
  What a handler call ends in: a result, an \<open>AppError\<close>, another exception with its text, or an
  exception that is not an \<open>Exception\<close> (a cancelled task, an interpreter exit). A handler may
  write the database before.
\<close>

datatype handler_outcome =
    Returned "json option" | RaisedApp app_error | Raised string | Aborted

type_synonym handler = "job \<Rightarrow> job_db \<Rightarrow> handler_outcome \<times> job_db"

text \<open>\<open>env_vis\<close>: what the system user sees; \<open>env_job_vis\<close>: what a session in the name of the job's
  department and creator sees.\<close>

record exec_env =
  env_vis :: visibility
  env_job_vis :: "uuid \<Rightarrow> uuid option \<Rightarrow> visibility"
  env_now :: timestamp
  env_clock :: timestamp
  env_handlers :: "(string \<times> handler) list"
  env_event :: uuid

datatype exec_return = Return "job_result option" | Propagates

definition register_handler :: "string \<Rightarrow> handler \<Rightarrow> exec_env \<Rightarrow> exec_env" where
  "register_handler k h env = env\<lparr>env_handlers := dict_set (env_handlers env) k h\<rparr>"

definition job_result_of :: "uuid \<Rightarrow> job_status \<Rightarrow> json option \<Rightarrow> json option \<Rightarrow> exec_return" where
  "job_result_of jid s p e =
    Return (Some \<lparr>res_job_id = jid, res_status = s, res_payload = p, res_last_error = e\<rparr>)"

abbreviation unknown_kind_error :: "string \<Rightarrow> app_error" where
  "unknown_kind_error k \<equiv> mk_error ''unknown_job_kind'' False [(''kind'', JStr k)]"

abbreviation max_retries_error :: app_error where
  "max_retries_error \<equiv> mk_error ''max_retries_exceeded'' False []"

text \<open>Step 5: what the end of the handler is turned into.\<close>

definition settle ::
    "exec_env \<Rightarrow> visibility \<Rightarrow> uuid \<Rightarrow> nat \<Rightarrow> job \<Rightarrow> handler_outcome \<Rightarrow> job_db \<Rightarrow> exec_return \<times> job_db" where
  "settle env vis jid lv j out db =
    (case out of
       Returned r \<Rightarrow>
         (case commit_success vis (env_now env) jid lv r db of
            (True, db') \<Rightarrow> (job_result_of jid SUCCEEDED r None, db')
          | (False, db') \<Rightarrow>
              (case get_job vis jid (db_jobs db') of
                 None \<Rightarrow> (Return None, db')
               | Some cur \<Rightarrow> (job_result_of jid (status cur) (result cur) (last_error cur), db')))
     | RaisedApp e \<Rightarrow>
         (job_result_of jid FAILED None (Some (error_to_dict e)),
          commit_failure vis (env_now env) jid lv e db)
     | Raised msg \<Rightarrow>
         (if attempt j + 1 < max_attempts j then
            (job_result_of jid RETRY_WAIT None (Some (retry_error msg)),
             commit_retry vis (env_now env) (env_clock env) jid lv (attempt j) msg (env_event env) db)
          else
            (job_result_of jid FAILED None
               (Some (JObj [(''code'', JStr ''max_retries_exceeded''), (''message'', JStr msg)])),
             commit_failure vis (env_now env) jid lv max_retries_error db))
     | Aborted \<Rightarrow> (Propagates, db))"

definition execute_body :: "exec_env \<Rightarrow> uuid \<Rightarrow> nat \<Rightarrow> job_db \<Rightarrow> exec_return \<times> job_db" where
  "execute_body env jid token db =
    (case get_job (env_vis env) jid (db_jobs db) of
       None \<Rightarrow> (Return None, db)
     | Some j \<Rightarrow>
         if terminal (status j) then (job_result_of jid (status j) (result j) (last_error j), db)
         else
           (let vis = env_job_vis env (department_id j) (created_by j) in
            case dict_get (env_handlers env) (kind j) of
              None \<Rightarrow>
                (job_result_of jid FAILED None (Some (error_to_dict (unknown_kind_error (kind j)))),
                 commit_failure vis (env_now env) jid token (unknown_kind_error (kind j)) db)
            | Some h \<Rightarrow> (case h j db of (out, db') \<Rightarrow> settle env vis jid token j out db')))"

definition execute :: "exec_env \<Rightarrow> uuid \<Rightarrow> string \<Rightarrow> job_db \<Rightarrow> exec_return \<times> job_db" where
  "execute env jid owner db =
    (case acquire_with_fencing (env_vis env) (env_now env) (env_clock env) LEASE_TTL_SECONDS jid owner
            (db_jobs db) of
       ((False, _), rows) \<Rightarrow> (Return None, db\<lparr>db_jobs := rows\<rparr>)
     | ((True, token), rows) \<Rightarrow>
         (case execute_body env jid token (db\<lparr>db_jobs := rows\<rparr>) of
            (r, db') \<Rightarrow>
              (r, db'\<lparr>db_jobs := lease_release (env_vis env) (env_now env) jid owner (db_jobs db')\<rparr>)))"

section \<open>Facts\<close>

interpretation retry_upd: versioned_update job_id "retry_values now clock att msg" lock_version
  for now clock att msg
  by unfold_locales (simp_all add: retry_values_def)

lemma job_at_commit_success [job_at_simps]:
  "job_at (db_jobs (snd (commit_success vis now jid lv r db))) k =
    map_option (\<lambda>j. if status_where vis jid SUCCEEDED (Some lv) j
                    then status_values now SUCCEEDED r None j else j) (job_at (db_jobs db) k)"
  using job_at_update_status [of vis now jid SUCCEEDED r None "Some lv" "db_jobs db" k]
  by (auto simp: commit_success_def split: prod.split)

lemma job_at_commit_failure [job_at_simps]:
  "job_at (db_jobs (commit_failure vis now jid lv e db)) k =
    map_option (\<lambda>j. if status_where vis jid FAILED (Some lv) j
                    then status_values now FAILED None (Some (error_to_dict e)) j else j)
      (job_at (db_jobs db) k)"
  by (simp add: commit_failure_def job_at_update_status)

lemma job_at_commit_retry [job_at_simps]:
  "job_at (db_jobs (commit_retry vis now clock jid lv att msg eid db)) k =
    map_option (\<lambda>j. if retry_where vis jid lv j then retry_values now clock att msg j else j)
      (job_at (db_jobs db) k)"
  by (simp add: commit_retry_def enqueue_def job_at_def retry_upd.find_update)

lemma unique_acquire [simp]:
  "unique_rows job_id (snd (acquire_lease_with_fencing vis now jid owner e rows)) \<longleftrightarrow> unique_rows job_id rows"
  by (simp add: acquire_fencing_rows lease_upd.unique_update)

text \<open>What an execution promises: the row it leaves behind, as a function of the row it found.\<close>

definition executed_row :: "timestamp \<Rightarrow> timestamp \<Rightarrow> job \<Rightarrow> handler_outcome \<Rightarrow> job" where
  "executed_row now clock j out =
    (let r = j\<lparr>lease_owner := None, lease_expires_at := None, updated_at := now,
                lock_version := lock_version j + 2\<rparr> in
     case out of
       Returned res \<Rightarrow> r\<lparr>status := SUCCEEDED, result := (if res = None then result j else res)\<rparr>
     | RaisedApp e \<Rightarrow> r\<lparr>status := FAILED, last_error := Some (error_to_dict e)\<rparr>
     | Raised msg \<Rightarrow>
         if attempt j + 1 < max_attempts j
         then r\<lparr>status := RETRY_WAIT, attempt := attempt j + 1,
                run_after := Some (clock + 2 ^ attempt j), last_error := Some (retry_error msg)\<rparr>
         else r\<lparr>status := FAILED, last_error := Some (error_to_dict max_retries_error)\<rparr>
     | Aborted \<Rightarrow> r\<lparr>status := RUNNING, lock_version := lock_version j + 1\<rparr>)"

text \<open>The job can be executed now: it is there, visible, leaseable, and its lease is free.\<close>

definition executable :: "exec_env \<Rightarrow> uuid \<Rightarrow> job_db \<Rightarrow> job \<Rightarrow> bool" where
  "executable env jid db j =
    (unique_rows job_id (db_jobs db) \<and> job_at (db_jobs db) jid = Some j
     \<and> env_vis env (department_id j)
     \<and> env_job_vis env (department_id j) (created_by j) (department_id j)
     \<and> leaseable (status j) \<and> lease_free (env_now env) j)"

abbreviation leased_row :: "exec_env \<Rightarrow> string \<Rightarrow> job \<Rightarrow> job" where
  "leased_row env owner j \<equiv> lease_values (env_now env) owner (env_clock env + LEASE_TTL_SECONDS) j"

lemma lease_values_sel [simp]:
  "job_id (lease_values now owner e j) = job_id j"
  "department_id (lease_values now owner e j) = department_id j"
  "kind (lease_values now owner e j) = kind j"
  "status (lease_values now owner e j) = RUNNING"
  "attempt (lease_values now owner e j) = attempt j"
  "max_attempts (lease_values now owner e j) = max_attempts j"
  "created_by (lease_values now owner e j) = created_by j"
  "lock_version (lease_values now owner e j) = lock_version j + 1"
  "lease_owner (lease_values now owner e j) = Some owner"
  by (simp_all add: lease_values_def)

definition leased_db :: "exec_env \<Rightarrow> string \<Rightarrow> uuid \<Rightarrow> job_db \<Rightarrow> job_db" where
  "leased_db env owner jid db =
    db\<lparr>db_jobs := snd (acquire_with_fencing (env_vis env) (env_now env) (env_clock env)
                        LEASE_TTL_SECONDS jid owner (db_jobs db))\<rparr>"

lemma executable_lease_where: "executable env jid db j \<Longrightarrow> lease_where (env_vis env) (env_now env) jid j"
  using job_at_key [of "db_jobs db" jid j] by (simp add: executable_def lease_where_def job_row_def)

lemma leased_job_at:
  assumes "executable env jid db j"
  shows "job_at (db_jobs (leased_db env owner jid db)) k =
    (if k = jid then Some (leased_row env owner j) else job_at (db_jobs db) k)"
proof -
  have at: "job_at (db_jobs (leased_db env owner jid db)) k =
      map_option (\<lambda>j. if lease_where (env_vis env) (env_now env) jid j then leased_row env owner j else j)
        (job_at (db_jobs db) k)" for k
    by (simp add: leased_db_def acquire_with_fencing_def job_at_acquire_fencing)
  show ?thesis
  proof (cases "k = jid")
    case True
    then show ?thesis
      using assms executable_lease_where [OF assms] by (simp add: at executable_def)
  next
    case False
    have "\<not> lease_where (env_vis env) (env_now env) jid b" if "job_at (db_jobs db) k = Some b" for b
      using job_at_key [OF that] False by (simp add: lease_where_def job_row_def)
    then show ?thesis
      using False by (cases "job_at (db_jobs db) k") (simp_all add: at)
  qed
qed

lemma leased_unique: "executable env jid db j \<Longrightarrow> unique_rows job_id (db_jobs (leased_db env owner jid db))"
  by (simp add: leased_db_def acquire_with_fencing_def executable_def)

lemma execute_leased:
  assumes "executable env jid db j"
  shows "execute env jid owner db =
    (case execute_body env jid (lock_version j + 1) (leased_db env owner jid db) of
       (r, db') \<Rightarrow> (r, db'\<lparr>db_jobs := lease_release (env_vis env) (env_now env) jid owner (db_jobs db')\<rparr>))"
proof -
  have "fst (acquire_with_fencing (env_vis env) (env_now env) (env_clock env) LEASE_TTL_SECONDS jid owner
      (db_jobs db)) = (True, lock_version j + 1)"
    using assms executable_lease_where [OF assms]
    by (simp add: acquire_with_fencing_def acquire_fencing_result executable_def)
  then show ?thesis
    by (auto simp: execute_def leased_db_def split: prod.split)
qed

lemma execute_body_runs:
  assumes "executable env jid db j" and "dict_get (env_handlers env) (kind j) = Some h"
  shows "execute_body env jid token (leased_db env owner jid db) =
    (case h (leased_row env owner j) (leased_db env owner jid db) of
       (out, db') \<Rightarrow> settle env (env_job_vis env (department_id j) (created_by j)) jid token
                       (leased_row env owner j) out db')"
  using assms leased_job_at [OF assms(1)] leased_unique [OF assms(1)]
  by (simp add: execute_body_def get_job_at executable_def terminal_iff)

lemma settle_job_at:
  assumes "job_at (db_jobs db) jid = Some a" and "vis (department_id a)" and "lock_version a = lv"
    and "\<not> terminal (status a)"
  shows "job_at (db_jobs (snd (settle env vis jid lv j out db))) k =
    (if k = jid then Some (case out of
        Returned r \<Rightarrow> status_values (env_now env) SUCCEEDED r None a
      | RaisedApp e \<Rightarrow> status_values (env_now env) FAILED None (Some (error_to_dict e)) a
      | Raised msg \<Rightarrow> if attempt j + 1 < max_attempts j
          then retry_values (env_now env) (env_clock env) (attempt j) msg a
          else status_values (env_now env) FAILED None (Some (error_to_dict max_retries_error)) a
      | Aborted \<Rightarrow> a)
     else job_at (db_jobs db) k)"
proof -
  have key: "job_id a = jid"
    using assms(1) by (rule job_at_key)
  have w: "status_where vis jid s (Some lv) a" "retry_where vis jid lv a" for s
    using assms key by (simp_all add: status_where_def retry_where_def job_row_def)
  have other: "\<not> status_where vis jid s (Some lv) b" "\<not> retry_where vis jid lv b" if "job_id b \<noteq> jid" for s b
    using that by (simp_all add: status_where_def retry_where_def job_row_def)
  have success: "job_at (db_jobs (snd (settle env vis jid lv j (Returned r) db))) k =
      job_at (db_jobs (snd (commit_success vis (env_now env) jid lv r db))) k" for r k
    by (auto simp: settle_def split: prod.split bool.split option.split)
  show ?thesis
  proof (cases "k = jid")
    case True
    then show ?thesis
      using assms(1) w
      by (cases out) (simp_all add: success job_at_simps, simp_all add: settle_def job_at_simps)
  next
    case False
    then have "job_at (db_jobs db) k = Some b \<Longrightarrow> job_id b \<noteq> jid" for b
      using job_at_key by blast
    then show ?thesis
      using other False
      by (cases out; cases "job_at (db_jobs db) k")
        (simp_all add: success job_at_simps, simp_all add: settle_def job_at_simps)
  qed
qed

lemma settle_ids: "map job_id (db_jobs (snd (settle env vis jid lv j out db))) = map job_id (db_jobs db)"
proof (cases out)
  case (Returned r)
  have "db_jobs (snd (settle env vis jid lv j out db)) =
      db_jobs (snd (commit_success vis (env_now env) jid lv r db))"
    by (auto simp: Returned settle_def split: prod.split bool.split option.split)
  then show ?thesis
    by (simp add: commit_success_def update_status_def status_upd.map_key_update)
qed (simp_all add: settle_def commit_failure_def commit_retry_def enqueue_def update_status_def
    status_upd.map_key_update retry_upd.map_key_update)

lemma execute_unique:
  assumes "executable env jid db j" and "dict_get (env_handlers env) (kind j) = Some h"
    and "\<forall>d. h (leased_row env owner j) d = (out, d)"
  shows "unique_rows job_id (db_jobs (snd (execute env jid owner db)))"
proof -
  have "map job_id (db_jobs (snd (execute env jid owner db))) = map job_id (db_jobs (leased_db env owner jid db))"
    using execute_body_runs [OF assms(1,2), of "lock_version j + 1" owner] assms(3)
    by (simp add: execute_leased [OF assms(1)] settle_ids lease_release_def release_lease_def
        release_upd.map_key_update split: prod.split)
      (metis settle_ids snd_conv)
  then show ?thesis
    using leased_unique [OF assms(1)] by (simp add: unique_rows_def)
qed

text \<open>A job delivered again and again.\<close>

fun executions :: "exec_env \<Rightarrow> uuid \<Rightarrow> string \<Rightarrow> nat \<Rightarrow> job_db \<Rightarrow> job_db" where
  "executions env jid owner 0 db = db"
| "executions env jid owner (Suc n) db = snd (execute env jid owner (executions env jid owner n db))"

lemma execute_refused:
  assumes "unique_rows job_id (db_jobs db)" and "job_at (db_jobs db) jid = Some j"
    and "\<not> leaseable (status j)"
  shows "execute env jid owner db = (Return None, db)"
proof -
  have "r = j" if "r \<in> set (db_jobs db)" "job_id r = jid" for r
    using assms(2) that job_at_iff [OF assms(1), of jid r] by simp
  then have "\<not> lease_where (env_vis env) (env_now env) jid r" if "r \<in> set (db_jobs db)" for r
    using assms(3) that by (auto simp: lease_where_def job_row_def)
  then have "filter (lease_where (env_vis env) (env_now env) jid) (db_jobs db) = []"
    by (simp add: filter_empty_conv)
  then show ?thesis
    by (simp add: execute_def acquire_with_fencing_def acquire_lease_with_fencing_def)
qed

lemma executed_row_executable:
  assumes "executable env jid db j" and "dict_get (env_handlers env) (kind j) = Some h"
    and "\<forall>d. h (leased_row env owner j) d = (Raised msg, d)" and "attempt j + 1 < max_attempts j"
    and at: "job_at (db_jobs (snd (execute env jid owner db))) jid =
      Some (executed_row (env_now env) (env_clock env) j (Raised msg))"
  shows "executable env jid (snd (execute env jid owner db))
    (executed_row (env_now env) (env_clock env) j (Raised msg))"
  using assms(1,4) at execute_unique [OF assms(1-3)]
  by (simp add: executable_def executed_row_def leaseable_iff lease_free_def)

section \<open>Properties\<close>

text \<open>
  C6. One execution. For an executable job whose kind has a handler that leaves the database alone,
  \<open>execute\<close> leaves exactly the row the contract \<open>executed_row\<close> describes (succeeded with the result,
  failed with the error, waiting for its next attempt with exponential backoff, or failed after
  the last one), with the lease released, and touches no other job.
\<close>

theorem execute_settles:
  assumes "executable env jid db j" and "dict_get (env_handlers env) (kind j) = Some h"
    and "\<forall>d. h (leased_row env owner j) d = (out, d)"
  shows "job_at (db_jobs (snd (execute env jid owner db))) k =
    (if k = jid then Some (executed_row (env_now env) (env_clock env) j out) else job_at (db_jobs db) k)"
proof -
  let ?d = "leased_db env owner jid db" and ?a = "leased_row env owner j"
  let ?vis = "env_job_vis env (department_id j) (created_by j)"
  define d2 where "d2 = snd (settle env ?vis jid (lock_version j + 1) ?a out ?d)"
  have key: "job_id j = jid"
    using assms(1) by (auto simp: executable_def dest: job_at_key)
  have run: "snd (execute env jid owner db) =
      d2\<lparr>db_jobs := lease_release (env_vis env) (env_now env) jid owner (db_jobs d2)\<rparr>"
    using execute_body_runs [OF assms(1,2), of "lock_version j + 1" owner] assms(3)
    by (simp add: execute_leased [OF assms(1)] d2_def split: prod.split)
  have at: "job_at (db_jobs d2) k = (if k = jid then Some (case out of
        Returned r \<Rightarrow> status_values (env_now env) SUCCEEDED r None ?a
      | RaisedApp e \<Rightarrow> status_values (env_now env) FAILED None (Some (error_to_dict e)) ?a
      | Raised msg \<Rightarrow> if attempt ?a + 1 < max_attempts ?a
          then retry_values (env_now env) (env_clock env) (attempt ?a) msg ?a
          else status_values (env_now env) FAILED None (Some (error_to_dict max_retries_error)) ?a
      | Aborted \<Rightarrow> ?a) else job_at (db_jobs db) k)" for k
    unfolding d2_def
    by (subst settle_job_at [where a = ?a])
      (use assms(1) leased_job_at [OF assms(1)] in \<open>auto simp: executable_def terminal_iff\<close>)
  show ?thesis
  proof (cases "k = jid")
    case True
    then show ?thesis
      using assms(1) key
      by (cases out)
        (simp_all add: run at lease_release_def job_at_release owner_where_def job_row_def executable_def
          status_values_def retry_values_def release_values_def executed_row_def lease_values_def)
  next
    case False
    then show ?thesis
      by (cases "job_at (db_jobs db) k")
        (auto simp: run at lease_release_def job_at_release owner_where_def job_row_def dest: job_at_key)
  qed
qed

definition sample_job :: job where
  "sample_job = new_job 5 1 6 ''backup'' JNull ''k'' 11"

definition sample_env :: "handler_outcome \<Rightarrow> exec_env" where
  "sample_env out = \<lparr>env_vis = (\<lambda>_. True), env_job_vis = (\<lambda>_ _ _. True), env_now = 20, env_clock = 20,
     env_handlers = [(''backup'', \<lambda>_ d. (out, d))], env_event = 91\<rparr>"

lemma sample_executable:
  "executable (sample_env out) 11 \<lparr>db_jobs = [sample_job], db_outbox = []\<rparr> sample_job"
  by (simp add: executable_def sample_env_def sample_job_def new_job_def job_at_def sql_find_def
      unique_rows_def leaseable_iff lease_free_def)

lemma sample_handler: "dict_get (env_handlers (sample_env out)) (kind sample_job) = Some (\<lambda>_ d. (out, d))"
  by (simp add: sample_env_def sample_job_def new_job_def dict_get_def)

lemma execute_settles_witness:
  "job_at (db_jobs (snd (execute (sample_env (Returned (Some (JInt 3)))) 11 ''w''
      \<lparr>db_jobs = [sample_job], db_outbox = []\<rparr>))) 11 =
    Some (sample_job\<lparr>updated_at := 20, lock_version := 2, status := SUCCEEDED, result := Some (JInt 3)\<rparr>)"
proof -
  have "executed_row 20 20 sample_job (Returned (Some (JInt 3))) =
      sample_job\<lparr>updated_at := 20, lock_version := 2, status := SUCCEEDED, result := Some (JInt 3)\<rparr>"
    by (simp add: executed_row_def sample_job_def new_job_def)
  moreover have "env_now (sample_env out) = 20" "env_clock (sample_env out) = 20" for out
    by (simp_all add: sample_env_def)
  ultimately show ?thesis
    using execute_settles [OF sample_executable sample_handler, where k = 11 and owner = "''w''"]
    by simp
qed

text \<open>
  C7. Retries are bounded. A job whose handler fails with an ordinary exception every time is left
  in \<open>retry_wait\<close> with its attempt counted after each of the first executions, is failed with
  \<open>max_retries_exceeded\<close> by execution number \<open>max_attempts - attempt\<close>, and every later delivery
  is refused and changes nothing, so the handler runs at most \<open>max_attempts\<close> times.
\<close>

theorem retries_bounded:
  assumes "executable env jid db j" and "dict_get (env_handlers env) (kind j) = Some h"
    and "\<forall>a d. h a d = (Raised msg, d)" and "attempt j < max_attempts j"
  shows "\<exists>j'. job_at (db_jobs (executions env jid owner n db)) jid = Some j' \<and>
    (if n < max_attempts j - attempt j
     then leaseable (status j') \<and> attempt j' = attempt j + n
     else status j' = FAILED \<and> last_error j' = Some (error_to_dict max_retries_error) \<and>
          attempt j' = max_attempts j - 1 \<and>
          execute env jid owner (executions env jid owner n db) =
            (Return None, executions env jid owner n db))"
proof -
  have "(n < max_attempts j - attempt j \<longrightarrow>
      (\<exists>j'. executable env jid (executions env jid owner n db) j' \<and> attempt j' = attempt j + n \<and>
        max_attempts j' = max_attempts j \<and> kind j' = kind j)) \<and>
    (max_attempts j - attempt j \<le> n \<longrightarrow>
      unique_rows job_id (db_jobs (executions env jid owner n db)) \<and>
      (\<exists>j'. job_at (db_jobs (executions env jid owner n db)) jid = Some j' \<and> status j' = FAILED \<and>
        last_error j' = Some (error_to_dict max_retries_error) \<and> attempt j' = max_attempts j - 1))"
    (is "?run n \<and> ?end n")
  proof (induction n)
    case 0
    then show ?case using assms by auto
  next
    case (Suc n)
    let ?d = "executions env jid owner n db"
    show ?case
    proof (cases "n < max_attempts j - attempt j")
      case True
      then obtain j' where j': "executable env jid ?d j'" "attempt j' = attempt j + n"
          "max_attempts j' = max_attempts j" "kind j' = kind j"
        using Suc.IH by blast
      have h: "dict_get (env_handlers env) (kind j') = Some h"
        "\<forall>d. h (leased_row env owner j') d = (Raised msg, d)"
        using assms(2,3) j'(4) by simp_all
      have at: "job_at (db_jobs (snd (execute env jid owner ?d))) jid =
          Some (executed_row (env_now env) (env_clock env) j' (Raised msg))"
        using execute_settles [OF j'(1) h, of jid] by simp
      show ?thesis
      proof (cases "Suc n < max_attempts j - attempt j")
        case True
        then have "attempt j' + 1 < max_attempts j'"
          using j' by simp
        then show ?thesis
          using executed_row_executable [OF j'(1) h _ at] True j'
          by (auto simp: executed_row_def)
      next
        case False
        then have "\<not> attempt j' + 1 < max_attempts j'" "attempt j' = max_attempts j - 1"
          using j' \<open>n < max_attempts j - attempt j\<close> by simp_all
        then show ?thesis
          using at False execute_unique [OF j'(1) h] by (simp add: executed_row_def)
      qed
    next
      case False
      then have "?end n"
        using Suc.IH by blast
      then show ?thesis
        using False by (auto simp: execute_refused leaseable_iff)
    qed
  qed
  then show ?thesis
    by (cases "n < max_attempts j - attempt j")
      (fastforce simp: executable_def, fastforce simp: execute_refused leaseable_iff)
qed

lemma retries_bounded_witness:
  "\<exists>j'. job_at (db_jobs (executions (sample_env (Raised ''boom'')) 11 ''w'' 3
      \<lparr>db_jobs = [sample_job], db_outbox = []\<rparr>)) 11 = Some j' \<and> status j' = FAILED"
proof -
  have "attempt sample_job = 0" "max_attempts sample_job = 3"
    by (simp_all add: sample_job_def new_job_def)
  then show ?thesis
    using retries_bounded [OF sample_executable sample_handler, where msg = "''boom''" and owner = "''w''" and n = 3]
    by auto
qed

text \<open>
  Kinds that are accepted and cannot run. \<open>ingestion\<close> and \<open>restore\<close> have a policy, and
  \<open>ingestion\<close> is open to general submission, but the worker registers no handler for either: with
  the registered handlers such a job fails with \<open>unknown_job_kind\<close> on its first execution.
\<close>

theorem unhandled_kind_fails:
  assumes "executable env jid db j" and "dict_keys (env_handlers env) = registered_handlers"
    and "kind j \<in> set registered_kinds - set registered_handlers"
  shows "kind j \<in> {''ingestion'', ''restore''} \<and>
    (\<exists>j'. job_at (db_jobs (snd (execute env jid owner db))) jid = Some j' \<and> status j' = FAILED \<and>
      last_error j' = Some (error_to_dict (unknown_kind_error (kind j))) \<and> lease_owner j' = None)"
proof
  show "kind j \<in> {''ingestion'', ''restore''}"
    using assms(3) by (auto simp: registered_kinds_def registered_handlers_def POLICIES_def dict_keys_def)
  let ?d = "leased_db env owner jid db" and ?a = "leased_row env owner j"
  let ?e = "unknown_kind_error (kind j)"
  let ?v = "env_job_vis env (department_id j) (created_by j)"
  have none: "dict_get (env_handlers env) (kind j) = None"
    using assms(2,3) by (simp add: dict_get_None_iff)
  have at: "job_at (db_jobs ?d) jid = Some ?a"
    by (simp add: leased_job_at [OF assms(1)])
  have body: "snd (execute_body env jid (lock_version j + 1) ?d) =
      commit_failure ?v (env_now env) jid (lock_version j + 1) ?e ?d"
    using assms(1) at leased_unique [OF assms(1)] none
    by (simp add: execute_body_def get_job_at executable_def terminal_iff)
  have "job_id j = jid"
    using assms(1) by (auto simp: executable_def dest: job_at_key)
  then have w: "status_where ?v jid FAILED (Some (lock_version j + 1)) ?a"
    using assms(1) by (simp add: status_where_def job_row_def executable_def terminal_iff)
  define b where "b = status_values (env_now env) FAILED None (Some (error_to_dict ?e)) ?a"
  have settled: "job_at (db_jobs (snd (execute_body env jid (lock_version j + 1) ?d))) jid = Some b"
    unfolding body job_at_commit_failure using at w by (simp add: b_def)
  have "owner_where (env_vis env) jid owner b"
    using assms(1) \<open>job_id j = jid\<close>
    by (simp add: b_def owner_where_def job_row_def executable_def status_values_def)
  then have "job_at (db_jobs (snd (execute env jid owner db))) jid = Some (release_values (env_now env) b)"
    using settled
    by (cases "execute_body env jid (lock_version j + 1) ?d")
      (simp add: execute_leased [OF assms(1)] lease_release_def job_at_release)
  then show "\<exists>j'. job_at (db_jobs (snd (execute env jid owner db))) jid = Some j' \<and> status j' = FAILED \<and>
      last_error j' = Some (error_to_dict ?e) \<and> lease_owner j' = None"
    by (simp add: release_values_def status_values_def b_def)
qed

definition worker_env :: "handler \<Rightarrow> exec_env" where
  "worker_env h = \<lparr>env_vis = (\<lambda>_. True), env_job_vis = (\<lambda>_ _ _. True), env_now = 20, env_clock = 20,
     env_handlers = map (\<lambda>k. (k, h)) registered_handlers, env_event = 91\<rparr>"

lemma unhandled_kind_fails_witness:
  "\<exists>j'. job_at (db_jobs (snd (execute (worker_env (\<lambda>_ d. (Returned None, d))) 11 ''w''
      \<lparr>db_jobs = [new_job 5 1 6 ''ingestion'' JNull ''k'' 11], db_outbox = []\<rparr>))) 11 = Some j' \<and>
    status j' = FAILED"
proof -
  let ?env = "worker_env (\<lambda>_ d. (Returned None, d))"
  let ?j = "new_job 5 1 6 ''ingestion'' JNull ''k'' 11"
  have "executable ?env 11 \<lparr>db_jobs = [?j], db_outbox = []\<rparr> ?j"
    by (simp add: executable_def worker_env_def new_job_def job_at_def sql_find_def
        unique_rows_def leaseable_iff lease_free_def)
  moreover have "dict_keys (env_handlers ?env) = registered_handlers"
    by (simp add: worker_env_def dict_keys_def comp_def)
  moreover have "kind ?j \<in> set registered_kinds - set registered_handlers"
    by (simp add: new_job_def registered_kinds_def registered_handlers_def POLICIES_def dict_keys_def)
  ultimately show ?thesis
    using unhandled_kind_fails [of ?env 11 "\<lparr>db_jobs = [?j], db_outbox = []\<rparr>" ?j "''w''"] by blast
qed

text \<open>
  The backoff is not waited for. The lease condition does not look at \<open>run_after\<close>: a job that
  waits for its next attempt can be leased the moment its lease is released, however far in the
  future \<open>run_after\<close> lies, and the \<open>job.retry_wait\<close> event that \<open>_commit_retry\<close> writes is at once
  pending for the dispatcher, also when the commit itself found a stale version and wrote no row.
\<close>

theorem backoff_not_enforced:
  assumes "unique_rows job_id (db_jobs db)" and "job_at (db_jobs db) jid = Some j"
    and "status j = RETRY_WAIT" and "lease_owner j = None" and "vis (department_id j)"
    and "run_after j = Some t" and "now < t"
  shows "fst (acquire_with_fencing vis now clock LEASE_TTL_SECONDS jid owner (db_jobs db)) =
           (True, lock_version j + 1) \<and>
         (\<exists>e\<in>set (db_outbox (commit_retry vis now clock jid stale att msg eid db)).
            pending e \<and> aggregate_id e = jid \<and> event_type e = ''job.retry_wait'')"
  using assms job_at_key [OF assms(2)]
  by (simp add: acquire_with_fencing_def acquire_fencing_result lease_where_def job_row_def
      leaseable_iff lease_free_def commit_retry_def enqueue_def mk_event_def pending_def)

lemma backoff_not_enforced_witness:
  "fst (acquire_with_fencing (\<lambda>_. True) 20 20 LEASE_TTL_SECONDS 11 ''w''
     [sample_job\<lparr>status := RETRY_WAIT, run_after := Some 99\<rparr>]) = (True, 1)"
proof -
  let ?j = "sample_job\<lparr>status := RETRY_WAIT, run_after := Some 99\<rparr>"
  let ?db = "\<lparr>db_jobs = [?j], db_outbox = []\<rparr>"
  have "job_at (db_jobs ?db) 11 = Some ?j" "unique_rows job_id (db_jobs ?db)" "lock_version ?j = 0"
      "lease_owner ?j = None"
    by (simp_all add: job_at_def sql_find_def unique_rows_def sample_job_def new_job_def)
  then show ?thesis
    using backoff_not_enforced [of ?db 11 ?j "\<lambda>_. True" 99 20 20 "''w''"] by simp
qed

end
