(* ===== verification/JobSystem.thy ===== *)
theory JobSystem imports JobWorker begin

text \<open>
  Many executions, the periodic tasks (\<open>worker.reap_expired_leases\<close>, \<open>worker.retry_wait_jobs\<close> of
  \<open>apps/worker/celery_app.py\<close>) and the users of \<open>JobService\<close> at work on one database. One step is
  one committed statement; the clocks of a step are arbitrary, so nothing rests on how well the
  clocks of the workers and of the database agree.
\<close>

section \<open>Periodic tasks and unguarded writers\<close>

definition retry_wait_select :: "visibility \<Rightarrow> timestamp \<Rightarrow> job list \<Rightarrow> uuid list" where
  "retry_wait_select vis clock rows =
    map job_id (filter (\<lambda>j. vis (department_id j) \<and> status j = RETRY_WAIT
      \<and> (case run_after j of None \<Rightarrow> False | Some t \<Rightarrow> t \<le> clock)) rows)"

definition requeue_values :: "timestamp \<Rightarrow> job \<Rightarrow> job" where
  "requeue_values now j = j\<lparr>status := QUEUED, updated_at := now, lock_version := lock_version j + 1\<rparr>"

text \<open>The loop over the selected jobs: an \<open>UPDATE\<close> by primary key alone, and an event, for each.\<close>

fun retry_wait_write ::
    "visibility \<Rightarrow> timestamp \<Rightarrow> (uuid \<Rightarrow> uuid) \<Rightarrow> uuid list \<Rightarrow> job_db \<Rightarrow> job_db" where
  "retry_wait_write vis now eids [] db = db"
| "retry_wait_write vis now eids (i # ids) db =
    retry_wait_write vis now eids ids
      (enqueue (mk_event (eids i) now i ''job.requeued'' None)
        (db\<lparr>db_jobs := sql_update (job_row vis i) (requeue_values now) (db_jobs db)\<rparr>))"

definition retry_wait_jobs ::
    "visibility \<Rightarrow> timestamp \<Rightarrow> timestamp \<Rightarrow> (uuid \<Rightarrow> uuid) \<Rightarrow> job_db \<Rightarrow> nat \<times> job_db" where
  "retry_wait_jobs vis clock now eids db =
    (let ids = retry_wait_select vis clock (db_jobs db)
     in (length ids, retry_wait_write vis now eids ids db))"

text \<open>\<open>_mark_job_failed\<close> (\<open>apps/worker/tasks/flows.py\<close>): no version and no status in the \<open>WHERE\<close>.\<close>

definition mark_failed_values :: "timestamp \<Rightarrow> string \<Rightarrow> job \<Rightarrow> job" where
  "mark_failed_values now err j =
    j\<lparr>status := FAILED, last_error := Some (JObj [(''error'', JStr err)]), updated_at := now,
      lock_version := lock_version j + 1\<rparr>"

definition mark_job_failed :: "visibility \<Rightarrow> timestamp \<Rightarrow> uuid \<Rightarrow> string \<Rightarrow> job list \<Rightarrow> job list" where
  "mark_job_failed vis now jid err rows = sql_update (job_row vis jid) (mark_failed_values now err) rows"

section \<open>The system\<close>

datatype exec_phase =
    Idle
  | Leased uuid string nat
  | Handling job string nat
  | Releasing uuid string
  | Done

fun holds :: "exec_phase \<Rightarrow> (uuid \<times> nat) option" where
  "holds (Leased jid owner token) = Some (jid, token)"
| "holds (Handling j owner token) = Some (job_id j, token)"
| "holds _ = None"

fun lease_of :: "exec_phase \<Rightarrow> (uuid \<times> string) option" where
  "lease_of (Leased jid owner token) = Some (jid, owner)"
| "lease_of (Handling j owner token) = Some (job_id j, owner)"
| "lease_of (Releasing jid owner) = Some (jid, owner)"
| "lease_of _ = None"

text \<open>
  \<open>sys_cancels\<close>: rows read by cancellations that have not written yet; \<open>sys_reaps\<close>: id lists
  selected by reapers that have not written yet; \<open>sys_commits\<close>: the record of the terminal
  commits that found their row.
\<close>

record sys =
  sys_db :: job_db
  sys_execs :: "nat \<Rightarrow> exec_phase"
  sys_cancels :: "job list"
  sys_reaps :: "uuid list list"
  sys_commits :: "(uuid \<times> job_status) list"

definition set_rows :: "job list \<Rightarrow> sys \<Rightarrow> sys" where
  "set_rows rs s = s\<lparr>sys_db := (sys_db s)\<lparr>db_jobs := rs\<rparr>\<rparr>"

definition set_exec :: "nat \<Rightarrow> exec_phase \<Rightarrow> sys \<Rightarrow> sys" where
  "set_exec e p s = s\<lparr>sys_execs := (sys_execs s)(e := p)\<rparr>"

abbreviation job_rows :: "sys \<Rightarrow> job list" where
  "job_rows s \<equiv> db_jobs (sys_db s)"

text \<open>The system visibility \<open>sv\<close> of the workers, and \<open>jv\<close>, that of a session for a job.\<close>

inductive sys_step :: "visibility \<Rightarrow> (uuid \<Rightarrow> uuid option \<Rightarrow> visibility) \<Rightarrow> sys \<Rightarrow> sys \<Rightarrow> bool"
  for sv :: visibility and jv :: "uuid \<Rightarrow> uuid option \<Rightarrow> visibility" where
  submit: "fst (accept_write now dept actor k p key jid eid (sys_db s)) = Inr r \<Longrightarrow>
    sys_step sv jv s (s\<lparr>sys_db := snd (accept_write now dept actor k p key jid eid (sys_db s))\<rparr>)"
| cancel_read: "cancel_read vis jid (sys_db s) = Inr j \<Longrightarrow>
    sys_step sv jv s (s\<lparr>sys_cancels := j # sys_cancels s\<rparr>)"
| cancel_write: "j \<in> set (sys_cancels s) \<Longrightarrow>
    sys_step sv jv s (s\<lparr>sys_cancels := remove1 j (sys_cancels s),
      sys_db := snd (cancel_write vis now (job_id j) actor eid j (sys_db s))\<rparr>)"
| acquire: "sys_execs s e = Idle \<Longrightarrow>
    acquire_with_fencing sv now clock LEASE_TTL_SECONDS jid owner (job_rows s) = ((True, token), rs) \<Longrightarrow>
    sys_step sv jv s (set_exec e (Leased jid owner token) (set_rows rs s))"
| acquire_refused: "sys_execs s e = Idle \<Longrightarrow>
    acquire_with_fencing sv now clock LEASE_TTL_SECONDS jid owner (job_rows s) = ((False, token), rs) \<Longrightarrow>
    sys_step sv jv s (set_exec e Done (set_rows rs s))"
| beat: "lease_of (sys_execs s e) = Some (jid, owner) \<Longrightarrow>
    sys_step sv jv s (set_rows (snd (heartbeat sv now clock LEASE_TTL_SECONDS jid owner (job_rows s))) s)"
| read_stop: "sys_execs s e = Leased jid owner token \<Longrightarrow>
    (case get_job sv jid (job_rows s) of None \<Rightarrow> True | Some j \<Rightarrow> terminal (status j)) \<Longrightarrow>
    sys_step sv jv s (set_exec e (Releasing jid owner) s)"
| read: "sys_execs s e = Leased jid owner token \<Longrightarrow> get_job sv jid (job_rows s) = Some j \<Longrightarrow>
    \<not> terminal (status j) \<Longrightarrow> sys_step sv jv s (set_exec e (Handling j owner token) s)"
| succeed: "sys_execs s e = Handling j owner token \<Longrightarrow>
    commit_success (jv (department_id j) (created_by j)) now (job_id j) token res (sys_db s) = (ok, db) \<Longrightarrow>
    sys_step sv jv s (set_exec e (Releasing (job_id j) owner)
      (s\<lparr>sys_db := db, sys_commits := (if ok then [(job_id j, SUCCEEDED)] else []) @ sys_commits s\<rparr>))"
| fail: "sys_execs s e = Handling j owner token \<Longrightarrow>
    ok = fst (update_status (jv (department_id j) (created_by j)) now (job_id j) FAILED None
           (Some (error_to_dict err)) (Some token) (job_rows s)) \<Longrightarrow>
    sys_step sv jv s (set_exec e (Releasing (job_id j) owner)
      (s\<lparr>sys_db := commit_failure (jv (department_id j) (created_by j)) now (job_id j) token err (sys_db s),
         sys_commits := (if ok then [(job_id j, FAILED)] else []) @ sys_commits s\<rparr>))"
| retry: "sys_execs s e = Handling j owner token \<Longrightarrow> attempt j + 1 < max_attempts j \<Longrightarrow>
    sys_step sv jv s (set_exec e (Releasing (job_id j) owner)
      (s\<lparr>sys_db := commit_retry (jv (department_id j) (created_by j)) now clock (job_id j) token
                    (attempt j) msg eid (sys_db s)\<rparr>))"
| abort: "lease_of (sys_execs s e) = Some (jid, owner) \<Longrightarrow>
    sys_step sv jv s (set_exec e (Releasing jid owner) s)"
| release: "sys_execs s e = Releasing jid owner \<Longrightarrow>
    sys_step sv jv s (set_exec e Done (set_rows (lease_release sv now jid owner (job_rows s)) s))"
| crash: "sys_step sv jv s (set_exec e Done s)"
| reap_read: "sys_step sv jv s (s\<lparr>sys_reaps := reap_select sv clock (job_rows s) # sys_reaps s\<rparr>)"
| reap_write: "ids \<in> set (sys_reaps s) \<Longrightarrow>
    sys_step sv jv s (s\<lparr>sys_reaps := remove1 ids (sys_reaps s),
      sys_db := reap_write sv now eids ids (sys_db s)\<rparr>)"
| requeue: "sys_step sv jv s (s\<lparr>sys_db := snd (retry_wait_jobs sv clock now eids (sys_db s))\<rparr>)"

definition initial :: "sys \<Rightarrow> bool" where
  "initial s \<longleftrightarrow> job_rows s = [] \<and> (\<forall>e. sys_execs s e = Idle) \<and> sys_cancels s = [] \<and> sys_reaps s = [] \<and>
    sys_commits s = []"

inductive reachable :: "visibility \<Rightarrow> (uuid \<Rightarrow> uuid option \<Rightarrow> visibility) \<Rightarrow> sys \<Rightarrow> bool"
  for sv :: visibility and jv :: "uuid \<Rightarrow> uuid option \<Rightarrow> visibility" where
  start: "initial s \<Longrightarrow> reachable sv jv s"
| step: "reachable sv jv s \<Longrightarrow> sys_step sv jv s s' \<Longrightarrow> reachable sv jv s'"

section \<open>Rows with a version\<close>

text \<open>
  The contract the interleaved system keeps towards every row: a step leaves the row as it is
  under its version, or writes it and raises the version, and only an unfrozen row is written.
  What follows for any number of steps is proved once, for any system of this kind.
\<close>

locale versioned_rows =
  fixes step :: "'s \<Rightarrow> 's \<Rightarrow> bool"
    and inv :: "'s \<Rightarrow> bool"
    and row :: "'s \<Rightarrow> 'k \<Rightarrow> 'r option"
    and ver :: "'r \<Rightarrow> nat"
    and view :: "'r \<Rightarrow> 'v"
    and frozen :: "'r \<Rightarrow> bool"
  assumes inv_step: "inv s \<Longrightarrow> step s s' \<Longrightarrow> inv s'"
    and row_step: "inv s \<Longrightarrow> step s s' \<Longrightarrow> row s k = Some r \<Longrightarrow>
      \<exists>r'. row s' k = Some r' \<and>
        (ver r' = ver r \<and> view r' = view r \<or> ver r < ver r' \<and> \<not> frozen r)"
    and frozen_view: "view r = view r' \<Longrightarrow> frozen r = frozen r'"
begin

lemma row_steps:
  assumes "step\<^sup>*\<^sup>* s s'" and "inv s" and "row s k = Some r"
  shows "inv s' \<and> (\<exists>r'. row s' k = Some r' \<and>
    (ver r' = ver r \<and> view r' = view r \<or> ver r < ver r' \<and> \<not> frozen r))"
  using assms
proof (induction rule: rtranclp_induct)
  case (step t u)
  then obtain r1 where r1: "inv t" "row t k = Some r1"
      "ver r1 = ver r \<and> view r1 = view r \<or> ver r < ver r1 \<and> \<not> frozen r"
    by blast
  obtain r2 where r2: "row u k = Some r2"
      "ver r2 = ver r1 \<and> view r2 = view r1 \<or> ver r1 < ver r2 \<and> \<not> frozen r1"
    using row_step [OF r1(1) step.hyps(2) r1(2)] by blast
  have "ver r2 = ver r \<and> view r2 = view r \<or> ver r < ver r2 \<and> \<not> frozen r"
    using r1(3) r2(2) frozen_view [of r1 r] by force
  then show ?case
    using inv_step [OF r1(1) step.hyps(2)] r2(1) by blast
qed blast

lemma frozen_forever:
  assumes "step\<^sup>*\<^sup>* s s'" and "inv s" and "row s k = Some r" and "frozen r"
  shows "\<exists>r'. row s' k = Some r' \<and> ver r' = ver r \<and> view r' = view r"
  using row_steps [OF assms(1-3)] assms(4) by blast

lemma same_version_same_view:
  assumes "step\<^sup>*\<^sup>* s s'" and "inv s" and "row s k = Some r" and "row s' k = Some r'"
    and "ver r' = ver r"
  shows "view r' = view r"
  using row_steps [OF assms(1-3)] assms(4,5) by auto

end

section \<open>One step on one row\<close>

text \<open>A row up to its lease: the part of it that only versioned writes change.\<close>

definition row_view :: "job \<Rightarrow> job" where
  "row_view j = j\<lparr>lease_owner := None, lease_expires_at := None, updated_at := 0\<rparr>"

definition follows :: "job \<Rightarrow> job \<Rightarrow> bool" where
  "follows r r' \<longleftrightarrow>
    lock_version r' = lock_version r \<and> row_view r' = row_view r \<or>
    lock_version r < lock_version r' \<and> \<not> terminal (status r)"

definition rows_follow :: "job list \<Rightarrow> job list \<Rightarrow> bool" where
  "rows_follow old new \<longleftrightarrow>
    (\<forall>k r. job_at old k = Some r \<longrightarrow> (\<exists>r'. job_at new k = Some r' \<and> follows r r'))"

lemma follows_refl [simp]: "follows r r"
  by (simp add: follows_def)

lemma row_view_sel:
  "status (row_view r) = status r" "result (row_view r) = result r" "attempt (row_view r) = attempt r"
  "last_error (row_view r) = last_error r" "lock_version (row_view r) = lock_version r"
  by (simp_all add: row_view_def)

lemma row_view_status: "row_view r = row_view r' \<Longrightarrow> status r = status r'"
  by (metis row_view_sel(1))

lemma follows_status: "follows r r' \<Longrightarrow> lock_version r' = lock_version r \<Longrightarrow> status r' = status r"
  by (auto simp: follows_def dest: row_view_status)

lemma follows_version: "follows r r' \<Longrightarrow> lock_version r \<le> lock_version r'"
  by (auto simp: follows_def)

lemma rows_follow_refl [simp]: "rows_follow rs rs"
  by (simp add: rows_follow_def)

lemma rows_follow_update:
  assumes "\<And>k. job_at new k = map_option (\<lambda>j. if p j then f j else j) (job_at old k)"
    and "\<And>k r. job_at old k = Some r \<Longrightarrow> p r \<Longrightarrow> follows r (f r)"
  shows "rows_follow old new"
  using assms by (simp add: rows_follow_def)

lemma follows_lease: "p r \<Longrightarrow> (\<And>r. p r \<Longrightarrow> leaseable (status r)) \<Longrightarrow> follows r (lease_values now owner e r)"
  by (auto simp: follows_def dest: leaseable_not_terminal)

lemma follows_lease_only [simp]:
  "follows r (renew_values now e r)" "follows r (release_values now r)"
  by (simp_all add: follows_def row_view_def renew_values_def release_values_def)

lemma follows_written:
  "\<not> terminal (status r) \<Longrightarrow> follows r (status_values now s res err r)"
  "\<not> terminal (status r) \<Longrightarrow> follows r (cancel_values now r)"
  "\<not> terminal (status r) \<Longrightarrow> follows r (retry_values now clock att msg r)"
  "\<not> terminal (status r) \<Longrightarrow> follows r (reap_values now r)"
  "\<not> terminal (status r) \<Longrightarrow> follows r (requeue_values now r)"
  by (simp_all add: follows_def status_values_def cancel_values_def retry_values_def reap_values_def
      requeue_values_def)

interpretation requeue_upd: versioned_update job_id "requeue_values now" lock_version
  for now
  by unfold_locales (simp_all add: requeue_values_def)

interpretation mark_failed_upd: versioned_update job_id "mark_failed_values now err" lock_version
  for now err
  by unfold_locales (simp_all add: mark_failed_values_def)

lemma job_at_mark_job_failed [job_at_simps]:
  "job_at (mark_job_failed vis now jid err rows) k =
    map_option (\<lambda>j. if job_row vis jid j then mark_failed_values now err j else j) (job_at rows k)"
  by (simp add: job_at_def mark_job_failed_def mark_failed_upd.find_update)

lemma retry_wait_write_keys:
  "map job_id (db_jobs (retry_wait_write vis now eids ids db)) = map job_id (db_jobs db)"
  by (induction vis now eids ids db rule: retry_wait_write.induct)
    (simp_all add: enqueue_def requeue_upd.map_key_update)

lemma retry_wait_write_row:
  "job_at (db_jobs db) k = Some r \<Longrightarrow>
    \<exists>r'. job_at (db_jobs (retry_wait_write vis now eids ids db)) k = Some r' \<and>
      (if k \<in> set ids \<and> vis (department_id r) then lock_version r < lock_version r' else r' = r)"
proof (induction vis now eids ids db arbitrary: r rule: retry_wait_write.induct)
  case (2 vis now eids i ids db)
  let ?d = "enqueue (mk_event (eids i) now i ''job.requeued'' None)
        (db\<lparr>db_jobs := sql_update (job_row vis i) (requeue_values now) (db_jobs db)\<rparr>)"
  let ?r1 = "if job_row vis i r then requeue_values now r else r"
  have key: "job_id r = k"
    using "2.prems" by (rule job_at_key)
  have "job_at (db_jobs ?d) k = Some ?r1"
    using "2.prems" by (simp add: enqueue_def job_at_def requeue_upd.find_update)
  from "2.IH" [OF this] obtain r' where
    at: "job_at (db_jobs (retry_wait_write vis now eids ids ?d)) k = Some r'" and
    r': "if k \<in> set ids \<and> vis (department_id ?r1) then lock_version ?r1 < lock_version r' else r' = ?r1"
    by blast
  have "if k \<in> set (i # ids) \<and> vis (department_id r) then lock_version r < lock_version r' else r' = r"
    using r' key by (auto simp: job_row_def requeue_values_def split: if_splits)
  then show ?case
    using at by simp
qed simp

lemma retry_wait_follow:
  assumes "unique_rows job_id (db_jobs db)"
  shows "rows_follow (db_jobs db) (db_jobs (snd (retry_wait_jobs sv clock now eids db)))"
  unfolding rows_follow_def
proof (intro allI impI)
  fix k r assume r: "job_at (db_jobs db) k = Some r"
  let ?ids = "retry_wait_select sv clock (db_jobs db)"
  have "j = r" if "j \<in> set (db_jobs db)" "job_id j = k" for j
    using that r job_at_iff [OF assms, of k j] by simp
  then have "status r = RETRY_WAIT" if "k \<in> set ?ids"
    using that by (fastforce simp: retry_wait_select_def)
  then show "\<exists>r'. job_at (db_jobs (snd (retry_wait_jobs sv clock now eids db))) k = Some r' \<and> follows r r'"
    using retry_wait_write_row [OF r, of sv now eids ?ids]
    by (force simp: retry_wait_jobs_def Let_def follows_def terminal_iff split: if_splits)
qed

section \<open>The invariant\<close>

definition token_ok :: "job list \<Rightarrow> uuid \<Rightarrow> nat \<Rightarrow> bool" where
  "token_ok rs jid t \<longleftrightarrow>
    (\<exists>r. job_at rs jid = Some r \<and> t \<le> lock_version r \<and> (t = lock_version r \<longrightarrow> status r = RUNNING))"

definition snapshot_ok :: "job list \<Rightarrow> job \<Rightarrow> bool" where
  "snapshot_ok rs j \<longleftrightarrow> \<not> terminal (status j) \<and>
    (\<exists>r. job_at rs (job_id j) = Some r \<and> lock_version j \<le> lock_version r \<and>
      (lock_version j = lock_version r \<longrightarrow> status r = status j))"

definition commit_ok :: "job list \<Rightarrow> uuid \<times> job_status \<Rightarrow> bool" where
  "commit_ok rs c \<longleftrightarrow> terminal (snd c) \<and> (\<exists>r. job_at rs (fst c) = Some r \<and> status r = snd c)"

definition sys_inv :: "sys \<Rightarrow> bool" where
  "sys_inv s \<longleftrightarrow> unique_rows job_id (job_rows s) \<and>
    (\<forall>e jid t. holds (sys_execs s e) = Some (jid, t) \<longrightarrow> token_ok (job_rows s) jid t) \<and>
    (\<forall>e e' c. holds (sys_execs s e) = Some c \<longrightarrow> holds (sys_execs s e') = Some c \<longrightarrow> e = e') \<and>
    (\<forall>j\<in>set (sys_cancels s). snapshot_ok (job_rows s) j) \<and>
    (\<forall>c\<in>set (sys_commits s). commit_ok (job_rows s) c) \<and> distinct (map fst (sys_commits s))"

lemma rows_followE:
  assumes "rows_follow old new" and "job_at old k = Some r"
  obtains r' where "job_at new k = Some r'" "follows r r'"
  using assms by (auto simp: rows_follow_def)

lemma token_ok_follow:
  assumes "rows_follow old new" and "token_ok old jid t"
  shows "token_ok new jid t"
proof -
  obtain r where r: "job_at old jid = Some r" "t \<le> lock_version r" "t = lock_version r \<longrightarrow> status r = RUNNING"
    using assms(2) by (auto simp: token_ok_def)
  obtain r' where r': "job_at new jid = Some r'" "follows r r'"
    using assms(1) r(1) by (rule rows_followE)
  have "lock_version r = lock_version r'" if "t = lock_version r'"
    using that r(2) follows_version [OF r'(2)] by simp
  then show ?thesis
    using r r' follows_version [OF r'(2)] follows_status [OF r'(2)] by (auto simp: token_ok_def)
qed

lemma snapshot_ok_follow:
  assumes "rows_follow old new" and "snapshot_ok old j"
  shows "snapshot_ok new j"
proof -
  obtain r where r: "job_at old (job_id j) = Some r" "lock_version j \<le> lock_version r"
      "lock_version j = lock_version r \<longrightarrow> status r = status j" "\<not> terminal (status j)"
    using assms(2) by (auto simp: snapshot_ok_def)
  obtain r' where r': "job_at new (job_id j) = Some r'" "follows r r'"
    using assms(1) r(1) by (rule rows_followE)
  have "lock_version r = lock_version r'" if "lock_version j = lock_version r'"
    using that r(2) follows_version [OF r'(2)] by simp
  then show ?thesis
    using r r' follows_version [OF r'(2)] follows_status [OF r'(2)] by (auto simp: snapshot_ok_def)
qed

lemma commit_ok_follow: "rows_follow old new \<Longrightarrow> commit_ok old c \<Longrightarrow> commit_ok new c"
  unfolding commit_ok_def by (metis rows_followE follows_def row_view_status)

lemma sys_inv_keep:
  assumes "sys_inv s" and "unique_rows job_id (job_rows s')" and "rows_follow (job_rows s) (job_rows s')"
    and "\<And>e c. holds (sys_execs s' e) = Some c \<Longrightarrow> holds (sys_execs s e) = Some c"
    and "set (sys_cancels s') \<subseteq> set (sys_cancels s)" and "sys_commits s' = sys_commits s"
  shows "sys_inv s'"
proof -
  note inv = assms(1) [unfolded sys_inv_def]
  have "\<forall>e jid t. holds (sys_execs s' e) = Some (jid, t) \<longrightarrow> token_ok (job_rows s') jid t"
    using inv assms(4) token_ok_follow [OF assms(3)] by blast
  moreover have "\<forall>e e' c. holds (sys_execs s' e) = Some c \<longrightarrow> holds (sys_execs s' e') = Some c \<longrightarrow> e = e'"
    using inv assms(4) by blast
  moreover have "\<forall>j\<in>set (sys_cancels s'). snapshot_ok (job_rows s') j"
    using inv assms(5) snapshot_ok_follow [OF assms(3)] by blast
  moreover have "\<forall>c\<in>set (sys_commits s'). commit_ok (job_rows s') c"
    using inv assms(6) commit_ok_follow [OF assms(3)] by simp
  ultimately show ?thesis
    using inv assms(2,6) by (simp add: sys_inv_def)
qed

lemma sys_simps [simp]:
  "sys_db (set_rows rs s) = (sys_db s)\<lparr>db_jobs := rs\<rparr>"
  "sys_execs (set_rows rs s) = sys_execs s" "sys_cancels (set_rows rs s) = sys_cancels s"
  "sys_commits (set_rows rs s) = sys_commits s" "sys_reaps (set_rows rs s) = sys_reaps s"
  "sys_db (set_exec e p s) = sys_db s" "sys_execs (set_exec e p s) = (sys_execs s)(e := p)"
  "sys_cancels (set_exec e p s) = sys_cancels s" "sys_commits (set_exec e p s) = sys_commits s"
  "sys_reaps (set_exec e p s) = sys_reaps s"
  by (simp_all add: set_rows_def set_exec_def)

subsection \<open>Each write follows\<close>

lemma submit_follow:
  assumes "fst (accept_write now dept actor k p key jid eid db) = Inr r" and "unique_rows job_id (db_jobs db)"
  shows "rows_follow (db_jobs db) (db_jobs (snd (accept_write now dept actor k p key jid eid db)))"
    and "unique_rows job_id (db_jobs (snd (accept_write now dept actor k p key jid eid db)))"
proof -
  obtain rs where rs: "insert_job (new_job now dept actor k p key jid) (db_jobs db) = Some rs"
      "db_jobs (snd (accept_write now dept actor k p key jid eid db)) = rs"
    using assms(1) by (auto simp: accept_write_def enqueue_def split: option.splits)
  have "jid \<notin> job_id ` set (db_jobs db)"
    using rs(1) by (auto simp: insert_job_def new_job_def split: if_splits)
  then have "job_at (db_jobs db) jid = None"
    by (auto simp: job_at_def sql_find_None_iff)
  then show "rows_follow (db_jobs db) (db_jobs (snd (accept_write now dept actor k p key jid eid db)))"
    using job_at_insert [OF rs(1)] rs(2) by (auto simp: rows_follow_def new_job_def)
  show "unique_rows job_id (db_jobs (snd (accept_write now dept actor k p key jid eid db)))"
    using unique_insert [OF rs(1) assms(2)] rs(2) by simp
qed

lemma cancel_follow:
  assumes "snapshot_ok (db_jobs db) j"
  shows "rows_follow (db_jobs db) (db_jobs (snd (cancel_write vis now (job_id j) actor eid j db)))"
proof (rule rows_follow_update [OF job_at_cancel_write])
  fix k r assume r: "job_at (db_jobs db) k = Some r" and w: "cancel_where vis (job_id j) (lock_version j) r"
  then have "k = job_id j" "lock_version r = lock_version j"
    using job_at_key [OF r] by (simp_all add: cancel_where_def job_row_def)
  then show "follows r (cancel_values now r)"
    using assms r by (intro follows_written) (auto simp: snapshot_ok_def)
qed

lemma unique_cancel [simp]:
  "unique_rows job_id (db_jobs (snd (cancel_write vis now jid actor eid j db))) \<longleftrightarrow> unique_rows job_id (db_jobs db)"
  by (simp add: cancel_write_jobs cancel_upd.unique_update)

lemma acquire_follow:
  "rows_follow rs (snd (acquire_with_fencing vis now clock ttl jid owner rs))"
  unfolding acquire_with_fencing_def
  by (rule rows_follow_update [OF job_at_acquire_fencing])
    (auto simp: lease_where_def intro: follows_lease [where p = "lease_where vis now jid"])

lemma unique_acquire_with_fencing [simp]:
  "unique_rows job_id (snd (acquire_with_fencing vis now clock ttl jid owner rs)) \<longleftrightarrow> unique_rows job_id rs"
  by (simp add: acquire_with_fencing_def)

lemma heartbeat_follow: "rows_follow rs (snd (heartbeat vis now clock ttl jid owner rs))"
  unfolding heartbeat_def by (rule rows_follow_update [OF job_at_renew]) simp

lemma unique_heartbeat [simp]:
  "unique_rows job_id (snd (heartbeat vis now clock ttl jid owner rs)) \<longleftrightarrow> unique_rows job_id rs"
  by (simp add: heartbeat_def renew_lease_def renew_upd.unique_update)

lemma release_follow: "rows_follow rs (lease_release vis now jid owner rs)"
  unfolding lease_release_def by (rule rows_follow_update [OF job_at_release]) simp

lemma unique_release [simp]:
  "unique_rows job_id (lease_release vis now jid owner rs) \<longleftrightarrow> unique_rows job_id rs"
  by (simp add: lease_release_def release_lease_def release_upd.unique_update)

lemma reap_follow: "rows_follow (db_jobs db) (db_jobs (reap_write vis now eids ids db))"
  by (rule rows_follow_update [OF job_at_reap])
    (auto simp: reap_where_def terminal_iff intro: follows_written)

lemma unique_reap [simp]:
  "unique_rows job_id (db_jobs (reap_write vis now eids ids db)) \<longleftrightarrow> unique_rows job_id (db_jobs db)"
  by (simp add: reap_write_def reap_upd.unique_update)

lemma unique_requeue [simp]:
  "unique_rows job_id (db_jobs (snd (retry_wait_jobs vis clock now eids db))) \<longleftrightarrow> unique_rows job_id (db_jobs db)"
  by (simp add: retry_wait_jobs_def Let_def unique_rows_def retry_wait_write_keys)

lemma success_follow: "rows_follow (db_jobs db) (db_jobs (snd (commit_success vis now jid lv r db)))"
  by (rule rows_follow_update [OF job_at_commit_success])
    (auto simp: status_where_def terminal_iff intro: follows_written)

lemma failure_follow: "rows_follow (db_jobs db) (db_jobs (commit_failure vis now jid lv e db))"
  by (rule rows_follow_update [OF job_at_commit_failure])
    (auto simp: status_where_def terminal_iff intro: follows_written)

lemma retry_follow:
  assumes "token_ok (db_jobs db) jid t"
  shows "rows_follow (db_jobs db) (db_jobs (commit_retry vis now clock jid t att msg eid db))"
proof (rule rows_follow_update [OF job_at_commit_retry])
  fix k r assume r: "job_at (db_jobs db) k = Some r" and w: "retry_where vis jid t r"
  then have "k = jid" "lock_version r = t"
    using job_at_key [OF r] by (simp_all add: retry_where_def job_row_def)
  then have "status r = RUNNING"
    using assms r by (auto simp: token_ok_def)
  then show "follows r (retry_values now clock att msg r)"
    by (intro follows_written) (simp add: terminal_iff)
qed

lemma unique_commits [simp]:
  "unique_rows job_id (db_jobs (snd (commit_success vis now jid lv r db))) \<longleftrightarrow> unique_rows job_id (db_jobs db)"
  "unique_rows job_id (db_jobs (commit_failure vis now jid lv e db)) \<longleftrightarrow> unique_rows job_id (db_jobs db)"
  "unique_rows job_id (db_jobs (commit_retry vis now clock jid lv att msg eid db)) \<longleftrightarrow> unique_rows job_id (db_jobs db)"
  by (auto simp: commit_success_def commit_failure_def commit_retry_def enqueue_def update_status_def
      status_upd.unique_update retry_upd.unique_update)

subsection \<open>Each step keeps the invariant\<close>

lemma holds_token: "sys_inv s \<Longrightarrow> holds (sys_execs s e) = Some (jid, t) \<Longrightarrow> token_ok (job_rows s) jid t"
  by (simp add: sys_inv_def)

lemma step_follow:
  assumes "sys_inv s" and "sys_step sv jv s s'"
  shows "unique_rows job_id (job_rows s') \<and> rows_follow (job_rows s) (job_rows s')"
  using assms(2)
proof cases
  case (submit now dept actor k p key jid eid r)
  then show ?thesis
    using submit_follow [OF submit(2)] assms(1) by (simp add: sys_inv_def)
next
  case (cancel_write j vis now actor eid)
  then show ?thesis
    using assms(1) by (simp add: sys_inv_def cancel_follow)
next
  case (acquire e now clock jid owner token rs)
  then show ?thesis
    using assms(1) acquire_follow [of "job_rows s" sv now clock LEASE_TTL_SECONDS jid owner]
      unique_acquire_with_fencing [of sv now clock LEASE_TTL_SECONDS jid owner "job_rows s"]
    by (simp add: sys_inv_def)
next
  case (acquire_refused e now clock jid owner token rs)
  then show ?thesis
    using assms(1) acquire_follow [of "job_rows s" sv now clock LEASE_TTL_SECONDS jid owner]
      unique_acquire_with_fencing [of sv now clock LEASE_TTL_SECONDS jid owner "job_rows s"]
    by (simp add: sys_inv_def)
next
  case (succeed e j owner token now res ok db)
  then show ?thesis
    using assms(1) success_follow [of "sys_db s" "jv (department_id j) (created_by j)" now "job_id j" token res]
      unique_commits(1) [of "jv (department_id j) (created_by j)" now "job_id j" token res "sys_db s"]
    by (simp add: sys_inv_def)
next
  case (fail e j owner token ok now err)
  then show ?thesis
    using assms(1) by (simp add: sys_inv_def failure_follow)
next
  case (retry e j owner token now clock msg eid)
  then show ?thesis
    using assms(1) holds_token [OF assms(1), of e "job_id j" token]
    by (simp add: sys_inv_def retry_follow)
next
  case (requeue clock now eids)
  then show ?thesis
    using assms(1) by (simp add: sys_inv_def retry_wait_follow)
qed (use assms(1) in \<open>simp_all add: sys_inv_def heartbeat_follow release_follow reap_follow\<close>)

lemma snapshot_ok_read: "cancel_read vis jid db = Inr j \<Longrightarrow> unique_rows job_id (db_jobs db) \<Longrightarrow> snapshot_ok (db_jobs db) j"
  by (auto simp: cancel_read_def get_job_at snapshot_ok_def dest: job_at_key split: option.splits if_splits)

lemma acquired_token:
  assumes "acquire_with_fencing vis now clock ttl jid owner rs = ((True, t), rs')" and "unique_rows job_id rs"
  obtains r where "job_at rs jid = Some r" and "t = lock_version r + 1"
    and "job_at rs' jid = Some (lease_values now owner (clock + ttl) r)"
proof -
  have fst: "fst (acquire_lease_with_fencing vis now jid owner (clock + ttl) rs) = (True, t)" and
    snd: "rs' = snd (acquire_lease_with_fencing vis now jid owner (clock + ttl) rs)"
    using assms(1) by (simp_all add: acquire_with_fencing_def)
  obtain r where r: "job_at rs jid = Some r" "lease_where vis now jid r" "t = lock_version r + 1"
    using fst by (auto simp: acquire_fencing_result [OF assms(2)] split: option.splits if_splits)
  show thesis
    using that [OF r(1,3)] r by (simp add: snd job_at_acquire_fencing)
qed

lemma sys_inv_acquire:
  assumes "sys_inv s" and "sys_execs s e = Idle"
    and "acquire_with_fencing vis now clock ttl jid owner (job_rows s) = ((True, t), rs)"
  shows "sys_inv (set_exec e (Leased jid owner t) (set_rows rs s))"
proof -
  let ?s = "set_exec e (Leased jid owner t) (set_rows rs s)"
  have uniq: "unique_rows job_id (job_rows s)"
    using assms(1) by (simp add: sys_inv_def)
  obtain r where r: "job_at (job_rows s) jid = Some r" "t = lock_version r + 1"
      "job_at rs jid = Some (lease_values now owner (clock + ttl) r)"
    using assms(3) uniq by (rule acquired_token)
  have follow: "rows_follow (job_rows s) rs" and uniq': "unique_rows job_id rs"
    using acquire_follow [of "job_rows s" vis now clock ttl jid owner] assms(3) uniq
      unique_acquire_with_fencing [of vis now clock ttl jid owner "job_rows s"] by simp_all
  have "sys_inv (set_rows rs s)"
    by (rule sys_inv_keep [OF assms(1)]) (simp_all add: follow uniq')
  note inv = this [unfolded sys_inv_def, simplified]
  have fresh: "t' < t" if "holds (sys_execs s e') = Some (jid, t')" for e' t'
    using holds_token [OF assms(1) that] r(1,2) by (auto simp: token_ok_def)
  have tok: "token_ok rs jid t"
    using r by (simp add: token_ok_def)
  have old: "token_ok rs jid' t'" if "holds (sys_execs s e') = Some (jid', t')" for e' jid' t'
    using inv that by blast
  have once: "e1 = e2" if "holds (sys_execs s e1) = Some c" "holds (sys_execs s e2) = Some c" for e1 e2 c
    using inv that by (cases c) blast
  have toks: "token_ok rs jid' t'" if "holds (sys_execs ?s e') = Some (jid', t')" for e' jid' t'
    using that tok old by (cases "e' = e") auto
  have distinct_tokens: "e1 = e2" if h: "holds (sys_execs ?s e1) = Some c" "holds (sys_execs ?s e2) = Some c" for e1 e2 c
  proof (cases "e1 = e"; cases "e2 = e")
    assume "e1 = e" "e2 \<noteq> e"
    then show ?thesis using h fresh [of e2 t] by simp
  next
    assume "e1 \<noteq> e" "e2 = e"
    then show ?thesis using h fresh [of e1 t] by simp
  qed (use h once in simp_all)
  have "\<forall>j\<in>set (sys_cancels s). snapshot_ok rs j" "\<forall>c\<in>set (sys_commits s). commit_ok rs c"
      "distinct (map fst (sys_commits s))"
    using inv by blast+
  moreover have "job_rows ?s = rs" "sys_cancels ?s = sys_cancels s" "sys_commits ?s = sys_commits s"
    by simp_all
  ultimately show ?thesis
    unfolding sys_inv_def using uniq' toks distinct_tokens by metis
qed

lemma update_status_at:
  assumes "unique_rows job_id rs"
    and "fst (update_status vis now jid st res err (Some t) rs)" and "terminal st"
  shows "\<exists>r. job_at rs jid = Some r \<and> \<not> terminal (status r) \<and>
    job_at (snd (update_status vis now jid st res err (Some t) rs)) jid = Some (status_values now st res err r)"
  using assms by (auto simp: update_status_result job_at_update_status status_where_def split: option.splits)

lemma sys_inv_commit:
  assumes "sys_inv s" and "unique_rows job_id rs'" and "rows_follow (job_rows s) rs'"
    and "rs' = snd (update_status vis now jid st res err (Some t) (job_rows s))"
    and "ok = fst (update_status vis now jid st res err (Some t) (job_rows s))" and "terminal st"
    and "job_rows s' = rs'" and "\<And>e c. holds (sys_execs s' e) = Some c \<Longrightarrow> holds (sys_execs s e) = Some c"
    and "sys_cancels s' = sys_cancels s"
    and "sys_commits s' = (if ok then [(jid, st)] else []) @ sys_commits s"
  shows "sys_inv s'"
proof -
  have "sys_inv (s'\<lparr>sys_commits := sys_commits s\<rparr>)"
    by (rule sys_inv_keep [OF assms(1)]) (use assms in simp_all)
  note inv = this [unfolded sys_inv_def, simplified]
  show ?thesis
  proof (cases ok)
    case True
    obtain r where r: "job_at (job_rows s) jid = Some r" "\<not> terminal (status r)"
        "job_at rs' jid = Some (status_values now st res err r)"
      using update_status_at [of "job_rows s" vis now jid st res err t] assms(1,4,5,6) True
      by (auto simp: sys_inv_def)
    have new: "commit_ok rs' (jid, st)"
      using r(3) assms(6) by (simp add: commit_ok_def status_values_def)
    have "jid \<notin> fst ` set (sys_commits s)"
      using assms(1) r(1,2) by (fastforce simp: sys_inv_def commit_ok_def)
    then show ?thesis
      using inv True new assms(7,10) by (simp add: sys_inv_def)
  next
    case False
    then show ?thesis
      using inv assms(10) by (simp add: sys_inv_def)
  qed
qed

lemma sys_inv_step:
  assumes "sys_inv s" and "sys_step sv jv s s'"
  shows "sys_inv s'"
proof -
  note follow = step_follow [OF assms]
  note keep = sys_inv_keep [OF assms(1) conjunct1 [OF follow] conjunct2 [OF follow]]
  show ?thesis
    using assms(2)
  proof cases
    case (cancel_read vis jid j)
    have "snapshot_ok (job_rows s) j"
      using snapshot_ok_read [OF cancel_read(2)] assms(1) by (simp add: sys_inv_def)
    then show ?thesis
      using assms(1) cancel_read(1) by (simp add: sys_inv_def)
  next
    case (cancel_write j vis now actor eid)
    then show ?thesis
      by (intro keep) (simp_all add: set_remove1_subset)
  next
    case (acquire e now clock jid owner token rs)
    then show ?thesis
      using sys_inv_acquire [OF assms(1)] by simp
  next
    case (read e jid owner token j)
    then have "job_id j = jid"
      using assms(1) by (auto simp: sys_inv_def get_job_at dest: job_at_key split: option.splits if_splits)
    then show ?thesis
      using read by (intro keep) (auto split: if_splits)
  next
    case (succeed e j owner token now res ok db)
    show ?thesis
      by (rule sys_inv_commit [OF assms(1) conjunct1 [OF follow] conjunct2 [OF follow], where st = SUCCEEDED and ok = ok
          and vis = "jv (department_id j) (created_by j)" and now = now and res = res and err = None
          and t = token and jid = "job_id j"])
        (use succeed in \<open>auto simp: commit_success_def terminal_iff split: prod.splits if_splits\<close>)
  next
    case (fail e j owner token ok now err)
    show ?thesis
      by (rule sys_inv_commit [OF assms(1) conjunct1 [OF follow] conjunct2 [OF follow], where st = FAILED and ok = ok
          and vis = "jv (department_id j) (created_by j)" and now = now and res = None
          and err = "Some (error_to_dict err)" and t = token and jid = "job_id j"])
        (use fail in \<open>auto simp: commit_failure_def terminal_iff split: if_splits\<close>)
  next
    case (reap_write ids now eids)
    then show ?thesis
      by (intro keep) simp_all
  qed (intro keep; auto split: if_splits)+
qed

lemma sys_inv_initial: "initial s \<Longrightarrow> sys_inv s"
  by (simp add: initial_def sys_inv_def)

lemma reachable_inv: "reachable sv jv s \<Longrightarrow> sys_inv s"
  by (induction rule: reachable.induct) (auto intro: sys_inv_initial sys_inv_step)

interpretation js: versioned_rows "sys_step sv jv" sys_inv "\<lambda>s. job_at (job_rows s)" lock_version row_view
    "\<lambda>j. terminal (status j)"
  for sv jv
proof
  show "sys_inv s'" if "sys_inv s" "sys_step sv jv s s'" for s s'
    using that by (rule sys_inv_step)
  show "\<exists>r'. job_at (job_rows s') k = Some r' \<and>
      (lock_version r' = lock_version r \<and> row_view r' = row_view r \<or>
       lock_version r < lock_version r' \<and> \<not> terminal (status r))"
    if "sys_inv s" "sys_step sv jv s s'" "job_at (job_rows s) k = Some r" for s s' k r
    using step_follow [OF that(1,2)] that(3) unfolding rows_follow_def follows_def by blast
  show "terminal (status r) = terminal (status r')" if "row_view r = row_view r'" for r r'
    using row_view_status [OF that] by simp
qed

section \<open>The status machine\<close>

text \<open>The machine of \<open>entities.py\<close>, with the cancellation edge from every status that is not terminal.\<close>

definition status_edge :: "job_status \<Rightarrow> job_status \<Rightarrow> bool" where
  "status_edge a b \<longleftrightarrow>
    (leaseable a \<and> b = RUNNING) \<or> (a = RUNNING \<and> b \<in> {SUCCEEDED, FAILED, RETRY_WAIT, QUEUED}) \<or>
    (a = RETRY_WAIT \<and> b = QUEUED) \<or> (\<not> terminal a \<and> b = CANCEL_REQUESTED)"

definition rows_edge :: "job list \<Rightarrow> job list \<Rightarrow> bool" where
  "rows_edge old new \<longleftrightarrow>
    (\<forall>k r r'. job_at old k = Some r \<longrightarrow> job_at new k = Some r' \<longrightarrow>
      status r' = status r \<or> status_edge (status r) (status r'))"

lemma rows_edge_refl [simp]: "rows_edge rs rs"
  by (simp add: rows_edge_def)

lemma rows_edge_update:
  assumes "\<And>k. job_at new k = map_option (\<lambda>j. if p j then f j else j) (job_at old k)"
    and "\<And>k r. job_at old k = Some r \<Longrightarrow> p r \<Longrightarrow> status (f r) = status r \<or> status_edge (status r) (status (f r))"
  shows "rows_edge old new"
  using assms by (auto simp: rows_edge_def split: if_splits)

lemma submit_edge:
  assumes "fst (accept_write now dept actor k p key jid eid db) = Inr r"
  shows "rows_edge (db_jobs db) (db_jobs (snd (accept_write now dept actor k p key jid eid db)))"
proof -
  obtain rs where rs: "insert_job (new_job now dept actor k p key jid) (db_jobs db) = Some rs"
      "db_jobs (snd (accept_write now dept actor k p key jid eid db)) = rs"
    using assms by (auto simp: accept_write_def enqueue_def split: option.splits)
  have "jid \<notin> job_id ` set (db_jobs db)"
    using rs(1) by (auto simp: insert_job_def new_job_def split: if_splits)
  then have "job_at (db_jobs db) jid = None"
    by (auto simp: job_at_def sql_find_None_iff)
  then show ?thesis
    using job_at_insert [OF rs(1)] rs(2) by (auto simp: rows_edge_def new_job_def)
qed

lemma cancel_edge:
  assumes "snapshot_ok (db_jobs db) j"
  shows "rows_edge (db_jobs db) (db_jobs (snd (cancel_write vis now (job_id j) actor eid j db)))"
proof (rule rows_edge_update [OF job_at_cancel_write])
  fix k r assume r: "job_at (db_jobs db) k = Some r" and w: "cancel_where vis (job_id j) (lock_version j) r"
  then have "\<not> terminal (status r)"
    using assms job_at_key [OF r] by (auto simp: cancel_where_def job_row_def snapshot_ok_def)
  then show "status (cancel_values now r) = status r \<or> status_edge (status r) (status (cancel_values now r))"
    by (simp add: status_edge_def cancel_values_def)
qed

lemma acquire_edge: "rows_edge rs (snd (acquire_with_fencing vis now clock ttl jid owner rs))"
  unfolding acquire_with_fencing_def
  by (rule rows_edge_update [OF job_at_acquire_fencing]) (simp add: lease_where_def status_edge_def)

lemma heartbeat_edge: "rows_edge rs (snd (heartbeat vis now clock ttl jid owner rs))"
  unfolding heartbeat_def by (rule rows_edge_update [OF job_at_renew]) (simp add: renew_values_def)

lemma release_edge: "rows_edge rs (lease_release vis now jid owner rs)"
  unfolding lease_release_def by (rule rows_edge_update [OF job_at_release]) (simp add: release_values_def)

lemma reap_edge: "rows_edge (db_jobs db) (db_jobs (reap_write vis now eids ids db))"
  by (rule rows_edge_update [OF job_at_reap]) (simp add: reap_where_def reap_values_def status_edge_def)

lemma token_status:
  assumes "token_ok rs jid t" and "job_at rs k = Some r" and "job_row vis jid r" and "lock_version r = t"
  shows "status r = RUNNING"
  using assms job_at_key [OF assms(2)] by (auto simp: token_ok_def job_row_def)

lemma success_edge:
  assumes "token_ok (db_jobs db) jid t"
  shows "rows_edge (db_jobs db) (db_jobs (snd (commit_success vis now jid t res db)))"
  by (rule rows_edge_update [OF job_at_commit_success])
    (use token_status [OF assms] in \<open>auto simp: status_where_def status_values_def status_edge_def\<close>)

lemma failure_edge:
  assumes "token_ok (db_jobs db) jid t"
  shows "rows_edge (db_jobs db) (db_jobs (commit_failure vis now jid t e db))"
  by (rule rows_edge_update [OF job_at_commit_failure])
    (use token_status [OF assms] in \<open>auto simp: status_where_def status_values_def status_edge_def\<close>)

lemma retry_edge:
  assumes "token_ok (db_jobs db) jid t"
  shows "rows_edge (db_jobs db) (db_jobs (commit_retry vis now clock jid t att msg eid db))"
  by (rule rows_edge_update [OF job_at_commit_retry])
    (use token_status [OF assms] in \<open>auto simp: retry_where_def retry_values_def status_edge_def\<close>)

lemma retry_wait_write_status:
  assumes "job_at (db_jobs db) k = Some r"
  shows "\<exists>r'. job_at (db_jobs (retry_wait_write vis now eids ids db)) k = Some r' \<and>
    (r' = r \<or> k \<in> set ids \<and> status r' = QUEUED)"
  using assms
proof (induction vis now eids ids db arbitrary: r rule: retry_wait_write.induct)
  case (2 vis now eids i ids db)
  let ?d = "enqueue (mk_event (eids i) now i ''job.requeued'' None)
        (db\<lparr>db_jobs := sql_update (job_row vis i) (requeue_values now) (db_jobs db)\<rparr>)"
  have key: "job_id r = k"
    using "2.prems" by (rule job_at_key)
  have "job_at (db_jobs ?d) k = Some (if job_row vis i r then requeue_values now r else r)"
    using "2.prems" by (simp add: enqueue_def job_at_def requeue_upd.find_update)
  from "2.IH" [OF this] obtain r' where
    "job_at (db_jobs (retry_wait_write vis now eids ids ?d)) k = Some r'"
    "r' = (if job_row vis i r then requeue_values now r else r) \<or> k \<in> set ids \<and> status r' = QUEUED"
    by blast
  then show ?case
    using key by (auto simp: job_row_def requeue_values_def split: if_splits)
qed simp

lemma retry_wait_edge:
  assumes "unique_rows job_id (db_jobs db)"
  shows "rows_edge (db_jobs db) (db_jobs (snd (retry_wait_jobs sv clock now eids db)))"
  unfolding rows_edge_def
proof (intro allI impI)
  fix k r r'
  let ?ids = "retry_wait_select sv clock (db_jobs db)"
  assume r: "job_at (db_jobs db) k = Some r"
    and r': "job_at (db_jobs (snd (retry_wait_jobs sv clock now eids db))) k = Some r'"
  have "j = r" if "j \<in> set (db_jobs db)" "job_id j = k" for j
    using that r job_at_iff [OF assms, of k j] by simp
  then have "status r = RETRY_WAIT" if "k \<in> set ?ids"
    using that by (fastforce simp: retry_wait_select_def)
  then show "status r' = status r \<or> status_edge (status r) (status r')"
    using retry_wait_write_status [OF r, of sv now eids ?ids] r'
    by (auto simp: retry_wait_jobs_def Let_def status_edge_def)
qed

lemma step_edge:
  assumes "sys_inv s" and "sys_step sv jv s s'"
  shows "rows_edge (job_rows s) (job_rows s')"
  using assms(2)
proof cases
  case (submit now dept actor k p key jid eid r)
  then show ?thesis by (simp add: submit_edge)
next
  case (cancel_write j vis now actor eid)
  then show ?thesis using assms(1) by (simp add: sys_inv_def cancel_edge)
next
  case (acquire e now clock jid owner token rs)
  then show ?thesis
    using acquire_edge [of "job_rows s" sv now clock LEASE_TTL_SECONDS jid owner] by simp
next
  case (acquire_refused e now clock jid owner token rs)
  then show ?thesis
    using acquire_edge [of "job_rows s" sv now clock LEASE_TTL_SECONDS jid owner] by simp
next
  case (succeed e j owner token now res ok db)
  then show ?thesis
    using holds_token [OF assms(1), of e "job_id j" token]
      success_edge [of "sys_db s" "job_id j" token "jv (department_id j) (created_by j)" now res] by simp
next
  case (fail e j owner token ok now err)
  then show ?thesis using holds_token [OF assms(1), of e "job_id j" token] by (simp add: failure_edge)
next
  case (retry e j owner token now clock msg eid)
  then show ?thesis using holds_token [OF assms(1), of e "job_id j" token] by (simp add: retry_edge)
next
  case (requeue clock now eids)
  then show ?thesis using assms(1) by (simp add: sys_inv_def retry_wait_edge)
qed (simp_all add: heartbeat_edge release_edge reap_edge)

lemma steps_row: "(sys_step sv jv)\<^sup>*\<^sup>* s s' \<Longrightarrow> sys_inv s \<Longrightarrow> job_at (job_rows s) k = Some r \<Longrightarrow>
    sys_inv s' \<and> (\<exists>r'. job_at (job_rows s') k = Some r' \<and> lock_version r \<le> lock_version r')"
  using js.row_steps [of sv jv s s' k r] by auto

lemma cancelled_stays:
  assumes "(sys_step sv jv)\<^sup>*\<^sup>* s s'" and "sys_inv s" and "job_at (job_rows s) k = Some r"
    and "status r = CANCEL_REQUESTED"
  shows "sys_inv s' \<and> (\<exists>r'. job_at (job_rows s') k = Some r' \<and> status r' = CANCEL_REQUESTED)"
  using assms
proof (induction rule: rtranclp_induct)
  case (step t u)
  then obtain r1 where r1: "sys_inv t" "job_at (job_rows t) k = Some r1" "status r1 = CANCEL_REQUESTED"
    by blast
  then obtain r2 where r2: "job_at (job_rows u) k = Some r2"
    using step_follow [OF r1(1) step.hyps(2)] by (meson rows_followE)
  have "status r2 = status r1 \<or> status_edge (status r1) (status r2)"
    using step_edge [OF r1(1) step.hyps(2)] r1(2) r2 by (auto simp: rows_edge_def)
  then have "status r2 = CANCEL_REQUESTED"
    using r1(3) by (auto simp: status_edge_def leaseable_iff)
  then show ?case
    using sys_inv_step [OF r1(1) step.hyps(2)] r2 by blast
qed blast

lemma stale_commit:
  assumes "unique_rows job_id (db_jobs db)" and "job_at (db_jobs db) jid = Some r" and "t < lock_version r"
  shows "\<not> fst (commit_success vis now jid t res db)"
    and "job_at (db_jobs (commit_failure vis now jid t e db)) k = job_at (db_jobs db) k"
    and "job_at (db_jobs (commit_retry vis now clock jid t att msg eid db)) k = job_at (db_jobs db) k"
proof -
  have no: "\<not> status_where vis jid st (Some t) b \<and> \<not> retry_where vis jid t b"
    if "job_at (db_jobs db) k = Some b" for st b k
    using assms(2,3) that job_at_key [OF that]
    by (cases "k = jid") (auto simp: status_where_def retry_where_def job_row_def)
  show "\<not> fst (commit_success vis now jid t res db)"
    using update_status_result [OF assms(1), of vis now jid SUCCEEDED res None "Some t"] no assms(2)
    by (simp add: commit_success_def split: prod.split) (metis fst_conv)
  show "job_at (db_jobs (commit_failure vis now jid t e db)) k = job_at (db_jobs db) k"
    using no by (cases "job_at (db_jobs db) k") (simp_all add: job_at_commit_failure)
  show "job_at (db_jobs (commit_retry vis now clock jid t att msg eid db)) k = job_at (db_jobs db) k"
    using no by (cases "job_at (db_jobs db) k") (simp_all add: job_at_commit_retry)
qed

text \<open>A run for the witnesses: one job is submitted, leased, reaped, and leased again.\<close>

definition sys0 :: sys where
  "sys0 = \<lparr>sys_db = \<lparr>db_jobs = [], db_outbox = []\<rparr>, sys_execs = (\<lambda>_. Idle), sys_cancels = [],
           sys_reaps = [], sys_commits = []\<rparr>"

definition sys1 :: sys where
  "sys1 = sys0\<lparr>sys_db := snd (accept_write 5 1 6 ''backup'' JNull ''k'' 11 90 (sys_db sys0))\<rparr>"

definition acquired :: "nat \<Rightarrow> timestamp \<Rightarrow> string \<Rightarrow> sys \<Rightarrow> sys" where
  "acquired e t owner s =
    (case acquire_with_fencing (\<lambda>_. True) t t LEASE_TTL_SECONDS 11 owner (job_rows s) of
       ((_, token), rs) \<Rightarrow> set_exec e (Leased 11 owner token) (set_rows rs s))"

definition sys2 :: sys where "sys2 = acquired 0 10 ''w1'' sys1"

definition sys3 :: sys where
  "sys3 = sys2\<lparr>sys_reaps := reap_select (\<lambda>_. True) 50 (job_rows sys2) # sys_reaps sys2\<rparr>"

definition sys4 :: sys where
  "sys4 = sys3\<lparr>sys_reaps := remove1 [11] (sys_reaps sys3),
              sys_db := reap_write (\<lambda>_. True) 50 (\<lambda>_. 92) [11] (sys_db sys3)\<rparr>"

definition sys5 :: sys where "sys5 = acquired 1 51 ''w2'' sys4"

lemmas run_simps = sys0_def sys1_def sys2_def sys3_def sys4_def sys5_def acquired_def accept_write_def
  insert_job_def new_job_def enqueue_def mk_event_def acquire_with_fencing_def
  acquire_lease_with_fencing_def lease_where_def job_row_def leaseable_iff lease_free_def lease_values_def
  LEASE_TTL_SECONDS_def set_exec_def set_rows_def reap_select_def reap_write_def reap_where_def reap_values_def

definition sys6 :: sys where
  "sys6 = (case get_job (\<lambda>_. True) 11 (job_rows sys5) of
     None \<Rightarrow> sys5 | Some j \<Rightarrow> set_exec 1 (Handling j ''w2'' 3) sys5)"

definition sys7 :: sys where
  "sys7 = (case commit_success (\<lambda>_. True) 52 11 3 (Some (JInt 7)) (sys_db sys6) of
     (ok, db) \<Rightarrow> set_exec 1 (Releasing 11 ''w2'')
       (sys6\<lparr>sys_db := db, sys_commits := (if ok then [(11, SUCCEEDED)] else []) @ sys_commits sys6\<rparr>))"

text \<open>And one where the submitted job is cancelled.\<close>

definition sys_c :: sys where
  "sys_c = (case cancel_read (\<lambda>_. True) 11 (sys_db sys1) of
     Inl e \<Rightarrow> sys1 | Inr j \<Rightarrow> sys1\<lparr>sys_cancels := j # sys_cancels sys1\<rparr>)"

definition sys_d :: sys where
  "sys_d = (case cancel_read (\<lambda>_. True) 11 (sys_db sys1) of
     Inl e \<Rightarrow> sys1
   | Inr j \<Rightarrow> sys_c\<lparr>sys_cancels := remove1 j (sys_cancels sys_c),
       sys_db := snd (cancel_write (\<lambda>_. True) 6 (job_id j) 8 93 j (sys_db sys_c))\<rparr>)"

abbreviation run_step :: "sys \<Rightarrow> sys \<Rightarrow> bool" where
  "run_step \<equiv> sys_step (\<lambda>_. True) (\<lambda>_ _ _. True)"

abbreviation run_reachable :: "sys \<Rightarrow> bool" where
  "run_reachable \<equiv> reachable (\<lambda>_. True) (\<lambda>_ _ _. True)"

lemma run_1: "run_reachable sys1"
proof -
  have "run_reachable sys0"
    by (rule reachable.start) (simp add: initial_def sys0_def)
  moreover have "run_step sys0 sys1"
    unfolding sys1_def
    by (rule sys_step.submit [where r = "mk_ref 11 ACCEPTED ''backup''"]) (simp add: run_simps)
  ultimately show ?thesis by (rule reachable.step)
qed

lemma run_2: "run_reachable sys2"
proof -
  have "run_step sys1 (set_exec 0 (Leased 11 ''w1'' 1) (set_rows (job_rows sys2) sys1))"
    by (rule sys_step.acquire [where now = 10 and clock = 10]) (simp_all add: run_simps)
  moreover have "set_exec 0 (Leased 11 ''w1'' 1) (set_rows (job_rows sys2) sys1) = sys2"
    by (simp add: run_simps)
  ultimately show ?thesis
    using run_1 by (metis reachable.step)
qed

lemma run_4: "run_reachable sys4"
proof -
  have "run_reachable sys3"
    unfolding sys3_def by (rule reachable.step [OF run_2 sys_step.reap_read])
  moreover have "run_step sys3 sys4"
    unfolding sys4_def by (rule sys_step.reap_write) (simp add: run_simps)
  ultimately show ?thesis by (rule reachable.step)
qed

lemma run_step_5: "run_step sys4 sys5"
proof -
  have "run_step sys4 (set_exec 1 (Leased 11 ''w2'' 3) (set_rows (job_rows sys5) sys4))"
    by (rule sys_step.acquire [where now = 51 and clock = 51]) (simp_all add: run_simps)
  moreover have "set_exec 1 (Leased 11 ''w2'' 3) (set_rows (job_rows sys5) sys4) = sys5"
    by (simp add: run_simps numeral_3_eq_3)
  ultimately show ?thesis by simp
qed

lemma run_steps: "run_reachable sys5"
  using run_4 run_step_5 by (rule reachable.step)

lemma run_job:
  "\<exists>j. get_job (\<lambda>_. True) 11 (job_rows sys5) = Some j \<and> job_at (job_rows sys5) 11 = Some j \<and>
    status j = RUNNING \<and> lock_version j = 3 \<and> job_id j = 11 \<and> department_id j = 1"
  by (simp add: run_simps get_job_def job_at_def sql_find_def)

lemma run_7: "run_reachable sys7"
proof -
  obtain j where j: "get_job (\<lambda>_. True) 11 (job_rows sys5) = Some j" "status j = RUNNING" "job_id j = 11"
    using run_job by blast
  have e6: "sys6 = set_exec 1 (Handling j ''w2'' 3) sys5"
    using j(1) by (simp add: sys6_def)
  have "sys_execs sys5 1 = Leased 11 ''w2'' 3"
    by (simp add: run_simps numeral_3_eq_3)
  then have "run_step sys5 sys6"
    unfolding e6 by (rule sys_step.read) (simp_all add: j terminal_iff)
  then have r6: "run_reachable sys6"
    using run_steps by (blast intro: reachable.step)
  have "sys_execs sys6 1 = Handling j ''w2'' 3"
    by (simp add: e6)
  moreover obtain ok db where
    c: "commit_success (\<lambda>_. True) 52 11 3 (Some (JInt 7)) (sys_db sys6) = (ok, db)"
    by (cases "commit_success (\<lambda>_. True) 52 11 3 (Some (JInt 7)) (sys_db sys6)")
  ultimately have "run_step sys6 (set_exec 1 (Releasing (job_id j) ''w2'')
      (sys6\<lparr>sys_db := db, sys_commits := (if ok then [(job_id j, SUCCEEDED)] else []) @ sys_commits sys6\<rparr>))"
    using j(3) by (intro sys_step.succeed [where now = 52 and res = "Some (JInt 7)"]) simp_all
  then have "run_step sys6 sys7"
    using j(3) by (simp add: sys7_def c cong: if_cong)
  then show ?thesis
    using r6 by (blast intro: reachable.step)
qed

lemma run_7_job:
  "\<exists>r. job_at (job_rows sys7) 11 = Some r \<and> status r = SUCCEEDED \<and> result r = Some (JInt 7)"
proof -
  obtain j where j: "get_job (\<lambda>_. True) 11 (job_rows sys5) = Some j" "job_at (job_rows sys5) 11 = Some j"
      "status j = RUNNING" "lock_version j = 3" "job_id j = 11"
    using run_job by blast
  have "job_rows sys7 = db_jobs (snd (commit_success (\<lambda>_. True) 52 11 3 (Some (JInt 7)) (sys_db sys5)))"
    using j(1) by (simp add: sys7_def sys6_def split: prod.split)
  then show ?thesis
    using j by (simp add: job_at_commit_success status_where_def job_row_def status_values_def terminal_iff)
qed

lemma run_cancelled: "run_reachable sys_d \<and>
    (\<exists>r. job_at (job_rows sys_d) 11 = Some r \<and> status r = CANCEL_REQUESTED)"
proof -
  obtain j where j: "cancel_read (\<lambda>_. True) 11 (sys_db sys1) = Inr j" "job_id j = 11" "lock_version j = 0"
      "job_at (job_rows sys1) 11 = Some j"
    by (simp add: run_simps cancel_read_def get_job_def sql_find_def terminal_iff job_at_def)
  have c: "sys_c = sys1\<lparr>sys_cancels := j # sys_cancels sys1\<rparr>"
    using j(1) by (simp add: sys_c_def)
  have "run_step sys1 sys_c"
    unfolding c using j(1) by (rule sys_step.cancel_read)
  then have "run_reachable sys_c"
    using run_1 by (blast intro: reachable.step)
  moreover have d: "sys_d = sys_c\<lparr>sys_cancels := remove1 j (sys_cancels sys_c),
       sys_db := snd (cancel_write (\<lambda>_. True) 6 (job_id j) 8 93 j (sys_db sys_c))\<rparr>"
    using j(1) by (simp add: sys_d_def)
  moreover have "run_step sys_c sys_d"
    unfolding d by (rule sys_step.cancel_write) (simp add: c)
  moreover have "\<exists>r. job_at (job_rows sys_d) 11 = Some r \<and> status r = CANCEL_REQUESTED"
    using j by (simp add: d c job_at_cancel_write cancel_where_def job_row_def cancel_values_def)
  ultimately show ?thesis
    by (blast intro: reachable.step)
qed

lemma run_holds:
  "holds (sys_execs sys5 0) = Some (11, 1)" "holds (sys_execs sys5 1) = Some (11, 3)"
  by (simp_all add: run_simps)

section \<open>Properties\<close>



text \<open>
  C1. Fencing. When another execution has leased a job after this one did (its token is newer), no
  commit of this execution takes effect, now or after any further steps: \<open>_commit_success\<close> answers
  \<open>False\<close>, and \<open>_commit_failure\<close> and \<open>_commit_retry\<close> leave every job row as it is.
\<close>

theorem stale_worker_fenced:
  assumes "reachable sv jv s" and "holds (sys_execs s e) = Some (jid, t)"
    and "holds (sys_execs s e') = Some (jid, t')" and "t < t'" and "(sys_step sv jv)\<^sup>*\<^sup>* s s'"
  shows "\<not> fst (commit_success vis now jid t res (sys_db s')) \<and>
    job_at (db_jobs (commit_failure vis now jid t err (sys_db s'))) k = job_at (job_rows s') k \<and>
    job_at (db_jobs (commit_retry vis now clock jid t att msg eid (sys_db s'))) k = job_at (job_rows s') k"
proof -
  note inv = reachable_inv [OF assms(1)]
  obtain r where r: "job_at (job_rows s) jid = Some r" "t' \<le> lock_version r"
    using holds_token [OF inv assms(3)] by (auto simp: token_ok_def)
  obtain r' where r': "job_at (job_rows s') jid = Some r'" "lock_version r \<le> lock_version r'" "sys_inv s'"
    using steps_row [OF assms(5) inv r(1)] by blast
  have "unique_rows job_id (job_rows s')" "t < lock_version r'"
    using r' r(2) assms(4) by (simp_all add: sys_inv_def)
  then show ?thesis
    using stale_commit [of "sys_db s'" jid r' t] r'(1) by blast
qed

lemma stale_worker_fenced_witness:
  "\<not> fst (commit_success (\<lambda>_. True) 52 11 1 None (sys_db sys5))"
  using stale_worker_fenced [OF run_steps run_holds] by simp

text \<open>
  One lease at a time. Two executions never hold the same token for a job, and at most one of
  all executions in progress holds the job's current version, so at most one of them can still
  commit; while it holds it, the job is running.
\<close>

theorem current_token_unique:
  assumes "reachable sv jv s" and "job_at (job_rows s) jid = Some r"
    and "holds (sys_execs s e) = Some (jid, lock_version r)"
  shows "status r = RUNNING \<and> (\<forall>e' t. holds (sys_execs s e') = Some (jid, t) \<longrightarrow> e' \<noteq> e \<longrightarrow> t < lock_version r)"
proof -
  note inv = reachable_inv [OF assms(1)]
  have "t < lock_version r" if h: "holds (sys_execs s e') = Some (jid, t)" and ne: "e' \<noteq> e" for e' t
  proof -
    have "t \<le> lock_version r"
      using holds_token [OF inv h] assms(2) by (auto simp: token_ok_def)
    moreover have "t \<noteq> lock_version r"
      using inv h assms(3) ne unfolding sys_inv_def by blast
    ultimately show ?thesis by simp
  qed
  moreover have "status r = RUNNING"
    using holds_token [OF inv assms(3)] assms(2) by (auto simp: token_ok_def)
  ultimately show ?thesis by blast
qed

lemma current_token_unique_witness:
  "\<exists>r. job_at (job_rows sys5) 11 = Some r \<and> status r = RUNNING \<and> lock_version r = 3"
proof -
  obtain r where r: "job_at (job_rows sys5) 11 = Some r" "lock_version r = 3"
    by (simp add: run_simps job_at_def sql_find_def)
  then show ?thesis
    using current_token_unique [OF run_steps r(1), of 1] run_holds(2) by simp
qed





text \<open>
  A requested cancellation is never carried out. No operation moves a job on from
  \<open>cancel_requested\<close>: it stays there in every continuation of every run (the documented edge to
  \<open>cancelled\<close> has no code).
\<close>

theorem cancel_requested_is_final:
  assumes "reachable sv jv s" and "(sys_step sv jv)\<^sup>*\<^sup>* s s'" and "job_at (job_rows s) k = Some r"
    and "status r = CANCEL_REQUESTED"
  shows "\<exists>r'. job_at (job_rows s') k = Some r' \<and> status r' = CANCEL_REQUESTED"
  using cancelled_stays [OF assms(2) reachable_inv [OF assms(1)] assms(3,4)] by blast

lemma cancel_requested_is_final_witness:
  "\<exists>r. job_at (job_rows (set_exec 1 Done sys_d)) 11 = Some r \<and> status r = CANCEL_REQUESTED"
proof -
  have "run_step\<^sup>*\<^sup>* sys_d (set_exec 1 Done sys_d)"
    by (rule r_into_rtranclp) (rule sys_step.crash)
  then show ?thesis
    using run_cancelled cancel_requested_is_final by blast
qed

text \<open>
  C5. Recovery after a crash. A running job whose lease has expired is picked up by the reaper: it
  is queued again, a pending event redelivers it, any worker can lease it at once, and no token
  handed out before can commit any more.
\<close>

theorem crash_recovery:
  assumes "unique_rows job_id (db_jobs db)" and "job_at (db_jobs db) jid = Some j"
    and "status j = RUNNING" and "lease_expires_at j = Some x" and "x < clock" and "vis (department_id j)"
    and "reap_expired vis clock now eids db = (ids, db')"
  shows "jid \<in> set ids \<and> job_at (db_jobs db') jid = Some (reap_values now j) \<and>
    (\<exists>e\<in>set (db_outbox db'). pending e \<and> aggregate_id e = jid) \<and>
    fst (acquire_with_fencing vis now' clock' ttl jid owner (db_jobs db')) = (True, lock_version j + 2) \<and>
    (\<forall>t\<le>lock_version j. \<not> fst (commit_success vis' now'' jid t res db'))"
proof -
  have key: "job_id j = jid"
    using assms(2) by (rule job_at_key)
  have sel: "jid \<in> set (reap_select vis clock (db_jobs db))"
    using assms(3-6) job_at_in [OF assms(2)] key by (force simp: reap_select_def)
  have db': "ids = reap_select vis clock (db_jobs db)" "db' = reap_write vis now eids ids db"
    using assms(7) by (auto simp: reap_expired_def reap_and_redeliver_def Let_def)
  have row: "job_at (db_jobs db') jid = Some (reap_values now j)"
    using assms(2,3,6) sel key by (simp add: db' job_at_reap reap_where_def)
  have uniq: "unique_rows job_id (db_jobs db')"
    using assms(1) by (simp add: db')
  have "\<exists>e\<in>set (db_outbox db'). pending e \<and> aggregate_id e = jid"
    using sel by (force simp: db' reap_write_def mk_event_def pending_def)
  moreover have "fst (acquire_with_fencing vis now' clock' ttl jid owner (db_jobs db')) = (True, lock_version j + 2)"
    using assms(6) key
    by (simp add: acquire_with_fencing_def acquire_fencing_result [OF uniq] row lease_where_def job_row_def
        reap_values_def leaseable_iff lease_free_def)
  moreover have "\<not> fst (commit_success vis' now'' jid t res db')" if "t \<le> lock_version j" for t
    using stale_commit(1) [OF uniq row, of t] that by (simp add: reap_values_def)
  ultimately show ?thesis
    using sel row by (simp add: db'(1))
qed

lemma crash_recovery_witness:
  "fst (acquire_with_fencing (\<lambda>_. True) 51 51 LEASE_TTL_SECONDS 11 ''w2''
     (db_jobs (snd (reap_expired (\<lambda>_. True) 50 50 (\<lambda>_. 92) (sys_db sys2))))) = (True, 3)"
proof -
  obtain j where j: "job_at (job_rows sys2) 11 = Some j" "status j = RUNNING" "lease_expires_at j = Some 40"
      "lock_version j = 1"
    by (simp add: run_simps job_at_def sql_find_def)
  have "unique_rows job_id (job_rows sys2)"
    using reachable_inv [OF run_2] by (simp add: sys_inv_def)
  then show ?thesis
    using crash_recovery [OF _ j(1-3), of 50 "\<lambda>_. True" 50 "\<lambda>_. 92"] j(4)
    by (cases "reap_expired (\<lambda>_. True) 50 50 (\<lambda>_. 92) (sys_db sys2)") (simp add: numeral_3_eq_3)
qed

text \<open>
  An aborted execution strands its job. When the handler ends in something that is not an
  \<open>Exception\<close> (a cancelled task, a soft kill that escapes), the \<open>finally\<close> block releases the lease
  but leaves the status \<open>running\<close>: no later delivery can lease the job, and neither the reaper nor
  the requeue task ever selects it, whatever the clock.
\<close>

theorem aborted_job_stranded:
  assumes "executable env jid db j" and "dict_get (env_handlers env) (kind j) = Some h"
    and "\<forall>d. h (leased_row env owner j) d = (Aborted, d)" and "db' = snd (execute env jid owner db)"
  shows "execute env' jid owner' db' = (Return None, db') \<and> jid \<notin> set (reap_select vis clock (db_jobs db')) \<and>
    jid \<notin> set (retry_wait_select vis clock (db_jobs db'))"
proof -
  have row: "job_at (db_jobs db') jid = Some (executed_row (env_now env) (env_clock env) j Aborted)"
    using execute_settles [OF assms(1-3), of jid] assms(4) by simp
  have uniq: "unique_rows job_id (db_jobs db')"
    using execute_unique [OF assms(1-3)] assms(4) by simp
  have only: "r = executed_row (env_now env) (env_clock env) j Aborted" if "r \<in> set (db_jobs db')" "job_id r = jid" for r
    using row that job_at_iff [OF uniq, of jid r] by simp
  have st: "status (executed_row (env_now env) (env_clock env) j Aborted) = RUNNING"
    "lease_expires_at (executed_row (env_now env) (env_clock env) j Aborted) = None"
    by (simp_all add: executed_row_def)
  have "\<not> leaseable (status (executed_row (env_now env) (env_clock env) j Aborted))"
    by (simp add: st leaseable_iff)
  then have "execute env' jid owner' db' = (Return None, db')"
    by (rule execute_refused [OF uniq row])
  moreover have "jid \<notin> set (reap_select vis clock (db_jobs db'))"
    using only st by (fastforce simp: reap_select_def)
  moreover have "jid \<notin> set (retry_wait_select vis clock (db_jobs db'))"
    using only st by (fastforce simp: retry_wait_select_def)
  ultimately show ?thesis by blast
qed

lemma aborted_job_stranded_witness:
  "11 \<notin> set (reap_select (\<lambda>_. True) 99
     (db_jobs (snd (execute (sample_env Aborted) 11 ''w'' \<lparr>db_jobs = [sample_job], db_outbox = []\<rparr>))))"
  using aborted_job_stranded [OF sample_executable sample_handler _ refl, where owner = "''w''"] by simp

text \<open>
  The requeue task can resurrect a finished job. It updates by primary key alone what it
  selected before: a job selected while it waited for its retry that a worker has leased and
  finished in the meantime goes back to \<open>queued\<close>, and will run again.
\<close>

theorem requeue_resurrects:
  assumes "k \<in> set (retry_wait_select vis clock rows0)"
    and "job_at (db_jobs db) k = Some r" and "terminal (status r)" and "vis (department_id r)"
  shows "\<exists>r'. job_at (db_jobs (retry_wait_write vis now eids (retry_wait_select vis clock rows0) db)) k = Some r' \<and>
    status r' = QUEUED"
  using retry_wait_write_status [OF assms(2), of vis now eids "retry_wait_select vis clock rows0"]
    retry_wait_write_row [OF assms(2), of vis now eids "retry_wait_select vis clock rows0"] assms(1,4)
  by auto

lemma requeue_resurrects_witness:
  "\<exists>r'. job_at (db_jobs (retry_wait_write (\<lambda>_. True) 9 (\<lambda>_. 94)
      (retry_wait_select (\<lambda>_. True) 9 [sample_job\<lparr>status := RETRY_WAIT, run_after := Some 8\<rparr>])
      \<lparr>db_jobs = [sample_job\<lparr>status := SUCCEEDED\<rparr>], db_outbox = []\<rparr>)) 11 = Some r' \<and> status r' = QUEUED"
  by (rule requeue_resurrects [where r = "sample_job\<lparr>status := SUCCEEDED\<rparr>"])
    (simp_all add: retry_wait_select_def job_at_def sql_find_def sample_job_def new_job_def terminal_iff)

text \<open>
  A flow job is never retried. The flow handler marks the job failed by primary key before it
  re-raises; the executor's retry commit then finds a newer version and writes no row, yet still
  inserts the \<open>job.retry_wait\<close> event: the job stays failed whatever its remaining attempts.
\<close>

theorem flow_failure_never_retried:
  assumes "unique_rows job_id (db_jobs db)" and "job_at (db_jobs db) jid = Some j"
    and "vis (department_id j)" and "t \<le> lock_version j"
    and "db1 = db\<lparr>db_jobs := mark_job_failed vis now jid err (db_jobs db)\<rparr>"
    and "db2 = commit_retry vis' now' clock jid t att msg eid db1"
  shows "\<exists>j'. job_at (db_jobs db2) jid = Some j' \<and> status j' = FAILED \<and> attempt j' = attempt j \<and>
    length (db_outbox db2) = length (db_outbox db) + 1"
proof -
  have key: "job_id j = jid"
    using assms(2) by (rule job_at_key)
  have row: "job_at (db_jobs db1) jid = Some (mark_failed_values now err j)"
    using assms(2,3) key by (simp add: assms(5) job_at_mark_job_failed job_row_def)
  have uniq: "unique_rows job_id (db_jobs db1)"
    using assms(1) by (simp add: assms(5) mark_job_failed_def mark_failed_upd.unique_update)
  have "job_at (db_jobs db2) jid = job_at (db_jobs db1) jid"
    unfolding assms(6) by (rule stale_commit(3) [OF uniq row]) (use assms(4) in \<open>simp add: mark_failed_values_def\<close>)
  then show ?thesis
    using row by (simp add: mark_failed_values_def assms(5,6) commit_retry_def enqueue_def)
qed

lemma flow_failure_never_retried_witness:
  "\<exists>j'. job_at (db_jobs (commit_retry (\<lambda>_. True) 9 9 11 0 0 ''e'' 95
      \<lparr>db_jobs = mark_job_failed (\<lambda>_. True) 9 11 ''e'' [sample_job], db_outbox = []\<rparr>)) 11 = Some j' \<and>
    status j' = FAILED \<and> attempt j' = 0"
proof -
  let ?db = "\<lparr>db_jobs = [sample_job], db_outbox = []\<rparr>"
  have "job_at (db_jobs ?db) 11 = Some sample_job" "unique_rows job_id (db_jobs ?db)" "attempt sample_job = 0"
    by (simp_all add: job_at_def sql_find_def unique_rows_def sample_job_def new_job_def)
  then show ?thesis
    using flow_failure_never_retried [where db = ?db and jid = 11 and j = sample_job and vis = "\<lambda>_. True"
        and t = 0 and now = 9 and err = "''e''" and vis' = "\<lambda>_. True" and now' = 9 and clock = 9 and att = 0
        and msg = "''e''" and eid = 95] by auto
qed

end
