(* ===== verification/FlowGraph.thy ===== *)
theory FlowGraph imports PyJson "HOL-Library.Multiset" begin

text \<open>
  Flow definitions as graphs: the value objects and their JSON form
  (\<open>packages/components/flow/flows.py\<close>), the topological sort and the input bindings
  (\<open>dag.py\<close>), and the structural and semantic validation (\<open>flow_validation.py\<close>).
\<close>

section \<open>Nodes and edges\<close>

record flow_node =
  node_id :: string
  component_name :: string
  component_version :: string
  params :: "(string \<times> json) list"
  input_bindings :: "(string \<times> string) list"

record flow_edge =
  source_node :: string
  source_port :: string
  target_node :: string
  target_port :: string

definition node_to_dict :: "flow_node \<Rightarrow> json" where
  "node_to_dict n = JObj
     [(''node_id'', JStr (node_id n)), (''component_name'', JStr (component_name n)),
      (''component_version'', JStr (component_version n)), (''params'', JObj (params n)),
      (''input_bindings'', JObj (map (\<lambda>(k, v). (k, JStr v)) (input_bindings n)))]"

definition edge_to_dict :: "flow_edge \<Rightarrow> json" where
  "edge_to_dict e = JObj
     [(''source_node'', JStr (source_node e)), (''source_port'', JStr (source_port e)),
      (''target_node'', JStr (target_node e)), (''target_port'', JStr (target_port e))]"

text \<open>
  Reading back. A missing key of the required ones is a \<open>KeyError\<close> (\<open>None\<close>); the code stores
  whatever JSON value it finds, the model only takes values of the declared type.
\<close>

fun string_values :: "(string \<times> json) list \<Rightarrow> (string \<times> string) list option" where
  "string_values [] = Some []"
| "string_values ((k, v) # d) =
    (case (json_str (Some v), string_values d) of (Some s, Some r) \<Rightarrow> Some ((k, s) # r) | _ \<Rightarrow> None)"

definition node_from_dict :: "json \<Rightarrow> flow_node option" where
  "node_from_dict data =
    Option.bind (json_obj data) (\<lambda>d.
    Option.bind (json_str (dict_get d ''node_id'')) (\<lambda>i.
    Option.bind (json_str (dict_get d ''component_name'')) (\<lambda>c.
    Option.bind (json_str (dict_get d ''component_version'')) (\<lambda>v.
    Option.bind (case dict_get d ''params'' of None \<Rightarrow> Some [] | Some p \<Rightarrow> json_obj p) (\<lambda>p.
    Option.bind (case dict_get d ''input_bindings'' of None \<Rightarrow> Some []
                 | Some b \<Rightarrow> Option.bind (json_obj b) string_values) (\<lambda>b.
      Some \<lparr>node_id = i, component_name = c, component_version = v, params = p, input_bindings = b\<rparr>))))))"

definition edge_from_dict :: "json \<Rightarrow> flow_edge option" where
  "edge_from_dict data =
    Option.bind (json_obj data) (\<lambda>d.
    Option.bind (json_str (dict_get d ''source_node'')) (\<lambda>sn.
    Option.bind (json_str (dict_get d ''source_port'')) (\<lambda>sp.
    Option.bind (json_str (dict_get d ''target_node'')) (\<lambda>tn.
    Option.bind (json_str (dict_get d ''target_port'')) (\<lambda>tp.
      Some \<lparr>source_node = sn, source_port = sp, target_node = tn, target_port = tp\<rparr>)))))"

definition nodes_to_json :: "flow_node list \<Rightarrow> json" where
  "nodes_to_json ns = JArr (map node_to_dict ns)"

definition edges_to_json :: "flow_edge list \<Rightarrow> json" where
  "edges_to_json es = JArr (map edge_to_dict es)"

fun nodes_from_json :: "json \<Rightarrow> flow_node list option" where
  "nodes_from_json (JArr vs) = all_some (map node_from_dict vs)"
| "nodes_from_json _ = None"

fun edges_from_json :: "json \<Rightarrow> flow_edge list option" where
  "edges_from_json (JArr vs) = all_some (map edge_from_dict vs)"
| "edges_from_json _ = None"

text \<open>
  \<open>json.dumps(..., sort_keys=True)\<close> writes every object with its keys sorted: \<open>canonical\<close> is the
  value it writes. The text and its SHA-256 are the parameter \<open>sha\<close> of the digest.
\<close>

definition compute_flow_digest :: "(json \<Rightarrow> string) \<Rightarrow> flow_node list \<Rightarrow> flow_edge list \<Rightarrow> int \<Rightarrow> string" where
  "compute_flow_digest sha nodes edges random_seed =
    sha (canonical (JObj [(''nodes'', nodes_to_json nodes), (''edges'', edges_to_json edges),
                          (''random_seed'', JInt random_seed)]))"

section \<open>Topological sort\<close>

datatype topo_error = KeyError | Cycle

text \<open>\<open>adjacency\<close> and \<open>in_degree\<close> after the loop over the edges.\<close>

fun build_graph ::
    "(string \<times> string list) list \<Rightarrow> (string \<times> int) list \<Rightarrow> flow_edge list
      \<Rightarrow> ((string \<times> string list) list \<times> (string \<times> int) list) option" where
  "build_graph adj deg [] = Some (adj, deg)"
| "build_graph adj deg (e # es) =
    (case dict_get adj (source_node e) of
       None \<Rightarrow> None
     | Some ns \<Rightarrow>
         (case dict_get deg (target_node e) of
            None \<Rightarrow> None
          | Some d \<Rightarrow>
              build_graph (dict_set adj (source_node e) (ns @ [target_node e]))
                (dict_set deg (target_node e) (d + 1)) es))"

text \<open>The inner loop: each neighbour loses one incoming edge and is queued when it has none left.\<close>

fun relax ::
    "(string \<times> int) list \<Rightarrow> string list \<Rightarrow> string list \<Rightarrow> ((string \<times> int) list \<times> string list) option" where
  "relax deg q [] = Some (deg, q)"
| "relax deg q (n # ns) =
    (case dict_get deg n of
       None \<Rightarrow> None
     | Some d \<Rightarrow> relax (dict_set deg n (d - 1)) (if d - 1 = 0 then q @ [n] else q) ns)"

definition positives :: "(string \<times> int) list \<Rightarrow> nat" where
  "positives deg = length (filter (\<lambda>(_, d). 0 < d) deg)"

lemma positives_set:
  "dict_get deg n = Some d \<Longrightarrow>
    positives (dict_set deg n d') + (if 0 < d then 1 else 0) = positives deg + (if 0 < d' then 1 else 0)"
  by (induction deg) (auto simp: positives_def dict_get_def split: if_splits)

lemma relax_measure: "relax deg q ns = Some (deg', q') \<Longrightarrow> length q' + positives deg' \<le> length q + positives deg"
proof (induction deg q ns rule: relax.induct)
  case (2 deg q n ns)
  then obtain d where d: "dict_get deg n = Some d"
      "relax (dict_set deg n (d - 1)) (if d - 1 = 0 then q @ [n] else q) ns = Some (deg', q')"
    by (auto split: option.splits)
  then show ?case
    using "2.IH" [OF d] positives_set [OF d(1), of "d - 1"] by (auto split: if_splits)
qed simp

function kahn_loop ::
    "(string \<times> string list) list \<Rightarrow> (string \<times> int) list \<Rightarrow> string list \<Rightarrow> string list
      \<Rightarrow> (string list \<times> (string \<times> int) list) option" where
  "kahn_loop adj deg [] order = Some (order, deg)"
| "kahn_loop adj deg (c # q) order =
    (case dict_get adj c of
       None \<Rightarrow> None
     | Some ns \<Rightarrow>
         (case relax deg q ns of
            None \<Rightarrow> None
          | Some (deg', q') \<Rightarrow> kahn_loop adj deg' q' (order @ [c])))"
  by pat_completeness auto
termination
  by (relation "measure (\<lambda>(adj, deg, q, order). length q + positives deg)")
    (auto dest!: relax_measure)

definition kahn ::
    "flow_node list \<Rightarrow> flow_edge list \<Rightarrow> (string list \<times> (string \<times> int) list) option" where
  "kahn nodes edges =
    (case build_graph (dict_of (map (\<lambda>n. (node_id n, [])) nodes))
            (dict_of (map (\<lambda>n. (node_id n, 0)) nodes)) edges of
       None \<Rightarrow> None
     | Some (adj, deg) \<Rightarrow> kahn_loop adj deg (map fst (filter (\<lambda>(_, d). d = 0) deg)) [])"

definition topological_sort :: "flow_node list \<Rightarrow> flow_edge list \<Rightarrow> topo_error + string list" where
  "topological_sort nodes edges =
    (case kahn nodes edges of
       None \<Rightarrow> Inl KeyError
     | Some (order, _) \<Rightarrow> if length order \<noteq> length nodes then Inl Cycle else Inr order)"

section \<open>Input bindings\<close>

text \<open>\<open>"n:p"\<close> names the output \<open>p\<close> of node \<open>n\<close> (split at the first colon), anything else an external input.\<close>

definition resolve_input ::
    "string \<Rightarrow> (string \<times> (string \<times> json) list) list \<Rightarrow> (string \<times> json) list \<Rightarrow> json" where
  "resolve_input binding node_outputs input_snapshot =
    (if CHR '':'' \<in> set binding then
       (let src = takeWhile (\<lambda>c. c \<noteq> CHR '':'') binding;
            port = tl (dropWhile (\<lambda>c. c \<noteq> CHR '':'') binding);
            outs = (case dict_get node_outputs src of None \<Rightarrow> [] | Some d \<Rightarrow> d)
        in (case dict_get outs port of None \<Rightarrow> JNull | Some v \<Rightarrow> v))
     else (case dict_get input_snapshot binding of None \<Rightarrow> JNull | Some v \<Rightarrow> v))"

section \<open>Validation\<close>

datatype flow_issue =
    DuplicateNode string nat
  | UnknownSource string
  | UnknownTarget string
  | SelfLoop string string
  | CycleThrough "string list"
  | IsolatedNode string
  | UnknownComponent string
  | NoSourcePort flow_edge
  | NoTargetPort flow_edge
  | PortTypes flow_edge string string
  | BadParams string
  | UnboundInput string string
  | UnusedOutput string string

record validation_result =
  valid :: bool
  errors :: "flow_issue list"
  warnings :: "flow_issue list"

definition mk_validation :: "flow_issue list \<Rightarrow> flow_issue list \<Rightarrow> validation_result" where
  "mk_validation es ws = \<lparr>valid = (es = []), errors = es, warnings = ws\<rparr>"

fun count_ids :: "(string \<times> nat) list \<Rightarrow> string list \<Rightarrow> (string \<times> nat) list" where
  "count_ids seen [] = seen"
| "count_ids seen (i # is') =
    count_ids (dict_set seen i ((case dict_get seen i of None \<Rightarrow> 0 | Some c \<Rightarrow> c) + 1)) is'"

definition edge_issues :: "string set \<Rightarrow> flow_edge \<Rightarrow> flow_issue list" where
  "edge_issues ids e =
    (if source_node e \<notin> ids then [UnknownSource (source_node e)] else []) @
    (if target_node e \<notin> ids then [UnknownTarget (target_node e)] else []) @
    (if source_node e \<in> ids \<and> target_node e \<in> ids \<and> source_node e = target_node e
     then [SelfLoop (source_node e) (target_node e)] else [])"

definition valid_edge :: "string set \<Rightarrow> flow_edge \<Rightarrow> bool" where
  "valid_edge ids e = (source_node e \<in> ids \<and> target_node e \<in> ids \<and> source_node e \<noteq> target_node e)"

text \<open>The loop of \<open>validate_dag\<close> is that of \<open>topological_sort\<close>, counting instead of collecting; it
  cannot meet a missing key because the edges are filtered first, so \<open>None\<close> is never its result.\<close>

definition validate_dag :: "flow_node list \<Rightarrow> flow_edge list \<Rightarrow> validation_result option" where
  "validate_dag nodes edges =
    (let seen = count_ids [] (map node_id nodes);
         ids = set (dict_keys seen);
         good = filter (valid_edge ids) edges;
         connected = set (map source_node good) \<union> set (map target_node good)
     in case kahn nodes good of
          None \<Rightarrow> None
        | Some (order, deg) \<Rightarrow>
            Some (mk_validation
              (map (\<lambda>(i, c). DuplicateNode i c) (filter (\<lambda>(_, c). 1 < c) seen)
               @ concat (map (edge_issues ids) edges)
               @ (if length order \<noteq> length nodes
                  then [CycleThrough (sort (map fst (filter (\<lambda>(_, d). 0 < d) deg)))] else []))
              (map (\<lambda>n. IsolatedNode (node_id n)) (filter (\<lambda>n. node_id n \<notin> connected) nodes))))"

text \<open>A component's ports: name and \<open>data_type\<close> (which may be missing), as the registry stores them.\<close>

record port_schemas =
  ps_inputs :: "(string \<times> string option) list"
  ps_outputs :: "(string \<times> string option) list"

definition find_port :: "(string \<times> string option) list \<Rightarrow> string \<Rightarrow> string option" where
  "find_port ports name =
    map_option (\<lambda>(_, t). case t of None \<Rightarrow> [] | Some t \<Rightarrow> t) (find (\<lambda>(n, _). n = name) ports)"

definition port_issues :: "(string \<times> port_schemas) list \<Rightarrow> flow_edge \<Rightarrow> flow_issue list" where
  "port_issues node_ports e =
    (let outs = (case dict_get node_ports (source_node e) of None \<Rightarrow> [] | Some p \<Rightarrow> ps_outputs p);
         ins = (case dict_get node_ports (target_node e) of None \<Rightarrow> [] | Some p \<Rightarrow> ps_inputs p)
     in case find_port outs (source_port e) of
          None \<Rightarrow> [NoSourcePort e]
        | Some st \<Rightarrow>
            (case find_port ins (target_port e) of
               None \<Rightarrow> [NoTargetPort e]
             | Some tt \<Rightarrow>
                 if st \<noteq> tt \<and> st \<noteq> ''any'' \<and> tt \<noteq> ''any'' then [PortTypes e st tt] else []))"

definition check_port_types ::
    "(string \<Rightarrow> string \<Rightarrow> port_schemas option) \<Rightarrow> flow_node list \<Rightarrow> flow_edge list \<Rightarrow> validation_result" where
  "check_port_types registry nodes edges =
    (let look = (\<lambda>n. registry (component_name n) (component_version n));
         node_ports = dict_of (List.map_filter (\<lambda>n. map_option (\<lambda>p. (node_id n, p)) (look n)) nodes)
     in mk_validation
          (map (\<lambda>n. UnknownComponent (node_id n)) (filter (\<lambda>n. look n = None) nodes)
           @ concat (map (port_issues node_ports) edges)) [])"

record port =
  port_name :: string
  port_required :: bool

record manifest =
  mf_parameters :: "(string \<times> json) list"
  mf_inputs :: "port list"
  mf_outputs :: "port list"

text \<open>\<open>conforms\<close> is the JSON Schema library: does the instance satisfy the schema.\<close>

definition check_param_schema ::
    "(json \<Rightarrow> json \<Rightarrow> bool) \<Rightarrow> flow_node \<Rightarrow> manifest \<Rightarrow> validation_result" where
  "check_param_schema conforms n m =
    mk_validation
      ((if mf_parameters m \<noteq> [] \<and> \<not> conforms (JObj (params n)) (JObj (mf_parameters m))
        then [BadParams (node_id n)] else [])
       @ map (\<lambda>p. UnboundInput (node_id n) (port_name p))
           (filter (\<lambda>p. port_required p \<and> port_name p \<notin> set (dict_keys (input_bindings n))) (mf_inputs m)))
      (map (\<lambda>p. UnusedOutput (node_id n) (port_name p))
        (filter (\<lambda>p. port_required p \<and>
            node_id n @ '':'' @ port_name p \<notin> set (map snd (input_bindings n))) (mf_outputs m)))"

section \<open>Facts about Kahn's algorithm\<close>

abbreviation ids_of :: "flow_node list \<Rightarrow> string set" where
  "ids_of nodes \<equiv> node_id ` set nodes"

definition succs :: "flow_edge list \<Rightarrow> string \<Rightarrow> string list" where
  "succs es v = map target_node (filter (\<lambda>e. source_node e = v) es)"

text \<open>Incoming edges of \<open>v\<close> whose source is not in \<open>done\<close>.\<close>

definition open_in :: "flow_edge list \<Rightarrow> string set \<Rightarrow> string \<Rightarrow> nat" where
  "open_in es done v = length (filter (\<lambda>e. target_node e = v \<and> source_node e \<notin> done) es)"

lemma dict_get_const: "dict_get (dict_of (map (\<lambda>n. (f n, c)) xs)) v = (if v \<in> f ` set xs then Some c else None)"
proof -
  have "dict_get (foldl (\<lambda>d (k, v). dict_set d k v) d (map (\<lambda>n. (f n, c)) xs)) v =
      (if v \<in> f ` set xs then Some c else dict_get d v)" for d
    by (induction xs arbitrary: d) (auto simp: dict_get_set)
  then show ?thesis
    by (simp add: dict_of_def dict_get_def)
qed

lemma build_graph_Some:
  assumes "\<forall>e\<in>set es. dict_get adj (source_node e) \<noteq> None \<and> dict_get deg (target_node e) \<noteq> None"
  obtains adj' deg' where "build_graph adj deg es = Some (adj', deg')"
    and "\<And>v. dict_get adj' v = map_option (\<lambda>ns. ns @ succs es v) (dict_get adj v)"
    and "\<And>v. dict_get deg' v = map_option (\<lambda>d. d + int (open_in es {} v)) (dict_get deg v)"
    and "dict_keys deg' = dict_keys deg"
  using assms
proof (induction adj deg es arbitrary: thesis rule: build_graph.induct)
  case (1 adj deg)
  then show ?case
    by (simp add: succs_def open_in_def option.map_ident)
next
  case (2 adj deg e es)
  obtain ns d where nd: "dict_get adj (source_node e) = Some ns" "dict_get deg (target_node e) = Some d"
    using "2.prems"(2) by auto
  have "\<forall>x\<in>set es. dict_get (dict_set adj (source_node e) (ns @ [target_node e])) (source_node x) \<noteq> None \<and>
      dict_get (dict_set deg (target_node e) (d + 1)) (target_node x) \<noteq> None"
    using "2.prems"(2) by (auto simp: dict_get_set)
  from "2.IH" [OF nd _ this] obtain adj' deg' where r:
    "build_graph (dict_set adj (source_node e) (ns @ [target_node e]))
       (dict_set deg (target_node e) (d + 1)) es = Some (adj', deg')"
    "\<And>v. dict_get adj' v =
       map_option (\<lambda>ns. ns @ succs es v) (dict_get (dict_set adj (source_node e) (ns @ [target_node e])) v)"
    "\<And>v. dict_get deg' v =
       map_option (\<lambda>d. d + int (open_in es {} v)) (dict_get (dict_set deg (target_node e) (d + 1)) v)"
    "dict_keys deg' = dict_keys (dict_set deg (target_node e) (d + 1))"
    by blast
  show ?case
  proof (rule "2.prems"(1))
    show "build_graph adj deg (e # es) = Some (adj', deg')"
      using nd r(1) by simp
    show "dict_get adj' v = map_option (\<lambda>ns. ns @ succs (e # es) v) (dict_get adj v)" for v
      using nd by (simp add: r(2) dict_get_set succs_def)
    show "dict_get deg' v = map_option (\<lambda>d. d + int (open_in (e # es) {} v)) (dict_get deg v)" for v
      using nd by (auto simp: r(3) dict_get_set open_in_def)
    show "dict_keys deg' = dict_keys deg"
      using dict_get_Some_key [OF nd(2)] by (simp add: r(4) dict_keys_set)
  qed
qed

lemma relax_Some:
  assumes "\<forall>v\<in>set ns. \<exists>d. dict_get deg v = Some d \<and> int (count_list ns v) \<le> d"
  obtains deg' l where "relax deg q ns = Some (deg', q @ l)"
    and "\<And>v. dict_get deg' v = map_option (\<lambda>d. d - int (count_list ns v)) (dict_get deg v)"
    and "distinct l" and "set l = {v \<in> set ns. dict_get deg v = Some (int (count_list ns v))}"
    and "dict_keys deg' = dict_keys deg"
  using assms
proof (induction ns arbitrary: deg q thesis)
  case Nil
  show ?case
    by (rule Nil(1) [of deg "[]"]) (simp_all add: option.map_ident)
next
  case (Cons n ns)
  obtain d where d: "dict_get deg n = Some d" "int (count_list ns n) + 1 \<le> d"
    using Cons.prems(2) by fastforce
  let ?deg = "dict_set deg n (d - 1)"
  let ?q = "if d - 1 = 0 then q @ [n] else q"
  have pre: "\<forall>v\<in>set ns. \<exists>d. dict_get ?deg v = Some d \<and> int (count_list ns v) \<le> d"
  proof
    fix v assume "v \<in> set ns"
    then show "\<exists>d. dict_get ?deg v = Some d \<and> int (count_list ns v) \<le> d"
      using Cons.prems(2) d by (cases "v = n") (fastforce simp: dict_get_set)+
  qed
  obtain deg' l where r: "relax ?deg ?q ns = Some (deg', ?q @ l)"
    "\<And>v. dict_get deg' v = map_option (\<lambda>d. d - int (count_list ns v)) (dict_get ?deg v)"
    "distinct l" "set l = {v \<in> set ns. dict_get ?deg v = Some (int (count_list ns v))}"
    "dict_keys deg' = dict_keys ?deg"
    using Cons.IH [OF _ pre] by blast
  let ?l = "(if d - 1 = 0 then [n] else []) @ l"
  have zero: "n \<notin> set ns" if "d - 1 = 0"
    using d(2) that count_list_0_iff [of ns n] by simp
  show ?case
  proof (rule Cons.prems(1) [of deg' ?l])
    show "relax deg q (n # ns) = Some (deg', q @ ?l)"
      using d(1) r(1) by simp
    show "dict_get deg' v = map_option (\<lambda>d. d - int (count_list (n # ns) v)) (dict_get deg v)" for v
      using d(1) by (simp add: r(2) dict_get_set)
    show "distinct ?l"
      using r(3,4) zero by auto
    show "set ?l = {v \<in> set (n # ns). dict_get deg v = Some (int (count_list (n # ns) v))}"
      using d zero count_list_0_iff [of ns n] by (auto simp: r(4) dict_get_set)
    show "dict_keys deg' = dict_keys deg"
      using dict_get_Some_key [OF d(1)] by (simp add: r(5) dict_keys_set)
  qed
qed

lemma count_succs: "count_list (succs es c) v = length (filter (\<lambda>e. target_node e = v \<and> source_node e = c) es)"
  by (induction es) (auto simp: succs_def)

lemma open_in_insert:
  "c \<notin> done \<Longrightarrow> open_in es done v = open_in es (insert c done) v + count_list (succs es c) v"
  unfolding count_succs open_in_def by (induction es) auto

lemma open_in_0_iff:
  "open_in es done v = 0 \<longleftrightarrow> (\<forall>e\<in>set es. target_node e = v \<longrightarrow> source_node e \<in> done)"
  by (auto simp: open_in_def filter_empty_conv)

text \<open>\<open>ordered\<close>: every node of the list comes after all its predecessors.\<close>

definition ordered :: "flow_edge list \<Rightarrow> string list \<Rightarrow> bool" where
  "ordered es order \<longleftrightarrow>
    (\<forall>xs v ys. order = xs @ v # ys \<longrightarrow> (\<forall>e\<in>set es. target_node e = v \<longrightarrow> source_node e \<in> set xs))"

lemma ordered_Nil [simp]: "ordered es []"
  by (simp add: ordered_def)

lemma ordered_snoc:
  assumes "ordered es order" and "\<forall>e\<in>set es. target_node e = c \<longrightarrow> source_node e \<in> set order"
  shows "ordered es (order @ [c])"
  unfolding ordered_def
proof (intro allI impI)
  fix xs v ys assume "order @ [c] = xs @ v # ys"
  then show "\<forall>e\<in>set es. target_node e = v \<longrightarrow> source_node e \<in> set xs"
    using assms by (cases ys rule: rev_cases) (auto simp: ordered_def)
qed

definition kahn_inv ::
    "string set \<Rightarrow> flow_edge list \<Rightarrow> (string \<times> string list) list \<Rightarrow> (string \<times> int) list
      \<Rightarrow> string list \<Rightarrow> string list \<Rightarrow> bool" where
  "kahn_inv N es adj deg q order \<longleftrightarrow>
    (\<forall>v. dict_get adj v = (if v \<in> N then Some (succs es v) else None)) \<and>
    (\<forall>v. dict_get deg v = (if v \<in> N then Some (int (open_in es (set order) v)) else None)) \<and>
    distinct (order @ q) \<and> set (order @ q) \<subseteq> N \<and>
    (\<forall>v\<in>N. v \<in> set (order @ q) \<longleftrightarrow> open_in es (set order) v = 0) \<and> ordered es order"

lemma kahn_step:
  assumes "kahn_inv N es adj deg (c # q) order" and "\<forall>e\<in>set es. target_node e \<in> N"
  obtains deg' l where "relax deg q (succs es c) = Some (deg', q @ l)"
    and "kahn_inv N es adj deg' (q @ l) (order @ [c])" and "dict_keys deg' = dict_keys deg"
proof -
  have c: "c \<in> N" "c \<notin> set order" "c \<notin> set q"
    using assms(1) by (auto simp: kahn_inv_def)
  have deg: "dict_get deg v = (if v \<in> N then Some (int (open_in es (set order) v)) else None)" for v
    using assms(1) by (simp add: kahn_inv_def)
  note split = open_in_insert [OF c(2), of es]
  have pre: "\<forall>v\<in>set (succs es c). \<exists>d. dict_get deg v = Some d \<and> int (count_list (succs es c) v) \<le> d"
  proof
    fix v assume "v \<in> set (succs es c)"
    then have "v \<in> N"
      using assms(2) by (auto simp: succs_def)
    then show "\<exists>d. dict_get deg v = Some d \<and> int (count_list (succs es c) v) \<le> d"
      using split [of v] by (simp add: deg)
  qed
  obtain deg' l where r: "relax deg q (succs es c) = Some (deg', q @ l)"
    "\<And>v. dict_get deg' v = map_option (\<lambda>d. d - int (count_list (succs es c) v)) (dict_get deg v)"
    "distinct l" "set l = {v \<in> set (succs es c). dict_get deg v = Some (int (count_list (succs es c) v))}"
    "dict_keys deg' = dict_keys deg"
    using relax_Some [OF pre] by blast
  have l: "v \<in> set l \<longleftrightarrow> v \<in> N \<and> open_in es (insert c (set order)) v = 0 \<and> open_in es (set order) v \<noteq> 0" for v
  proof -
    have "v \<in> set (succs es c) \<longleftrightarrow> count_list (succs es c) v \<noteq> 0"
      by (simp add: count_list_0_iff)
    moreover have "v \<in> set (succs es c) \<Longrightarrow> v \<in> N"
      using assms(2) by (auto simp: succs_def)
    ultimately show ?thesis
      using split [of v] by (auto simp: r(4) deg)
  qed
  have queued: "v \<in> set (order @ c # q) \<longleftrightarrow> open_in es (set order) v = 0" if "v \<in> N" for v
    using assms(1) that by (simp add: kahn_inv_def)
  have new: "v \<notin> set (order @ c # q)" if "v \<in> set l" for v
    using l [THEN iffD1, OF that] queued by simp
  have old: "distinct (order @ c # q)" "set (order @ c # q) \<subseteq> N"
    using assms(1) by (simp_all only: kahn_inv_def)
  have "kahn_inv N es adj deg' (q @ l) (order @ [c])"
    unfolding kahn_inv_def
  proof (intro conjI allI ballI)
    show "dict_get adj v = (if v \<in> N then Some (succs es v) else None)" for v
      using assms(1) by (simp add: kahn_inv_def)
    show "dict_get deg' v = (if v \<in> N then Some (int (open_in es (set (order @ [c])) v)) else None)" for v
      using split [of v] by (simp add: r(2) deg)
    show "distinct ((order @ [c]) @ q @ l)"
      using old(1) r(3) new by auto
    show "set ((order @ [c]) @ q @ l) \<subseteq> N"
      using assms(1) l by (auto simp: kahn_inv_def)
    show "v \<in> set ((order @ [c]) @ q @ l) \<longleftrightarrow> open_in es (set (order @ [c])) v = 0" if "v \<in> N" for v
      using queued [OF that] l [of v] that split [of v] by auto
    show "ordered es (order @ [c])"
      using assms(1) queued [OF c(1)] by (intro ordered_snoc) (auto simp: kahn_inv_def open_in_0_iff)
  qed
  then show thesis
    using that r(1,5) by blast
qed

lemma kahn_loop_inv:
  assumes "kahn_inv N es adj deg q order" and "\<forall>e\<in>set es. target_node e \<in> N"
  obtains order' deg' where "kahn_loop adj deg q order = Some (order', deg')"
    and "kahn_inv N es adj deg' [] order'" and "dict_keys deg' = dict_keys deg"
  using assms
proof (induction adj deg q order arbitrary: thesis rule: kahn_loop.induct)
  case (1 adj deg order)
  then show ?case by simp
next
  case (2 adj deg c q order)
  obtain deg1 l where r: "relax deg q (succs es c) = Some (deg1, q @ l)"
      "kahn_inv N es adj deg1 (q @ l) (order @ [c])" "dict_keys deg1 = dict_keys deg"
    using kahn_step [OF "2.prems"(2,3)] by blast
  have c: "dict_get adj c = Some (succs es c)"
    using "2.prems"(2) by (auto simp: kahn_inv_def)
  obtain order' deg' where "kahn_loop adj deg1 (q @ l) (order @ [c]) = Some (order', deg')"
      "kahn_inv N es adj deg' [] order'" "dict_keys deg' = dict_keys deg1"
    using "2.IH" [OF c r(1) refl _ r(2) "2.prems"(3)] by blast
  then show ?case
    using "2.prems"(1) [of order' deg'] c r(1,3) by simp
qed

definition edges_within :: "string set \<Rightarrow> flow_edge list \<Rightarrow> bool" where
  "edges_within N es \<longleftrightarrow> (\<forall>e\<in>set es. source_node e \<in> N \<and> target_node e \<in> N)"

definition edge_rel :: "flow_edge list \<Rightarrow> (string \<times> string) set" where
  "edge_rel es = (\<lambda>e. (source_node e, target_node e)) ` set es"

lemma build_graph_within:
  "build_graph adj deg es = Some r \<Longrightarrow>
    \<forall>e\<in>set es. dict_get adj (source_node e) \<noteq> None \<and> dict_get deg (target_node e) \<noteq> None"
  by (induction adj deg es rule: build_graph.induct)
    (fastforce simp: dict_get_set split: option.splits if_splits)+

lemma kahn_within: "kahn nodes es = Some r \<Longrightarrow> edges_within (ids_of nodes) es"
  using build_graph_within
  by (fastforce simp: kahn_def edges_within_def dict_get_const split: option.splits if_splits)

lemma kahn_result:
  assumes "edges_within (ids_of nodes) es"
  obtains order deg adj where "kahn nodes es = Some (order, deg)"
    and "kahn_inv (ids_of nodes) es adj deg [] order" and "set (dict_keys deg) = ids_of nodes"
proof -
  let ?adj = "dict_of (map (\<lambda>n. (node_id n, [])) nodes) :: (string \<times> string list) list"
  let ?deg = "dict_of (map (\<lambda>n. (node_id n, 0)) nodes) :: (string \<times> int) list"
  have pre: "\<forall>e\<in>set es. dict_get ?adj (source_node e) \<noteq> None \<and> dict_get ?deg (target_node e) \<noteq> None"
    using assms by (simp add: edges_within_def dict_get_const)
  obtain adj deg where b: "build_graph ?adj ?deg es = Some (adj, deg)"
    "\<And>v. dict_get adj v = map_option (\<lambda>ns. ns @ succs es v) (dict_get ?adj v)"
    "\<And>v. dict_get deg v = map_option (\<lambda>d. d + int (open_in es {} v)) (dict_get ?deg v)"
    "dict_keys deg = dict_keys ?deg"
    using build_graph_Some [OF pre] by blast
  have dist: "distinct (map fst deg)"
    using distinct_dict_of [of "map (\<lambda>n. (node_id n, 0::int)) nodes"] b(4) by (simp add: dict_keys_def)
  have get: "dict_get deg v = (if v \<in> ids_of nodes then Some (int (open_in es {} v)) else None)" for v
    by (simp add: b(3) dict_get_const)
  let ?q = "map fst (filter (\<lambda>(_, d). d = 0) deg)"
  have q: "set ?q = {v \<in> ids_of nodes. open_in es {} v = 0}"
  proof -
    have "v \<in> set ?q \<longleftrightarrow> dict_get deg v = Some 0" for v
      using dist by (force simp: dict_get_def)
    then have "v \<in> set ?q \<longleftrightarrow> v \<in> ids_of nodes \<and> open_in es {} v = 0" for v
      by (simp only: get) simp
    then show ?thesis
      by blast
  qed
  have "distinct ?q"
    using dist by (simp add: distinct_map_filter case_prod_unfold)
  then have "kahn_inv (ids_of nodes) es adj deg ?q []"
    using q by (auto simp: kahn_inv_def b(2) dict_get_const get)
  then obtain order deg' where l: "kahn_loop adj deg ?q [] = Some (order, deg')"
      "kahn_inv (ids_of nodes) es adj deg' [] order" "dict_keys deg' = dict_keys deg"
    using kahn_loop_inv [of "ids_of nodes" es adj deg ?q "[]"] assms by (auto simp: edges_within_def)
  moreover have "kahn nodes es = Some (order, deg')"
    using b(1) l(1) by (simp add: kahn_def)
  moreover have "set (dict_keys deg') = ids_of nodes"
    using l(3) b(4) by (simp add: dict_keys_dict_of image_image)
  ultimately show thesis
    using that by blast
qed

lemma ordered_acyclic:
  assumes "ordered es order" and "edges_within (set order) es"
  shows "acyclic (edge_rel es)"
proof -
  let ?f = "\<lambda>v. length (takeWhile (\<lambda>x. x \<noteq> v) order)"
  have "?f (source_node e) < ?f (target_node e)" if e: "e \<in> set es" for e
  proof -
    have "target_node e \<in> set order"
      using assms(2) e by (simp add: edges_within_def)
    then obtain xs ys where o: "order = xs @ target_node e # ys" "target_node e \<notin> set xs"
      by (meson split_list_first)
    have s: "source_node e \<in> set xs"
      using assms(1) e o(1) by (auto simp: ordered_def)
    then obtain us vs where "xs = us @ source_node e # vs" "source_node e \<notin> set us"
      by (meson split_list_first)
    then have "?f (source_node e) < length xs"
      using o(1) by (simp add: takeWhile_append)
    moreover have "?f (target_node e) = length xs"
      using o by (simp add: takeWhile_append)
    ultimately show ?thesis by simp
  qed
  then have "edge_rel es \<subseteq> measure ?f"
    by (auto simp: edge_rel_def)
  then show ?thesis
    using wf_acyclic wf_measure wf_subset by blast
qed

lemma acyclic_order_full:
  assumes "kahn_inv N es adj deg [] order" and "acyclic (edge_rel es)" and "edges_within N es"
  shows "set order = N"
proof (rule ccontr)
  assume "set order \<noteq> N"
  moreover have "set order \<subseteq> N"
    using assms(1) by (simp add: kahn_inv_def)
  ultimately obtain x where x: "x \<in> N - set order"
    by blast
  have wf: "wf (edge_rel es)"
    using assms(2) by (simp add: finite_acyclic_wf edge_rel_def)
  obtain z where z: "z \<in> N - set order" "\<And>y. (y, z) \<in> edge_rel es \<Longrightarrow> y \<notin> N - set order"
    using wfE_min [OF wf x] by blast
  have "open_in es (set order) z = 0"
    using z(2) assms(3) by (auto simp: open_in_0_iff edge_rel_def edges_within_def)
  then show False
    using z(1) assms(1) by (auto simp: kahn_inv_def)
qed

lemma topological_sort_Inr:
  assumes "topological_sort nodes es = Inr order"
  shows "distinct (map node_id nodes)" "distinct order" "set order = ids_of nodes" "ordered es order"
    "edges_within (ids_of nodes) es"
proof -
  show within: "edges_within (ids_of nodes) es"
    using assms kahn_within by (auto simp: topological_sort_def split: option.splits)
  obtain order' deg adj where k: "kahn nodes es = Some (order', deg)"
      "kahn_inv (ids_of nodes) es adj deg [] order'" "set (dict_keys deg) = ids_of nodes"
    by (rule kahn_result [OF within])
  have o: "order' = order" "length order = length nodes"
    using assms k(1) by (auto simp: topological_sort_def split: if_splits)
  have inv: "distinct order" "set order \<subseteq> ids_of nodes" "ordered es order"
    using k(2) o(1) by (simp_all add: kahn_inv_def)
  then show "distinct order" "ordered es order"
    by blast+
  have "length nodes = card (set order)"
    using inv(1) o(2) by (simp add: distinct_card)
  also have "\<dots> \<le> card (ids_of nodes)"
    using inv(2) by (simp add: card_mono)
  finally have card: "length nodes \<le> card (ids_of nodes)" .
  then show "distinct (map node_id nodes)"
    using card_length [of "map node_id nodes"] by (simp add: card_distinct)
  have "card (ids_of nodes) \<le> card (set order)"
    using card_length [of "map node_id nodes"] inv(1) o(2) by (simp add: distinct_card)
  then show "set order = ids_of nodes"
    using inv(2) by (simp add: card_seteq)
qed

lemma topological_sort_succeeds:
  assumes "distinct (map node_id nodes)" and "edges_within (ids_of nodes) es" and "acyclic (edge_rel es)"
  shows "\<exists>order. topological_sort nodes es = Inr order"
proof -
  obtain order deg adj where k: "kahn nodes es = Some (order, deg)"
      "kahn_inv (ids_of nodes) es adj deg [] order" "set (dict_keys deg) = ids_of nodes"
    by (rule kahn_result [OF assms(2)])
  have o: "set order = set (map node_id nodes)" "distinct order"
    using acyclic_order_full [OF k(2) assms(3,2)] k(2) by (simp_all add: kahn_inv_def)
  have "length order = length nodes"
    using distinct_card [OF o(2)] distinct_card [OF assms(1)] o(1) by simp
  then show ?thesis
    using k(1) by (simp add: topological_sort_def)
qed

lemma count_ids_get:
  "dict_get (count_ids seen xs) v =
    (if v \<in> set xs then Some (count_list xs v + (case dict_get seen v of None \<Rightarrow> 0 | Some c \<Rightarrow> c))
     else dict_get seen v)"
  by (induction seen xs rule: count_ids.induct)
    (auto simp: dict_get_set count_list_0_iff split: option.splits)

lemma count_ids_distinct_keys: "distinct (dict_keys seen) \<Longrightarrow> distinct (dict_keys (count_ids seen xs))"
  by (induction seen xs rule: count_ids.induct) (simp_all add: distinct_dict_set)

lemma count_ids_keys: "set (dict_keys (count_ids [] xs)) = set xs"
proof -
  have "v \<in> set (dict_keys (count_ids [] xs)) \<longleftrightarrow> v \<in> set xs" for v
  proof -
    have "dict_get [] v = (None :: nat option)"
      by (simp add: dict_get_def)
    then show ?thesis
      using dict_get_None_iff [of "count_ids [] xs" v] by (simp add: count_ids_get split: if_splits)
  qed
  then show ?thesis by blast
qed

lemma count_list_distinct: "distinct xs \<longleftrightarrow> (\<forall>v\<in>set xs. count_list xs v \<le> 1)"
proof (induction xs)
  case (Cons a xs)
  then show ?case
    using count_list_0_iff [of xs a] by (auto simp: le_Suc_eq)
qed simp

lemma no_duplicates: "filter (\<lambda>(_, c). 1 < c) (count_ids [] xs) = [] \<longleftrightarrow> distinct xs"
proof -
  have keys: "distinct (map fst (count_ids [] xs))"
    using count_ids_distinct_keys [of "[]" xs] by (simp add: dict_keys_def)
  have "(v, c) \<in> set (count_ids [] xs) \<longleftrightarrow> v \<in> set xs \<and> c = count_list xs v" for v c
  proof -
    have "(v, c) \<in> set (count_ids [] xs) \<longleftrightarrow> dict_get (count_ids [] xs) v = Some c"
      using keys by (simp add: dict_get_def)
    moreover have "dict_get [] v = (None :: nat option)"
      by (simp add: dict_get_def)
    ultimately show ?thesis
      by (auto simp: count_ids_get)
  qed
  then show ?thesis
    unfolding count_list_distinct by (fastforce simp: filter_empty_conv not_less)
qed

lemma edge_issues_Nil_iff: "edge_issues ids e = [] \<longleftrightarrow> valid_edge ids e"
  by (auto simp: edge_issues_def valid_edge_def)

lemma kahn_full_iff:
  assumes "edges_within (ids_of nodes) es" and "kahn nodes es = Some (order, deg)"
  shows "length order = length nodes \<longleftrightarrow> distinct (map node_id nodes) \<and> acyclic (edge_rel es)"
proof
  assume "length order = length nodes"
  then have t: "topological_sort nodes es = Inr order"
    using assms(2) by (simp add: topological_sort_def)
  show "distinct (map node_id nodes) \<and> acyclic (edge_rel es)"
    using topological_sort_Inr [OF t] ordered_acyclic [of es order] by simp
next
  assume "distinct (map node_id nodes) \<and> acyclic (edge_rel es)"
  then show "length order = length nodes"
    using topological_sort_succeeds [of nodes es] assms by (auto simp: topological_sort_def split: if_splits)
qed

lemma acyclic_no_loop: "acyclic (edge_rel es) \<Longrightarrow> e \<in> set es \<Longrightarrow> source_node e \<noteq> target_node e"
  unfolding acyclic_def edge_rel_def by force

lemma all_some_map: "(\<And>x. f (g x) = Some x) \<Longrightarrow> all_some (map f (map g xs)) = Some xs"
  by (induction xs) auto

lemma string_values_map: "string_values (map (\<lambda>(k, v). (k, JStr v)) b) = Some b"
  by (induction b) auto

lemma node_round_trip: "node_from_dict (node_to_dict n) = Some n"
  by (simp add: node_from_dict_def node_to_dict_def dict_get_def string_values_map)

lemma edge_round_trip: "edge_from_dict (edge_to_dict e) = Some e"
  by (simp add: edge_from_dict_def edge_to_dict_def dict_get_def)

lemma canonical_perm:
  assumes "mset d = mset d'" and "distinct (map fst d)"
  shows "canonical (JObj d) = canonical (JObj d')"
proof -
  let ?c = "map (\<lambda>(k, v). (k, canonical v))"
  have fst: "map fst (?c x) = map fst x" for x
    by (simp add: case_prod_unfold comp_def)
  have "inj_on fst (set (?c d))"
    using assms(2) unfolding fst [of d, symmetric] by (simp only: distinct_map)
  moreover have "mset (?c d) = mset (sort_key fst (?c d'))"
    using assms(1) by simp
  ultimately have "sort_key fst (?c d) = sort_key fst (?c d')"
    by (intro sort_key_inj_key_eq) simp_all
  then show ?thesis
    by simp
qed

text \<open>Two nodes with the same entries in their dictionaries, written in any order.\<close>

definition same_node :: "flow_node \<Rightarrow> flow_node \<Rightarrow> bool" where
  "same_node n n' \<longleftrightarrow>
    node_id n = node_id n' \<and> component_name n = component_name n' \<and>
    component_version n = component_version n' \<and>
    mset (params n) = mset (params n') \<and> distinct (dict_keys (params n)) \<and>
    mset (input_bindings n) = mset (input_bindings n') \<and> distinct (dict_keys (input_bindings n))"

lemma canonical_same_node:
  assumes "same_node n n'"
  shows "canonical (node_to_dict n) = canonical (node_to_dict n')"
proof -
  let ?s = "map (\<lambda>(k, v). (k, JStr v)) :: (string \<times> string) list \<Rightarrow> (string \<times> json) list"
  have "map fst (?s (input_bindings n)) = dict_keys (input_bindings n)"
    by (simp add: dict_keys_def case_prod_unfold comp_def)
  then have "distinct (map fst (?s (input_bindings n)))"
    using assms by (simp only: same_node_def)
  then have "canonical (JObj (?s (input_bindings n))) = canonical (JObj (?s (input_bindings n')))"
    using assms by (intro canonical_perm) (simp_all add: same_node_def)
  moreover have "canonical (JObj (params n)) = canonical (JObj (params n'))"
    using assms by (intro canonical_perm) (simp_all add: same_node_def dict_keys_def)
  ultimately show ?thesis
    using assms by (simp add: node_to_dict_def same_node_def del: canonical.simps(2))
      (simp add: canonical.simps(2))
qed

lemma map_canonical: "list_all2 same_node ns ns' \<Longrightarrow> map (\<lambda>n. canonical (node_to_dict n)) ns = map (\<lambda>n. canonical (node_to_dict n)) ns'"
  by (induction rule: list_all2_induct) (simp_all add: canonical_same_node)

lemma validate_dag_sorts:
  "\<exists>r. validate_dag nodes es = Some r \<and> (valid r \<longleftrightarrow> (\<exists>order. topological_sort nodes es = Inr order))"
proof -
  let ?seen = "count_ids [] (map node_id nodes)"
  let ?ids = "set (dict_keys ?seen)"
  let ?good = "filter (valid_edge ?ids) es"
  have ids: "?ids = ids_of nodes"
    by (simp add: count_ids_keys)
  have good: "edges_within (ids_of nodes) ?good"
    by (simp add: edges_within_def valid_edge_def ids)
  obtain order deg adj where k: "kahn nodes ?good = Some (order, deg)"
      "kahn_inv (ids_of nodes) ?good adj deg [] order" "set (dict_keys deg) = ids_of nodes"
    by (rule kahn_result [OF good])
  obtain r where r: "validate_dag nodes es = Some r"
    and v: "valid r \<longleftrightarrow> distinct (map node_id nodes) \<and> (\<forall>e\<in>set es. valid_edge ?ids e) \<and> length order = length nodes"
    using k(1) no_duplicates [of "map node_id nodes"]
    by (simp add: validate_dag_def Let_def mk_validation_def edge_issues_Nil_iff)
  have "valid r \<longleftrightarrow> (\<exists>order. topological_sort nodes es = Inr order)"
  proof
    assume valid: "valid r"
    then have "?good = es" "edges_within (ids_of nodes) es"
      using v good by (auto simp: filter_id_conv)
    then show "\<exists>order. topological_sort nodes es = Inr order"
      using v valid k(1) by (simp add: topological_sort_def)
  next
    assume "\<exists>order. topological_sort nodes es = Inr order"
    then obtain order' where t: "topological_sort nodes es = Inr order'" by blast
    note t' = topological_sort_Inr [OF t]
    have ac: "acyclic (edge_rel es)"
      using ordered_acyclic [of es order'] t' by simp
    have ve: "\<forall>e\<in>set es. valid_edge ?ids e"
      using t'(5) acyclic_no_loop [OF ac] by (simp add: valid_edge_def ids edges_within_def)
    then have "?good = es"
      by (simp add: filter_id_conv)
    then have "length order = length nodes"
      using kahn_full_iff [OF t'(5)] k(1) t'(1) ac by simp
    then show "valid r"
      using v t'(1) ve by simp
  qed
  then show ?thesis
    using r by blast
qed

section \<open>Properties\<close>

text \<open>
  C8. The execution order. \<open>topological_sort\<close> returns each node exactly once and every node after all
  nodes it receives data from; it raises \<open>KeyError\<close> exactly when an edge names an unknown node and
  reports a cycle exactly when the edges are closed but an id is repeated or the graph is cyclic.
\<close>

theorem topological_sort_correct:
  "case topological_sort nodes es of
     Inr order \<Rightarrow> distinct order \<and> set order = ids_of nodes \<and> ordered es order
   | Inl KeyError \<Rightarrow> \<not> edges_within (ids_of nodes) es
   | Inl Cycle \<Rightarrow> edges_within (ids_of nodes) es \<and>
       \<not> (distinct (map node_id nodes) \<and> acyclic (edge_rel es))"
proof (cases "topological_sort nodes es")
  case (Inr order)
  then show ?thesis
    using topological_sort_Inr [OF Inr] by simp
next
  case (Inl x)
  show ?thesis
  proof (cases "edges_within (ids_of nodes) es")
    case True
    obtain order deg adj where k: "kahn nodes es = Some (order, deg)"
        "kahn_inv (ids_of nodes) es adj deg [] order" "set (dict_keys deg) = ids_of nodes"
      by (rule kahn_result [OF True])
    then show ?thesis
      using Inl True kahn_full_iff [OF True k(1)] by (auto simp: topological_sort_def split: if_splits)
  next
    case False
    then have "kahn nodes es = None"
      using kahn_within by (cases "kahn nodes es") auto
    then show ?thesis
      using Inl False by (simp add: topological_sort_def)
  qed
qed

text \<open>
  C9. The validator is exact. \<open>validate_dag\<close> never fails with a missing key, and it calls a graph
  valid exactly when \<open>topological_sort\<close> can order it: what passes validation can be executed, and
  nothing executable is rejected.
\<close>

theorem validate_dag_exact:
  "\<exists>r. validate_dag nodes es = Some r \<and> (valid r \<longleftrightarrow> (\<exists>order. topological_sort nodes es = Inr order))"
  by (rule validate_dag_sorts)

text \<open>
  Stored definitions read back. Serialising the nodes and the edges of a flow to JSON and reading
  them again gives the same nodes and edges.
\<close>

theorem flow_json_round_trip:
  "nodes_from_json (nodes_to_json ns) = Some ns \<and> edges_from_json (edges_to_json es) = Some es"
  using all_some_map [of node_from_dict node_to_dict, OF node_round_trip, of ns]
    all_some_map [of edge_from_dict edge_to_dict, OF edge_round_trip, of es]
  by (simp add: nodes_to_json_def edges_to_json_def)

text \<open>
  The digest is by content. Definitions whose nodes differ only in the order of the entries of
  their parameter and binding dictionaries have the same digest.
\<close>

theorem digest_ignores_key_order:
  assumes "list_all2 same_node ns ns'"
  shows "compute_flow_digest sha ns es seed = compute_flow_digest sha ns' es seed"
  using map_canonical [OF assms]
  by (simp add: compute_flow_digest_def nodes_to_json_def comp_def)

definition sample_node :: "string \<Rightarrow> (string \<times> json) list \<Rightarrow> (string \<times> string) list \<Rightarrow> flow_node" where
  "sample_node i ps bs =
    \<lparr>node_id = i, component_name = ''c'', component_version = ''1.0.0'', params = ps, input_bindings = bs\<rparr>"

lemma digest_ignores_key_order_witness:
  "\<forall>sha. compute_flow_digest sha [sample_node ''n'' [(''a'', JInt 1), (''b'', JNull)] []] [] 7 =
   compute_flow_digest sha [sample_node ''n'' [(''b'', JNull), (''a'', JInt 1)] []] [] 7"
  by (intro allI digest_ignores_key_order) (simp add: same_node_def sample_node_def dict_keys_def)

text \<open>
  Port types. When \<open>check_port_types\<close> finds no error, every node's component is registered and
  both ends of every edge exist in the components of their nodes, with equal data types unless one
  of them is \<open>any\<close>.
\<close>

theorem port_types_sound:
  assumes "valid (check_port_types registry nodes es)" and "distinct (map node_id nodes)"
    and "e \<in> set es" and "n \<in> set nodes" and "n' \<in> set nodes"
    and "source_node e = node_id n" and "target_node e = node_id n'"
  shows "\<exists>ps ps' st tt. registry (component_name n) (component_version n) = Some ps \<and>
    registry (component_name n') (component_version n') = Some ps' \<and>
    find_port (ps_outputs ps) (source_port e) = Some st \<and>
    find_port (ps_inputs ps') (target_port e) = Some tt \<and> (st = tt \<or> st = ''any'' \<or> tt = ''any'')"
proof -
  let ?look = "\<lambda>n. registry (component_name n) (component_version n)"
  let ?kvs = "List.map_filter (\<lambda>n. map_option (\<lambda>p. (node_id n, p)) (?look n)) nodes"
  let ?ports = "dict_of ?kvs"
  have all: "\<forall>n\<in>set nodes. ?look n \<noteq> None" and issues: "port_issues ?ports e = []"
    using assms(1,3) by (auto simp: check_port_types_def mk_validation_def Let_def filter_empty_conv)
  have kvs: "?kvs = map (\<lambda>n. (node_id n, the (?look n))) nodes"
    using all by (induction nodes) (auto simp: map_filter_simps)
  have get: "dict_get ?ports (node_id m) = Some (the (?look m))" if "m \<in> set nodes" for m
  proof -
    have "dict_get (foldl (\<lambda>d (k, v). dict_set d k v) d (map (\<lambda>n. (node_id n, the (?look n))) xs)) (node_id m) =
        (if m \<in> set xs then Some (the (?look m)) else dict_get d (node_id m))"
      if "set xs \<subseteq> set nodes" "distinct (map node_id xs)" for xs d
      using that
    proof (induction xs arbitrary: d)
      case (Cons a xs)
      have "node_id a = node_id m \<longleftrightarrow> a = m"
        using assms(2) Cons.prems(1) \<open>m \<in> set nodes\<close> by (auto simp: distinct_map inj_on_def)
      then show ?case
        using Cons by (auto simp: dict_get_set)
    qed simp
    from this [of nodes "[]"] show ?thesis
      using that assms(2) unfolding dict_of_def kvs by simp
  qed
  obtain ps ps' where "?look n = Some ps" "?look n' = Some ps'"
    using all assms(4,5) by blast
  then show ?thesis
    using issues get [OF assms(4)] get [OF assms(5)] assms(6,7)
    by (auto simp: port_issues_def Let_def split: option.splits if_splits)
qed

lemma port_types_sound_witness:
  "find_port (ps_outputs \<lparr>ps_inputs = [(''x'', Some ''t'')], ps_outputs = [(''y'', Some ''t'')]\<rparr>) ''y'' = Some ''t''"
proof -
  let ?ps = "\<lparr>ps_inputs = [(''x'', Some ''t'')], ps_outputs = [(''y'', Some ''t'')]\<rparr>"
  let ?e = "\<lparr>source_node = ''a'', source_port = ''y'', target_node = ''b'', target_port = ''x''\<rparr>"
  have v: "valid (check_port_types (\<lambda>_ _. Some ?ps) [sample_node ''a'' [] [], sample_node ''b'' [] []] [?e])"
    by (simp add: check_port_types_def mk_validation_def map_filter_simps port_issues_def dict_of_def
        dict_get_def sample_node_def find_port_def)
  show ?thesis
    using port_types_sound [OF v, of ?e "sample_node ''a'' [] []" "sample_node ''b'' [] []"]
    by (auto simp: sample_node_def find_port_def)
qed

text \<open>
  Bindings. A binding \<open>node:port\<close> delivers exactly the named output of the named node (and null
  when the node has not run or lacks the port), also when the port name itself contains colons; a
  binding without a colon delivers the external input of that name.
\<close>

theorem resolve_input_binding:
  assumes "CHR '':'' \<notin> set n"
  shows "resolve_input (n @ '':'' @ p) outs ext =
      (case dict_get outs n of None \<Rightarrow> JNull | Some d \<Rightarrow> (case dict_get d p of None \<Rightarrow> JNull | Some v \<Rightarrow> v)) \<and>
    resolve_input n outs ext = (case dict_get ext n of None \<Rightarrow> JNull | Some v \<Rightarrow> v)"
proof -
  have "takeWhile (\<lambda>c. c \<noteq> CHR '':'') (n @ '':'' @ p) = n" "dropWhile (\<lambda>c. c \<noteq> CHR '':'') (n @ '':'' @ p) = '':'' @ p"
    using assms by (subst takeWhile_append2 dropWhile_append2; auto)+
  then show ?thesis
    using assms by (simp add: resolve_input_def Let_def dict_get_def split: option.split)
qed

lemma resolve_input_binding_witness:
  "resolve_input (''a'' @ '':'' @ ''b:c'') [(''a'', [(''b:c'', JInt 4)])] [] = JInt 4"
  using resolve_input_binding [of "''a''" "''b:c''" "[(''a'', [(''b:c'', JInt 4)])]" "[]"] by (simp add: dict_get_def)

text \<open>
  A warning that is always given. The check for required outputs that no downstream node uses
  looks at the bindings of the node itself: unless a node reads its own output, every required
  output of its component is reported as unused, whatever the other nodes of the flow do.
\<close>

theorem required_output_always_warned:
  assumes "p \<in> set (mf_outputs m)" and "port_required p"
    and "node_id n @ '':'' @ port_name p \<notin> set (map snd (input_bindings n))"
  shows "UnusedOutput (node_id n) (port_name p) \<in> set (warnings (check_param_schema conforms n m))"
  using assms by (simp add: check_param_schema_def mk_validation_def)

lemma required_output_always_warned_witness:
  "UnusedOutput ''n'' ''out'' \<in> set (warnings (check_param_schema (\<lambda>_ _. True) (sample_node ''n'' [] [(''x'', ''m:y'')])
     \<lparr>mf_parameters = [], mf_inputs = [], mf_outputs = [\<lparr>port_name = ''out'', port_required = True\<rparr>]\<rparr>))"
  using required_output_always_warned [of "\<lparr>port_name = ''out'', port_required = True\<rparr>"
      "\<lparr>mf_parameters = [], mf_inputs = [], mf_outputs = [\<lparr>port_name = ''out'', port_required = True\<rparr>]\<rparr>"
      "sample_node ''n'' [] [(''x'', ''m:y'')]"]
  by (simp add: sample_node_def)

end
