(* ===== verification/FlowEngine.thy ===== *)
theory FlowEngine imports JobWorker FlowGraph begin

text \<open>
  Running a flow: \<open>packages/components/flow/execution_engine.py\<close> (\<open>execute\<close>, \<open>resume\<close>, \<open>cancel\<close>,
  \<open>retry_node\<close> and their helpers), the protected parameters (\<open>constants.py\<close>), the digest and the
  summaries (\<open>serialization.py\<close>), the rows (\<open>entities.py\<close>) and the reading and deleting of runs
  (\<open>run_service.py\<close>).

  The engine runs components, which are arbitrary code: \<open>run_component\<close> says what a component does
  at a given moment, \<open>latest\<close> what the registry and the manifest parser deliver for a component
  name. While a component runs, other coroutines and processes may write: \<open>during\<close> is what they do
  to the state in that time. The operations are sequences of committed transactions; a failing
  database connection is not modelled.
\<close>

section \<open>Rows and state\<close>

datatype run_status = RunPending | RunRunning | RunSucceeded | RunFailed | RunCancelled

datatype exec_status = ExecPending | ExecRunning | ExecSucceeded | ExecFailed

fun exec_status_value :: "exec_status \<Rightarrow> string" where
  "exec_status_value ExecPending = ''pending''"
| "exec_status_value ExecRunning = ''running''"
| "exec_status_value ExecSucceeded = ''succeeded''"
| "exec_status_value ExecFailed = ''failed''"

record flow_version =
  fv_id :: uuid
  fv_definition_id :: uuid
  fv_version :: nat
  fv_nodes_json :: json
  fv_edges_json :: json
  fv_random_seed :: int
  fv_digest :: string
  fv_status :: string

record flow_run =
  fr_id :: uuid
  fr_department_id :: uuid
  fr_flow_version_id :: uuid
  fr_status :: run_status
  fr_job_id :: "uuid option"
  fr_input_snapshot :: dict
  fr_output_digest :: "string option"
  fr_started_at :: "timestamp option"
  fr_completed_at :: "timestamp option"
  fr_created_at :: timestamp

record node_exec =
  ne_id :: uuid
  ne_flow_run_id :: uuid
  ne_node_id :: string
  ne_status :: exec_status
  ne_input_summary :: dict
  ne_output_summary :: dict
  ne_diagnostics :: "json option"
  ne_started_at :: "timestamp option"
  ne_completed_at :: "timestamp option"
  ne_duration_ms :: "int option"

text \<open>
  The tables, the cancel events of the process (\<open>_cancel_events\<close>: whether the event of a run is
  set) and a counter of the moments at which the clock was read or an identifier drawn.
\<close>

record flow_state =
  fs_runs :: "flow_run list"
  fs_versions :: "flow_version list"
  fs_execs :: "node_exec list"
  fs_jobs :: "job list"
  fs_events :: "(uuid \<times> bool) list"
  fs_tick :: nat

record component_context =
  ctx_department_id :: uuid
  ctx_user_id :: uuid
  ctx_job_id :: uuid

record component_result =
  cr_outputs :: dict
  cr_summary :: string
  cr_metadata :: dict
  cr_diagnostics :: "json option"

text \<open>An exception inside a node: the name of its class and its text.\<close>

type_synonym py_exception = "string \<times> string"

record flow_env =
  clock :: "nat \<Rightarrow> timestamp"
  fresh :: "nat \<Rightarrow> uuid"
  env_vis :: visibility
  env_department :: uuid
  sha256 :: "json \<Rightarrow> string"
  latest :: "string \<Rightarrow> py_exception + manifest"
  run_component ::
    "nat \<Rightarrow> manifest \<Rightarrow> component_context \<Rightarrow> dict \<Rightarrow> py_exception + component_result"
  during :: "string \<Rightarrow> flow_state \<Rightarrow> flow_state"

text \<open>What an operation may raise: an \<open>AppError\<close>, or the \<open>KeyError\<close> of a malformed flow.\<close>

datatype flow_error = FlowApp app_error | FlowKeyError

abbreviation tick :: "flow_state \<Rightarrow> flow_state" where
  "tick s \<equiv> s\<lparr>fs_tick := Suc (fs_tick s)\<rparr>"

abbreviation now_at :: "flow_env \<Rightarrow> flow_state \<Rightarrow> timestamp" where
  "now_at env s \<equiv> clock env (fs_tick s)"

section \<open>Inputs of a node\<close>

definition PROTECTED_PARAMS :: "string list" where
  "PROTECTED_PARAMS =
    [''path'', ''file_path'', ''input_path'', ''output_path'', ''file'', ''filename'',
     ''source_path'', ''dest_path'', ''input_file'', ''output_file'', ''data_path'',
     ''template_path'', ''config_path'', ''script_path'', ''executable_path'']"

fun is_artifact :: "json \<Rightarrow> bool" where
  "is_artifact (JStr s) = starts_with ''artifact:'' s"
| "is_artifact _ = False"

text \<open>The loop over \<open>input_snapshot\<close>: external inputs fill what the node does not bind.\<close>

fun merge_snapshot :: "dict \<Rightarrow> dict \<Rightarrow> dict" where
  "merge_snapshot [] inputs = inputs"
| "merge_snapshot ((k, v) # kvs) inputs =
    merge_snapshot kvs
      (if \<not> py_truthy v then inputs
       else if k \<in> set PROTECTED_PARAMS then (if is_artifact v then dict_set inputs k v else inputs)
       else if k \<notin> set (dict_keys inputs) then dict_set inputs k v else inputs)"

definition bind_inputs :: "flow_node \<Rightarrow> (string \<times> dict) list \<Rightarrow> dict \<Rightarrow> dict" where
  "bind_inputs node node_outputs snapshot =
    dict_of (map (\<lambda>(p, b). (p, resolve_input b node_outputs snapshot)) (input_bindings node))"

definition gather_inputs :: "flow_node \<Rightarrow> (string \<times> dict) list \<Rightarrow> dict \<Rightarrow> dict" where
  "gather_inputs node node_outputs snapshot =
    merge_snapshot snapshot (bind_inputs node node_outputs snapshot)"

section \<open>One node\<close>

text \<open>
  \<open>d.get(k, {})\<close> followed by a method call: a value that is not an object has no \<open>get\<close>.
\<close>

fun py_type_name :: "json \<Rightarrow> string" where
  "py_type_name JNull = ''NoneType''"
| "py_type_name (JBool _) = ''bool''"
| "py_type_name (JInt _) = ''int''"
| "py_type_name (JFloat _) = ''float''"
| "py_type_name (JStr _) = ''str''"
| "py_type_name (JArr _) = ''list''"
| "py_type_name (JObj _) = ''dict''"

definition sub_dict :: "dict \<Rightarrow> string \<Rightarrow> py_exception + dict" where
  "sub_dict d k =
    (case dict_get d k of
       None \<Rightarrow> Inr []
     | Some (JObj x) \<Rightarrow> Inr x
     | Some v \<Rightarrow> Inl (''AttributeError'', [CHR 0x27] @ py_type_name v @ [CHR 0x27] @
                       '' object has no attribute '' @ [CHR 0x27] @ ''get'' @ [CHR 0x27]))"

text \<open>The prompt and the tool type of the registry's manifest replace those of the flow version.\<close>

definition node_params :: "flow_node \<Rightarrow> manifest \<Rightarrow> py_exception + dict" where
  "node_params node m =
    (case sub_dict (mf_parameters m) ''properties'' of
       Inl e \<Rightarrow> Inl e
     | Inr props \<Rightarrow>
         (case sub_dict props ''prompt'' of
            Inl e \<Rightarrow> Inl e
          | Inr prompt \<Rightarrow>
              (let ps = (case dict_get prompt ''default'' of
                           Some v \<Rightarrow> if py_truthy v \<and> ''prompt'' \<in> set (dict_keys (params node))
                                     then dict_set (params node) ''prompt'' v else params node
                         | None \<Rightarrow> params node)
               in case sub_dict props ''tool_type'' of
                    Inl e \<Rightarrow> Inl e
                  | Inr tool \<Rightarrow>
                      Inr (case dict_get tool ''default'' of
                             Some v \<Rightarrow> if py_truthy v then dict_set ps ''tool_type'' v else ps
                           | None \<Rightarrow> ps))))"

definition serialize_output_summary :: "component_result \<Rightarrow> dict" where
  "serialize_output_summary r =
    dict_set (dict_set (dict_of (cr_outputs r)) ''_metadata'' (JObj (cr_metadata r)))
      ''_summary_text'' (JStr (cr_summary r))"

definition serialize_input_summary :: "dict \<Rightarrow> dict" where
  "serialize_input_summary inputs = dict_of inputs"

text \<open>
  The body of the \<open>try\<close>, up to the result of the component: what it returns or raises, and the
  state in which it does.
\<close>

definition call_component ::
    "flow_env \<Rightarrow> flow_node \<Rightarrow> dict \<Rightarrow> uuid option \<Rightarrow> flow_state
      \<Rightarrow> (py_exception + component_result) \<times> flow_state" where
  "call_component env node inputs jid s =
    (case latest env (component_name node) of
       Inl e \<Rightarrow> (Inl e, s)
     | Inr m \<Rightarrow>
         (case node_params node m of
            Inl e \<Rightarrow> (Inl e, s)
          | Inr ps \<Rightarrow>
              (case (case jid of
                       Some j \<Rightarrow> (\<lparr>ctx_department_id = env_department env, ctx_user_id = j,
                                   ctx_job_id = j\<rparr>, s)
                     | None \<Rightarrow> (\<lparr>ctx_department_id = env_department env,
                                 ctx_user_id = fresh env (fs_tick s),
                                 ctx_job_id = fresh env (fs_tick (tick s))\<rparr>, tick (tick s))) of
                 (ctx, s') \<Rightarrow>
                   (run_component env (fs_tick s') m ctx (dict_of (ps @ inputs)),
                    during env (node_id node) s'))))"

record exec_result =
  er_status :: exec_status
  er_outputs :: dict
  er_output_summary :: dict

definition new_exec :: "uuid \<Rightarrow> uuid \<Rightarrow> string \<Rightarrow> dict \<Rightarrow> node_exec" where
  "new_exec eid rid n inputs =
    \<lparr>ne_id = eid, ne_flow_run_id = rid, ne_node_id = n, ne_status = ExecPending,
     ne_input_summary = inputs, ne_output_summary = [], ne_diagnostics = None,
     ne_started_at = None, ne_completed_at = None, ne_duration_ms = None\<rparr>"

definition exec_running :: "timestamp \<Rightarrow> node_exec \<Rightarrow> node_exec" where
  "exec_running t e = e\<lparr>ne_status := ExecRunning, ne_started_at := Some t\<rparr>"

definition exec_done :: "timestamp \<Rightarrow> timestamp \<Rightarrow> dict \<Rightarrow> json option \<Rightarrow> node_exec \<Rightarrow> node_exec" where
  "exec_done t0 t1 summary diag e =
    e\<lparr>ne_status := ExecSucceeded, ne_output_summary := summary, ne_diagnostics := diag,
      ne_completed_at := Some t1, ne_duration_ms := Some ((t1 - t0) * 1000)\<rparr>"

definition exec_failed :: "timestamp \<Rightarrow> timestamp \<Rightarrow> py_exception \<Rightarrow> node_exec \<Rightarrow> node_exec" where
  "exec_failed t0 t1 exc e =
    e\<lparr>ne_status := ExecFailed,
      ne_diagnostics := Some (JObj [(''error_type'', JStr (fst exc)), (''error_message'', JStr (snd exc))]),
      ne_completed_at := Some t1, ne_duration_ms := Some ((t1 - t0) * 1000)\<rparr>"

definition update_exec :: "uuid \<Rightarrow> (node_exec \<Rightarrow> node_exec) \<Rightarrow> flow_state \<Rightarrow> flow_state" where
  "update_exec eid f s = s\<lparr>fs_execs := sql_update (\<lambda>e. ne_id e = eid) f (fs_execs s)\<rparr>"

definition execute_single_node ::
    "flow_env \<Rightarrow> uuid \<Rightarrow> flow_node \<Rightarrow> dict \<Rightarrow> uuid option \<Rightarrow> flow_state \<Rightarrow> exec_result \<times> flow_state" where
  "execute_single_node env rid node inputs jid s =
    (let t0 = now_at env s;
         eid = fresh env (fs_tick s);
         s1 = tick s;
         s2 = s1\<lparr>fs_execs := fs_execs s1 @ [new_exec eid rid (node_id node) (serialize_input_summary inputs)]\<rparr>;
         s3 = update_exec eid (exec_running t0) s2
     in case call_component env node inputs jid s3 of
          (Inr r, s4) \<Rightarrow>
            (\<lparr>er_status = ExecSucceeded, er_outputs = cr_outputs r,
              er_output_summary = serialize_output_summary r\<rparr>,
             tick (update_exec eid
               (exec_done t0 (now_at env s4) (serialize_output_summary r) (cr_diagnostics r)) s4))
        | (Inl exc, s4) \<Rightarrow>
            (\<lparr>er_status = ExecFailed, er_outputs = [], er_output_summary = []\<rparr>,
             tick (update_exec eid (exec_failed t0 (now_at env s4) exc) s4)))"

section \<open>The end of a run\<close>

definition compute_output_digest :: "(json \<Rightarrow> string) \<Rightarrow> string \<Rightarrow> dict \<Rightarrow> json list \<Rightarrow> string" where
  "compute_output_digest sha version_digest snapshot summaries =
    sha (canonical (JObj [(''version_digest'', JStr version_digest),
                          (''input_snapshot'', JObj snapshot),
                          (''node_summaries'', JArr summaries)]))"

definition run_where :: "flow_env \<Rightarrow> uuid \<Rightarrow> flow_run \<Rightarrow> bool" where
  "run_where env rid r = (env_vis env (fr_department_id r) \<and> fr_id r = rid)"

definition find_run :: "flow_env \<Rightarrow> uuid \<Rightarrow> flow_state \<Rightarrow> flow_run option" where
  "find_run env rid s = sql_find (run_where env rid) (fs_runs s)"

definition update_run :: "flow_env \<Rightarrow> uuid \<Rightarrow> (flow_run \<Rightarrow> flow_run) \<Rightarrow> flow_state \<Rightarrow> flow_state" where
  "update_run env rid f s = s\<lparr>fs_runs := sql_update (run_where env rid) f (fs_runs s)\<rparr>"

definition final_values :: "run_status \<Rightarrow> timestamp \<Rightarrow> string option \<Rightarrow> flow_run \<Rightarrow> flow_run" where
  "final_values st t digest r =
    r\<lparr>fr_status := st, fr_completed_at := Some t,
      fr_output_digest := (if digest = None then fr_output_digest r else digest)\<rparr>"

definition finalize_run ::
    "flow_env \<Rightarrow> uuid \<Rightarrow> run_status \<Rightarrow> string \<Rightarrow> json list \<Rightarrow> flow_state \<Rightarrow> flow_state" where
  "finalize_run env rid st version_digest summaries s =
    (let digest =
           (if st = RunSucceeded then
              map_option (\<lambda>r. compute_output_digest (sha256 env) version_digest (fr_input_snapshot r) summaries)
                (find_run env rid s)
            else None)
     in tick (update_run env rid (final_values st (now_at env s) digest) s))"

fun job_status_of :: "run_status \<Rightarrow> job_status" where
  "job_status_of RunFailed = FAILED"
| "job_status_of RunCancelled = CANCELLED"
| "job_status_of _ = SUCCEEDED"

definition engine_job_values :: "timestamp \<Rightarrow> job_status \<Rightarrow> job \<Rightarrow> job" where
  "engine_job_values t st j = j\<lparr>status := st, updated_at := t\<rparr>"

definition update_job_status ::
    "flow_env \<Rightarrow> uuid option \<Rightarrow> run_status \<Rightarrow> flow_state \<Rightarrow> flow_state" where
  "update_job_status env jid st s =
    (case jid of
       None \<Rightarrow> s
     | Some j \<Rightarrow>
         tick (s\<lparr>fs_jobs := sql_update (job_row (env_vis env) j)
                           (engine_job_values (now_at env s) (job_status_of st)) (fs_jobs s)\<rparr>))"

definition settle_run ::
    "flow_env \<Rightarrow> uuid \<Rightarrow> uuid option \<Rightarrow> run_status \<Rightarrow> string \<Rightarrow> json list \<Rightarrow> flow_state \<Rightarrow> flow_state" where
  "settle_run env rid jid st version_digest summaries s =
    update_job_status env jid st (finalize_run env rid st version_digest summaries s)"

section \<open>The node loop\<close>

definition node_summary :: "string \<Rightarrow> exec_status \<Rightarrow> dict \<Rightarrow> json" where
  "node_summary n st summary =
    JObj [(''node_id'', JStr n), (''status'', JStr (exec_status_value st)), (''output_summary'', JObj summary)]"

definition event_set :: "uuid \<Rightarrow> flow_state \<Rightarrow> bool" where
  "event_set rid s = (dict_get (fs_events s) rid = Some True)"

fun run_node_loop ::
    "flow_env \<Rightarrow> uuid \<Rightarrow> (string \<times> flow_node) list \<Rightarrow> dict \<Rightarrow> uuid option \<Rightarrow> string \<Rightarrow> string set
      \<Rightarrow> (string \<times> dict) list \<Rightarrow> (string \<times> json) list \<Rightarrow> string list \<Rightarrow> flow_state
      \<Rightarrow> (flow_error + unit) \<times> flow_state" where
  "run_node_loop env rid node_map snapshot jid vd succeeded outs smr [] s =
    (Inr (), settle_run env rid jid RunSucceeded vd (map snd smr) s)"
| "run_node_loop env rid node_map snapshot jid vd succeeded outs smr (n # order) s =
    (if event_set rid s then (Inr (), settle_run env rid jid RunCancelled vd (map snd smr) s)
     else if n \<in> succeeded
     then run_node_loop env rid node_map snapshot jid vd succeeded outs smr order s
     else case dict_get node_map n of
       None \<Rightarrow> (Inl FlowKeyError, s)
     | Some node \<Rightarrow>
         (case execute_single_node env rid node (gather_inputs node outs snapshot) jid s of
            (r, s') \<Rightarrow>
              (let smr' = dict_set smr n (node_summary n (er_status r) (er_output_summary r))
               in if er_status r \<noteq> ExecSucceeded
                  then (Inr (), settle_run env rid jid RunFailed vd (map snd smr') s')
                  else run_node_loop env rid node_map snapshot jid vd succeeded
                         (dict_set outs n (er_outputs r)) smr' order s')))"

section \<open>\<open>execute\<close>, \<open>resume\<close>, \<open>cancel\<close> and \<open>retry_node\<close>\<close>

definition run_not_found :: "uuid \<Rightarrow> app_error" where
  "run_not_found rid = mk_error ''not_found'' False [(''run_id'', JStr (uuid_str rid))]"

definition version_not_found :: "uuid \<Rightarrow> app_error" where
  "version_not_found vid = mk_error ''not_found'' False [(''flow_version_id'', JStr (uuid_str vid))]"

text \<open>Loading the run, its version and its graph, the first half of the three operations.\<close>

definition load_run ::
    "flow_env \<Rightarrow> uuid \<Rightarrow> flow_state \<Rightarrow> flow_error + (flow_run \<times> flow_version \<times> flow_node list \<times> flow_edge list)" where
  "load_run env rid s =
    (case find_run env rid s of
       None \<Rightarrow> Inl (FlowApp (run_not_found rid))
     | Some r \<Rightarrow>
         (case sql_find (\<lambda>v. fv_id v = fr_flow_version_id r) (fs_versions s) of
            None \<Rightarrow> Inl (FlowApp (version_not_found (fr_flow_version_id r)))
          | Some v \<Rightarrow>
              (case (nodes_from_json (fv_nodes_json v), edges_from_json (fv_edges_json v)) of
                 (Some ns, Some es) \<Rightarrow> Inr (r, v, ns, es)
               | _ \<Rightarrow> Inl FlowKeyError)))"

definition start_values :: "timestamp \<Rightarrow> flow_run \<Rightarrow> flow_run" where
  "start_values t r = r\<lparr>fr_status := RunRunning, fr_started_at := Some t\<rparr>"

definition node_map_of :: "flow_node list \<Rightarrow> (string \<times> flow_node) list" where
  "node_map_of nodes = dict_of (map (\<lambda>n. (node_id n, n)) nodes)"

definition new_event :: "uuid \<Rightarrow> flow_state \<Rightarrow> flow_state" where
  "new_event rid s = s\<lparr>fs_events := dict_set (fs_events s) rid False\<rparr>"

fun flow_topo_error :: "topo_error \<Rightarrow> flow_error" where
  "flow_topo_error KeyError = FlowKeyError"
| "flow_topo_error Cycle = FlowApp (mk_error ''validation_failed'' False [])"

definition flow_execute :: "flow_env \<Rightarrow> uuid \<Rightarrow> flow_state \<Rightarrow> (flow_error + unit) \<times> flow_state" where
  "flow_execute env rid s =
    (case load_run env rid s of
       Inl e \<Rightarrow> (Inl e, s)
     | Inr (r, v, nodes, edges) \<Rightarrow>
         (let s1 = new_event rid (tick (update_run env rid (start_values (now_at env s)) s))
          in case topological_sort nodes edges of
               Inl e \<Rightarrow> (Inl (flow_topo_error e), s1)
             | Inr order \<Rightarrow>
                 run_node_loop env rid (node_map_of nodes) (fr_input_snapshot r) (fr_job_id r)
                   (fv_digest v) {} [] [] order s1))"

text \<open>\<open>ORDER BY started_at\<close>: NULLs last; rows of one instant in the order of the table.\<close>

definition by_started :: "node_exec list \<Rightarrow> node_exec list" where
  "by_started es =
    sort_key (\<lambda>e. the (ne_started_at e)) (filter (\<lambda>e. ne_started_at e \<noteq> None) es)
    @ filter (\<lambda>e. ne_started_at e = None) es"

definition run_execs :: "uuid \<Rightarrow> flow_state \<Rightarrow> node_exec list" where
  "run_execs rid s = filter (\<lambda>e. ne_flow_run_id e = rid) (fs_execs s)"

definition succeeded_outputs :: "node_exec list \<Rightarrow> (string \<times> dict) list" where
  "succeeded_outputs es =
    dict_of (map (\<lambda>e. (ne_node_id e, ne_output_summary e)) (filter (\<lambda>e. ne_status e = ExecSucceeded) es))"

definition exec_summary :: "node_exec \<Rightarrow> json" where
  "exec_summary e = node_summary (ne_node_id e) (ne_status e) (ne_output_summary e)"

definition exec_summaries :: "node_exec list \<Rightarrow> (string \<times> json) list" where
  "exec_summaries es = dict_of (map (\<lambda>e. (ne_node_id e, exec_summary e)) es)"

definition flow_resume :: "flow_env \<Rightarrow> uuid \<Rightarrow> flow_state \<Rightarrow> (flow_error + unit) \<times> flow_state" where
  "flow_resume env rid s =
    (case load_run env rid s of
       Inl e \<Rightarrow> (Inl e, s)
     | Inr (r, v, nodes, edges) \<Rightarrow>
         (let execs = by_started (run_execs rid s);
              s1 = tick (update_run env rid (start_values (now_at env s)) s)
          in case topological_sort nodes edges of
               Inl e \<Rightarrow> (Inl (flow_topo_error e), s1)
             | Inr order \<Rightarrow>
                 run_node_loop env rid (node_map_of nodes) (fr_input_snapshot r) (fr_job_id r)
                   (fv_digest v) (set (map ne_node_id (filter (\<lambda>e. ne_status e = ExecSucceeded) execs)))
                   (succeeded_outputs execs) (exec_summaries execs) order (new_event rid s1)))"

definition cancel_run_values :: "timestamp \<Rightarrow> flow_run \<Rightarrow> flow_run" where
  "cancel_run_values t r =
    (if fr_status r \<in> {RunPending, RunRunning}
     then r\<lparr>fr_status := RunCancelled, fr_completed_at := Some t\<rparr> else r)"

definition flow_cancel :: "flow_env \<Rightarrow> uuid \<Rightarrow> flow_state \<Rightarrow> (flow_error + flow_run) \<times> flow_state" where
  "flow_cancel env rid s =
    (let s1 = (if dict_get (fs_events s) rid = None then s
               else s\<lparr>fs_events := dict_set (fs_events s) rid True\<rparr>)
     in case find_run env rid s1 of
          None \<Rightarrow> (Inl (FlowApp (run_not_found rid)), s1)
        | Some r \<Rightarrow>
            (Inr (cancel_run_values (now_at env s1) r),
             tick (update_run env rid (cancel_run_values (now_at env s1)) s1)))"

text \<open>
  \<open>retry_node\<close>. The guard reads one row of the node, whichever the database returns first (here:
  table order); the last query picks the row with the greatest identifier.
\<close>

definition max_by_id :: "node_exec list \<Rightarrow> node_exec option" where
  "max_by_id es =
    fold (\<lambda>e best. case best of None \<Rightarrow> Some e | Some b \<Rightarrow> if ne_id b < ne_id e then Some e else best) es None"

definition node_rows :: "uuid \<Rightarrow> string \<Rightarrow> flow_state \<Rightarrow> node_exec list" where
  "node_rows rid n s = filter (\<lambda>e. ne_node_id e = n) (run_execs rid s)"

definition retry_guard :: "uuid \<Rightarrow> string \<Rightarrow> flow_node list \<Rightarrow> flow_state \<Rightarrow> flow_error + flow_node" where
  "retry_guard rid n nodes s =
    (case dict_get (node_map_of nodes) n of
       None \<Rightarrow> Inl (FlowApp (mk_error ''not_found'' False [(''node_id'', JStr n)]))
     | Some node \<Rightarrow>
         (case node_rows rid n s of
            e # _ \<Rightarrow>
              if ne_status e \<noteq> ExecFailed
              then Inl (FlowApp (mk_error ''validation_failed'' False
                     [(''node_id'', JStr n), (''status'', JStr (exec_status_value (ne_status e)))]))
              else Inr node
          | [] \<Rightarrow> Inr node))"

definition retry_finish ::
    "flow_env \<Rightarrow> uuid \<Rightarrow> uuid option \<Rightarrow> string \<Rightarrow> flow_node list \<Rightarrow> exec_result \<Rightarrow> flow_state
      \<Rightarrow> (flow_error + unit) \<times> flow_state" where
  "retry_finish env rid jid vd nodes r s =
    (if er_status r = ExecSucceeded then
       (if set (map node_id nodes)
            \<subseteq> set (map ne_node_id (filter (\<lambda>e. ne_status e = ExecSucceeded) (run_execs rid s)))
        then (Inr (), settle_run env rid jid RunSucceeded vd (map exec_summary (run_execs rid s)) s)
        else flow_resume env rid s)
     else (Inr (), settle_run env rid jid RunFailed vd [] s))"

definition retry_node ::
    "flow_env \<Rightarrow> uuid \<Rightarrow> string \<Rightarrow> flow_state \<Rightarrow> (flow_error + node_exec) \<times> flow_state" where
  "retry_node env rid n s =
    (case load_run env rid s of
       Inl e \<Rightarrow> (Inl e, s)
     | Inr (r, v, nodes, edges) \<Rightarrow>
         (case retry_guard rid n nodes s of
            Inl e \<Rightarrow> (Inl e, s)
          | Inr node \<Rightarrow>
              (let s1 = new_event rid (update_run env rid (\<lambda>r. r\<lparr>fr_status := RunRunning\<rparr>) s);
                   inputs = bind_inputs node (succeeded_outputs (run_execs rid s)) (fr_input_snapshot r)
               in case execute_single_node env rid node inputs (fr_job_id r) s1 of
                    (res, s2) \<Rightarrow>
                      (case retry_finish env rid (fr_job_id r) (fv_digest v) nodes res s2 of
                         (Inl e, s3) \<Rightarrow> (Inl e, s3)
                       | (Inr (), s3) \<Rightarrow>
                           (case max_by_id (node_rows rid n s3) of
                              None \<Rightarrow> (Inl (FlowApp (mk_error ''not_found'' False [(''node_id'', JStr n)])), s3)
                            | Some e \<Rightarrow> (Inr e, s3))))))"

section \<open>Reading and deleting runs\<close>

definition get_run :: "flow_env \<Rightarrow> uuid \<Rightarrow> flow_state \<Rightarrow> app_error + (flow_run \<times> node_exec list)" where
  "get_run env rid s =
    (case find_run env rid s of
       None \<Rightarrow> Inl (run_not_found rid)
     | Some r \<Rightarrow> Inr (r, by_started (run_execs rid s)))"

definition delete_run :: "flow_env \<Rightarrow> uuid \<Rightarrow> flow_state \<Rightarrow> flow_state" where
  "delete_run env rid s =
    s\<lparr>fs_execs := filter (\<lambda>e. ne_flow_run_id e \<noteq> rid) (fs_execs s),
      fs_runs := filter (\<lambda>r. \<not> run_where env rid r) (fs_runs s),
      fs_jobs := (case Option.bind (find_run env rid s) fr_job_id of
                    None \<Rightarrow> fs_jobs s
                  | Some j \<Rightarrow> filter (\<lambda>x. \<not> job_row (env_vis env) j x) (fs_jobs s))\<rparr>"

end
