(* ===== verification/FlowRuns.thy ===== *)
theory FlowRuns imports FlowEngine begin

text \<open>
  What a run of a flow computes. A reference evaluator, \<open>eval_nodes\<close>, says which nodes are run in
  which order on which inputs; \<open>execute\<close> and \<open>resume\<close> are shown to carry it out and to record it.
  From it follow the effect of a successful and of a failed run, the agreement of a resumed run
  with an uninterrupted one, and when a cancellation is noticed.
\<close>

section \<open>The reference evaluator\<close>

text \<open>
  \<open>steady\<close>: components depend on their manifest and parameters only. \<open>quiet\<close>: nobody else writes
  while a given node runs. \<open>fresh_ok\<close>: identifiers drawn from now on are new.
\<close>

definition steady :: "flow_env \<Rightarrow> bool" where
  "steady env \<longleftrightarrow> (\<forall>t t' m c c' ps. run_component env t m c ps = run_component env t' m c' ps)"

definition quiet_at :: "flow_env \<Rightarrow> string \<Rightarrow> bool" where
  "quiet_at env n \<longleftrightarrow> (\<forall>s. during env n s = s)"

definition fresh_ok :: "flow_env \<Rightarrow> flow_state \<Rightarrow> bool" where
  "fresh_ok env s \<longleftrightarrow> inj (fresh env) \<and> (\<forall>e\<in>set (fs_execs s). \<forall>t\<ge>fs_tick s. ne_id e \<noteq> fresh env t)"

definition node_outcome :: "flow_env \<Rightarrow> flow_node \<Rightarrow> dict \<Rightarrow> py_exception + component_result" where
  "node_outcome env node inputs =
    (case latest env (component_name node) of
       Inl e \<Rightarrow> Inl e
     | Inr m \<Rightarrow>
         (case node_params node m of
            Inl e \<Rightarrow> Inl e
          | Inr ps \<Rightarrow>
              run_component env 0 m \<lparr>ctx_department_id = 0, ctx_user_id = 0, ctx_job_id = 0\<rparr>
                (dict_of (ps @ inputs))))"

type_synonym trace = "(string \<times> dict \<times> (py_exception + component_result)) list"

fun eval_nodes ::
    "flow_env \<Rightarrow> (string \<times> flow_node) list \<Rightarrow> dict \<Rightarrow> string set \<Rightarrow> (string \<times> dict) list
      \<Rightarrow> string list \<Rightarrow> trace" where
  "eval_nodes env nm snapshot skip outs [] = []"
| "eval_nodes env nm snapshot skip outs (n # order) =
    (if n \<in> skip then eval_nodes env nm snapshot skip outs order
     else case dict_get nm n of
       None \<Rightarrow> []
     | Some node \<Rightarrow>
         (let i = gather_inputs node outs snapshot; r = node_outcome env node i
          in (n, i, r) #
             (case r of
                Inl _ \<Rightarrow> []
              | Inr x \<Rightarrow> eval_nodes env nm snapshot skip (dict_set outs n (cr_outputs x)) order)))"

fun step_ok :: "string \<times> dict \<times> (py_exception + component_result) \<Rightarrow> bool" where
  "step_ok (n, i, Inl _) = False"
| "step_ok (n, i, Inr _) = True"

definition all_ok :: "trace \<Rightarrow> bool" where
  "all_ok tr = list_all step_ok tr"

fun step_summary :: "string \<times> dict \<times> (py_exception + component_result) \<Rightarrow> json" where
  "step_summary (n, i, Inl _) = node_summary n ExecFailed []"
| "step_summary (n, i, Inr x) = node_summary n ExecSucceeded (serialize_output_summary x)"

definition trace_summaries :: "(string \<times> json) list \<Rightarrow> trace \<Rightarrow> (string \<times> json) list" where
  "trace_summaries smr tr = foldl (\<lambda>m st. dict_set m (fst st) (step_summary st)) smr tr"

fun step_outputs :: "string \<times> dict \<times> (py_exception + component_result) \<Rightarrow> dict" where
  "step_outputs (n, i, Inl _) = []"
| "step_outputs (n, i, Inr x) = cr_outputs x"

definition trace_outputs :: "(string \<times> dict) list \<Rightarrow> trace \<Rightarrow> (string \<times> dict) list" where
  "trace_outputs outs tr = foldl (\<lambda>m st. dict_set m (fst st) (step_outputs st)) outs tr"

text \<open>The row of \<open>flow_node_execution\<close> that records a step.\<close>

fun row_records :: "uuid \<Rightarrow> node_exec \<Rightarrow> string \<times> dict \<times> (py_exception + component_result) \<Rightarrow> bool" where
  "row_records rid e (n, i, r) =
    (ne_flow_run_id e = rid \<and> ne_node_id e = n \<and> ne_input_summary e = serialize_input_summary i \<and>
     ne_started_at e \<noteq> None \<and>
     (case r of
        Inr x \<Rightarrow> ne_status e = ExecSucceeded \<and> ne_output_summary e = serialize_output_summary x
                 \<and> ne_diagnostics e = cr_diagnostics x
      | Inl exc \<Rightarrow> ne_status e = ExecFailed \<and> ne_output_summary e = []
                 \<and> ne_diagnostics e = Some (JObj [(''error_type'', JStr (fst exc)),
                                                  (''error_message'', JStr (snd exc))])))"

lemma all_ok_simps [simp]: "all_ok []" "all_ok (st # tr) \<longleftrightarrow> step_ok st \<and> all_ok tr"
  "all_ok (tr @ tr') \<longleftrightarrow> all_ok tr \<and> all_ok tr'"
  by (simp_all add: all_ok_def)

lemma trace_summaries_simps [simp]:
  "trace_summaries smr [] = smr"
  "trace_summaries smr (st # tr) = trace_summaries (dict_set smr (fst st) (step_summary st)) tr"
  "trace_summaries smr (tr @ tr') = trace_summaries (trace_summaries smr tr) tr'"
  by (simp_all add: trace_summaries_def)

lemma trace_outputs_simps [simp]:
  "trace_outputs outs [] = outs"
  "trace_outputs outs (st # tr) = trace_outputs (dict_set outs (fst st) (step_outputs st)) tr"
  by (simp_all add: trace_outputs_def)

section \<open>One node\<close>

text \<open>Adding one row, settled, and moving the clock on is all that a node does to the state.\<close>

definition add_rows :: "node_exec list \<Rightarrow> nat \<Rightarrow> flow_state \<Rightarrow> flow_state" where
  "add_rows rows k s = s\<lparr>fs_execs := fs_execs s @ rows, fs_tick := fs_tick s + k\<rparr>"

lemma add_rows_simps [simp]:
  "fs_execs (add_rows rows k s) = fs_execs s @ rows" "fs_tick (add_rows rows k s) = fs_tick s + k"
  "fs_runs (add_rows rows k s) = fs_runs s" "fs_jobs (add_rows rows k s) = fs_jobs s"
  "fs_versions (add_rows rows k s) = fs_versions s" "fs_events (add_rows rows k s) = fs_events s"
  "add_rows rows' k' (add_rows rows k s) = add_rows (rows @ rows') (k + k') s"
  "add_rows [] 0 s = s"
  "(add_rows rows k s)\<lparr>fs_tick := Suc (fs_tick s + k)\<rparr> = add_rows rows (Suc k) s"
  by (simp_all add: add_rows_def add.assoc)

lemma update_exec_other:
  "(\<forall>e\<in>set xs. ne_id e \<noteq> eid) \<Longrightarrow> sql_update (\<lambda>e. ne_id e = eid) f xs = xs"
  unfolding sql_update_def by (rule map_idI) auto

lemma update_exec_last:
  assumes "\<forall>e\<in>set xs. ne_id e \<noteq> eid" and "ne_id e = eid"
  shows "sql_update (\<lambda>e. ne_id e = eid) f (xs @ [e]) = xs @ [f e]"
  using assms update_exec_other [OF assms(1)] by (simp add: sql_update_def)

lemma exec_outputs [simp]:
  "ne_output_summary (exec_failed t0 t1 exc e) = ne_output_summary e"
  "ne_output_summary (exec_done t0 t1 summary diag e) = summary"
  "ne_output_summary (exec_running t e) = ne_output_summary e"
  "ne_output_summary (new_exec eid rid n inputs) = []"
  by (simp_all add: exec_failed_def exec_done_def exec_running_def new_exec_def)

lemma call_component_quiet:
  assumes "steady env" and "quiet_at env (node_id node)"
  obtains k where "call_component env node inputs jid s = (node_outcome env node inputs, add_rows [] k s)"
proof -
  have run: "run_component env t m c ps = run_component env 0 m
      \<lparr>ctx_department_id = 0, ctx_user_id = 0, ctx_job_id = 0\<rparr> ps" for t m c ps
    using assms(1) by (simp add: steady_def)
  have d: "during env (node_id node) s = s" for s
    using assms(2) by (simp add: quiet_at_def)
  have "\<exists>k. call_component env node inputs jid s = (node_outcome env node inputs, add_rows [] k s)"
  proof (cases "latest env (component_name node)")
    case (Inl e)
    then show ?thesis
      by (intro exI [of _ 0]) (simp add: call_component_def node_outcome_def)
  next
    case m: (Inr m)
    show ?thesis
    proof (cases "node_params node m")
      case (Inl e)
      with m show ?thesis
        by (intro exI [of _ 0]) (simp add: call_component_def node_outcome_def)
    next
      case ps: (Inr ps)
      show ?thesis
      proof (cases jid)
        case None
        with m ps show ?thesis
          by (intro exI [of _ 2]) (simp add: call_component_def node_outcome_def d add_rows_def, rule run)
      next
        case (Some j)
        with m ps show ?thesis
          by (intro exI [of _ 0]) (simp add: call_component_def node_outcome_def d add_rows_def, rule run)
      qed
    qed
  qed
  then show ?thesis
    using that by blast
qed

lemma execute_single_node_quiet:
  fixes inputs :: dict
  assumes "steady env" and "quiet_at env (node_id node)" and "fresh_ok env s"
    and out: "node_outcome env node inputs = r" and n: "node_id node = n"
  defines "st \<equiv> (n, inputs, r)"
  obtains row k where
    "execute_single_node env rid node inputs jid s =
       (\<lparr>er_status = (if step_ok st then ExecSucceeded else ExecFailed), er_outputs = step_outputs st,
         er_output_summary = ne_output_summary row\<rparr>, add_rows [row] k s)"
    and "row_records rid row st" and "ne_started_at row = Some (now_at env s)"
    and "ne_id row = fresh env (fs_tick s)" and "0 < k"
proof -
  let ?eid = "fresh env (fs_tick s)"
  let ?row = "exec_running (now_at env s)
    (new_exec ?eid rid (node_id node) (serialize_input_summary inputs))"
  have new: "\<forall>e\<in>set (fs_execs s). ne_id e \<noteq> ?eid"
    using assms(3) by (simp add: fresh_ok_def)
  have id [simp]: "ne_id ?row = ?eid" "ne_id (new_exec ?eid rid (node_id node) (serialize_input_summary inputs)) = ?eid"
    by (simp_all add: exec_running_def new_exec_def)
  let ?s3 = "add_rows [?row] 1 s"
  have s3: "update_exec ?eid (exec_running (now_at env s))
      ((tick s)\<lparr>fs_execs := fs_execs (tick s) @
        [new_exec ?eid rid (node_id node) (serialize_input_summary inputs)]\<rparr>) = ?s3"
    by (simp add: update_exec_def update_exec_last [OF new] add_rows_def)
  obtain k where call:
      "call_component env node inputs jid ?s3 = (node_outcome env node inputs, add_rows [] k ?s3)"
    by (rule call_component_quiet [OF assms(1,2)])
  have upd: "update_exec ?eid f (add_rows [?row] (Suc k) s) = add_rows [f ?row] (Suc k) s" for f
    by (simp add: update_exec_def add_rows_def update_exec_last [OF new])
  show ?thesis
  proof (cases "node_outcome env node inputs")
    case (Inl exc)
    let ?r = "exec_failed (now_at env s) (now_at env (add_rows [] k ?s3)) exc ?row"
    show ?thesis
    proof (rule that [of ?r "2 + k"])
      show "execute_single_node env rid node inputs jid s =
         (\<lparr>er_status = (if step_ok st then ExecSucceeded else ExecFailed), er_outputs = step_outputs st,
           er_output_summary = ne_output_summary ?r\<rparr>, add_rows [?r] (2 + k) s)"
        unfolding execute_single_node_def Let_def s3 call Inl
        using Inl out by (auto simp: upd st_def)
    qed (use Inl out n in \<open>auto simp: st_def exec_failed_def exec_running_def new_exec_def\<close>)
  next
    case (Inr x)
    let ?r = "exec_done (now_at env s) (now_at env (add_rows [] k ?s3)) (serialize_output_summary x)
      (cr_diagnostics x) ?row"
    show ?thesis
    proof (rule that [of ?r "2 + k"])
      show "execute_single_node env rid node inputs jid s =
         (\<lparr>er_status = (if step_ok st then ExecSucceeded else ExecFailed), er_outputs = step_outputs st,
           er_output_summary = ne_output_summary ?r\<rparr>, add_rows [?r] (2 + k) s)"
        unfolding execute_single_node_def Let_def s3 call Inr
        using Inr out by (auto simp: upd st_def)
    qed (use Inr out n in \<open>auto simp: st_def exec_done_def exec_running_def new_exec_def\<close>)
  qed
qed

lemma fresh_ok_add_row:
  assumes "fresh_ok env s" and "ne_id row = fresh env (fs_tick s)" and "0 < k"
  shows "fresh_ok env (add_rows [row] k s)"
  using assms by (auto simp: fresh_ok_def inj_eq)

section \<open>The loop\<close>

definition map_ok :: "(string \<times> flow_node) list \<Rightarrow> string list \<Rightarrow> bool" where
  "map_ok nm order \<longleftrightarrow> (\<forall>n\<in>set order. \<exists>node. dict_get nm n = Some node \<and> node_id node = n)"

definition rows_timed :: "flow_env \<Rightarrow> nat \<Rightarrow> nat \<Rightarrow> node_exec list \<Rightarrow> bool" where
  "rows_timed env a b rows \<longleftrightarrow>
    (\<exists>ts. map ne_started_at rows = map (\<lambda>t. Some (clock env t)) ts \<and> sorted ts \<and> set ts \<subseteq> {a..<b})"

lemma rows_timed_Nil [simp]: "rows_timed env a b []"
  unfolding rows_timed_def by (rule exI [of _ "[]"]) simp

lemma rows_timed_Cons:
  assumes "ne_started_at row = Some (clock env a)" and "rows_timed env a' b rows" and "a < a'" and "a' \<le> b"
  shows "rows_timed env a b (row # rows)"
proof -
  obtain ts where ts: "map ne_started_at rows = map (\<lambda>t. Some (clock env t)) ts" "sorted ts"
      "set ts \<subseteq> {a'..<b}"
    using assms(2) by (auto simp: rows_timed_def)
  show ?thesis
    unfolding rows_timed_def using assms ts by (intro exI [of _ "a # ts"]) (auto simp: subset_iff)
qed

text \<open>A prefix of the order whose nodes all succeed is carried out and the loop goes on after it.\<close>

lemma loop_prefix:
  assumes "steady env" and "\<forall>n\<in>set pre. quiet_at env n" and "map_ok nm pre" and "fresh_ok env s"
    and "\<not> event_set rid s" and "all_ok (eval_nodes env nm snapshot skip outs pre)"
  obtains rows k where
    "run_node_loop env rid nm snapshot jid vd skip outs smr (pre @ rest) s =
     run_node_loop env rid nm snapshot jid vd skip
       (trace_outputs outs (eval_nodes env nm snapshot skip outs pre))
       (trace_summaries smr (eval_nodes env nm snapshot skip outs pre)) rest (add_rows rows k s)"
    and "list_all2 (row_records rid) rows (eval_nodes env nm snapshot skip outs pre)"
    and "fresh_ok env (add_rows rows k s)" and "rows_timed env (fs_tick s) (fs_tick s + k) rows"
  using assms
proof (induction pre arbitrary: outs smr s thesis)
  case Nil
  then show ?case
    by (auto intro!: Nil(1) [of "[]" 0])
next
  case (Cons n pre)
  have hyps: "\<forall>n\<in>set pre. quiet_at env n" "map_ok nm pre"
    using Cons.prems(3,4) by (simp_all add: map_ok_def)
  show ?case
  proof (cases "n \<in> skip")
    case True
    have ok: "all_ok (eval_nodes env nm snapshot skip outs pre)"
      using Cons.prems(7) True by simp
    obtain rows k where r:
      "run_node_loop env rid nm snapshot jid vd skip outs smr (pre @ rest) s =
       run_node_loop env rid nm snapshot jid vd skip
         (trace_outputs outs (eval_nodes env nm snapshot skip outs pre))
         (trace_summaries smr (eval_nodes env nm snapshot skip outs pre)) rest (add_rows rows k s)"
      "list_all2 (row_records rid) rows (eval_nodes env nm snapshot skip outs pre)"
      "fresh_ok env (add_rows rows k s)" "rows_timed env (fs_tick s) (fs_tick s + k) rows"
      using Cons.IH [OF _ Cons.prems(2) hyps Cons.prems(5,6) ok] by blast
    show ?thesis
      by (rule Cons.prems(1) [of rows k]) (use r True Cons.prems(6) in simp_all)
  next
    case False
    obtain node where node: "dict_get nm n = Some node" "node_id node = n"
      using Cons.prems(4) by (auto simp: map_ok_def)
    let ?i = "gather_inputs node outs snapshot"
    obtain x where x: "node_outcome env node ?i = Inr x"
      using Cons.prems(7) False node by (cases "node_outcome env node ?i") (auto simp: Let_def)
    have ok: "all_ok (eval_nodes env nm snapshot skip (dict_set outs n (cr_outputs x)) pre)"
      using Cons.prems(7) False node x by (simp add: Let_def)
    have q: "quiet_at env (node_id node)"
      using Cons.prems(3) node by simp
    obtain row k1 where one:
      "execute_single_node env rid node ?i jid s =
         (\<lparr>er_status = ExecSucceeded, er_outputs = cr_outputs x, er_output_summary = ne_output_summary row\<rparr>,
          add_rows [row] k1 s)"
      "row_records rid row (n, ?i, Inr x)" "ne_started_at row = Some (now_at env s)"
      "ne_id row = fresh env (fs_tick s)" "0 < k1"
      by (rule execute_single_node_quiet [OF Cons.prems(2) q Cons.prems(5) x node(2), of rid jid]) simp
    let ?s = "add_rows [row] k1 s"
    have fo: "fresh_ok env ?s"
      by (rule fresh_ok_add_row [OF Cons.prems(5) one(4,5)])
    have ev: "\<not> event_set rid ?s"
      using Cons.prems(6) by (simp add: event_set_def)
    obtain rows k where r:
      "run_node_loop env rid nm snapshot jid vd skip (dict_set outs n (cr_outputs x))
         (dict_set smr n (step_summary (n, ?i, Inr x))) (pre @ rest) ?s =
       run_node_loop env rid nm snapshot jid vd skip
         (trace_outputs (dict_set outs n (cr_outputs x))
           (eval_nodes env nm snapshot skip (dict_set outs n (cr_outputs x)) pre))
         (trace_summaries (dict_set smr n (step_summary (n, ?i, Inr x)))
           (eval_nodes env nm snapshot skip (dict_set outs n (cr_outputs x)) pre)) rest (add_rows rows k ?s)"
      "list_all2 (row_records rid) rows (eval_nodes env nm snapshot skip (dict_set outs n (cr_outputs x)) pre)"
      "fresh_ok env (add_rows rows k ?s)" "rows_timed env (fs_tick ?s) (fs_tick ?s + k) rows"
      using Cons.IH [OF _ Cons.prems(2) hyps fo ev ok] by blast
    have timed: "rows_timed env (fs_tick s) (fs_tick s + (k1 + k)) (row # rows)"
      using rows_timed_Cons [OF one(3) r(4)] one(5) by (simp add: add.assoc)
    show ?thesis
      by (rule Cons.prems(1) [of "row # rows" "k1 + k"])
        (use r one False Cons.prems(6) node x timed in \<open>simp_all add: Let_def\<close>)
  qed
qed

lemma eval_append:
  "all_ok (eval_nodes env nm snapshot skip outs pre) \<Longrightarrow> map_ok nm pre \<Longrightarrow>
    eval_nodes env nm snapshot skip outs (pre @ rest) =
    eval_nodes env nm snapshot skip outs pre @
    eval_nodes env nm snapshot skip (trace_outputs outs (eval_nodes env nm snapshot skip outs pre)) rest"
proof (induction pre arbitrary: outs)
  case (Cons n pre)
  have m: "map_ok nm pre" "\<exists>node. dict_get nm n = Some node"
    using Cons.prems(2) by (auto simp: map_ok_def)
  show ?case
  proof (cases "n \<in> skip")
    case True
    then show ?thesis
      using Cons by (simp add: map_ok_def)
  next
    case False
    obtain node where node: "dict_get nm n = Some node"
      using m(2) by blast
    obtain x where x: "node_outcome env node (gather_inputs node outs snapshot) = Inr x"
      using Cons.prems(1) False node
      by (cases "node_outcome env node (gather_inputs node outs snapshot)") (auto simp: Let_def)
    show ?thesis
      using Cons.IH [OF _ m(1)] Cons.prems(1) False node x by (simp add: Let_def)
  qed
qed simp

text \<open>An order either succeeds as a whole or splits at the node that fails.\<close>

lemma eval_fails_split:
  assumes "\<not> all_ok (eval_nodes env nm snapshot skip outs order)" and "map_ok nm order"
  obtains pre n rest node i exc where "order = pre @ n # rest"
    and "all_ok (eval_nodes env nm snapshot skip outs pre)" and "n \<notin> skip"
    and "dict_get nm n = Some node" and "node_id node = n"
    and "i = gather_inputs node (trace_outputs outs (eval_nodes env nm snapshot skip outs pre)) snapshot"
    and "node_outcome env node i = Inl exc"
    and "eval_nodes env nm snapshot skip outs order =
         eval_nodes env nm snapshot skip outs pre @ [(n, i, Inl exc)]"
  using assms
proof (induction order arbitrary: outs thesis)
  case (Cons n order)
  have m: "map_ok nm order"
    using Cons.prems(3) by (simp add: map_ok_def)
  obtain node where node: "dict_get nm n = Some node" "node_id node = n"
    using Cons.prems(3) by (auto simp: map_ok_def)
  let ?i = "gather_inputs node outs snapshot"
  consider (skip) "n \<in> skip" | (fail) exc where "n \<notin> skip" "node_outcome env node ?i = Inl exc"
    | (ok) x where "n \<notin> skip" "node_outcome env node ?i = Inr x"
    by (metis sumE)
  then show ?case
  proof cases
    case skip
    have bad: "\<not> all_ok (eval_nodes env nm snapshot skip outs order)"
      using Cons.prems(2) skip by simp
    show ?thesis
      by (rule Cons.IH [OF _ bad m], rule Cons.prems(1) [of "n # _"]) (use skip in auto)
  next
    case fail
    show ?thesis
      by (rule Cons.prems(1) [of "[]" n order node ?i exc]) (use fail node in \<open>simp_all add: Let_def\<close>)
  next
    case ok
    have bad: "\<not> all_ok (eval_nodes env nm snapshot skip (dict_set outs n (cr_outputs x)) order)"
      using Cons.prems(2) ok node by (simp add: Let_def)
    show ?thesis
      by (rule Cons.IH [OF _ bad m], rule Cons.prems(1) [of "n # _"])
        (use ok node in \<open>auto simp: Let_def\<close>)
  qed
qed simp

text \<open>The whole loop, undisturbed: the rows of the trace, then the settled run.\<close>

lemma loop_full:
  fixes outs :: "(string \<times> dict) list" and skip :: "string set" and snapshot :: dict
  assumes "steady env" and "\<forall>n\<in>set order. quiet_at env n" and "map_ok nm order" and "fresh_ok env s"
    and "\<not> event_set rid s"
  defines "tr \<equiv> eval_nodes env nm snapshot skip outs order"
  obtains rows k where
    "run_node_loop env rid nm snapshot jid vd skip outs smr order s =
     (Inr (), settle_run env rid jid (if all_ok tr then RunSucceeded else RunFailed) vd
                (map snd (trace_summaries smr tr)) (add_rows rows k s))"
    and "list_all2 (row_records rid) rows tr"
    and "fresh_ok env (add_rows rows k s)" and "rows_timed env (fs_tick s) (fs_tick s + k) rows"
proof (cases "all_ok tr")
  case True
  obtain rows k where r:
    "run_node_loop env rid nm snapshot jid vd skip outs smr (order @ []) s =
     run_node_loop env rid nm snapshot jid vd skip (trace_outputs outs tr) (trace_summaries smr tr) []
       (add_rows rows k s)"
    "list_all2 (row_records rid) rows tr" "fresh_ok env (add_rows rows k s)"
    "rows_timed env (fs_tick s) (fs_tick s + k) rows"
    unfolding tr_def
    by (rule loop_prefix [OF assms(1-5) True [unfolded tr_def], where rest = "[]" and jid = jid and vd = vd and smr = smr])
  show ?thesis
    by (rule that [of rows k]) (use r True in simp_all)
next
  case False
  obtain pre n rest node i exc where sp: "order = pre @ n # rest"
    "all_ok (eval_nodes env nm snapshot skip outs pre)" "n \<notin> skip" "dict_get nm n = Some node" "node_id node = n"
    "i = gather_inputs node (trace_outputs outs (eval_nodes env nm snapshot skip outs pre)) snapshot"
    "node_outcome env node i = Inl exc"
    "tr = eval_nodes env nm snapshot skip outs pre @ [(n, i, Inl exc)]"
    using eval_fails_split [OF False [unfolded tr_def] assms(3)] unfolding tr_def by metis
  have pre: "\<forall>n\<in>set pre. quiet_at env n" "map_ok nm pre" "quiet_at env (node_id node)"
    using assms(2,3) sp(1,5) by (simp_all add: map_ok_def)
  let ?tr = "eval_nodes env nm snapshot skip outs pre"
  obtain rows k where r:
    "run_node_loop env rid nm snapshot jid vd skip outs smr (pre @ n # rest) s =
     run_node_loop env rid nm snapshot jid vd skip (trace_outputs outs ?tr) (trace_summaries smr ?tr)
       (n # rest) (add_rows rows k s)"
    "list_all2 (row_records rid) rows ?tr" "fresh_ok env (add_rows rows k s)"
    "rows_timed env (fs_tick s) (fs_tick s + k) rows"
    by (rule loop_prefix [OF assms(1) pre(1,2) assms(4,5) sp(2), where rest = "n # rest" and jid = jid and vd = vd and smr = smr])
  let ?s = "add_rows rows k s"
  obtain row k1 where one:
    "execute_single_node env rid node i jid ?s =
       (\<lparr>er_status = ExecFailed, er_outputs = [], er_output_summary = ne_output_summary row\<rparr>, add_rows [row] k1 ?s)"
    "row_records rid row (n, i, Inl exc)" "ne_started_at row = Some (now_at env ?s)"
    "ne_id row = fresh env (fs_tick ?s)" "0 < k1"
    by (rule execute_single_node_quiet [OF assms(1) pre(3) r(3) sp(7,5), of rid jid]) simp
  have timed: "rows_timed env (fs_tick s) (fs_tick s + (k + k1)) (rows @ [row])"
  proof -
    obtain ts where ts: "map ne_started_at rows = map (\<lambda>t. Some (clock env t)) ts" "sorted ts"
        "set ts \<subseteq> {fs_tick s..<fs_tick s + k}"
      using r(4) by (auto simp: rows_timed_def)
    show ?thesis
      unfolding rows_timed_def
      using ts one(3,5) by (intro exI [of _ "ts @ [fs_tick s + k]"]) (auto simp: sorted_append)
  qed
  have fo: "fresh_ok env (add_rows [row] k1 ?s)"
    by (rule fresh_ok_add_row [OF r(3) one(4,5)])
  have ev: "\<not> event_set rid ?s"
    using assms(5) by (simp add: event_set_def)
  show ?thesis
  proof (rule that [of "rows @ [row]" "k + k1"])
    show "run_node_loop env rid nm snapshot jid vd skip outs smr order s =
      (Inr (), settle_run env rid jid (if all_ok tr then RunSucceeded else RunFailed) vd
                (map snd (trace_summaries smr tr)) (add_rows (rows @ [row]) (k + k1) s))"
      using r(1) ev sp one(1,2) False by (simp add: Let_def)
    show "list_all2 (row_records rid) (rows @ [row]) tr"
      using r(2) one(2) by (simp add: sp(8) list_all2_appendI del: row_records.simps)
  qed (use timed fo in simp_all)
qed

section \<open>Settling a run\<close>

lemma sql_find_update_stable:
  "(\<And>r. p (f r) = p r) \<Longrightarrow> sql_find p (sql_update p f rows) = map_option f (sql_find p rows)"
  by (induction rows) (auto simp: sql_find_def)

lemma run_where_final [simp]:
  "run_where env rid (final_values st t d r) = run_where env rid r"
  "run_where env rid (start_values t r) = run_where env rid r"
  "run_where env rid (cancel_run_values t r) = run_where env rid r"
  by (simp_all add: run_where_def final_values_def start_values_def cancel_run_values_def)

lemma run_values_sel [simp]:
  "fr_status (final_values st t d r) = st" "fr_job_id (final_values st t d r) = fr_job_id r"
  "fr_output_digest (final_values st t d r) = (if d = None then fr_output_digest r else d)"
  "fr_input_snapshot (final_values st t d r) = fr_input_snapshot r"
  "fr_flow_version_id (final_values st t d r) = fr_flow_version_id r"
  "fr_status (start_values t r) = RunRunning" "fr_job_id (start_values t r) = fr_job_id r"
  "fr_output_digest (start_values t r) = fr_output_digest r"
  "fr_input_snapshot (start_values t r) = fr_input_snapshot r"
  "fr_flow_version_id (start_values t r) = fr_flow_version_id r"
  by (simp_all add: final_values_def start_values_def)

lemma update_job_status_simps [simp]:
  "fs_runs (update_job_status env jid st s) = fs_runs s"
  "fs_execs (update_job_status env jid st s) = fs_execs s"
  "fs_versions (update_job_status env jid st s) = fs_versions s"
  "fs_events (update_job_status env jid st s) = fs_events s"
  by (simp_all add: update_job_status_def split: option.split)

lemma finalize_run_simps [simp]:
  "fs_execs (finalize_run env rid st vd sm s) = fs_execs s"
  "fs_versions (finalize_run env rid st vd sm s) = fs_versions s"
  "fs_events (finalize_run env rid st vd sm s) = fs_events s"
  "fs_jobs (finalize_run env rid st vd sm s) = fs_jobs s"
  "fs_tick (finalize_run env rid st vd sm s) = Suc (fs_tick s)"
  by (simp_all add: finalize_run_def update_run_def Let_def)

lemma settle_run_simps [simp]:
  "fs_execs (settle_run env rid jid st vd sm s) = fs_execs s"
  "fs_versions (settle_run env rid jid st vd sm s) = fs_versions s"
  "fs_events (settle_run env rid jid st vd sm s) = fs_events s"
  "fs_tick s \<le> fs_tick (settle_run env rid jid st vd sm s)"
  by (simp_all add: settle_run_def update_job_status_def split: option.split)

lemma settle_run_jobs:
  "fs_jobs (settle_run env rid jid st vd sm s) =
    (case jid of None \<Rightarrow> fs_jobs s
     | Some j \<Rightarrow> sql_update (job_row (env_vis env) j)
         (engine_job_values (clock env (Suc (fs_tick s))) (job_status_of st)) (fs_jobs s))"
  by (simp add: settle_run_def update_job_status_def split: option.split)

lemma find_run_settle:
  "find_run env rid (settle_run env rid jid st vd sm s) =
    map_option (\<lambda>r. final_values st (now_at env s)
      (if st = RunSucceeded
       then Some (compute_output_digest (sha256 env) vd (fr_input_snapshot r) sm) else None) r) (find_run env rid s)"
  by (cases "sql_find (run_where env rid) (fs_runs s)")
    (simp_all add: find_run_def settle_run_def finalize_run_def update_run_def Let_def
      sql_find_update_stable)

lemma find_run_add_rows [simp]: "find_run env rid (add_rows rows k s) = find_run env rid s"
  by (simp add: find_run_def)

text \<open>The state in which the loop of \<open>execute\<close> and of \<open>resume\<close> starts.\<close>

definition started :: "flow_env \<Rightarrow> uuid \<Rightarrow> flow_state \<Rightarrow> flow_state" where
  "started env rid s = new_event rid (tick (update_run env rid (start_values (now_at env s)) s))"

lemma started_simps [simp]:
  "fs_execs (started env rid s) = fs_execs s" "fs_versions (started env rid s) = fs_versions s"
  "fs_jobs (started env rid s) = fs_jobs s" "fs_tick (started env rid s) = Suc (fs_tick s)"
  "\<not> event_set rid (started env rid s)"
  by (simp_all add: started_def new_event_def update_run_def event_set_def dict_get_set)

lemma find_run_started:
  "find_run env rid (started env rid s) = map_option (start_values (now_at env s)) (find_run env rid s)"
  by (simp add: find_run_def started_def new_event_def update_run_def sql_find_update_stable)

lemma fresh_ok_mono:
  "fresh_ok env s \<Longrightarrow> fs_execs s' = fs_execs s \<Longrightarrow> fs_tick s \<le> fs_tick s' \<Longrightarrow> fresh_ok env s'"
  by (auto simp: fresh_ok_def)

lemma load_run_Inr:
  "load_run env rid s = Inr (r, v, nodes, edges) \<longleftrightarrow>
    find_run env rid s = Some r \<and> sql_find (\<lambda>v. fv_id v = fr_flow_version_id r) (fs_versions s) = Some v \<and>
    nodes_from_json (fv_nodes_json v) = Some nodes \<and> edges_from_json (fv_edges_json v) = Some edges"
  by (auto simp: load_run_def split: option.splits)

lemma node_map_ok:
  assumes "topological_sort nodes edges = Inr order"
  shows "map_ok (node_map_of nodes) order"
proof -
  have get: "dict_get (foldl (\<lambda>d (k, v). dict_set d k v) d (map (\<lambda>n. (node_id n, n)) ns)) v = Some x \<Longrightarrow>
      (\<forall>y. dict_get d v = Some y \<longrightarrow> node_id y = v) \<Longrightarrow> node_id x = v" for d ns v x
    by (induction ns arbitrary: d) (auto simp: dict_get_set split: if_splits)
  have keys: "set (dict_keys (node_map_of nodes)) = ids_of nodes"
    by (simp add: node_map_of_def dict_keys_dict_of image_image)
  have "\<exists>node. dict_get (node_map_of nodes) n = Some node \<and> node_id node = n" if "n \<in> set order" for n
  proof -
    have "n \<in> set (dict_keys (node_map_of nodes))"
      using that topological_sort_Inr(3) [OF assms] keys by simp
    then obtain node where "dict_get (node_map_of nodes) n = Some node"
      using dict_get_None_iff [of "node_map_of nodes" n] by fastforce
    moreover from this have "node_id node = n"
      using get [of "[]" nodes n node] by (simp add: node_map_of_def dict_of_def dict_get_def)
    ultimately show ?thesis
      by blast
  qed
  then show ?thesis
    by (simp add: map_ok_def)
qed

lemma flow_execute_result:
  assumes "load_run env rid s = Inr (r, v, nodes, edges)" and "topological_sort nodes edges = Inr order"
    and "steady env" and "\<forall>n\<in>set order. quiet_at env n" and "fresh_ok env s"
    and "tr = eval_nodes env (node_map_of nodes) (fr_input_snapshot r) {} [] order"
  obtains rows k where
    "flow_execute env rid s =
      (Inr (), settle_run env rid (fr_job_id r) (if all_ok tr then RunSucceeded else RunFailed)
        (fv_digest v) (map snd (trace_summaries [] tr)) (add_rows rows k (started env rid s)))"
    and "list_all2 (row_records rid) rows tr"
    and "fresh_ok env (add_rows rows k (started env rid s))"
    and "rows_timed env (Suc (fs_tick s)) (Suc (fs_tick s) + k) rows"
proof -
  have "fresh_ok env (started env rid s)"
    by (rule fresh_ok_mono [OF assms(5)]) simp_all
  then obtain rows k where r:
    "run_node_loop env rid (node_map_of nodes) (fr_input_snapshot r) (fr_job_id r) (fv_digest v) {} [] [] order
       (started env rid s) =
     (Inr (), settle_run env rid (fr_job_id r) (if all_ok tr then RunSucceeded else RunFailed)
        (fv_digest v) (map snd (trace_summaries [] tr)) (add_rows rows k (started env rid s)))"
    "list_all2 (row_records rid) rows tr" "fresh_ok env (add_rows rows k (started env rid s))"
    "rows_timed env (fs_tick (started env rid s)) (fs_tick (started env rid s) + k) rows"
    unfolding assms(6)
    using loop_full [OF assms(3,4) node_map_ok [OF assms(2)]] by (metis started_simps(5))
  show ?thesis
    by (rule that [of rows k]) (use r assms(1,2) in \<open>simp_all add: flow_execute_def Let_def started_def [symmetric]\<close>)
qed

lemma flow_resume_result:
  assumes "load_run env rid s = Inr (r, v, nodes, edges)" and "topological_sort nodes edges = Inr order"
    and "steady env" and "\<forall>n\<in>set order. quiet_at env n" and "fresh_ok env s"
    and "es = by_started (run_execs rid s)"
    and "tr = eval_nodes env (node_map_of nodes) (fr_input_snapshot r)
           (set (map ne_node_id (filter (\<lambda>e. ne_status e = ExecSucceeded) es))) (succeeded_outputs es) order"
  obtains rows k where
    "flow_resume env rid s =
      (Inr (), settle_run env rid (fr_job_id r) (if all_ok tr then RunSucceeded else RunFailed)
        (fv_digest v) (map snd (trace_summaries (exec_summaries es) tr)) (add_rows rows k (started env rid s)))"
    and "list_all2 (row_records rid) rows tr"
proof -
  have "fresh_ok env (started env rid s)"
    by (rule fresh_ok_mono [OF assms(5)]) simp_all
  then obtain rows k where r:
    "run_node_loop env rid (node_map_of nodes) (fr_input_snapshot r) (fr_job_id r) (fv_digest v)
       (set (map ne_node_id (filter (\<lambda>e. ne_status e = ExecSucceeded) es))) (succeeded_outputs es)
       (exec_summaries es) order (started env rid s) =
     (Inr (), settle_run env rid (fr_job_id r) (if all_ok tr then RunSucceeded else RunFailed)
        (fv_digest v) (map snd (trace_summaries (exec_summaries es) tr)) (add_rows rows k (started env rid s)))"
    "list_all2 (row_records rid) rows tr"
    unfolding assms(7)
    using loop_full [OF assms(3,4) node_map_ok [OF assms(2)]] by (metis started_simps(5))
  show ?thesis
    by (rule that [of rows k]) (use r assms(1,2) in \<open>simp_all add: flow_resume_def Let_def started_def [symmetric] assms(6)\<close>)
qed

section \<open>A run of \<open>execute\<close>\<close>

lemma eval_ids:
  "all_ok (eval_nodes env nm snapshot skip outs order) \<Longrightarrow> map_ok nm order \<Longrightarrow>
    map fst (eval_nodes env nm snapshot skip outs order) = filter (\<lambda>n. n \<notin> skip) order"
  by (induction order arbitrary: outs) (auto simp: map_ok_def Let_def split: sum.splits option.splits)

lemma dict_set_new: "k \<notin> set (dict_keys d) \<Longrightarrow> dict_set d k v = d @ [(k, v)]"
  by (induction d k v rule: dict_set.induct) (auto simp: dict_keys_def)

lemma trace_summaries_new:
  "distinct (dict_keys smr @ map fst tr) \<Longrightarrow>
    trace_summaries smr tr = smr @ map (\<lambda>st. (fst st, step_summary st)) tr"
proof (induction tr arbitrary: smr)
  case (Cons st tr)
  then have "dict_set smr (fst st) (step_summary st) = smr @ [(fst st, step_summary st)]"
    by (intro dict_set_new) auto
  then show ?case
    using Cons by (simp add: dict_keys_def)
qed simp

text \<open>Which nodes a run covers: all in order, or up to and including the one that failed.\<close>

lemma eval_covers:
  fixes env :: flow_env and snapshot :: dict
  assumes "map_ok nm order"
  defines "tr \<equiv> eval_nodes env nm snapshot {} [] order"
  shows "if all_ok tr then map fst tr = order
         else (\<exists>rest. order = map fst tr @ rest) \<and> tr \<noteq> [] \<and> all_ok (butlast tr) \<and> \<not> step_ok (last tr)"
proof (cases "all_ok tr")
  case True
  then show ?thesis
    using eval_ids [OF _ assms(1), of env snapshot "{}" "[]"] by (simp add: tr_def)
next
  case False
  obtain pre n rest node i exc where sp: "order = pre @ n # rest"
    "all_ok (eval_nodes env nm snapshot {} [] pre)"
    "tr = eval_nodes env nm snapshot {} [] pre @ [(n, i, Inl exc)]"
    using eval_fails_split [OF False [unfolded tr_def] assms(1)] unfolding tr_def by metis
  have "map_ok nm pre"
    using assms(1) sp(1) by (simp add: map_ok_def)
  then have "map fst tr = pre @ [n]"
    using eval_ids [OF sp(2)] sp(3) by simp
  then show ?thesis
    using False sp by simp
qed

lemma trace_distinct:
  assumes "topological_sort nodes edges = Inr order"
  shows "distinct (map fst (eval_nodes env (node_map_of nodes) snapshot {} [] order))"
proof -
  let ?tr = "eval_nodes env (node_map_of nodes) snapshot {} [] order"
  obtain rest where "order = map fst ?tr @ rest"
    using eval_covers [OF node_map_ok [OF assms], of env snapshot] by (metis append_Nil2)
  then show ?thesis
    using topological_sort_Inr(2) [OF assms] by (metis distinct_append)
qed

text \<open>
  C38. Running a flow. When nothing else writes during the run, \<open>execute\<close> runs the nodes in
  topological order, each at most once, on the inputs that the reference evaluator \<open>eval_nodes\<close>
  computes, and records one \<open>flow_node_execution\<close> row per node run, with its inputs, status, output
  summary and diagnostics. If every component returns, all nodes have been run, the run is
  \<open>succeeded\<close>, and its output digest is the digest of the version, the input snapshot and the node
  summaries in topological order; otherwise the nodes up to the first failing one have been run,
  the run is \<open>failed\<close> and the digest is left alone. The job of the run gets the same status.
\<close>

theorem flow_execute_outcome:
  assumes "load_run env rid s = Inr (r, v, nodes, edges)" and "topological_sort nodes edges = Inr order"
    and "steady env" and "\<forall>n\<in>set order. quiet_at env n" and "fresh_ok env s"
  shows "let tr = eval_nodes env (node_map_of nodes) (fr_input_snapshot r) {} [] order in
    \<exists>s' rows r' t. flow_execute env rid s = (Inr (), s')
      \<and> fs_execs s' = fs_execs s @ rows \<and> list_all2 (row_records rid) rows tr
      \<and> find_run env rid s' = Some r'
      \<and> fr_status r' = (if all_ok tr then RunSucceeded else RunFailed)
      \<and> fr_output_digest r' =
          (if all_ok tr
           then Some (compute_output_digest (sha256 env) (fv_digest v) (fr_input_snapshot r)
                        (map step_summary tr))
           else fr_output_digest r)
      \<and> (if all_ok tr then map fst tr = order
         else (\<exists>rest. order = map fst tr @ rest) \<and> tr \<noteq> [] \<and> all_ok (butlast tr) \<and> \<not> step_ok (last tr))
      \<and> fs_jobs s' = (case fr_job_id r of None \<Rightarrow> fs_jobs s
          | Some j \<Rightarrow> sql_update (job_row (env_vis env) j)
              (engine_job_values t (if all_ok tr then SUCCEEDED else FAILED)) (fs_jobs s))"
proof -
  define tr where "tr = eval_nodes env (node_map_of nodes) (fr_input_snapshot r) {} [] order"
  obtain rows k where x:
    "flow_execute env rid s =
      (Inr (), settle_run env rid (fr_job_id r) (if all_ok tr then RunSucceeded else RunFailed)
        (fv_digest v) (map snd (trace_summaries [] tr)) (add_rows rows k (started env rid s)))"
    "list_all2 (row_records rid) rows tr"
    using flow_execute_result [OF assms tr_def] by metis
  have sm: "map snd (trace_summaries [] tr) = map step_summary tr"
    using trace_summaries_new [of "[]" tr] trace_distinct [OF assms(2), of env "fr_input_snapshot r"]
    by (simp add: tr_def dict_keys_def)
  have r: "find_run env rid s = Some r"
    using assms(1) by (simp add: load_run_Inr)
  have cov: "if all_ok tr then map fst tr = order
     else (\<exists>rest. order = map fst tr @ rest) \<and> tr \<noteq> [] \<and> all_ok (butlast tr) \<and> \<not> step_ok (last tr)"
    unfolding tr_def by (rule eval_covers [OF node_map_ok [OF assms(2)]])
  let ?s' = "settle_run env rid (fr_job_id r) (if all_ok tr then RunSucceeded else RunFailed)
        (fv_digest v) (map snd (trace_summaries [] tr)) (add_rows rows k (started env rid s))"
  let ?r' = "final_values (if all_ok tr then RunSucceeded else RunFailed)
        (now_at env (add_rows rows k (started env rid s)))
        (if all_ok tr then Some (compute_output_digest (sha256 env) (fv_digest v) (fr_input_snapshot r)
           (map step_summary tr)) else None) (start_values (now_at env s) r)"
  have f: "find_run env rid ?s' = Some ?r'"
    using r by (simp add: find_run_settle find_run_started sm)
  show ?thesis
    unfolding Let_def tr_def [symmetric]
    by (rule exI [of _ ?s'], rule exI [of _ rows], rule exI [of _ ?r'],
        rule exI [of _ "clock env (Suc (fs_tick (add_rows rows k (started env rid s))))"])
      (use x f cov in \<open>simp add: settle_run_jobs split: option.split\<close>)
qed

section \<open>A flow to try it on\<close>

definition demo_nodes :: "flow_node list" where
  "demo_nodes =
    [\<lparr>node_id = ''b'', component_name = ''c'', component_version = ''1'', params = [],
      input_bindings = [(''x'', ''a:out'')]\<rparr>,
     \<lparr>node_id = ''a'', component_name = ''c'', component_version = ''1'', params = [],
      input_bindings = []\<rparr>]"

definition demo_edges :: "flow_edge list" where
  "demo_edges = [\<lparr>source_node = ''a'', source_port = ''out'', target_node = ''b'', target_port = ''x''\<rparr>]"

definition demo_version :: flow_version where
  "demo_version = \<lparr>fv_id = 2, fv_definition_id = 3, fv_version = 1, fv_nodes_json = nodes_to_json demo_nodes,
    fv_edges_json = edges_to_json demo_edges, fv_random_seed = 0, fv_digest = ''v'', fv_status = ''published''\<rparr>"

definition demo_run :: flow_run where
  "demo_run = \<lparr>fr_id = 1, fr_department_id = 7, fr_flow_version_id = 2, fr_status = RunPending,
    fr_job_id = Some 9, fr_input_snapshot = [(''k'', JInt 1), (''path'', JStr ''/etc/passwd'')],
    fr_output_digest = None, fr_started_at = None, fr_completed_at = None, fr_created_at = 0\<rparr>"

definition demo_job :: job where
  "demo_job = \<lparr>job_id = 9, department_id = 7, kind = ''flow_execute'', status = RUNNING, payload = None,
    idempotency_key = ''i'', attempt = 0, max_attempts = 3, run_after = None, lease_owner = Some ''w'',
    lease_expires_at = Some 60, result = None, last_error = None, created_by = None, created_at = 0,
    updated_at = 0, lock_version = 1\<rparr>"

definition demo_state :: flow_state where
  "demo_state = \<lparr>fs_runs = [demo_run], fs_versions = [demo_version], fs_execs = [], fs_jobs = [demo_job],
    fs_events = [], fs_tick = 0\<rparr>"

fun demo_component :: "nat \<Rightarrow> manifest \<Rightarrow> component_context \<Rightarrow> dict \<Rightarrow> py_exception + component_result" where
  "demo_component t m c ps =
    Inr \<lparr>cr_outputs = [(''out'', JObj ps)], cr_summary = ''ok'', cr_metadata = [], cr_diagnostics = None\<rparr>"

text \<open>A component that fails as soon as it is given an input \<open>x\<close>.\<close>

fun demo_flaky :: "nat \<Rightarrow> manifest \<Rightarrow> component_context \<Rightarrow> dict \<Rightarrow> py_exception + component_result" where
  "demo_flaky t m c ps =
    (if ''x'' \<in> set (dict_keys ps) then Inl (''ValueError'', ''x'') else demo_component t m c ps)"

definition demo_env :: flow_env where
  "demo_env = \<lparr>clock = int, fresh = (\<lambda>t. 100 + t), env_vis = (\<lambda>_. True), env_department = 7,
    sha256 = (\<lambda>_. ''digest''), latest = (\<lambda>_. Inr \<lparr>mf_parameters = [], mf_inputs = [], mf_outputs = []\<rparr>),
    run_component = demo_component, during = (\<lambda>_ s. s)\<rparr>"

lemma demo_load: "load_run demo_env 1 demo_state = Inr (demo_run, demo_version, demo_nodes, demo_edges)"
  by code_simp

lemma demo_order: "topological_sort demo_nodes demo_edges = Inr [''a'', ''b'']"
  by code_simp

lemma demo_steady: "steady demo_env" "steady (demo_env\<lparr>run_component := demo_flaky\<rparr>)"
  by (simp_all add: steady_def demo_env_def)

lemma demo_quiet: "quiet_at demo_env n" "quiet_at (demo_env\<lparr>run_component := demo_flaky\<rparr>) n"
  by (simp_all add: quiet_at_def demo_env_def)

lemma demo_fresh: "fresh_ok demo_env demo_state"
  by (simp add: fresh_ok_def demo_env_def demo_state_def inj_def)

lemma demo_trace:
  "all_ok (eval_nodes demo_env (node_map_of demo_nodes) (fr_input_snapshot demo_run) {} [] [''a'', ''b''])"
  "\<not> all_ok (eval_nodes (demo_env\<lparr>run_component := demo_flaky\<rparr>) (node_map_of demo_nodes)
        (fr_input_snapshot demo_run) {} [] [''a'', ''b''])"
  by code_simp+

lemma flow_execute_outcome_witness:
  "\<exists>s' r'. flow_execute demo_env 1 demo_state = (Inr (), s') \<and> length (fs_execs s') = 2 \<and>
     find_run demo_env 1 s' = Some r' \<and> fr_status r' = RunSucceeded \<and> map status (fs_jobs s') = [SUCCEEDED]"
proof -
  have q: "\<forall>n\<in>set [''a'', ''b'']. quiet_at demo_env n"
    by (simp add: demo_quiet)
  have "length (eval_nodes demo_env (node_map_of demo_nodes) (fr_input_snapshot demo_run) {} [] [''a'', ''b'']) = 2"
    by code_simp
  then show ?thesis
    using flow_execute_outcome [OF demo_load demo_order demo_steady(1) q demo_fresh] demo_trace(1)
    by (auto simp: Let_def demo_state_def demo_run_def engine_job_values_def job_row_def demo_job_def
        demo_env_def dest: list_all2_lengthD)
qed

section \<open>Resuming after a failure\<close>

text \<open>An environment whose components fail more often: where they return, they return the same.\<close>

definition fails_more :: "flow_env \<Rightarrow> flow_env \<Rightarrow> bool" where
  "fails_more env' env \<longleftrightarrow>
    env' = env\<lparr>run_component := run_component env'\<rparr> \<and>
    (\<forall>t m c ps x. run_component env' t m c ps = Inr x \<longrightarrow> run_component env t m c ps = Inr x)"

text \<open>
  The stored output summary of a node carries two entries that its outputs do not have; a binding
  to one of them would see a difference after a resume.
\<close>

definition plain_bindings :: "flow_node list \<Rightarrow> bool" where
  "plain_bindings nodes \<longleftrightarrow>
    (\<forall>node\<in>set nodes. \<forall>b\<in>snd ` set (input_bindings node). CHR '':'' \<in> set b \<longrightarrow>
       tl (dropWhile (\<lambda>c. c \<noteq> CHR '':'') b) \<notin> {''_metadata'', ''_summary_text''})"

definition dict_outputs :: "flow_env \<Rightarrow> bool" where
  "dict_outputs env \<longleftrightarrow>
    (\<forall>t m c ps x. run_component env t m c ps = Inr x \<longrightarrow> distinct (dict_keys (cr_outputs x)))"

lemma fails_more_same:
  assumes "fails_more env' env"
  shows "latest env' = latest env" "clock env' = clock env" "fresh env' = fresh env"
    "env_vis env' = env_vis env" "sha256 env' = sha256 env" "during env' = during env"
  using assms unfolding fails_more_def by (metis flow_env.ext_inject flow_env.surjective flow_env.update_convs(7))+

lemma fails_more_outcome:
  "fails_more env' env \<Longrightarrow> node_outcome env' node i = Inr x \<Longrightarrow> node_outcome env node i = Inr x"
  using fails_more_same(1) [of env' env]
  by (auto simp: node_outcome_def fails_more_def split: sum.splits)

lemma fails_more_eval:
  "fails_more env' env \<Longrightarrow> all_ok (eval_nodes env' nm snapshot skip outs order) \<Longrightarrow>
    eval_nodes env nm snapshot skip outs order = eval_nodes env' nm snapshot skip outs order"
proof (induction order arbitrary: outs)
  case (Cons n order)
  show ?case
  proof (cases "n \<in> skip \<or> dict_get nm n = None")
    case True
    then show ?thesis
      using Cons by auto
  next
    case False
    then obtain node where node: "dict_get nm n = Some node"
      by blast
    let ?i = "gather_inputs node outs snapshot"
    obtain x where x: "node_outcome env' node ?i = Inr x"
      using Cons.prems(2) False node by (cases "node_outcome env' node ?i") (auto simp: Let_def)
    show ?thesis
      using Cons.IH [OF Cons.prems(1)] Cons.prems(2) False node x fails_more_outcome [OF Cons.prems(1) x]
      by (simp add: Let_def)
  qed
qed simp

lemma fails_more_load:
  assumes "fails_more env' env"
  shows "load_run env' rid s = load_run env rid s"
proof -
  have "run_where env' rid = run_where env rid"
    by (rule ext) (simp add: run_where_def fails_more_same [OF assms])
  then show ?thesis
    by (simp add: load_run_def find_run_def)
qed

lemma eval_skip:
  "set pre \<subseteq> skip \<Longrightarrow> eval_nodes env nm snapshot skip outs (pre @ rest) = eval_nodes env nm snapshot skip outs rest"
  by (induction pre) simp_all

lemma eval_no_skip:
  "set order \<inter> skip = {} \<Longrightarrow>
    eval_nodes env nm snapshot skip outs order = eval_nodes env nm snapshot {} outs order"
  by (induction order arbitrary: outs) (auto simp: Let_def split: option.splits sum.splits)

text \<open>Two tables of outputs that all bindings of the flow read alike.\<close>

definition agree :: "flow_node list \<Rightarrow> (string \<times> dict) list \<Rightarrow> (string \<times> dict) list \<Rightarrow> bool" where
  "agree nodes outs outs' \<longleftrightarrow>
    (\<forall>node\<in>set nodes. \<forall>b\<in>snd ` set (input_bindings node). \<forall>snapshot.
       resolve_input b outs snapshot = resolve_input b outs' snapshot)"

lemma agree_gather:
  assumes "agree nodes outs outs'" and "node \<in> set nodes"
  shows "gather_inputs node outs snapshot = gather_inputs node outs' snapshot"
proof -
  have "map (\<lambda>(p, b). (p, resolve_input b outs snapshot)) (input_bindings node) =
      map (\<lambda>(p, b). (p, resolve_input b outs' snapshot)) (input_bindings node)"
    using assms by (force simp: agree_def)
  then show ?thesis
    unfolding gather_inputs_def bind_inputs_def by (rule arg_cong)
qed

lemma agree_set:
  assumes "agree nodes outs outs'"
  shows "agree nodes (dict_set outs n d) (dict_set outs' n d)"
  using assms by (auto simp: agree_def resolve_input_def dict_get_set Let_def split: if_splits)

lemma eval_agree:
  "agree nodes outs outs' \<Longrightarrow> \<forall>n\<in>set order. \<forall>node. dict_get nm n = Some node \<longrightarrow> node \<in> set nodes \<Longrightarrow>
    eval_nodes env nm snapshot skip outs order = eval_nodes env nm snapshot skip outs' order"
proof (induction order arbitrary: outs outs')
  case (Cons n order)
  have IH: "eval_nodes env nm snapshot skip (dict_set outs n d) order =
      eval_nodes env nm snapshot skip (dict_set outs' n d) order" for d
    by (rule Cons.IH [OF agree_set [OF Cons.prems(1)]]) (use Cons.prems(2) in auto)
  have IH0: "eval_nodes env nm snapshot skip outs order = eval_nodes env nm snapshot skip outs' order"
    by (rule Cons.IH [OF Cons.prems(1)]) (use Cons.prems(2) in auto)
  show ?case
    using Cons.prems(2) agree_gather [OF Cons.prems(1)]
    by (auto simp: IH IH0 Let_def split: option.split sum.split)
qed simp

lemma node_map_range:
  assumes "dict_get (node_map_of nodes) n = Some node"
  shows "node \<in> set nodes"
proof -
  have "dict_get (foldl (\<lambda>d (k, v). dict_set d k v) d (map (\<lambda>n. (node_id n, n)) ns)) n = Some x \<Longrightarrow>
      x \<in> set ns \<or> dict_get d n = Some x" for d ns x
    by (induction ns arbitrary: d) (fastforce simp: dict_get_set split: if_splits)+
  from this [of "[]" nodes node] assms show ?thesis
    by (simp add: node_map_of_def dict_of_def dict_get_def)
qed

text \<open>What the rows of a trace say when they are read back.\<close>

lemma by_started_timed:
  assumes "rows_timed env a b rows" and "mono (clock env)"
  shows "by_started rows = rows"
proof -
  obtain ts where ts: "map ne_started_at rows = map (\<lambda>t. Some (clock env t)) ts" "sorted ts"
    using assms(1) by (auto simp: rows_timed_def)
  have some: "\<forall>e\<in>set rows. ne_started_at e \<noteq> None"
  proof
    fix e assume "e \<in> set rows"
    then have "ne_started_at e \<in> set (map ne_started_at rows)"
      by simp
    then show "ne_started_at e \<noteq> None"
      unfolding ts(1) by auto
  qed
  have "map (\<lambda>e. the (ne_started_at e)) rows = map the (map ne_started_at rows)"
    by simp
  also have "\<dots> = map (clock env) ts"
    by (simp add: ts(1))
  finally have "sorted (map (\<lambda>e. the (ne_started_at e)) rows)"
    using ts(2) assms(2) by (simp add: sorted_map sorted_wrt_mono_rel [of _ "(\<le>)"] monoD)
  then have "sort_key (\<lambda>e. the (ne_started_at e)) rows = rows"
    by (simp add: sort_key_id_if_sorted)
  then show ?thesis
    using some by (simp add: by_started_def filter_id_conv [THEN iffD2] filter_empty_conv [THEN iffD2])
qed

lemma row_records_run: "list_all2 (row_records rid) rows tr \<Longrightarrow> filter (\<lambda>e. ne_flow_run_id e = rid) rows = rows"
  by (induction rows tr rule: list_all2_induct) (auto split: sum.splits)

lemma row_records_summary: "row_records rid e st \<Longrightarrow> ne_node_id e = fst st \<and> exec_summary e = step_summary st"
  by (cases st; cases "snd (snd st)") (auto simp: exec_summary_def)

lemma exec_summaries_trace:
  assumes "list_all2 (row_records rid) rows tr"
  shows "exec_summaries rows = trace_summaries [] tr"
proof -
  have "foldl (\<lambda>d (k, v). dict_set d k v) d (map (\<lambda>e. (ne_node_id e, exec_summary e)) rows) = trace_summaries d tr" for d
    using assms by (induction rows tr arbitrary: d rule: list_all2_induct) (auto dest: row_records_summary)
  then show ?thesis
    by (simp add: exec_summaries_def dict_of_def)
qed

lemma succeeded_rows:
  assumes "list_all2 (row_records rid) rows tr" and "all_ok tr"
  shows "filter (\<lambda>e. ne_status e = ExecSucceeded) rows = rows" "map ne_node_id rows = map fst tr"
    "map ne_output_summary rows = map (\<lambda>(n, i, r). case r of Inr x \<Rightarrow> serialize_output_summary x | Inl _ \<Rightarrow> []) tr"
  using assms by (induction rows tr rule: list_all2_induct) (auto split: sum.splits)

lemma dict_of_distinct: "distinct (dict_keys d) \<Longrightarrow> dict_of d = d"
proof -
  have "distinct (dict_keys (acc @ d)) \<Longrightarrow> foldl (\<lambda>d (k, v). dict_set d k v) acc d = acc @ d" for acc
  proof (induction d arbitrary: acc)
    case (Cons a d)
    have "dict_set acc (fst a) (snd a) = acc @ [a]"
      using Cons.prems by (simp add: dict_set_new dict_keys_def)
    then show ?case
      using Cons.IH [of "acc @ [a]"] Cons.prems by (cases a) (simp add: dict_keys_def)
  qed simp
  from this [of "[]"] show "distinct (dict_keys d) \<Longrightarrow> dict_of d = d"
    by (simp add: dict_of_def)
qed

fun step_stored :: "string \<times> dict \<times> (py_exception + component_result) \<Rightarrow> dict" where
  "step_stored (n, i, Inl _) = []"
| "step_stored (n, i, Inr x) = serialize_output_summary x"

definition same_ports :: "dict \<Rightarrow> dict \<Rightarrow> bool" where
  "same_ports d d' \<longleftrightarrow> (\<forall>p. p \<notin> {''_metadata'', ''_summary_text''} \<longrightarrow> dict_get d p = dict_get d' p)"

lemma same_ports_agree:
  assumes "\<And>n. rel_option same_ports (dict_get outs n) (dict_get outs' n)" and "plain_bindings nodes"
  shows "agree nodes outs outs'"
proof -
  have "resolve_input b outs snapshot = resolve_input b outs' snapshot"
    if node: "node \<in> set nodes" and b: "b \<in> snd ` set (input_bindings node)" for node b snapshot
  proof (cases "CHR '':'' \<in> set b")
    case True
    let ?n = "takeWhile (\<lambda>c. c \<noteq> CHR '':'') b" and ?p = "tl (dropWhile (\<lambda>c. c \<noteq> CHR '':'') b)"
    have "?p \<notin> {''_metadata'', ''_summary_text''}"
      using assms(2) node b True unfolding plain_bindings_def by blast
    then show ?thesis
      using assms(1) [of ?n] True
      by (cases "dict_get outs ?n"; cases "dict_get outs' ?n")
        (auto simp: resolve_input_def same_ports_def Let_def)
  qed (simp add: resolve_input_def)
  then show ?thesis
    by (simp add: agree_def)
qed

lemma trace_outputs_stored:
  assumes "\<forall>st\<in>set tr. case snd (snd st) of Inr x \<Rightarrow> distinct (dict_keys (cr_outputs x)) | Inl _ \<Rightarrow> False"
    and "\<And>n. rel_option same_ports (dict_get outs n) (dict_get outs' n)"
  shows "rel_option same_ports (dict_get (trace_outputs outs tr) n)
    (dict_get (foldl (\<lambda>d (k, v). dict_set d k v) outs' (map (\<lambda>st. (fst st, step_stored st)) tr)) n)"
  using assms
proof (induction tr arbitrary: outs outs')
  case (Cons st tr)
  obtain m i x where st: "st = (m, i, Inr x)" and d: "distinct (dict_keys (cr_outputs x))"
    using Cons.prems(1) by (cases st; cases "snd (snd st)") auto
  have "same_ports (cr_outputs x) (serialize_output_summary x)"
    by (simp add: same_ports_def serialize_output_summary_def dict_get_set dict_of_distinct [OF d])
  then have "rel_option same_ports (dict_get (dict_set outs m (cr_outputs x)) k)
      (dict_get (dict_set outs' m (serialize_output_summary x)) k)" for k
    using Cons.prems(2) by (simp add: dict_get_set)
  from Cons.IH [OF _ this] show ?case
    using Cons.prems(1) by (simp add: st)
qed simp

lemma eval_dict_outputs:
  "dict_outputs env \<Longrightarrow> all_ok (eval_nodes env nm snapshot skip outs order) \<Longrightarrow>
    st \<in> set (eval_nodes env nm snapshot skip outs order) \<Longrightarrow>
    case snd (snd st) of Inr x \<Rightarrow> distinct (dict_keys (cr_outputs x)) | Inl _ \<Rightarrow> False"
proof (induction order arbitrary: outs)
  case (Cons n order)
  have out: "distinct (dict_keys (cr_outputs x))" if "node_outcome env node i = Inr x" for node i x
    using that Cons.prems(1) by (auto simp: node_outcome_def dict_outputs_def split: sum.splits)
  show ?case
    using Cons.IH [OF Cons.prems(1)] Cons.prems(2,3) out
    by (auto simp: Let_def split: if_splits option.splits sum.splits)
qed simp

lemma dict_set_twice: "dict_set (dict_set d k v) k w = dict_set d k w"
  by (induction d k v rule: dict_set.induct) auto

lemma rows_stored:
  assumes "list_all2 (row_records rid) rows tr" and "all_ok tr"
  shows "map (\<lambda>e. (ne_node_id e, ne_output_summary e)) rows = map (\<lambda>st. (fst st, step_stored st)) tr"
  using assms by (induction rows tr rule: list_all2_induct) (auto split: sum.splits)

text \<open>
  The heart of resuming: the rows of a failed attempt, read back, give the loop the nodes to skip
  and outputs that all remaining bindings read like those of the attempt itself.
\<close>

lemma resume_trace:
  assumes topo: "topological_sort nodes edges = Inr order" and more: "fails_more env' env"
    and plain: "plain_bindings nodes" and outs: "dict_outputs env"
    and failed: "\<not> all_ok (eval_nodes env' (node_map_of nodes) snapshot {} [] order)"
    and ok: "all_ok (eval_nodes env (node_map_of nodes) snapshot {} [] order)"
    and rows: "list_all2 (row_records rid) rows (eval_nodes env' (node_map_of nodes) snapshot {} [] order)"
  defines "tr \<equiv> eval_nodes env (node_map_of nodes) snapshot
      (set (map ne_node_id (filter (\<lambda>e. ne_status e = ExecSucceeded) rows))) (succeeded_outputs rows) order"
  obtains k where "map fst tr = drop k order" and "k < length order"
    and "map ne_node_id rows = take (Suc k) order" and "all_ok tr"
    and "map snd (trace_summaries (exec_summaries rows) tr) =
         map snd (trace_summaries [] (eval_nodes env (node_map_of nodes) snapshot {} [] order))"
proof -
  let ?nm = "node_map_of nodes"
  have nm: "map_ok ?nm order"
    by (rule node_map_ok [OF topo])
  obtain pre n rest node i exc where sp: "order = pre @ n # rest"
    "all_ok (eval_nodes env' ?nm snapshot {} [] pre)" "dict_get ?nm n = Some node"
    "eval_nodes env' ?nm snapshot {} [] order = eval_nodes env' ?nm snapshot {} [] pre @ [(n, i, Inl exc)]"
    by (rule eval_fails_split [OF failed nm]) blast
  let ?T = "eval_nodes env ?nm snapshot {} [] pre"
  have T': "eval_nodes env' ?nm snapshot {} [] pre = ?T"
    using fails_more_eval [OF more sp(2)] by simp
  have okT: "all_ok ?T"
    using sp(2) T' by simp
  have nmp: "map_ok ?nm pre" "map_ok ?nm (n # rest)"
    using nm sp(1) by (simp_all add: map_ok_def)
  let ?R = "eval_nodes env ?nm snapshot {} (trace_outputs [] ?T) (n # rest)"
  have full: "eval_nodes env ?nm snapshot {} [] order = ?T @ ?R"
    unfolding sp(1) by (rule eval_append [OF okT nmp(1)])
  have okR: "all_ok ?R"
    using ok full by simp
  have idsT: "map fst ?T = pre"
    using eval_ids [OF okT nmp(1)] by simp
  have idsR: "map fst ?R = n # rest"
    using eval_ids [OF okR nmp(2)] by simp
  obtain rowsT row where rs: "rows = rowsT @ [row]" "list_all2 (row_records rid) rowsT ?T"
      "row_records rid row (n, i, Inl exc)"
    using rows unfolding sp(4) T' by (auto simp: list_all2_append2 list_all2_Cons2 simp del: row_records.simps)
  have st: "filter (\<lambda>e. ne_status e = ExecSucceeded) rows = rowsT" "map ne_node_id rowsT = pre"
    using succeeded_rows(1,2) [OF rs(2) okT] idsT rs(1,3) by simp_all
  have so: "succeeded_outputs rows =
      foldl (\<lambda>d (k, v). dict_set d k v) [] (map (\<lambda>st. (fst st, step_stored st)) ?T)"
    using rows_stored [OF rs(2) okT] by (simp add: succeeded_outputs_def st dict_of_def)
  have "rel_option same_ports (dict_get (trace_outputs [] ?T) m) (dict_get (succeeded_outputs rows) m)" for m
    unfolding so
    by (rule trace_outputs_stored) (use eval_dict_outputs [OF outs okT] in \<open>simp_all add: dict_get_def\<close>)
  then have "agree nodes (trace_outputs [] ?T) (succeeded_outputs rows)"
    by (rule same_ports_agree [OF _ plain])
  then have ag: "agree nodes (succeeded_outputs rows) (trace_outputs [] ?T)"
    unfolding agree_def by metis
  have dis: "distinct order"
    by (rule topological_sort_Inr(2) [OF topo])
  have "tr = eval_nodes env ?nm snapshot (set pre) (succeeded_outputs rows) (n # rest)"
    unfolding tr_def sp(1) st by (rule eval_skip) simp
  also have "\<dots> = eval_nodes env ?nm snapshot {} (succeeded_outputs rows) (n # rest)"
    by (rule eval_no_skip) (use dis sp(1) in auto)
  also have "\<dots> = ?R"
    by (rule eval_agree [OF ag]) (use node_map_range in blast)
  finally have tr: "tr = ?R" .
  obtain st R' where R: "?R = st # R'" "fst st = n"
    using idsR by (cases ?R) auto
  have "exec_summaries rows = trace_summaries [] (?T @ [(n, i, Inl exc)])"
    using exec_summaries_trace [OF rows] unfolding sp(4) T' .
  then have "trace_summaries (exec_summaries rows) tr = trace_summaries [] (?T @ ?R)"
    unfolding tr R(1) by (simp add: R(2) dict_set_twice)
  then have sm: "map snd (trace_summaries (exec_summaries rows) tr) =
      map snd (trace_summaries [] (eval_nodes env ?nm snapshot {} [] order))"
    using full by simp
  have ids: "map ne_node_id rows = pre @ [n]"
    using st(2) rs(1,3) by simp
  show ?thesis
    by (rule that [of "length pre"]) (use tr idsR okR sm ids in \<open>simp_all add: sp(1)\<close>)
qed



section \<open>Cancelling while a node runs\<close>

text \<open>The environment in which somebody cancels run \<open>rid\<close> while node \<open>c\<close> runs.\<close>

definition cancelling :: "flow_env \<Rightarrow> uuid \<Rightarrow> string \<Rightarrow> flow_env" where
  "cancelling env rid c =
    env\<lparr>during := (\<lambda>n s. if n = c then snd (flow_cancel env rid s) else s)\<rparr>"

lemma cancelling_sel [simp]:
  "clock (cancelling env rid c) = clock env" "fresh (cancelling env rid c) = fresh env"
  "env_vis (cancelling env rid c) = env_vis env" "sha256 (cancelling env rid c) = sha256 env"
  "latest (cancelling env rid c) = latest env" "run_component (cancelling env rid c) = run_component env"
  "env_department (cancelling env rid c) = env_department env"
  by (simp_all add: cancelling_def)

lemma cancelling_outcome [simp]: "node_outcome (cancelling env rid c) node i = node_outcome env node i"
  by (simp add: node_outcome_def split: sum.split)

lemma cancelling_eval: "eval_nodes (cancelling env rid c) nm sn skip outs order = eval_nodes env nm sn skip outs order"
  by (induction order arbitrary: outs) (simp_all add: Let_def split: option.split sum.split)

lemma cancelling_find_run: "find_run (cancelling env rid c) i s = find_run env i s"
  by (simp add: find_run_def run_where_def [abs_def])

lemma cancelling_load: "load_run (cancelling env rid c) i s = load_run env i s"
  by (simp add: load_run_def cancelling_find_run)

lemma flow_cancel_running:
  assumes "find_run env rid s = Some r" and "dict_get (fs_events s) rid \<noteq> None"
  shows "snd (flow_cancel env rid s) =
    tick (update_run env rid (cancel_run_values (now_at env s)) (s\<lparr>fs_events := dict_set (fs_events s) rid True\<rparr>))"
  using assms by (auto simp: flow_cancel_def find_run_def Let_def)

lemma cancelling_node:
  assumes "steady env" and "fresh_ok env s" and "node_outcome env node inputs = Inr x"
    and "node_id node = c" and "find_run env rid s = Some r" and "dict_get (fs_events s) rid \<noteq> None"
  obtains row s' where
    "execute_single_node (cancelling env rid c) rid node inputs jid s =
      (\<lparr>er_status = ExecSucceeded, er_outputs = cr_outputs x,
        er_output_summary = serialize_output_summary x\<rparr>, s')"
    and "fs_execs s' = fs_execs s @ [row]" and "row_records rid row (c, inputs, Inr x)"
    and "event_set rid s'" and "find_run env rid s' \<noteq> None"
proof -
  let ?eid = "fresh env (fs_tick s)"
  let ?row = "exec_running (now_at env s) (new_exec ?eid rid (node_id node) (serialize_input_summary inputs))"
  have new: "\<forall>e\<in>set (fs_execs s). ne_id e \<noteq> ?eid"
    using assms(2) by (simp add: fresh_ok_def)
  have id: "ne_id (new_exec ?eid rid (node_id node) (serialize_input_summary inputs)) = ?eid" "ne_id ?row = ?eid"
    by (simp_all add: exec_running_def new_exec_def)
  let ?s3 = "add_rows [?row] 1 s"
  have s3: "update_exec ?eid (exec_running (now_at env s))
      ((tick s)\<lparr>fs_execs := fs_execs (tick s) @
        [new_exec ?eid rid (node_id node) (serialize_input_summary inputs)]\<rparr>) = ?s3"
    by (simp add: update_exec_def update_exec_last [OF new] id add_rows_def)
  have run: "run_component env t m ctx ps = run_component env 0 m
      \<lparr>ctx_department_id = 0, ctx_user_id = 0, ctx_job_id = 0\<rparr> ps" for t m ctx ps
    using assms(1) by (simp add: steady_def)
  obtain m ps where mp: "latest env (component_name node) = Inr m" "node_params node m = Inr ps"
      "run_component env 0 m \<lparr>ctx_department_id = 0, ctx_user_id = 0, ctx_job_id = 0\<rparr> (dict_of (ps @ inputs)) = Inr x"
    using assms(3) by (auto simp: node_outcome_def split: sum.splits)
  have r: "run_component env t m ctx (dict_of (ps @ inputs)) = Inr x" for t ctx
    using run [of t m ctx "dict_of (ps @ inputs)"] mp(3) by simp
  obtain k where call: "call_component (cancelling env rid c) node inputs jid ?s3 =
      (Inr x, snd (flow_cancel env rid (add_rows [] k ?s3)))"
  proof (cases jid)
    case None
    show ?thesis
      by (rule that [of 2]) (simp add: call_component_def mp None r cancelling_def assms(4) add_rows_def)
  next
    case (Some j)
    show ?thesis
      by (rule that [of 0]) (simp add: call_component_def mp Some r cancelling_def assms(4))
  qed
  define s4 where "s4 = snd (flow_cancel env rid (add_rows [] k ?s3))"
  have s4: "s4 = tick (update_run env rid (cancel_run_values (now_at env (add_rows [] k ?s3)))
      ((add_rows [] k ?s3)\<lparr>fs_events := dict_set (fs_events s) rid True\<rparr>))"
    unfolding s4_def using flow_cancel_running [of env rid "add_rows [] k ?s3" r] assms(5,6) by simp
  have execs: "fs_execs s4 = fs_execs s @ [?row]" and ev: "event_set rid s4"
    and fr: "find_run env rid s4 \<noteq> None"
    using assms(5) unfolding s4
    by (simp_all add: update_run_def event_set_def dict_get_set find_run_def sql_find_update_stable)
  let ?r = "exec_done (now_at env s) (now_at env s4) (serialize_output_summary x) (cr_diagnostics x) ?row"
  show ?thesis
  proof (rule that)
    show "execute_single_node (cancelling env rid c) rid node inputs jid s =
      (\<lparr>er_status = ExecSucceeded, er_outputs = cr_outputs x,
        er_output_summary = serialize_output_summary x\<rparr>,
       tick (update_exec ?eid (exec_done (now_at env s) (now_at env s4) (serialize_output_summary x)
         (cr_diagnostics x)) s4))"
      unfolding execute_single_node_def Let_def cancelling_sel s3 call s4_def [symmetric] by simp
    show "fs_execs (tick (update_exec ?eid (exec_done (now_at env s) (now_at env s4)
         (serialize_output_summary x) (cr_diagnostics x)) s4)) = fs_execs s @ [?r]"
      by (simp add: update_exec_def execs update_exec_last [OF new id(2)])
    show "row_records rid ?r (c, inputs, Inr x)"
      using assms(4) by (simp add: exec_done_def exec_running_def new_exec_def)
  qed (use ev fr in \<open>simp_all add: update_exec_def event_set_def find_run_def\<close>)
qed

lemma eval_prefix_ok:
  "all_ok (eval_nodes env nm sn skip outs (pre @ rest)) \<Longrightarrow> all_ok (eval_nodes env nm sn skip outs pre)"
  by (induction pre arbitrary: outs) (auto simp: Let_def split: if_splits option.splits sum.splits)

text \<open>
  Cancellation is noticed between nodes only. If a run is cancelled while its node \<open>c\<close> runs
  (and every component returns), then \<open>c\<close> is completed and recorded as succeeded. When a node
  follows \<open>c\<close> in the order, no further node is run and the run ends \<open>cancelled\<close>. When \<open>c\<close> is the
  last node, the loop does not look at the event again: the run that the database already showed
  as cancelled ends \<open>succeeded\<close>, and the cancellation is lost.
\<close>

theorem cancel_between_nodes:
  assumes "load_run env rid s = Inr (r, v, nodes, edges)" and "topological_sort nodes edges = Inr order"
    and "steady env" and "fresh_ok env s"
    and "all_ok (eval_nodes env (node_map_of nodes) (fr_input_snapshot r) {} [] order)"
    and "order = pre @ c # post"
  shows "\<exists>s' rows r'. flow_execute (cancelling env rid c) rid s = (Inr (), s')
     \<and> fs_execs s' = fs_execs s @ rows \<and> map ne_node_id rows = pre @ [c]
     \<and> list_all (\<lambda>e. ne_status e = ExecSucceeded) rows
     \<and> find_run env rid s' = Some r'
     \<and> fr_status r' = (if post = [] then RunSucceeded else RunCancelled)"
proof -
  let ?env = "cancelling env rid c" and ?nm = "node_map_of nodes" and ?sn = "fr_input_snapshot r"
  have nm: "map_ok ?nm order"
    by (rule node_map_ok [OF assms(2)])
  have dis: "distinct order"
    by (rule topological_sort_Inr(2) [OF assms(2)])
  obtain node where node: "dict_get ?nm c = Some node" "node_id node = c"
    using nm assms(6) by (auto simp: map_ok_def)
  have nmp: "map_ok ?nm pre"
    using nm assms(6) by (simp add: map_ok_def)
  let ?T = "eval_nodes env ?nm ?sn {} [] pre"
  have okT: "all_ok ?T"
    using assms(5) eval_prefix_ok unfolding assms(6) by blast
  have full: "eval_nodes env ?nm ?sn {} [] order =
      ?T @ eval_nodes env ?nm ?sn {} (trace_outputs [] ?T) (c # post)"
    unfolding assms(6) by (rule eval_append [OF okT nmp])
  let ?i = "gather_inputs node (trace_outputs [] ?T) ?sn"
  obtain x where x: "node_outcome env node ?i = Inr x"
    using assms(5) unfolding full using node by (cases "node_outcome env node ?i") (auto simp: Let_def)
  have T: "eval_nodes ?env ?nm ?sn {} [] pre = ?T"
    by (rule cancelling_eval)
  have q: "\<forall>n\<in>set pre. quiet_at ?env n"
    using dis assms(6) by (auto simp: quiet_at_def cancelling_def)
  have st: "steady ?env" and fo: "fresh_ok ?env (started ?env rid s)"
    using assms(3,4) by (auto simp: steady_def fresh_ok_def)
  obtain rows k where pre:
    "run_node_loop ?env rid ?nm ?sn (fr_job_id r) (fv_digest v) {} [] [] (pre @ c # post) (started ?env rid s) =
     run_node_loop ?env rid ?nm ?sn (fr_job_id r) (fv_digest v) {} (trace_outputs [] ?T)
       (trace_summaries [] ?T) (c # post) (add_rows rows k (started ?env rid s))"
    "list_all2 (row_records rid) rows ?T" "fresh_ok ?env (add_rows rows k (started ?env rid s))"
    using loop_prefix [OF st q nmp fo started_simps(5) okT [folded T]] unfolding T by blast
  let ?s = "add_rows rows k (started ?env rid s)"
  have r: "find_run env rid s = Some r"
    using assms(1) by (simp add: load_run_Inr)
  obtain r1 where r1: "find_run env rid ?s = Some r1"
    using r find_run_started [of ?env rid s] by (simp add: cancelling_find_run)
  have ev0: "\<not> event_set rid ?s" "dict_get (fs_events ?s) rid \<noteq> None"
    by (simp_all add: started_def new_event_def event_set_def dict_get_set)
  have fo1: "fresh_ok env ?s"
    using pre(3) by (simp add: fresh_ok_def)
  obtain row s' where one:
    "execute_single_node ?env rid node ?i (fr_job_id r) ?s =
      (\<lparr>er_status = ExecSucceeded, er_outputs = cr_outputs x,
        er_output_summary = serialize_output_summary x\<rparr>, s')"
    "fs_execs s' = fs_execs ?s @ [row]" "row_records rid row (c, ?i, Inr x)"
    "event_set rid s'" "find_run env rid s' \<noteq> None"
    by (rule cancelling_node [OF assms(3) fo1 x node(2) r1 ev0(2)])
  have loop: "flow_execute ?env rid s =
      run_node_loop ?env rid ?nm ?sn (fr_job_id r) (fv_digest v) {} [] [] (pre @ c # post) (started ?env rid s)"
    using assms(1,2,6) cancelling_load [of env rid c]
    by (simp add: flow_execute_def Let_def started_def)
  define sm where "sm = dict_set (trace_summaries [] ?T) c (node_summary c ExecSucceeded (serialize_output_summary x))"
  let ?st = "if post = [] then RunSucceeded else RunCancelled"
  let ?f = "settle_run ?env rid (fr_job_id r) ?st (fv_digest v) (map snd sm) s'"
  have final: "flow_execute ?env rid s = (Inr (), ?f)"
    unfolding loop pre(1) using ev0(1) node(1) one(1,4)
    by (cases post) (simp_all add: Let_def sm_def)
  obtain r2 where r2: "find_run env rid s' = Some r2"
    using one(5) by blast
  have fr: "\<exists>r'. find_run env rid ?f = Some r' \<and> fr_status r' = ?st"
    using find_run_settle [of ?env rid "fr_job_id r" ?st "fv_digest v" "map snd sm" s'] r2
    by (simp add: cancelling_find_run)
  have rows: "map ne_node_id (rows @ [row]) = pre @ [c]"
      "list_all (\<lambda>e. ne_status e = ExecSucceeded) (rows @ [row])"
    using succeeded_rows [OF pre(2) okT] eval_ids [OF okT nmp] one(3)
    by (auto simp: list_all_iff filter_eq_Cons_iff dest: filter_id_conv [THEN iffD1])
  show ?thesis
    using final fr rows one(2) by (intro exI [of _ ?f] exI [of _ "rows @ [row]"]) auto
qed

lemma cancel_between_nodes_witness:
  "(\<exists>s' r'. flow_execute (cancelling demo_env 1 ''b'') 1 demo_state = (Inr (), s') \<and>
      find_run demo_env 1 s' = Some r' \<and> fr_status r' = RunSucceeded) \<and>
   (\<exists>s' r'. flow_execute (cancelling demo_env 1 ''a'') 1 demo_state = (Inr (), s') \<and>
      find_run demo_env 1 s' = Some r' \<and> fr_status r' = RunCancelled)"
  using cancel_between_nodes [OF demo_load demo_order demo_steady(1) demo_fresh demo_trace(1), of "[''a'']" "''b''" "[]"]
    cancel_between_nodes [OF demo_load demo_order demo_steady(1) demo_fresh demo_trace(1), of "[]" "''a''" "[''b'']"]
  by auto

section \<open>The inputs a node is given\<close>

text \<open>What the external inputs offer for a parameter: an empty or false value counts as none.\<close>

definition external_value :: "dict \<Rightarrow> string \<Rightarrow> json option" where
  "external_value snapshot k =
    (case dict_get snapshot k of None \<Rightarrow> None | Some v \<Rightarrow> if py_truthy v then Some v else None)"

lemma merge_snapshot_get:
  "distinct (dict_keys snapshot) \<Longrightarrow>
    dict_get (merge_snapshot snapshot inputs) k =
    (case external_value snapshot k of
       None \<Rightarrow> dict_get inputs k
     | Some v \<Rightarrow>
         if k \<in> set PROTECTED_PARAMS then (if is_artifact v then Some v else dict_get inputs k)
         else (case dict_get inputs k of None \<Rightarrow> Some v | Some w \<Rightarrow> Some w))"
proof (induction snapshot inputs rule: merge_snapshot.induct)
  case (1 inputs)
  then show ?case
    by (simp add: external_value_def dict_get_def)
next
  case (2 k' v kvs inputs)
  have d: "distinct (dict_keys kvs)" "k' \<notin> set (dict_keys kvs)"
    using "2.prems" by (simp_all add: dict_keys_def)
  have ev: "external_value ((k', v) # kvs) k =
      (if k = k' then (if py_truthy v then Some v else None) else external_value kvs k)"
    by (simp add: external_value_def dict_get_def)
  have none: "external_value kvs k' = None"
    using d(2) dict_get_None_iff [of kvs k'] by (simp add: external_value_def)
  have key: "k' \<in> set (dict_keys inputs) \<longleftrightarrow> dict_get inputs k' \<noteq> None"
    using dict_get_None_iff [of inputs k'] by (cases "dict_get inputs k'") simp_all
  show ?case
    using "2.IH" [OF d(1)] none key
    by (auto simp: ev dict_get_set split: option.split)
qed

text \<open>
  The inputs of a node (security constraint F-13). For a parameter that is not protected, the
  node's own binding wins and an external input of that name fills in only when there is none. For
  one of the 15 protected path parameters an external value is taken only if it is an
  \<open>artifact:\<close> reference, and then it also replaces a binding; any other external value is ignored.
  The constraint does not reach the values of bindings: a node that binds a protected parameter to
  an external input passes whatever the caller supplied under that name.
\<close>

theorem gather_inputs_value:
  assumes "distinct (dict_keys snapshot)" and "distinct (dict_keys (input_bindings node))"
  shows "let bound = map_option (\<lambda>b. resolve_input b outs snapshot) (dict_get (input_bindings node) k)
    in dict_get (gather_inputs node outs snapshot) k =
       (if k \<in> set PROTECTED_PARAMS
        then (case external_value snapshot k of
                Some v \<Rightarrow> if is_artifact v then Some v else bound
              | None \<Rightarrow> bound)
        else (case bound of Some w \<Rightarrow> Some w | None \<Rightarrow> external_value snapshot k))"
proof -
  let ?f = "\<lambda>(p, b). (p, resolve_input b outs snapshot)"
  have "dict_keys (map ?f (input_bindings node)) = dict_keys (input_bindings node)"
    by (simp add: dict_keys_def case_prod_beta comp_def)
  then have "bind_inputs node outs snapshot = map ?f (input_bindings node)"
    using assms(2) by (simp add: bind_inputs_def dict_of_distinct)
  moreover have "dict_get (map ?f d) k = map_option (\<lambda>b. resolve_input b outs snapshot) (dict_get d k)" for d
    by (induction d) (auto simp: dict_get_def)
  ultimately show ?thesis
    by (auto simp: gather_inputs_def merge_snapshot_get [OF assms(1)] Let_def split: option.split)
qed

lemma gather_inputs_value_witness:
  "dict_get (gather_inputs (hd demo_nodes) [] (fr_input_snapshot demo_run)) ''path'' = None \<and>
   dict_get (gather_inputs ((hd demo_nodes)\<lparr>input_bindings := [(''path'', ''path'')]\<rparr>) []
     (fr_input_snapshot demo_run)) ''path'' = Some (JStr ''/etc/passwd'')"
  using gather_inputs_value [of "fr_input_snapshot demo_run" "hd demo_nodes" "[]" "''path''"]
    gather_inputs_value [of "fr_input_snapshot demo_run"
      "(hd demo_nodes)\<lparr>input_bindings := [(''path'', ''path'')]\<rparr>" "[]" "''path''"]
  by (simp add: demo_run_def demo_nodes_def dict_keys_def dict_get_def PROTECTED_PARAMS_def
      external_value_def resolve_input_def)

section \<open>The job of a run\<close>

lemma settled_job:
  fixes st :: run_status
  assumes "get_job (env_vis env) j (fs_jobs s) = Some x" and "s' = settle_run env rid (Some j) st vd sm s"
  shows "\<exists>x'. get_job (env_vis env) j (fs_jobs s') = Some x' \<and> status x' = job_status_of st
     \<and> lock_version x' = lock_version x \<and> result x' = result x
     \<and> commit_success (env_vis env) now j (lock_version x) res \<lparr>db_jobs = fs_jobs s', db_outbox = evs\<rparr> =
         (False, \<lparr>db_jobs = fs_jobs s', db_outbox = evs\<rparr>)"
proof -
  let ?p = "job_row (env_vis env) j"
  have stable: "?p (engine_job_values t st' y) = ?p y" for t st' y
    by (simp add: job_row_def engine_job_values_def)
  obtain t where jobs: "fs_jobs s' = sql_update ?p (engine_job_values t (job_status_of st)) (fs_jobs s)"
    by (simp add: assms(2) settle_run_jobs)
  have f: "get_job (env_vis env) j (fs_jobs s') = Some (engine_job_values t (job_status_of st) x)"
    using assms(1) by (simp add: get_job_def jobs sql_find_update_stable stable)
  have tm: "terminal (job_status_of st)"
    by (cases st) (simp_all add: terminal_iff)
  have none: "\<not> status_where (env_vis env) j SUCCEEDED (Some (lock_version x)) y" if y: "y \<in> set (fs_jobs s')" for y
  proof -
    obtain y0 where y0: "y = (if ?p y0 then engine_job_values t (job_status_of st) y0 else y0)"
      using y unfolding jobs by (rule in_sql_updateE)
    show ?thesis
      using tm y0 stable [of t "job_status_of st" y0]
      by (auto simp: status_where_def engine_job_values_def terminal_iff split: if_splits)
  qed
  then have zero: "sql_rowcount (status_where (env_vis env) j SUCCEEDED (Some (lock_version x))) (fs_jobs s') = 0"
    by (simp add: sql_rowcount_0_iff)
  show ?thesis
    by (intro exI [of _ "engine_job_values t (job_status_of st) x"])
      (use f zero in \<open>simp add: commit_success_def update_status_def sql_update_id engine_job_values_def\<close>)
qed

text \<open>
  C40. The engine takes the result away from the worker. When \<open>execute\<close> returns, the job row of the
  run is terminal although its lock version is still the one the worker holds. So the worker's own
  commit, with exactly the right fencing token, matches no row: it reports that the lease was
  lost, and the result that the handler returned is never stored.
\<close>

theorem flow_result_lost:
  assumes "load_run env rid s = Inr (r, v, nodes, edges)" and "topological_sort nodes edges = Inr order"
    and "steady env" and "\<forall>n\<in>set order. quiet_at env n" and "fresh_ok env s"
    and "fr_job_id r = Some j" and "get_job (env_vis env) j (fs_jobs s) = Some x"
  shows "let s' = snd (flow_execute env rid s); db = \<lparr>db_jobs = fs_jobs s', db_outbox = evs\<rparr>
    in \<exists>x'. get_job (env_vis env) j (fs_jobs s') = Some x' \<and> terminal (status x')
     \<and> lock_version x' = lock_version x \<and> result x' = result x
     \<and> commit_success (env_vis env) now j (lock_version x) res db = (False, db)"
proof -
  let ?tr = "eval_nodes env (node_map_of nodes) (fr_input_snapshot r) {} [] order"
  let ?st = "if all_ok ?tr then RunSucceeded else RunFailed"
  obtain rows k where x: "flow_execute env rid s = (Inr (), settle_run env rid (fr_job_id r) ?st
      (fv_digest v) (map snd (trace_summaries [] ?tr)) (add_rows rows k (started env rid s)))"
    using flow_execute_result [OF assms(1-5) refl] by blast
  have "get_job (env_vis env) j (fs_jobs (add_rows rows k (started env rid s))) = Some x"
    using assms(7) by simp
  from settled_job [OF this refl] obtain x' where
    "get_job (env_vis env) j (fs_jobs (snd (flow_execute env rid s))) = Some x'" "status x' = job_status_of ?st"
    "lock_version x' = lock_version x" "result x' = result x"
    "commit_success (env_vis env) now j (lock_version x) res
       \<lparr>db_jobs = fs_jobs (snd (flow_execute env rid s)), db_outbox = evs\<rparr> =
     (False, \<lparr>db_jobs = fs_jobs (snd (flow_execute env rid s)), db_outbox = evs\<rparr>)"
    unfolding x assms(6) snd_conv by blast
  moreover have "terminal (job_status_of ?st)"
    by (simp add: terminal_iff)
  ultimately show ?thesis
    unfolding Let_def by auto
qed

lemma flow_result_lost_witness:
  "let s' = snd (flow_execute demo_env 1 demo_state); db = \<lparr>db_jobs = fs_jobs s', db_outbox = []\<rparr>
   in commit_success (\<lambda>_. True) 5 9 1 (Some (JInt 1)) db = (False, db)"
proof -
  have q: "\<forall>n\<in>set [''a'', ''b'']. quiet_at demo_env n"
    by (simp add: demo_quiet)
  have j: "fr_job_id demo_run = Some 9" "get_job (env_vis demo_env) 9 (fs_jobs demo_state) = Some demo_job"
    "lock_version demo_job = 1" "env_vis demo_env = (\<lambda>_. True)"
    by (simp_all add: demo_run_def demo_state_def demo_env_def demo_job_def get_job_def job_row_def sql_find_def)
  show ?thesis
    using flow_result_lost [OF demo_load demo_order demo_steady(1) q demo_fresh j(1,2),
        where evs = "[]" and now = 5 and res = "Some (JInt 1)"]
    unfolding Let_def j(3,4) by blast
qed

end
