(* ===== verification/Departments.thy ===== *)
theory Departments imports Prelude begin

text \<open>
  Departments: the table and its statements (\<open>packages/departments/entities.py\<close>,
  \<open>repository.py\<close>), the service (\<open>service.py\<close>), the membership of users (\<open>user_departments.py\<close>),
  and the trigger \<open>protect_sentinel_dept\<close> that the migration \<open>0065_dept_rls_switch.py\<close> puts on the
  table. The table has no row-level security.
\<close>

section \<open>Rows\<close>

record department =
  dp_id :: uuid
  dp_code :: string
  dp_display_name :: string
  dp_description :: "string option"
  dp_status :: string
  dp_sort_order :: int
  dp_created_at :: timestamp
  dp_updated_at :: timestamp
  dp_lock_version :: nat
  dp_parent_id :: "uuid option"

record membership =
  ud_user_id :: uuid
  ud_department_id :: uuid
  ud_is_primary :: bool

text \<open>
  \<open>dd_equipment\<close>: for each piece of equipment the department it belongs to. \<open>dd_referenced\<close>: the
  departments that rows of other tables refer to by a foreign key without cascade.
\<close>

record dept_db =
  dd_departments :: "department list"
  dd_members :: "membership list"
  dd_equipment :: "uuid list"
  dd_referenced :: "uuid list"

datatype dept_error = DeptApp app_error | DeptIntegrityError | DeptTriggerError

definition SENTINEL_CODES :: "string list" where
  "SENTINEL_CODES = [''root'', ''system'']"

section \<open>Repository\<close>

definition dept_row :: "uuid \<Rightarrow> department list \<Rightarrow> department option" where
  "dept_row did rows = sql_find (\<lambda>d. dp_id d = did) rows"

text \<open>The foreign key \<open>parent_id \<rightarrow> department.id\<close>.\<close>

definition parent_exists :: "uuid option \<Rightarrow> department list \<Rightarrow> bool" where
  "parent_exists p rows = (case p of None \<Rightarrow> True | Some i \<Rightarrow> i \<in> dp_id ` set rows)"

definition dept_insert :: "department \<Rightarrow> dept_db \<Rightarrow> (dept_error + department) \<times> dept_db" where
  "dept_insert d db =
    (if dp_id d \<in> dp_id ` set (dd_departments db)
        \<or> \<not> parent_exists (dp_parent_id d) (d # dd_departments db)
        \<or> (\<exists>x\<in>set (dd_departments db). dp_parent_id d \<noteq> None \<and> dp_parent_id x = dp_parent_id d
             \<and> dp_code x = dp_code d)
     then (Inl DeptIntegrityError, db)
     else (Inr d, db\<lparr>dd_departments := dd_departments db @ [d]\<rparr>))"

text \<open>\<open>protect_sentinel_dept\<close> on an update of \<open>old\<close> to \<open>new\<close>: does it let the update pass?\<close>

definition sentinel_passes :: "department \<Rightarrow> department \<Rightarrow> bool" where
  "sentinel_passes old new =
    (dp_code old \<in> set SENTINEL_CODES \<longrightarrow>
       dp_parent_id new = dp_parent_id old \<and> dp_status new = dp_status old)"

definition version_where :: "uuid \<Rightarrow> nat \<Rightarrow> department \<Rightarrow> bool" where
  "version_where did v d = (dp_id d = did \<and> dp_lock_version d = v)"

definition dept_values ::
    "timestamp \<Rightarrow> string \<Rightarrow> string option \<Rightarrow> int \<Rightarrow> uuid option \<Rightarrow> department \<Rightarrow> department" where
  "dept_values now name desc so parent d =
    d\<lparr>dp_display_name := name, dp_description := desc, dp_sort_order := so, dp_parent_id := parent,
      dp_updated_at := now, dp_lock_version := dp_lock_version d + 1\<rparr>"

definition dept_status_values :: "timestamp \<Rightarrow> string \<Rightarrow> department \<Rightarrow> department" where
  "dept_status_values now st d =
    d\<lparr>dp_status := st, dp_updated_at := now, dp_lock_version := dp_lock_version d + 1\<rparr>"

text \<open>
  An \<open>UPDATE ... WHERE id AND lock_version RETURNING\<close> with the trigger and the constraints of the
  table: an error of the database, no row, or the updated row.
\<close>

definition dept_update_row ::
    "uuid \<Rightarrow> nat \<Rightarrow> (department \<Rightarrow> department) \<Rightarrow> dept_db \<Rightarrow> dept_error + (department \<times> dept_db) option" where
  "dept_update_row did v f db =
    (case sql_find (version_where did v) (dd_departments db) of
       None \<Rightarrow> Inr None
     | Some d \<Rightarrow>
         if \<not> sentinel_passes d (f d) then Inl DeptTriggerError
         else if \<not> parent_exists (dp_parent_id (f d)) (dd_departments db)
              \<or> (\<exists>x\<in>set (dd_departments db). dp_id x \<noteq> did \<and> dp_parent_id (f d) \<noteq> None
                   \<and> dp_parent_id x = dp_parent_id (f d) \<and> dp_code x = dp_code (f d))
         then Inl DeptIntegrityError
         else Inr (Some (f d, db\<lparr>dd_departments := sql_update (version_where did v) f (dd_departments db)\<rparr>)))"

definition select_children_count :: "uuid \<Rightarrow> dept_db \<Rightarrow> nat" where
  "select_children_count did db = sql_rowcount (\<lambda>d. dp_parent_id d = Some did) (dd_departments db)"

section \<open>Service\<close>

definition dept_not_found :: "uuid \<Rightarrow> app_error" where
  "dept_not_found did = mk_error ''not_found'' False [(''department_id'', JStr (uuid_str did))]"

definition dept_create ::
    "timestamp \<Rightarrow> uuid \<Rightarrow> string \<Rightarrow> string \<Rightarrow> string option \<Rightarrow> int \<Rightarrow> uuid option \<Rightarrow> dept_db
      \<Rightarrow> (dept_error + department) \<times> dept_db" where
  "dept_create now new_id code name desc so parent db =
    (if \<exists>d\<in>set (dd_departments db). dp_code d = code \<and> dp_parent_id d = parent
     then (Inl (DeptApp (mk_error ''conflict'' False [(''code'', JStr code)])), db)
     else dept_insert
       \<lparr>dp_id = new_id, dp_code = code, dp_display_name = name, dp_description = desc,
        dp_status = ''active'', dp_sort_order = so, dp_created_at = now, dp_updated_at = now,
        dp_lock_version = 0, dp_parent_id = parent\<rparr> db)"

definition dept_get :: "uuid \<Rightarrow> dept_db \<Rightarrow> app_error + department" where
  "dept_get did db =
    (case dept_row did (dd_departments db) of None \<Rightarrow> Inl (dept_not_found did) | Some d \<Rightarrow> Inr d)"

definition stale_or_missing :: "uuid \<Rightarrow> nat \<Rightarrow> dept_db \<Rightarrow> app_error" where
  "stale_or_missing did v db =
    (case dept_row did (dd_departments db) of
       None \<Rightarrow> dept_not_found did
     | Some _ \<Rightarrow> mk_error ''conflict'' False [(''lock_version'', JInt (int v))])"

definition dept_update ::
    "timestamp \<Rightarrow> uuid \<Rightarrow> string \<Rightarrow> string option \<Rightarrow> int \<Rightarrow> nat \<Rightarrow> uuid option \<Rightarrow> dept_db
      \<Rightarrow> (dept_error + department) \<times> dept_db" where
  "dept_update now did name desc so v parent db =
    (if case dept_row did (dd_departments db) of
          None \<Rightarrow> False
        | Some d \<Rightarrow> dp_code d \<in> set SENTINEL_CODES \<and> parent \<noteq> None \<and> parent \<noteq> dp_parent_id d
     then (Inl (DeptApp (mk_error ''forbidden'' False
             [(''code'', JStr (case dept_row did (dd_departments db) of None \<Rightarrow> [] | Some d \<Rightarrow> dp_code d))])), db)
     else case dept_update_row did v (dept_values now name desc so parent) db of
       Inl e \<Rightarrow> (Inl e, db)
     | Inr (Some (d, db')) \<Rightarrow> (Inr d, db')
     | Inr None \<Rightarrow> (Inl (DeptApp (stale_or_missing did v db)), db))"

definition dept_set_status ::
    "timestamp \<Rightarrow> uuid \<Rightarrow> string \<Rightarrow> nat \<Rightarrow> dept_db \<Rightarrow> (dept_error + department) \<times> dept_db" where
  "dept_set_status now did st v db =
    (case dept_update_row did v (dept_status_values now st) db of
       Inl e \<Rightarrow> (Inl e, db)
     | Inr (Some (d, db')) \<Rightarrow> (Inr d, db')
     | Inr None \<Rightarrow> (Inl (DeptApp (stale_or_missing did v db)), db))"

text \<open>The loop of \<open>reparent_impact_preview\<close>; the two sets are kept as lists without repetition.\<close>

definition child_ids :: "department list \<Rightarrow> uuid list \<Rightarrow> uuid list" where
  "child_ids rows pending =
    remdups (map dp_id (filter (\<lambda>d. \<exists>p\<in>set pending. dp_parent_id d = Some p) rows))"

function subtree_loop :: "department list \<Rightarrow> uuid list \<Rightarrow> uuid list \<Rightarrow> uuid list" where
  "subtree_loop rows seen pending =
    (if pending = [] then seen
     else let new = filter (\<lambda>i. i \<notin> set seen) (child_ids rows pending)
          in subtree_loop rows (seen @ new) new)"
  by pat_completeness auto
termination
proof (relation "measure (\<lambda>(rows, seen, pending). card (dp_id ` set rows - set seen) + (if pending = [] then 0 else 1))")
  fix rows :: "department list" and seen pending new
  assume p: "pending \<noteq> []" and new: "new = filter (\<lambda>i. i \<notin> set seen) (child_ids rows pending)"
  have sub: "set new \<subseteq> dp_id ` set rows - set seen"
    by (auto simp: new child_ids_def)
  have "card (dp_id ` set rows - set (seen @ new)) + (if new = [] then 0 else 1)
      < card (dp_id ` set rows - set seen) + 1"
  proof (cases "new = []")
    case False
    have "dp_id ` set rows - set (seen @ new) = (dp_id ` set rows - set seen) - set new"
      by auto
    moreover obtain x where "x \<in> set new"
      using False by (cases new) auto
    then have "card ((dp_id ` set rows - set seen) - set new) < card (dp_id ` set rows - set seen)"
      using sub by (intro psubset_card_mono) auto
    ultimately show ?thesis
      using False by simp
  qed simp
  then show "((rows, seen @ new, new), (rows, seen, pending))
      \<in> measure (\<lambda>(rows, seen, pending). card (dp_id ` set rows - set seen) + (if pending = [] then 0 else 1))"
    using p by simp
qed simp

declare subtree_loop.simps [simp del]

definition reparent_impact_preview :: "uuid \<Rightarrow> uuid option \<Rightarrow> dept_db \<Rightarrow> app_error + json" where
  "reparent_impact_preview did new_parent db =
    (case dept_get did db of
       Inl e \<Rightarrow> Inl e
     | Inr d \<Rightarrow>
         if dp_code d \<in> set SENTINEL_CODES
         then Inl (mk_error ''forbidden'' False [(''code'', JStr (dp_code d))])
         else let subtree = subtree_loop (dd_departments db) [did] [did]
              in Inr (JObj
                [(''department_id'', JStr (uuid_str did)), (''department_name'', JStr (dp_display_name d)),
                 (''new_parent_id'', case new_parent of None \<Rightarrow> JNull | Some p \<Rightarrow> JStr (uuid_str p)),
                 (''subtree_count'', JInt (int (length subtree))),
                 (''equipment_count'', JInt (int (length (filter (\<lambda>e. e \<in> set subtree) (dd_equipment db)))))]))"

definition dept_delete :: "uuid \<Rightarrow> dept_db \<Rightarrow> (dept_error + unit) \<times> dept_db" where
  "dept_delete did db =
    (case dept_row did (dd_departments db) of
       None \<Rightarrow> (Inl (DeptApp (dept_not_found did)), db)
     | Some d \<Rightarrow>
         if dp_code d \<in> set SENTINEL_CODES
         then (Inl (DeptApp (mk_error ''forbidden'' False [(''code'', JStr (dp_code d))])), db)
         else if 0 < select_children_count did db
         then (Inl (DeptApp (mk_error ''conflict'' False
                 [(''children_count'', JInt (int (select_children_count did db)))])), db)
         else if did \<in> set (dd_equipment db)
         then (Inl (DeptApp (mk_error ''conflict'' False
                 [(''equipment_count'', JInt (int (count_list (dd_equipment db) did)))])), db)
         else if did \<in> set (dd_referenced db) then (Inl DeptIntegrityError, db)
         else (Inr (), db\<lparr>dd_departments := filter (\<lambda>d. dp_id d \<noteq> did) (dd_departments db),
                          dd_members := filter (\<lambda>m. ud_department_id m \<noteq> did) (dd_members db)\<rparr>))"

section \<open>Membership\<close>

definition insert_membership :: "uuid \<Rightarrow> uuid \<Rightarrow> membership list \<Rightarrow> membership list" where
  "insert_membership u did ms =
    (if \<exists>m\<in>set ms. ud_user_id m = u \<and> ud_department_id m = did then ms
     else ms @ [\<lparr>ud_user_id = u, ud_department_id = did, ud_is_primary = False\<rparr>])"

definition set_user_departments ::
    "uuid \<Rightarrow> uuid list \<Rightarrow> uuid option \<Rightarrow> dept_db \<Rightarrow> (dept_error + unit) \<times> dept_db" where
  "set_user_departments u dids prim db =
    (if \<exists>did\<in>set dids. did \<notin> dp_id ` set (dd_departments db) then (Inl DeptIntegrityError, db)
     else let kept = filter (\<lambda>m. \<not> (ud_user_id m = u \<and> ud_department_id m \<notin> set dids)) (dd_members db);
              added = fold (insert_membership u) dids kept
          in (Inr (), db\<lparr>dd_members := sql_update (\<lambda>m. ud_user_id m = u)
                (\<lambda>m. m\<lparr>ud_is_primary := (prim = Some (ud_department_id m))\<rparr>) added\<rparr>))"

definition get_user_departments :: "uuid \<Rightarrow> dept_db \<Rightarrow> (uuid \<times> string \<times> bool) list" where
  "get_user_departments u db =
    (let rows = List.map_filter (\<lambda>m. if ud_user_id m = u
           then map_option (\<lambda>d. (dp_id d, dp_code d, ud_is_primary m)) (dept_row (ud_department_id m) (dd_departments db))
           else None) (dd_members db)
     in filter (\<lambda>(_, _, p). p) rows @ filter (\<lambda>(_, _, p). \<not> p) rows)"

end
