(* ===== verification/Tenancy.thy ===== *)
theory Tenancy imports Departments begin

text \<open>
  Who sees and who manages what: the database function \<open>current_visible_dept_ids()\<close>
  (\<open>migrations/versions/0064_dept_set_notnull.py\<close>), the row policies that use it
  (\<open>0065_dept_rls_switch.py\<close>), and the helpers of \<open>apps/api/dependencies/dept_scope.py\<close> that decide
  about management.

  The function and the management check are recursive SQL queries with \<open>UNION ALL\<close>. Such a query
  ends when its working table becomes empty, and runs for ever if it never does:
  \<open>with_recursive\<close> has the value \<open>None\<close> then.
\<close>

section \<open>Recursive queries\<close>

text \<open>\<open>WITH RECURSIVE q AS (base UNION ALL step q)\<close>, started with the rows of \<open>base\<close>.\<close>

partial_function (option) with_recursive :: "('a list \<Rightarrow> 'a list) \<Rightarrow> 'a list \<Rightarrow> 'a list option" where
  "with_recursive step w =
    (if w = [] then Some []
     else Option.bind (with_recursive step (step w)) (\<lambda>r. Some (w @ r)))"

lemma funpow_Nil:
  fixes step :: "'a list \<Rightarrow> 'a list"
  shows "step [] = [] \<Longrightarrow> (step ^^ i) [] = []"
  by (induction i) auto

lemma with_recursive_ends:
  fixes step :: "'a list \<Rightarrow> 'a list"
  assumes "step [] = []"
  shows "(step ^^ n) w = [] \<Longrightarrow> \<exists>r. with_recursive step w = Some r \<and> set r = (\<Union>i. set ((step ^^ i) w))"
proof (induction n arbitrary: w)
  case 0
  then show ?case
    using funpow_Nil [of step, OF assms] by (simp add: with_recursive.simps)
next
  case (Suc n)
  have "(step ^^ n) (step w) = []"
    using Suc.prems by (simp add: funpow_swap1)
  then obtain r where r: "with_recursive step (step w) = Some r" "set r = (\<Union>i. set ((step ^^ i) (step w)))"
    using Suc.IH by blast
  have un: "(\<Union>i. set ((step ^^ i) w)) = set w \<union> (\<Union>i. set ((step ^^ i) (step w)))"
  proof (rule set_eqI)
    fix x
    have "(\<exists>i. x \<in> set ((step ^^ i) w)) \<longleftrightarrow> x \<in> set ((step ^^ 0) w) \<or> (\<exists>i. x \<in> set ((step ^^ Suc i) w))"
      by (metis not0_implies_Suc)
    then show "x \<in> (\<Union>i. set ((step ^^ i) w)) \<longleftrightarrow> x \<in> set w \<union> (\<Union>i. set ((step ^^ i) (step w)))"
      by (simp add: funpow_swap1)
  qed
  show ?case
  proof (cases "w = []")
    case True
    then show ?thesis
      using funpow_Nil [of step, OF assms] by (simp add: with_recursive.simps)
  next
    case False
    then have "with_recursive step w = Some (w @ r)"
      using r(1) by (subst with_recursive.simps) simp
    then show ?thesis
      using r(2) un by simp
  qed
qed

lemma with_recursive_Some:
  fixes step :: "'a list \<Rightarrow> 'a list"
  assumes "with_recursive step w = Some r"
  shows "\<exists>n. (step ^^ n) w = []"
  using assms
proof (rule with_recursive.raw_induct [rotated])
  fix rec :: "('a list \<Rightarrow> 'a list) \<Rightarrow> 'a list \<Rightarrow> 'a list option" and step w r
  assume IH: "\<And>step w r. rec step w = Some r \<Longrightarrow> \<exists>n. (step ^^ n) w = []"
    and r: "(if w = [] then Some [] else Option.bind (rec step (step w)) (\<lambda>r. Some (w @ r))) = Some r"
  show "\<exists>n. (step ^^ n) w = []"
  proof (cases "w = []")
    case True
    then show ?thesis
      by (intro exI [of _ 0]) simp
  next
    case False
    then obtain r' where "rec step (step w) = Some r'"
      using r by (auto simp: bind_eq_Some_conv)
    then obtain n where "(step ^^ n) (step w) = []"
      using IH by blast
    then show ?thesis
      by (intro exI [of _ "Suc n"]) (simp add: funpow_swap1)
  qed
qed

section \<open>The visible departments\<close>

text \<open>The two recursive terms: joining the working table with \<open>department\<close> downwards and upwards.\<close>

definition children_step :: "department list \<Rightarrow> uuid list \<Rightarrow> uuid list" where
  "children_step rows w = concat (map (\<lambda>s. map dp_id (filter (\<lambda>d. dp_parent_id d = Some s) rows)) w)"

definition parents_step :: "department list \<Rightarrow> uuid list \<Rightarrow> uuid list" where
  "parents_step rows w =
    concat (map (\<lambda>s. List.map_filter (\<lambda>d. if dp_id d = s then dp_parent_id d else None) rows) w)"

definition user_depts :: "uuid \<Rightarrow> dept_db \<Rightarrow> uuid list" where
  "user_depts u db = map ud_department_id (filter (\<lambda>m. ud_user_id m = u) (dd_members db))"

text \<open>\<open>user\<close>: the setting \<open>app.current_user_id\<close>, absent when it is empty.\<close>

definition current_visible_dept_ids :: "uuid option \<Rightarrow> dept_db \<Rightarrow> uuid list option" where
  "current_visible_dept_ids user db =
    (let rows = dd_departments db;
         mine = (case user of None \<Rightarrow> [] | Some u \<Rightarrow> user_depts u db)
     in Option.bind (with_recursive (children_step rows) mine) (\<lambda>down.
        Option.bind (with_recursive (parents_step rows)
          (List.map_filter (\<lambda>d. if dp_id d \<in> set mine then dp_parent_id d else None) rows)) (\<lambda>up.
        Some (remdups (down @ up)))))"

section \<open>Row policies\<close>

text \<open>The columns that the policies of the two classes of tables read.\<close>

record row_scope =
  rs_department_id :: uuid
  rs_visible_departments :: "uuid list"
  rs_visibility_scope :: string
  rs_owner_user_id :: uuid

definition policy_a :: "uuid list \<Rightarrow> uuid option \<Rightarrow> uuid option \<Rightarrow> row_scope \<Rightarrow> bool" where
  "policy_a visible cur_dept cur_user r =
    (let listed = (case cur_dept of None \<Rightarrow> False | Some d \<Rightarrow> d \<in> set (rs_visible_departments r))
     in (rs_visibility_scope r = ''private'' \<and> cur_user = Some (rs_owner_user_id r))
      \<or> (rs_visibility_scope r = ''tree'' \<and> (rs_department_id r \<in> set visible \<or> listed))
      \<or> (rs_visibility_scope r = ''explicit'' \<and> listed)
      \<or> rs_visibility_scope r = ''all'')"

definition policy_b :: "uuid list \<Rightarrow> uuid \<Rightarrow> bool" where
  "policy_b visible dept = (dept \<in> set visible)"

text \<open>The trigger \<open>forbid_reprivatize\<close> on updates of class A rows: does it let the update pass?\<close>

definition reprivatize_passes :: "row_scope \<Rightarrow> row_scope \<Rightarrow> bool" where
  "reprivatize_passes old new =
    (\<not> (rs_visibility_scope old \<noteq> ''private'' \<and> rs_visibility_scope new = ''private'')
     \<and> rs_owner_user_id new = rs_owner_user_id old)"

section \<open>Management\<close>

record current_user =
  cu_user_id :: uuid
  cu_department_id :: "uuid option"
  cu_roles :: "string list"
  cu_is_root_member :: bool

definition should_filter_by_department :: "current_user \<Rightarrow> bool" where
  "should_filter_by_department u =
    (\<not> (''platform_administrator'' \<in> set (cu_roles u) \<or> ''platform_auditor'' \<in> set (cu_roles u)))"

definition get_rls_dept_id :: "current_user \<Rightarrow> uuid option \<Rightarrow> uuid option" where
  "get_rls_dept_id u root_dept =
    (if \<not> should_filter_by_department u \<and> \<not> cu_is_root_member u \<and> root_dept \<noteq> None then root_dept else None)"

definition get_department_filter :: "current_user \<Rightarrow> uuid option" where
  "get_department_filter u = (if \<not> should_filter_by_department u then None else cu_department_id u)"

definition get_visible_department_ids :: "current_user \<Rightarrow> dept_db \<Rightarrow> uuid list option" where
  "get_visible_department_ids u db =
    (if \<not> should_filter_by_department u \<or> cu_department_id u = None then Some []
     else current_visible_dept_ids (Some (cu_user_id u)) db)"

definition can_edit_department :: "current_user \<Rightarrow> uuid option \<Rightarrow> bool" where
  "can_edit_department u target =
    (\<not> should_filter_by_department u \<or> target = None
     \<or> (cu_department_id u \<noteq> None \<and> cu_department_id u = target))"

definition can_reparent_department :: "uuid \<Rightarrow> dept_db \<Rightarrow> bool" where
  "can_reparent_department did db =
    (case dept_row did (dd_departments db) of None \<Rightarrow> True | Some d \<Rightarrow> dp_code d \<notin> set SENTINEL_CODES)"

text \<open>\<open>None\<close>: the query of the descendants does not end.\<close>

definition check_management_permission ::
    "current_user \<Rightarrow> uuid option \<Rightarrow> uuid option \<Rightarrow> dept_db \<Rightarrow> (app_error + unit) option" where
  "check_management_permission u entity_dept entity_owner db =
    (if \<not> should_filter_by_department u then Some (Inr ())
     else case entity_dept of
       None \<Rightarrow> Some (Inr ())
     | Some e \<Rightarrow>
         if entity_owner = Some (cu_user_id u) then Some (Inr ())
         else case cu_department_id u of
           None \<Rightarrow> Some (Inl (mk_error ''forbidden'' False []))
         | Some d \<Rightarrow>
             map_option (\<lambda>tree.
               if e \<in> set tree \<and> e \<noteq> d then Inr ()
               else if e = d \<and> ''lab_director'' \<in> set (cu_roles u) then Inr ()
               else Inl (mk_error ''forbidden'' False []))
             (with_recursive (children_step (dd_departments db))
               (filter (\<lambda>i. i = d) (map dp_id (dd_departments db)))))"

definition check_is_root_member :: "uuid option \<Rightarrow> dept_db \<Rightarrow> bool" where
  "check_is_root_member did db =
    (case did of None \<Rightarrow> False
     | Some i \<Rightarrow> (case dept_row i (dd_departments db) of None \<Rightarrow> False | Some d \<Rightarrow> dp_code d = ''root''))"

section \<open>The tree\<close>

text \<open>\<open>parent_rel\<close>: the pairs of a department and its parent.\<close>

definition parent_rel :: "department list \<Rightarrow> (uuid \<times> uuid) set" where
  "parent_rel rows = {(dp_id d, p) | d p. d \<in> set rows \<and> dp_parent_id d = Some p}"

definition forest :: "department list \<Rightarrow> bool" where
  "forest rows \<longleftrightarrow> acyclic (parent_rel rows)"

definition dept_inv :: "dept_db \<Rightarrow> bool" where
  "dept_inv db \<longleftrightarrow> unique_rows dp_id (dd_departments db) \<and>
    (\<forall>d\<in>set (dd_departments db). parent_exists (dp_parent_id d) (dd_departments db)) \<and>
    (\<forall>m\<in>set (dd_members db). ud_department_id m \<in> dp_id ` set (dd_departments db))"

lemma parent_rel_Cons:
  "parent_rel [] = {}"
  "parent_rel (d # rows) =
    (case dp_parent_id d of None \<Rightarrow> {} | Some p \<Rightarrow> {(dp_id d, p)}) \<union> parent_rel rows"
  by (auto simp: parent_rel_def split: option.splits)

lemma parent_rel_map:
  "(a, b) \<in> parent_rel (map f rows) \<longleftrightarrow> (\<exists>x\<in>set rows. a = dp_id (f x) \<and> dp_parent_id (f x) = Some b)"
  by (auto simp: parent_rel_def)

lemma finite_parent_rel: "finite (parent_rel rows)"
proof (rule finite_subset)
  show "parent_rel rows \<subseteq> (\<lambda>d. (dp_id d, the (dp_parent_id d))) ` set rows"
    by (force simp: parent_rel_def)
qed simp

lemma set_children_step: "set (children_step rows w) = {x. \<exists>s\<in>set w. (x, s) \<in> parent_rel rows}"
  by (auto simp: children_step_def parent_rel_def)

lemma set_parents_step: "set (parents_step rows w) = {p. \<exists>s\<in>set w. (s, p) \<in> parent_rel rows}"
  by (force simp: parents_step_def parent_rel_def in_map_filter split: if_splits)

lemma set_parents_base:
  "set (List.map_filter (\<lambda>d. if dp_id d \<in> set w then dp_parent_id d else None) rows) =
    {p. \<exists>s\<in>set w. (s, p) \<in> parent_rel rows}"
  by (force simp: parent_rel_def in_map_filter split: if_splits)

lemma children_iter:
  "x \<in> set ((children_step rows ^^ n) w) \<longleftrightarrow> (\<exists>s\<in>set w. (x, s) \<in> parent_rel rows ^^ n)"
proof (induction n arbitrary: x)
  case (Suc n)
  have "x \<in> set ((children_step rows ^^ Suc n) w) \<longleftrightarrow>
      (\<exists>y. (x, y) \<in> parent_rel rows \<and> y \<in> set ((children_step rows ^^ n) w))"
    by (auto simp: set_children_step)
  also have "\<dots> \<longleftrightarrow> (\<exists>s\<in>set w. (x, s) \<in> parent_rel rows ^^ Suc n)"
    unfolding Suc.IH by (metis relpow_Suc_D2 relpow_Suc_I2)
  finally show ?case .
qed simp

lemma parents_iter:
  "x \<in> set ((parents_step rows ^^ n) w) \<longleftrightarrow> (\<exists>s\<in>set w. (s, x) \<in> parent_rel rows ^^ n)"
proof (induction n arbitrary: x)
  case (Suc n)
  have "x \<in> set ((parents_step rows ^^ Suc n) w) \<longleftrightarrow>
      (\<exists>y. y \<in> set ((parents_step rows ^^ n) w) \<and> (y, x) \<in> parent_rel rows)"
    by (auto simp: set_parents_step)
  also have "\<dots> \<longleftrightarrow> (\<exists>s\<in>set w. (s, x) \<in> parent_rel rows ^^ Suc n)"
    unfolding Suc.IH by (metis relpow_Suc_E relpow_Suc_I)
  finally show ?case .
qed simp

text \<open>In a forest no path is longer than the number of edges.\<close>

lemma forest_bounded:
  assumes "forest rows"
  shows "parent_rel rows ^^ Suc (card (parent_rel rows)) = {}"
proof (rule ccontr)
  let ?R = "parent_rel rows" and ?n = "card (parent_rel rows)"
  assume "?R ^^ Suc ?n \<noteq> {}"
  then obtain x y where "(x, y) \<in> ?R ^^ Suc ?n"
    by (metis subrelI subset_empty)
  then obtain f where f: "f 0 = x" "f (Suc ?n) = y" "\<forall>i<Suc ?n. (f i, f (Suc i)) \<in> ?R"
    unfolding relpow_fun_conv by blast
  have "\<not> inj_on (\<lambda>i. (f i, f (Suc i))) {..<Suc ?n}"
  proof
    assume "inj_on (\<lambda>i. (f i, f (Suc i))) {..<Suc ?n}"
    then have "card {..<Suc ?n} \<le> card ?R"
      using f(3) finite_parent_rel by (intro card_inj_on_le) auto
    then show False
      by simp
  qed
  then obtain i j where ij: "i < j" "j < Suc ?n" "f i = f j"
    unfolding inj_on_def by (metis Pair_inject lessThan_iff linorder_neqE_nat)
  have path: "i \<le> j \<Longrightarrow> j \<le> Suc ?n \<Longrightarrow> (f i, f j) \<in> ?R\<^sup>*" for i j
  proof (induction j rule: dec_induct)
    case (step k)
    then show ?case
      using f(3) by (meson Suc_le_lessD less_or_eq_imp_le rtrancl.rtrancl_into_rtrancl)
  qed simp
  have "(f i, f (Suc i)) \<in> ?R"
    using f(3) ij(1,2) less_trans by blast
  moreover have "(f (Suc i), f j) \<in> ?R\<^sup>*"
    using path [of "Suc i" j] ij(1,2) by simp
  ultimately have "(f i, f (Suc i)) \<in> ?R" "(f (Suc i), f j) \<in> ?R\<^sup>*"
    by blast+
  then have "(f i, f i) \<in> ?R\<^sup>+"
    using ij(3) by (metis rtrancl_into_trancl2)
  then show False
    using assms by (simp add: forest_def acyclic_def)
qed

lemma relpow_UN_rtrancl: "(\<exists>n. (x, y) \<in> R ^^ n) \<longleftrightarrow> (x, y) \<in> R\<^sup>*"
  by (simp add: rtrancl_is_UN_relpow)

lemma children_ends:
  assumes "forest rows"
  shows "\<exists>r. with_recursive (children_step rows) w = Some r \<and> set r = {x. \<exists>s\<in>set w. (x, s) \<in> (parent_rel rows)\<^sup>*}"
proof -
  have "set ((children_step rows ^^ Suc (card (parent_rel rows))) w) = {}"
    unfolding forest_bounded [OF assms] set_eq_iff children_iter by simp
  then have "\<exists>r. with_recursive (children_step rows) w = Some r \<and>
      set r = (\<Union>i. set ((children_step rows ^^ i) w))"
    by (intro with_recursive_ends [where n = "Suc (card (parent_rel rows))"]) (simp_all add: children_step_def del: funpow.simps)
  moreover have "(\<Union>i. set ((children_step rows ^^ i) w)) = {x. \<exists>s\<in>set w. (x, s) \<in> (parent_rel rows)\<^sup>*}"
    by (auto simp: children_iter relpow_UN_rtrancl [symmetric]) blast+
  ultimately show ?thesis
    by simp
qed

lemma parents_ends:
  assumes "forest rows"
  shows "\<exists>r. with_recursive (parents_step rows) w = Some r \<and> set r = {x. \<exists>s\<in>set w. (s, x) \<in> (parent_rel rows)\<^sup>*}"
proof -
  have "set ((parents_step rows ^^ Suc (card (parent_rel rows))) w) = {}"
    unfolding forest_bounded [OF assms] set_eq_iff parents_iter by simp
  then have "\<exists>r. with_recursive (parents_step rows) w = Some r \<and>
      set r = (\<Union>i. set ((parents_step rows ^^ i) w))"
    by (intro with_recursive_ends [where n = "Suc (card (parent_rel rows))"]) (simp_all add: parents_step_def del: funpow.simps)
  moreover have "(\<Union>i. set ((parents_step rows ^^ i) w)) = {x. \<exists>s\<in>set w. (s, x) \<in> (parent_rel rows)\<^sup>*}"
    by (auto simp: parents_iter relpow_UN_rtrancl [symmetric]) blast+
  ultimately show ?thesis
    by simp
qed

lemma visible_forest:
  assumes "forest (dd_departments db)"
  shows "\<exists>l. current_visible_dept_ids (Some u) db = Some l \<and>
    set l = {e. \<exists>d\<in>set (user_depts u db). (e, d) \<in> (parent_rel (dd_departments db))\<^sup>*
                  \<or> (d, e) \<in> (parent_rel (dd_departments db))\<^sup>*}"
proof -
  let ?rows = "dd_departments db" and ?R = "parent_rel (dd_departments db)" and ?mine = "user_depts u db"
  let ?base = "List.map_filter (\<lambda>d. if dp_id d \<in> set ?mine then dp_parent_id d else None) ?rows"
  obtain dn where dn: "with_recursive (children_step ?rows) ?mine = Some dn"
      "set dn = {x. \<exists>s\<in>set ?mine. (x, s) \<in> ?R\<^sup>*}"
    using children_ends [OF assms] by blast
  obtain up where up: "with_recursive (parents_step ?rows) ?base = Some up"
      "set up = {x. \<exists>s\<in>set ?base. (s, x) \<in> ?R\<^sup>*}"
    using parents_ends [OF assms] by blast
  have "set up = {x. \<exists>d\<in>set ?mine. (d, x) \<in> ?R\<^sup>+}"
    unfolding up(2) set_parents_base by (auto dest: rtrancl_into_trancl2) (metis tranclD)
  then have "set dn \<union> set up = {e. \<exists>d\<in>set ?mine. (e, d) \<in> ?R\<^sup>* \<or> (d, e) \<in> ?R\<^sup>*}"
    unfolding dn(2) by (auto dest: trancl_into_rtrancl simp: rtrancl_eq_or_trancl)
  then show ?thesis
    using dn(1) up(1) by (simp add: current_visible_dept_ids_def)
qed

lemma cycle_iterates:
  assumes "(d, d) \<in> (parent_rel rows)\<^sup>+" and "d \<in> set w"
  shows "(children_step rows ^^ n) w \<noteq> []"
proof -
  let ?R = "parent_rel rows"
  have "\<exists>x. (x, d) \<in> ?R ^^ n \<and> (d, x) \<in> ?R\<^sup>*" for n
  proof (induction n)
    case 0
    then show ?case by auto
  next
    case (Suc n)
    then obtain x where x: "(x, d) \<in> ?R ^^ n" "(d, x) \<in> ?R\<^sup>*"
      by blast
    then have "(d, x) \<in> ?R\<^sup>+"
      using assms(1) by simp
    then obtain y where "(d, y) \<in> ?R\<^sup>*" "(y, x) \<in> ?R"
      by (auto dest: tranclD2)
    then show ?case
      using x(1) by (meson relpow_Suc_I2)
  qed
  then show ?thesis
    using children_iter [where rows = rows and n = n and w = w] assms(2) by (metis empty_iff empty_set)
qed

lemma cycle_diverges:
  assumes "(d, d) \<in> (parent_rel rows)\<^sup>+" and "d \<in> set w"
  shows "with_recursive (children_step rows) w = None"
  using with_recursive_Some [of "children_step rows" w] cycle_iterates [OF assms]
  by (cases "with_recursive (children_step rows) w") auto

section \<open>Moving a department\<close>

lemma dept_values_sel [simp]:
  "dp_id (dept_values now name desc so parent d) = dp_id d"
  "dp_code (dept_values now name desc so parent d) = dp_code d"
  "dp_parent_id (dept_values now name desc so parent d) = parent"
  "dp_status (dept_values now name desc so parent d) = dp_status d"
  "dp_lock_version (dept_values now name desc so parent d) = Suc (dp_lock_version d)"
  by (simp_all add: dept_values_def)

interpretation dept_upd: versioned_update dp_id "dept_values now name desc so parent" dp_lock_version
  by unfold_locales simp_all

lemma dept_updateD:
  assumes "dept_update now did name desc so v parent db = (Inr d', db')"
  obtains d where "sql_find (version_where did v) (dd_departments db) = Some d"
    and "d' = dept_values now name desc so parent d" and "sentinel_passes d d'"
    and "parent_exists parent (dd_departments db)"
    and "db' = db\<lparr>dd_departments :=
      sql_update (version_where did v) (dept_values now name desc so parent) (dd_departments db)\<rparr>"
  using assms
  by (auto simp: dept_update_def dept_update_row_def split: if_splits sum.splits option.splits)

lemma parent_rel_update:
  assumes "unique_rows dp_id rows" and "sql_find (version_where did v) rows = Some d"
  shows "parent_rel (sql_update (version_where did v) (dept_values now name desc so (Some p)) rows) =
    insert (did, p) {e \<in> parent_rel rows. fst e \<noteq> did}"
proof -
  have d: "d \<in> set rows" "version_where did v d"
    using sql_find_SomeD [OF assms(2)] by auto
  have iff: "version_where did v x \<longleftrightarrow> dp_id x = did" if "x \<in> set rows" for x
    using unique_rows_eq [OF assms(1) that d(1)] d(2) by (auto simp: version_where_def)
  let ?f = "\<lambda>x. if dp_id x = did then dept_values now name desc so (Some p) x else x"
  have same: "sql_update (version_where did v) (dept_values now name desc so (Some p)) rows = map ?f rows"
    by (simp add: sql_update_def iff)
  have "(a, b) \<in> parent_rel (map ?f rows) \<longleftrightarrow> (a, b) \<in> insert (did, p) {e \<in> parent_rel rows. fst e \<noteq> did}" for a b
  proof -
    have "(a, b) \<in> parent_rel (map ?f rows) \<longleftrightarrow> (\<exists>x\<in>set rows. a = dp_id (?f x) \<and> dp_parent_id (?f x) = Some b)"
      by (rule parent_rel_map)
    also have "\<dots> \<longleftrightarrow> (\<exists>x\<in>set rows. a = dp_id x \<and> (if dp_id x = did then b = p else dp_parent_id x = Some b))"
      by (intro bex_cong) auto
    also have "\<dots> \<longleftrightarrow> (a, b) \<in> insert (did, p) {e \<in> parent_rel rows. fst e \<noteq> did}"
      using d by (auto simp: parent_rel_def version_where_def)
    finally show ?thesis .
  qed
  then show ?thesis
    unfolding same by auto
qed

lemma rtrancl_cut: "(x, y) \<in> R\<^sup>* \<Longrightarrow> (x, y) \<in> {e \<in> R. fst e \<noteq> y}\<^sup>*"
proof (induction rule: converse_rtrancl_induct)
  case (step x z)
  then show ?case
    by (cases "x = y") (auto intro: converse_rtrancl_into_rtrancl)
qed simp

text \<open>
  C30. Moving a department. \<open>DepartmentService.update\<close> checks that the row exists, that the caller
  has its lock version and that it is not a sentinel, but not where the new parent lies. The tree
  stays a tree exactly when the new parent is not the department itself or below it. Otherwise the
  update is committed all the same, and from then on \<open>current_visible_dept_ids()\<close> does not return
  for any member of the department: every query on a protected table hangs for them.
\<close>

theorem reparent_below_itself:
  assumes "dept_inv db" and "forest (dd_departments db)"
    and "dept_update now did name desc so v (Some p) db = (Inr d', db')"
  shows "(forest (dd_departments db') \<longleftrightarrow> (p, did) \<notin> (parent_rel (dd_departments db))\<^sup>*)
    \<and> ((p, did) \<in> (parent_rel (dd_departments db))\<^sup>* \<and> did \<in> set (user_depts u db) \<longrightarrow>
         current_visible_dept_ids (Some u) db' = None)"
proof -
  let ?R = "parent_rel (dd_departments db)" and ?R' = "parent_rel (dd_departments db')"
  let ?S = "{e \<in> ?R. fst e \<noteq> did}"
  obtain d where d: "sql_find (version_where did v) (dd_departments db) = Some d"
    and db': "db' = db\<lparr>dd_departments :=
      sql_update (version_where did v) (dept_values now name desc so (Some p)) (dd_departments db)\<rparr>"
    by (rule dept_updateD [OF assms(3)]) blast
  have R': "?R' = insert (did, p) ?S"
    using parent_rel_update [OF _ d] assms(1) by (simp add: db' dept_inv_def)
  have S: "(p, did) \<in> ?S\<^sup>* \<longleftrightarrow> (p, did) \<in> ?R\<^sup>*"
    using rtrancl_cut [of p did ?R] rtrancl_mono [of ?S ?R] by blast
  have "acyclic ?S"
    using assms(2) by (rule acyclic_subset [of ?R, unfolded forest_def [symmetric]]) auto
  then have first: "forest (dd_departments db') \<longleftrightarrow> (p, did) \<notin> ?R\<^sup>*"
    by (simp add: forest_def R' acyclic_insert S)
  have "current_visible_dept_ids (Some u) db' = None" if "(p, did) \<in> ?R\<^sup>*" "did \<in> set (user_depts u db)"
  proof -
    have "(p, did) \<in> ?R'\<^sup>*"
      using that(1) S rtrancl_mono [of ?S ?R'] R' by blast
    then have "(did, did) \<in> ?R'\<^sup>+"
      using R' by (metis insertI1 rtrancl_into_trancl2)
    then have "with_recursive (children_step (dd_departments db')) (user_depts u db') = None"
      using that(2) by (intro cycle_diverges) (simp_all add: db' user_depts_def)
    then show ?thesis
      by (simp add: current_visible_dept_ids_def)
  qed
  with first show ?thesis
    by blast
qed

section \<open>A small tree\<close>

definition demo_dept :: "uuid \<Rightarrow> string \<Rightarrow> uuid option \<Rightarrow> department" where
  "demo_dept i c p = \<lparr>dp_id = i, dp_code = c, dp_display_name = c, dp_description = None, dp_status = ''active'',
    dp_sort_order = 0, dp_created_at = 0, dp_updated_at = 0, dp_lock_version = 0, dp_parent_id = p\<rparr>"

definition demo_depts :: dept_db where
  "demo_depts = \<lparr>dd_departments = [demo_dept 1 ''root'' None, demo_dept 2 ''lab'' (Some 1), demo_dept 3 ''sub'' (Some 2)],
    dd_members = [\<lparr>ud_user_id = 8, ud_department_id = 2, ud_is_primary = True\<rparr>],
    dd_equipment = [], dd_referenced = []\<rparr>"

lemma demo_parents: "parent_rel (dd_departments demo_depts) = {(2, 1), (3, 2)}"
  by (auto simp: parent_rel_Cons demo_depts_def demo_dept_def)

lemma demo_user_depts: "user_depts 8 demo_depts = [2]"
  by (simp add: user_depts_def demo_depts_def)

lemma demo_forest: "forest (dd_departments demo_depts)"
proof -
  have "parent_rel (dd_departments demo_depts) \<subseteq> measure (\<lambda>i. 5 - i)"
    by (simp add: demo_parents)
  then show ?thesis
    unfolding forest_def by (rule acyclic_subset [OF wf_acyclic [OF wf_measure]])
qed

lemma demo_inv: "dept_inv demo_depts"
  by (simp add: dept_inv_def demo_depts_def demo_dept_def unique_rows_def parent_exists_def)

lemma reparent_below_itself_witness:
  "\<exists>d' db'. dept_update 5 2 ''lab'' None 0 0 (Some 3) demo_depts = (Inr d', db') \<and>
     \<not> forest (dd_departments db') \<and> current_visible_dept_ids (Some 8) db' = None"
proof -
  obtain d' db' where u: "dept_update 5 2 ''lab'' None 0 0 (Some 3) demo_depts = (Inr d', db')"
    by (simp add: dept_update_def dept_row_def sql_find_def demo_depts_def demo_dept_def SENTINEL_CODES_def
        dept_update_row_def version_where_def sentinel_passes_def parent_exists_def)
  have "(3, 2) \<in> (parent_rel (dd_departments demo_depts))\<^sup>*" "2 \<in> set (user_depts 8 demo_depts)"
    by (auto simp: demo_parents demo_user_depts)
  then show ?thesis
    using reparent_below_itself [OF demo_inv demo_forest u, of 8] u by blast
qed

section \<open>What users see and manage\<close>

text \<open>
  C28. Visibility. While the parents form a tree, \<open>current_visible_dept_ids()\<close> returns, and what it
  returns are the user's departments, all departments below them and all departments above them.
  Without a user it is empty. So visibility is symmetric: a member of one department sees another
  department exactly when the members of that one see the first.
\<close>

theorem visible_departments_exact:
  assumes "forest (dd_departments db)"
  shows "(\<exists>l. current_visible_dept_ids (Some u) db = Some l \<and>
      set l = {e. \<exists>d\<in>set (user_depts u db). (e, d) \<in> (parent_rel (dd_departments db))\<^sup>*
                    \<or> (d, e) \<in> (parent_rel (dd_departments db))\<^sup>*})
    \<and> current_visible_dept_ids None db = Some []
    \<and> (set (user_depts u db) = {d} \<and> set (user_depts w db) = {e} \<longrightarrow>
        (\<exists>l m. current_visible_dept_ids (Some u) db = Some l \<and> current_visible_dept_ids (Some w) db = Some m
           \<and> (e \<in> set l \<longleftrightarrow> d \<in> set m)))"
proof (intro conjI impI)
  show "\<exists>l. current_visible_dept_ids (Some u) db = Some l \<and>
      set l = {e. \<exists>d\<in>set (user_depts u db). (e, d) \<in> (parent_rel (dd_departments db))\<^sup>*
                    \<or> (d, e) \<in> (parent_rel (dd_departments db))\<^sup>*}"
    by (rule visible_forest [OF assms])
  show "current_visible_dept_ids None db = Some []"
    by (simp add: current_visible_dept_ids_def with_recursive.simps map_filter_def)
next
  assume "set (user_depts u db) = {d} \<and> set (user_depts w db) = {e}"
  then show "\<exists>l m. current_visible_dept_ids (Some u) db = Some l \<and> current_visible_dept_ids (Some w) db = Some m
       \<and> (e \<in> set l \<longleftrightarrow> d \<in> set m)"
    using visible_forest [OF assms, of u] visible_forest [OF assms, of w] by auto
qed

lemma visible_departments_exact_witness:
  "\<exists>l. current_visible_dept_ids (Some 8) demo_depts = Some l \<and> 1 \<in> set l \<and> 2 \<in> set l \<and> 3 \<in> set l"
proof -
  have "\<exists>l. current_visible_dept_ids (Some 8) demo_depts = Some l \<and>
      set l = {e. (e, 2) \<in> {(2, 1), (3, 2)}\<^sup>* \<or> (2, e) \<in> {(2, 1), (3, 2)}\<^sup>*}"
    using visible_departments_exact [OF demo_forest, of 8] by (simp add: demo_parents demo_user_depts)
  moreover have "(3, 2) \<in> {(2, 1), (3, 2 :: uuid)}\<^sup>*" "(2, 1) \<in> {(2, 1), (3, 2 :: uuid)}\<^sup>*"
    by auto
  ultimately show ?thesis
    by auto
qed



section \<open>Setting a user's departments\<close>

lemma insert_membership_fold:
  assumes "unique_rows (\<lambda>m. (ud_user_id m, ud_department_id m)) ms"
  shows "unique_rows (\<lambda>m. (ud_user_id m, ud_department_id m)) (fold (insert_membership u) dids ms)
    \<and> set (map ud_department_id (filter (\<lambda>m. ud_user_id m = u) (fold (insert_membership u) dids ms))) =
        set (map ud_department_id (filter (\<lambda>m. ud_user_id m = u) ms)) \<union> set dids
    \<and> filter (\<lambda>m. ud_user_id m \<noteq> u) (fold (insert_membership u) dids ms) = filter (\<lambda>m. ud_user_id m \<noteq> u) ms"
  using assms
proof (induction dids arbitrary: ms)
  case (Cons d dids)
  have u: "unique_rows (\<lambda>m. (ud_user_id m, ud_department_id m)) (insert_membership u d ms)"
    using Cons.prems by (auto simp: insert_membership_def unique_rows_snoc)
  have "set (map ud_department_id (filter (\<lambda>m. ud_user_id m = u) (insert_membership u d ms))) =
      insert d (set (map ud_department_id (filter (\<lambda>m. ud_user_id m = u) ms)))"
  proof (cases "\<exists>m\<in>set ms. ud_user_id m = u \<and> ud_department_id m = d")
    case True
    then have "d \<in> set (map ud_department_id (filter (\<lambda>m. ud_user_id m = u) ms))"
      by auto
    with True show ?thesis
      by (simp add: insert_membership_def insert_absorb)
  next
    case False
    then show ?thesis
      by (simp only: insert_membership_def if_False) simp
  qed
  moreover have "filter (\<lambda>m. ud_user_id m \<noteq> u) (insert_membership u d ms) = filter (\<lambda>m. ud_user_id m \<noteq> u) ms"
    by (simp add: insert_membership_def)
  ultimately show ?case
    using Cons.IH [OF u] by simp
qed simp

text \<open>
  Setting a user's departments. After \<open>set_user_departments\<close> the user belongs to exactly the
  given departments, at most one of them is primary (the requested one, if it is among them), no
  pair of user and department occurs twice, and no other user's membership has changed.
\<close>

theorem set_user_departments_exact:
  assumes "unique_rows (\<lambda>m. (ud_user_id m, ud_department_id m)) (dd_members db)"
    and "set_user_departments u dids prim db = (Inr (), db')"
  shows "set (user_depts u db') = set dids
    \<and> {ud_department_id m | m. m \<in> set (dd_members db') \<and> ud_user_id m = u \<and> ud_is_primary m} =
        {p. prim = Some p \<and> p \<in> set dids}
    \<and> unique_rows (\<lambda>m. (ud_user_id m, ud_department_id m)) (dd_members db')
    \<and> filter (\<lambda>m. ud_user_id m \<noteq> u) (dd_members db') = filter (\<lambda>m. ud_user_id m \<noteq> u) (dd_members db)"
proof -
  let ?key = "\<lambda>m. (ud_user_id m, ud_department_id m)"
  define kept where "kept = filter (\<lambda>m. \<not> (ud_user_id m = u \<and> ud_department_id m \<notin> set dids)) (dd_members db)"
  define added where "added = fold (insert_membership u) dids kept"
  let ?f = "\<lambda>m. m\<lparr>ud_is_primary := (prim = Some (ud_department_id m))\<rparr>"
  have members: "dd_members db' = map (\<lambda>m. if ud_user_id m = u then ?f m else m) added"
    using assms(2) by (auto simp: set_user_departments_def Let_def kept_def added_def sql_update_def split: if_splits)
  have "unique_rows ?key kept"
    using assms(1) by (simp add: kept_def unique_rows_def distinct_map_filter)
  from insert_membership_fold [OF this, of u dids]
  have a: "unique_rows ?key added"
    "set (map ud_department_id (filter (\<lambda>m. ud_user_id m = u) added)) =
      set (map ud_department_id (filter (\<lambda>m. ud_user_id m = u) kept)) \<union> set dids"
    "filter (\<lambda>m. ud_user_id m \<noteq> u) added = filter (\<lambda>m. ud_user_id m \<noteq> u) kept"
    by (simp_all add: added_def)
  have mine: "ud_department_id ` {m \<in> set added. ud_user_id m = u} = set dids"
    using a(2) by (auto simp: kept_def)
  have "filter (\<lambda>m. ud_user_id m = u) (map (\<lambda>m. if ud_user_id m = u then ?f m else m) xs) =
      map ?f (filter (\<lambda>m. ud_user_id m = u) xs)" for xs
    by (induction xs) auto
  then have own: "filter (\<lambda>m. ud_user_id m = u) (dd_members db') = map ?f (filter (\<lambda>m. ud_user_id m = u) added)"
    by (simp add: members)
  have keys: "map ?key (dd_members db') = map ?key added"
    by (simp add: members)
  have "set (user_depts u db') = set dids"
    using mine by (simp add: user_depts_def own image_image)
  moreover have "{ud_department_id m | m. m \<in> set (dd_members db') \<and> ud_user_id m = u \<and> ud_is_primary m} =
      {p. prim = Some p \<and> p \<in> set dids}"
  proof -
    have "{ud_department_id m | m. m \<in> set (dd_members db') \<and> ud_user_id m = u \<and> ud_is_primary m} =
        ud_department_id ` {m \<in> set (filter (\<lambda>m. ud_user_id m = u) (dd_members db')). ud_is_primary m}"
      by auto
    also have "\<dots> = ud_department_id ` {m \<in> ?f ` {m \<in> set added. ud_user_id m = u}. ud_is_primary m}"
      by (simp add: own)
    also have "\<dots> = {p \<in> ud_department_id ` {m \<in> set added. ud_user_id m = u}. prim = Some p}"
      by (force simp: image_iff)
    finally show ?thesis
      unfolding mine by auto
  qed
  moreover have "unique_rows ?key (dd_members db')"
    using a(1) keys by (simp add: unique_rows_def)
  moreover have "filter (\<lambda>m. ud_user_id m \<noteq> u) (dd_members db') = filter (\<lambda>m. ud_user_id m \<noteq> u) (dd_members db)"
  proof -
    have "filter (\<lambda>m. ud_user_id m \<noteq> u) (map (\<lambda>m. if ud_user_id m = u then ?f m else m) xs) =
        filter (\<lambda>m. ud_user_id m \<noteq> u) xs" for xs
      by (induction xs) auto
    moreover have "filter (\<lambda>m. ud_user_id m \<noteq> u) kept = filter (\<lambda>m. ud_user_id m \<noteq> u) (dd_members db)"
      by (auto simp: kept_def intro: filter_cong)
    ultimately show ?thesis
      unfolding members by (metis a(3))
  qed
  ultimately show ?thesis
    by blast
qed

lemma set_user_departments_exact_witness:
  "\<exists>db'. set_user_departments 8 [3, 1] (Some 1) demo_depts = (Inr (), db') \<and> set (user_depts 8 db') = {3, 1}"
proof -
  obtain db' where s: "set_user_departments 8 [3, 1] (Some 1) demo_depts = (Inr (), db')"
    by (simp add: set_user_departments_def demo_depts_def demo_dept_def Let_def)
  have "unique_rows (\<lambda>m. (ud_user_id m, ud_department_id m)) (dd_members demo_depts)"
    by (simp add: unique_rows_def demo_depts_def)
  then show ?thesis
    using set_user_departments_exact [OF _ s] s by auto
qed

end
