(* ===== verification/Sessions.thy ===== *)
theory Sessions imports Tenancy PyJson begin

text \<open>
  What the services over PostgreSQL share: the settings of a session, the rows it sees, the errors a
  transaction can end with, and inserting a row under its row policy and primary key.
\<close>

section \<open>Sessions\<close>

text \<open>
  \<open>ScopedSessionMixin\<close> of \<open>packages/common/database.py\<close>: the department and the user that a service
  works for, the override of the department setting, and the departments that
  \<open>current_visible_dept_ids()\<close> returns for the user.
\<close>

record session_ctx =
  sx_visible :: "uuid list"
  sx_dept :: uuid
  sx_rls_dept :: "uuid option"
  sx_actor :: "uuid option"

definition guc_dept :: "session_ctx \<Rightarrow> uuid" where
  "guc_dept sx = (case sx_rls_dept sx of None \<Rightarrow> sx_dept sx | Some d \<Rightarrow> d)"

definition set_rls_override :: "uuid option \<Rightarrow> session_ctx \<Rightarrow> session_ctx" where
  "set_rls_override d sx = sx\<lparr>sx_rls_dept := d\<rparr>"

text \<open>The rows of a table of class A and of class B that a session sees.\<close>

definition sees_a :: "session_ctx \<Rightarrow> row_scope \<Rightarrow> bool" where
  "sees_a sx r = policy_a (sx_visible sx) (Some (guc_dept sx)) (sx_actor sx) r"

definition sees_b :: "session_ctx \<Rightarrow> uuid \<Rightarrow> bool" where
  "sees_b sx d = policy_b (sx_visible sx) d"

text \<open>
  What a transaction can end with: an \<open>AppError\<close>; a statement that the database refuses, because of
  a constraint or of a row policy; a Python exception (\<open>KeyError\<close>, \<open>ValueError\<close>) on malformed data.
\<close>

datatype data_error = DApp app_error | DDatabase | DPython

definition app_fail :: "string \<Rightarrow> dict \<Rightarrow> data_error" where
  "app_fail c fs = DApp (mk_error c False fs)"

text \<open>\<open>INSERT\<close> into a table of class A or B, or without row policy: the policy and the primary key.\<close>

definition insert_row :: "('r \<Rightarrow> uuid) \<Rightarrow> ('r \<Rightarrow> bool) \<Rightarrow> 'r \<Rightarrow> 'r list \<Rightarrow> data_error + 'r list" where
  "insert_row key visible r rows =
    (if visible r \<and> key r \<notin> key ` set rows then Inr (rows @ [r]) else Inl DDatabase)"

text \<open>The scope columns of a new row, whose owner must not be NULL.\<close>

definition tree_scope :: "session_ctx \<Rightarrow> uuid \<Rightarrow> row_scope" where
  "tree_scope sx owner =
    \<lparr>rs_department_id = sx_dept sx, rs_visible_departments = [], rs_visibility_scope = ''tree'',
     rs_owner_user_id = owner\<rparr>"

text \<open>\<open>ORDER BY n DESC LIMIT 1\<close>.\<close>

definition latest_by :: "('r \<Rightarrow> nat) \<Rightarrow> 'r list \<Rightarrow> 'r option" where
  "latest_by n rows = (case sort_key (\<lambda>r. - int (n r)) rows of [] \<Rightarrow> None | r # _ \<Rightarrow> Some r)"

text \<open>\<open>ORDER BY created_at DESC LIMIT 1\<close>, and without the limit.\<close>

definition newest_first :: "('r \<Rightarrow> timestamp) \<Rightarrow> 'r list \<Rightarrow> 'r list" where
  "newest_first t rows = sort_key (\<lambda>r. - t r) rows"

definition newest_by :: "('r \<Rightarrow> timestamp) \<Rightarrow> 'r list \<Rightarrow> 'r option" where
  "newest_by t rows = (case newest_first t rows of [] \<Rightarrow> None | r # _ \<Rightarrow> Some r)"

section \<open>Numbering\<close>

text \<open>
  Rows that are numbered within their owner, as the versions of a flow are: \<open>max + 1\<close> is the next
  number, and \<open>numbered_rows\<close> says that every owner's rows carry 1, 2, ... in the order of the table.
\<close>

definition rows_of :: "('r \<Rightarrow> 'k) \<Rightarrow> 'k \<Rightarrow> 'r list \<Rightarrow> 'r list" where
  "rows_of own k rows = filter (\<lambda>r. own r = k) rows"

definition max_number :: "('r \<Rightarrow> 'k) \<Rightarrow> ('r \<Rightarrow> nat) \<Rightarrow> 'k \<Rightarrow> 'r list \<Rightarrow> nat" where
  "max_number own num k rows = Max (set (0 # map num (rows_of own k rows)))"

definition numbered_rows :: "('r \<Rightarrow> 'k) \<Rightarrow> ('r \<Rightarrow> nat) \<Rightarrow> 'r list \<Rightarrow> bool" where
  "numbered_rows own num rows \<longleftrightarrow>
    (\<forall>k. map num (rows_of own k rows) = [1..<Suc (length (rows_of own k rows))])"

lemma rows_of_simps [simp]:
  "rows_of own k [] = []"
  "rows_of own k (r # rs) = (if own r = k then r # rows_of own k rs else rows_of own k rs)"
  "rows_of own k (rs @ rs') = rows_of own k rs @ rows_of own k rs'"
  "set (rows_of own k rs) = {r \<in> set rs. own r = k}"
  by (simp_all add: rows_of_def)

lemma numbered_Nil [simp]: "numbered_rows own num []"
  by (simp add: numbered_rows_def)

lemma max_numbered:
  assumes "numbered_rows own num rows"
  shows "max_number own num k rows = length (rows_of own k rows)"
proof -
  have "set (map num (rows_of own k rows)) = {1..length (rows_of own k rows)}"
    using assms unfolding numbered_rows_def by auto
  then have "set (0 # map num (rows_of own k rows)) = {0..length (rows_of own k rows)}"
    by auto
  then show ?thesis
    unfolding max_number_def by (simp only:) (rule Max_eqI, auto)
qed

lemma numbered_rows_snoc:
  assumes "numbered_rows own num rows" and "num r = max_number own num (own r) rows + 1"
  shows "numbered_rows own num (rows @ [r])"
  using assms max_numbered [OF assms(1), of "own r"] by (auto simp: numbered_rows_def)

lemma numbered_drop_owner:
  "numbered_rows own num rows \<Longrightarrow> numbered_rows own num (filter (\<lambda>r. own r \<noteq> k) rows)"
proof -
  assume n: "numbered_rows own num rows"
  have "rows_of own j (filter (\<lambda>r. own r \<noteq> k) rows) = (if j = k then [] else rows_of own j rows)" for j
    by (induction rows) auto
  then show ?thesis
    using n by (simp add: numbered_rows_def del: upt_Suc)
qed

lemma numbered_map:
  assumes "numbered_rows own num rows" and "\<And>r. own (f r) = own r" and "\<And>r. num (f r) = num r"
  shows "numbered_rows own num (map f rows)"
proof -
  have "rows_of own k (map f rows) = map f (rows_of own k rows)" for k
    by (simp add: rows_of_def filter_map comp_def assms(2))
  then show ?thesis
    using assms(1) by (simp add: numbered_rows_def comp_def assms(3))
qed

lemma numbered_at:
  assumes "numbered_rows own num rows" and "r \<in> set rows"
  shows "1 \<le> num r" "num r \<le> length (rows_of own (own r) rows)"
proof -
  have "num r \<in> set (map num (rows_of own (own r) rows))"
    using assms(2) by auto
  then show "1 \<le> num r" "num r \<le> length (rows_of own (own r) rows)"
    using assms(1) unfolding numbered_rows_def by auto
qed

end
