(* ===== verification/ComponentRegistry.thy ===== *)
theory ComponentRegistry imports Sessions begin

text \<open>
  The registry of the components that flows are made of: manifests and their validation
  (\<open>packages/components/manifest.py\<close>, \<open>flow/manifest_utils.py\<close>), publication, lookup, activation and
  removal of versions (\<open>packages/components/registry/registry.py\<close>). The YAML parser, the JSON Schema
  library and SHA-256 are parameters. A component is a row of class A, a version has no row policy.
\<close>

section \<open>Manifests\<close>

record port_spec =
  po_name :: string
  po_data_type :: string
  po_required :: bool
  po_schema :: "json option"

record component_manifest =
  mn_name :: string
  mn_display_name :: string
  mn_version :: string
  mn_kind :: string
  mn_runtime :: string
  mn_inputs :: "port_spec list"
  mn_outputs :: "port_spec list"
  mn_parameters :: dict
  mn_dependencies :: "string list"
  mn_raw_yaml :: string
  mn_sha256 :: string

text \<open>
  Reading the mapping that the YAML parser delivers: \<open>None\<close> is the \<open>KeyError\<close> of a missing key. The
  code takes over whatever value it finds, the model only values of the declared type.
\<close>

fun json_bool :: "json option \<Rightarrow> bool option" where
  "json_bool (Some (JBool b)) = Some b"
| "json_bool _ = None"

definition get_or :: "(json option \<Rightarrow> 'a option) \<Rightarrow> 'a \<Rightarrow> dict \<Rightarrow> string \<Rightarrow> 'a option" where
  "get_or read dflt d k = (case dict_get d k of None \<Rightarrow> Some dflt | Some v \<Rightarrow> read (Some v))"

definition parse_port :: "json \<Rightarrow> port_spec option" where
  "parse_port item =
    Option.bind (json_obj item) (\<lambda>d.
    Option.bind (json_str (dict_get d ''name'')) (\<lambda>n.
    Option.bind (json_str (dict_get d ''data_type'')) (\<lambda>t.
    Option.bind (get_or json_bool True d ''required'') (\<lambda>r.
      Some \<lparr>po_name = n, po_data_type = t, po_required = r,
        po_schema = (case dict_get d ''schema'' of Some JNull \<Rightarrow> None | v \<Rightarrow> v)\<rparr>))))"

fun parse_port_specs :: "json option \<Rightarrow> port_spec list option" where
  "parse_port_specs None = Some []"
| "parse_port_specs (Some JNull) = Some []"
| "parse_port_specs (Some (JArr items)) = all_some (map parse_port items)"
| "parse_port_specs (Some _) = None"

fun parse_dependencies :: "json option \<Rightarrow> string list option" where
  "parse_dependencies None = Some []"
| "parse_dependencies (Some (JArr vs)) = all_some (map (\<lambda>v. json_str (Some v)) vs)"
| "parse_dependencies (Some v) = (if py_truthy v then None else Some [])"

text \<open>\<open>raw.get("parameters", {}) or {}\<close>.\<close>

fun parse_parameters :: "json option \<Rightarrow> dict option" where
  "parse_parameters None = Some []"
| "parse_parameters (Some (JObj d)) = Some d"
| "parse_parameters (Some v) = (if py_truthy v then None else Some [])"

definition build_manifest :: "string \<Rightarrow> string \<Rightarrow> string \<Rightarrow> dict \<Rightarrow> component_manifest option" where
  "build_manifest dflt_version raw_yaml sha raw =
    Option.bind (parse_port_specs (dict_get raw ''inputs'')) (\<lambda>ins.
    Option.bind (parse_port_specs (dict_get raw ''outputs'')) (\<lambda>outs.
    Option.bind (parse_dependencies (dict_get raw ''dependencies'')) (\<lambda>deps.
    Option.bind (parse_parameters (dict_get raw ''parameters'')) (\<lambda>ps.
    Option.bind (json_str (dict_get raw ''name'')) (\<lambda>n.
    Option.bind (get_or json_str [] raw ''display_name'') (\<lambda>dn.
    Option.bind (get_or json_str dflt_version raw ''version'') (\<lambda>v.
    Option.bind (json_str (dict_get raw ''kind'')) (\<lambda>k.
    Option.bind (get_or json_str ''python'' raw ''runtime'') (\<lambda>rt.
      Some \<lparr>mn_name = n, mn_display_name = dn, mn_version = v, mn_kind = k, mn_runtime = rt,
        mn_inputs = ins, mn_outputs = outs, mn_parameters = ps, mn_dependencies = deps,
        mn_raw_yaml = raw_yaml, mn_sha256 = sha\<rparr>)))))))))"

definition invalid_manifest :: "dict \<Rightarrow> data_error" where
  "invalid_manifest fs = app_fail ''invalid_manifest'' fs"

text \<open>
  \<open>ManifestValidator.validate\<close>. \<open>yaml\<close> is \<open>yaml.safe_load\<close> (\<open>None\<close> for a \<open>YAMLError\<close>), \<open>violation\<close> the
  path of the first violation that the JSON Schema library finds, \<open>sha\<close> the digest of the text.
\<close>

definition validate_manifest ::
    "(string \<Rightarrow> json option) \<Rightarrow> (json \<Rightarrow> json list option) \<Rightarrow> (string \<Rightarrow> string) \<Rightarrow> string
      \<Rightarrow> data_error + component_manifest" where
  "validate_manifest yaml violation sha text =
    (case yaml text of
       Some (JObj raw) \<Rightarrow>
         (case violation (JObj raw) of
            Some path \<Rightarrow> Inl (invalid_manifest [(''path'', JArr path)])
          | None \<Rightarrow>
              (case build_manifest ''0.0.0'' text (sha text) raw of
                 None \<Rightarrow> Inl DPython
               | Some m \<Rightarrow> Inr m))
     | _ \<Rightarrow> Inl (invalid_manifest []))"

section \<open>Rows\<close>

record component =
  co_id :: uuid
  co_name :: string
  co_kind :: string
  co_status :: string
  co_lock_version :: nat
  co_active_version_id :: "uuid option"
  co_updated_at :: timestamp
  co_scope :: row_scope

record version_row =
  cv_id :: uuid
  cv_component_id :: uuid
  cv_version :: string
  cv_manifest_yaml :: string
  cv_manifest_sha256 :: string
  cv_object_code :: "string option"
  cv_equipment_id :: "uuid option"
  cv_runtime :: string
  cv_inputs :: "port_spec list"
  cv_outputs :: "port_spec list"
  cv_status :: string
  cv_published_at :: timestamp
  cv_created_at :: timestamp

record registry =
  rg_components :: "component list"
  rg_versions :: "version_row list"

definition sees_component :: "session_ctx \<Rightarrow> component \<Rightarrow> bool" where
  "sees_component sx c = sees_a sx (co_scope c)"

text \<open>\<open>build_manifest_from_version\<close>: the stored text is parsed again, without validation.\<close>

definition build_manifest_from_version ::
    "(string \<Rightarrow> json option) \<Rightarrow> version_row \<Rightarrow> data_error + component_manifest" where
  "build_manifest_from_version yaml v =
    (case yaml (cv_manifest_yaml v) of
       Some (JObj raw) \<Rightarrow>
         (case build_manifest ''auto'' (cv_manifest_yaml v) (cv_manifest_sha256 v) raw of
            None \<Rightarrow> Inl DPython
          | Some m \<Rightarrow> Inr m)
     | _ \<Rightarrow> Inl (invalid_manifest []))"

section \<open>The name in the manifest text\<close>

text \<open>
  \<open>re.sub(r"^name:\s*\S+.*", "name: <name>", text, count=1, flags=MULTILINE)\<close>. At the start of a line,
  \<open>name_line\<close> matches \<open>name:\<close>, white space (line ends included) and the rest of the line in which
  the first other character stands, and returns what follows the match.
\<close>

definition name_line :: "string \<Rightarrow> string option" where
  "name_line s =
    (if starts_with ''name:'' s
     then (case dropWhile is_py_space (drop 5 s) of
             [] \<Rightarrow> None
           | c # t \<Rightarrow> Some (dropWhile (\<lambda>d. d \<noteq> CHR 0x0A) (c # t)))
     else None)"

function replace_name :: "string \<Rightarrow> string \<Rightarrow> string" where
  "replace_name name s =
    (case name_line s of
       Some rest \<Rightarrow> ''name: '' @ name @ rest
     | None \<Rightarrow>
         (case dropWhile (\<lambda>d. d \<noteq> CHR 0x0A) s of
            [] \<Rightarrow> s
          | nl # rest \<Rightarrow> takeWhile (\<lambda>d. d \<noteq> CHR 0x0A) s @ nl # replace_name name rest))"
  by pat_completeness auto
termination
proof (relation "measure (\<lambda>(name, s). length s)")
  fix s :: string and nl rest
  assume "dropWhile (\<lambda>d. d \<noteq> CHR 0x0A) s = nl # rest"
  then have "length rest < length (dropWhile (\<lambda>d. d \<noteq> CHR 0x0A) s)"
    by simp
  also have "\<dots> \<le> length s"
    by (rule length_dropWhile_le)
  finally show "((name, rest), name, s) \<in> measure (\<lambda>(name, s). length s)" for name :: string
    by simp
qed simp

declare replace_name.simps [simp del]

section \<open>Versions\<close>

text \<open>
  The text of a version is \<open>a.b.c\<close>; the next one raises the last number, whose \<open>int()\<close> may raise
  \<open>ValueError\<close> (\<open>None\<close>).
\<close>

definition version_name :: "string \<Rightarrow> string \<Rightarrow> int \<Rightarrow> string" where
  "version_name a b n = a @ ''.'' @ b @ ''.'' @ py_str_int n"

definition bump_version :: "string \<Rightarrow> string option" where
  "bump_version v =
    (case py_split CHR ''.'' v of
       [a, b, c] \<Rightarrow> map_option (\<lambda>n. version_name a b (n + 1)) (py_int c)
     | _ \<Rightarrow> Some ''1.0.0'')"

definition versions_of_component :: "uuid \<Rightarrow> registry \<Rightarrow> version_row list" where
  "versions_of_component cid db = rows_of cv_component_id cid (rg_versions db)"

definition auto_version :: "uuid \<Rightarrow> registry \<Rightarrow> string option" where
  "auto_version cid db =
    (case newest_by cv_created_at (versions_of_component cid db) of
       None \<Rightarrow> Some ''1.0.0''
     | Some v \<Rightarrow> bump_version (cv_version v))"

section \<open>\<open>publish\<close>\<close>

text \<open>
  What a publication draws: the start of its transaction (\<open>created_at\<close>), the service's clock, the
  identifiers and the generated code of a new component.
\<close>

record publication =
  pb_tx_time :: timestamp
  pb_now :: timestamp
  pb_component_id :: uuid
  pb_version_id :: uuid
  pb_code :: string

definition find_component :: "session_ctx \<Rightarrow> string \<Rightarrow> registry \<Rightarrow> component option" where
  "find_component sx name db =
    sql_find (\<lambda>c. sees_component sx c \<and> co_name c = name) (rg_components db)"

definition write_component ::
    "session_ctx \<Rightarrow> (component \<Rightarrow> component) \<Rightarrow> component \<Rightarrow> registry \<Rightarrow> data_error + component \<times> registry" where
  "write_component sx f c db =
    (if sees_component sx (f c)
     then Inr (f c, db\<lparr>rg_components := sql_update (\<lambda>x. co_id x = co_id c) (\<lambda>_. f c) (rg_components db)\<rparr>)
     else Inl DDatabase)"

definition new_component ::
    "session_ctx \<Rightarrow> uuid \<Rightarrow> publication \<Rightarrow> string \<Rightarrow> uuid option \<Rightarrow> uuid list option \<Rightarrow> component" where
  "new_component sx actor p kind dept shown =
    \<lparr>co_id = pb_component_id p, co_name = pb_code p, co_kind = kind, co_status = ''draft'',
     co_lock_version = 0, co_active_version_id = None, co_updated_at = pb_tx_time p,
     co_scope = \<lparr>rs_department_id = (case dept of None \<Rightarrow> sx_dept sx | Some d \<Rightarrow> d),
       rs_visible_departments = (case shown of None \<Rightarrow> [] | Some ds \<Rightarrow> ds),
       rs_visibility_scope = ''tree'', rs_owner_user_id = actor\<rparr>\<rparr>"

definition move_component :: "uuid option \<Rightarrow> uuid list option \<Rightarrow> component \<Rightarrow> component" where
  "move_component dept shown c =
    c\<lparr>co_scope := (co_scope c)
      \<lparr>rs_department_id := (case dept of None \<Rightarrow> rs_department_id (co_scope c) | Some d \<Rightarrow> d),
       rs_visible_departments := (case shown of None \<Rightarrow> rs_visible_departments (co_scope c) | Some ds \<Rightarrow> ds)\<rparr>\<rparr>"

definition publish_target ::
    "session_ctx \<Rightarrow> uuid \<Rightarrow> publication \<Rightarrow> component_manifest \<Rightarrow> uuid option \<Rightarrow> uuid list option \<Rightarrow> registry
      \<Rightarrow> data_error + component \<times> registry" where
  "publish_target sx actor p m dept shown db =
    (case (if starts_with ''iface_ffff'' (mn_name m) then None else find_component sx (mn_name m) db) of
       None \<Rightarrow>
         (let c = new_component sx actor p (mn_kind m) dept shown
          in case insert_row co_id (sees_component sx) c (rg_components db) of
               Inl e \<Rightarrow> Inl e
             | Inr rows \<Rightarrow> Inr (c, db\<lparr>rg_components := rows\<rparr>))
     | Some c \<Rightarrow>
         if co_kind c \<noteq> mn_kind m then Inl (app_fail ''conflict'' [(''name'', JStr (mn_name m))])
         else write_component sx (move_component dept shown) c db)"

definition new_version ::
    "publication \<Rightarrow> component \<Rightarrow> string \<Rightarrow> component_manifest \<Rightarrow> string option \<Rightarrow> uuid option \<Rightarrow> version_row" where
  "new_version p c v m ocode equipment =
    \<lparr>cv_id = pb_version_id p, cv_component_id = co_id c, cv_version = v,
     cv_manifest_yaml = replace_name (co_name c) (mn_raw_yaml m), cv_manifest_sha256 = mn_sha256 m,
     cv_object_code = ocode, cv_equipment_id = equipment, cv_runtime = mn_runtime m,
     cv_inputs = mn_inputs m, cv_outputs = mn_outputs m, cv_status = ''published'',
     cv_published_at = pb_now p, cv_created_at = pb_tx_time p\<rparr>"

definition activate_values :: "timestamp \<Rightarrow> uuid \<Rightarrow> component \<Rightarrow> component" where
  "activate_values now vid c =
    c\<lparr>co_active_version_id := Some vid, co_status := ''published'', co_updated_at := now,
      co_lock_version := co_lock_version c + 1\<rparr>"

definition has_version :: "uuid \<Rightarrow> string \<Rightarrow> version_row \<Rightarrow> bool" where
  "has_version cid v r = (cv_component_id r = cid \<and> cv_version r = v)"

text \<open>Inserting the version and pointing the component to it, in one transaction.\<close>

definition publish_insert ::
    "session_ctx \<Rightarrow> publication \<Rightarrow> component \<Rightarrow> version_row \<Rightarrow> registry \<Rightarrow> data_error + version_row \<times> registry" where
  "publish_insert sx p c v db =
    (if (\<exists>r\<in>set (rg_versions db). has_version (co_id c) (cv_version v) r) then Inl DDatabase
     else case insert_row cv_id (\<lambda>_. True) v (rg_versions db) of
       Inl e \<Rightarrow> Inl e
     | Inr rows \<Rightarrow>
         (case write_component sx (activate_values (pb_now p) (cv_id v)) c (db\<lparr>rg_versions := rows\<rparr>) of
            Inl e \<Rightarrow> Inl e
          | Inr (_, db') \<Rightarrow> Inr (v, db')))"

definition publish ::
    "session_ctx \<Rightarrow> uuid \<Rightarrow> publication \<Rightarrow> component_manifest \<Rightarrow> string option \<Rightarrow> uuid option \<Rightarrow> uuid option
      \<Rightarrow> uuid list option \<Rightarrow> registry \<Rightarrow> data_error + version_row \<times> registry" where
  "publish sx actor p m ocode equipment dept shown db =
    (case publish_target sx actor p m dept shown db of
       Inl e \<Rightarrow> Inl e
     | Inr (c, db1) \<Rightarrow>
         (case auto_version (co_id c) db1 of
            None \<Rightarrow> Inl DPython
          | Some v \<Rightarrow>
              (case sql_find (has_version (co_id c) v) (rg_versions db1) of
                 None \<Rightarrow> publish_insert sx p c (new_version p c v m ocode equipment) db1
               | Some r \<Rightarrow>
                   if cv_manifest_sha256 r = mn_sha256 m then Inr (r, db1)
                   else (case bump_version v of
                           None \<Rightarrow> Inl DPython
                         | Some v' \<Rightarrow> publish_insert sx p c (new_version p c v' m ocode equipment) db1))))"

section \<open>Lookup\<close>

definition component_missing :: "string \<Rightarrow> data_error" where
  "component_missing name = app_fail ''not_found'' [(''name'', JStr name)]"

definition get_version :: "session_ctx \<Rightarrow> string \<Rightarrow> string \<Rightarrow> registry \<Rightarrow> data_error + version_row" where
  "get_version sx name version db =
    (case find_component sx name db of
       None \<Rightarrow> Inl (component_missing name)
     | Some c \<Rightarrow>
         (case sql_find (has_version (co_id c) version) (rg_versions db) of
            None \<Rightarrow> Inl (app_fail ''not_found'' [(''name'', JStr name), (''version'', JStr version)])
          | Some v \<Rightarrow> Inr v))"

definition published_versions :: "uuid \<Rightarrow> registry \<Rightarrow> version_row list" where
  "published_versions cid db = filter (\<lambda>v. cv_status v = ''published'') (versions_of_component cid db)"

definition active_version :: "component \<Rightarrow> registry \<Rightarrow> version_row option" where
  "active_version c db =
    (case co_active_version_id c of
       None \<Rightarrow> None
     | Some vid \<Rightarrow> sql_find (\<lambda>v. cv_id v = vid \<and> cv_status v = ''published'') (rg_versions db))"

definition get_latest :: "session_ctx \<Rightarrow> string \<Rightarrow> registry \<Rightarrow> data_error + version_row" where
  "get_latest sx name db =
    (case find_component sx name db of
       None \<Rightarrow> Inl (component_missing name)
     | Some c \<Rightarrow>
         (case active_version c db of
            Some v \<Rightarrow> Inr v
          | None \<Rightarrow>
              (case newest_by cv_created_at (published_versions (co_id c) db) of
                 None \<Rightarrow> Inl (component_missing name)
               | Some v \<Rightarrow> Inr v)))"

text \<open>The joins of the two tables, in the order of the versions.\<close>

definition component_of :: "session_ctx \<Rightarrow> registry \<Rightarrow> version_row \<Rightarrow> component option" where
  "component_of sx db v = sql_find (\<lambda>c. co_id c = cv_component_id v \<and> sees_component sx c) (rg_components db)"

definition get_version_by_id :: "session_ctx \<Rightarrow> uuid \<Rightarrow> registry \<Rightarrow> data_error + component \<times> version_row" where
  "get_version_by_id sx vid db =
    (case sql_find (\<lambda>v. cv_id v = vid \<and> component_of sx db v \<noteq> None) (rg_versions db) of
       None \<Rightarrow> Inl (app_fail ''not_found'' [(''version_id'', JStr (uuid_str vid))])
     | Some v \<Rightarrow> (case component_of sx db v of None \<Rightarrow> Inl DPython | Some c \<Rightarrow> Inr (c, v)))"

definition get_by_component_id :: "session_ctx \<Rightarrow> uuid \<Rightarrow> registry \<Rightarrow> data_error + component \<times> version_row" where
  "get_by_component_id sx cid db =
    (case newest_by cv_created_at
       (filter (\<lambda>v. component_of sx db v \<noteq> None) (versions_of_component cid db)) of
       None \<Rightarrow> Inl (app_fail ''not_found'' [(''component_id'', JStr (uuid_str cid))])
     | Some v \<Rightarrow> (case component_of sx db v of None \<Rightarrow> Inl DPython | Some c \<Rightarrow> Inr (c, v)))"

definition listed_version :: "component \<Rightarrow> registry \<Rightarrow> version_row option" where
  "listed_version c db =
    (case co_active_version_id c of
       None \<Rightarrow> None
     | Some vid \<Rightarrow> sql_find (\<lambda>v. cv_id v = vid) (rg_versions db))"

definition list_all_components ::
    "session_ctx \<Rightarrow> string option \<Rightarrow> string option \<Rightarrow> registry \<Rightarrow> (component \<times> version_row) list" where
  "list_all_components sx kind status db =
    (let shown = filter (sees_component sx) (rg_components db);
         active = List.map_filter (\<lambda>c. map_option (Pair c) (listed_version c db)) shown;
         rest = List.map_filter (\<lambda>c. map_option (Pair c) (newest_by cv_created_at (published_versions (co_id c) db)))
           (filter (\<lambda>c. listed_version c db = None) shown)
     in sort_key (\<lambda>(c, v). co_name c)
          (filter (\<lambda>(c, v). case status of None \<Rightarrow> True | Some s \<Rightarrow> co_status c = s)
            (filter (\<lambda>(c, v). case kind of None \<Rightarrow> True | Some k \<Rightarrow> co_kind c = k) (active @ rest))))"

definition list_versions :: "uuid \<Rightarrow> registry \<Rightarrow> version_row list" where
  "list_versions cid db = newest_first cv_created_at (versions_of_component cid db)"

section \<open>Status, activation, removal\<close>

definition status_values :: "timestamp \<Rightarrow> string \<Rightarrow> component \<Rightarrow> component" where
  "status_values now st c =
    c\<lparr>co_status := st, co_updated_at := now, co_lock_version := co_lock_version c + 1\<rparr>"

definition set_component_status ::
    "session_ctx \<Rightarrow> timestamp \<Rightarrow> string \<Rightarrow> string \<Rightarrow> registry \<Rightarrow> data_error + component \<times> registry" where
  "set_component_status sx now st name db =
    (case find_component sx name db of
       None \<Rightarrow> Inl (component_missing name)
     | Some c \<Rightarrow> write_component sx (status_values now st) c db)"

definition deprecate_component ::
    "session_ctx \<Rightarrow> timestamp \<Rightarrow> string \<Rightarrow> registry \<Rightarrow> data_error + component \<times> registry" where
  "deprecate_component sx now name db = set_component_status sx now ''deprecated'' name db"

definition restore_component ::
    "session_ctx \<Rightarrow> timestamp \<Rightarrow> string \<Rightarrow> registry \<Rightarrow> data_error + component \<times> registry" where
  "restore_component sx now name db = set_component_status sx now ''published'' name db"

definition activate_version ::
    "session_ctx \<Rightarrow> timestamp \<Rightarrow> uuid \<Rightarrow> registry \<Rightarrow> data_error + version_row \<times> registry" where
  "activate_version sx now vid db =
    (case get_version_by_id sx vid db of
       Inl _ \<Rightarrow> Inl (app_fail ''not_found'' [])
     | Inr (c, v) \<Rightarrow>
         (case write_component sx (activate_values now vid) c db of
            Inl e \<Rightarrow> Inl e
          | Inr (_, db') \<Rightarrow> Inr (v, db')))"

text \<open>
  \<open>delete_component\<close>. The versions go first, under the setting that lifts the trigger against
  deletion; the foreign key of another component's pointer would stop it.
\<close>

definition delete_component :: "session_ctx \<Rightarrow> uuid \<Rightarrow> registry \<Rightarrow> data_error + registry" where
  "delete_component sx cid db =
    (case sql_find (\<lambda>c. co_id c = cid \<and> sees_component sx c) (rg_components db) of
       None \<Rightarrow> Inl (app_fail ''not_found'' [(''component_id'', JStr (uuid_str cid))])
     | Some _ \<Rightarrow>
         if (\<exists>c\<in>set (rg_components db). co_id c \<noteq> cid \<and>
               (\<exists>v\<in>set (versions_of_component cid db). co_active_version_id c = Some (cv_id v)))
         then Inl DDatabase
         else Inr (db\<lparr>rg_versions := filter (\<lambda>v. cv_component_id v \<noteq> cid) (rg_versions db),
                      rg_components := filter (\<lambda>c. co_id c \<noteq> cid) (rg_components db)\<rparr>))"

definition update_component_fields ::
    "session_ctx \<Rightarrow> uuid \<Rightarrow> uuid option \<Rightarrow> uuid list option \<Rightarrow> registry \<Rightarrow> data_error + registry" where
  "update_component_fields sx cid dept shown db =
    (case sql_find (\<lambda>c. co_id c = cid \<and> sees_component sx c) (rg_components db) of
       None \<Rightarrow> Inr db
     | Some c \<Rightarrow>
         (case write_component sx (move_component dept shown) c db of
            Inl e \<Rightarrow> Inl e
          | Inr (_, db') \<Rightarrow> Inr db'))"

end
