(* ===== verification/RegistrySystem.thy ===== *)
theory RegistrySystem imports ComponentRegistry "HOL-Library.Multiset" begin

text \<open>
  Any sequence of transactions on the component registry, each started after the one before has
  committed, its invariant, and what publication and activation promise to the flow engine.
\<close>

section \<open>Steps\<close>

definition empty_registry :: registry where
  "empty_registry = \<lparr>rg_components = [], rg_versions = []\<rparr>"

inductive reg_step :: "timestamp \<times> registry \<Rightarrow> timestamp \<times> registry \<Rightarrow> bool" where
  publishes: "t < pb_tx_time p \<Longrightarrow> publish sx actor p m ocode eq dept shown db = Inr (v, db') \<Longrightarrow>
    reg_step (t, db) (pb_tx_time p, db')"
| sets_status: "set_component_status sx now st name db = Inr (c, db') \<Longrightarrow>
    st \<in> {''deprecated'', ''published''} \<Longrightarrow> reg_step (t, db) (t, db')"
| activates: "activate_version sx now vid db = Inr (v, db') \<Longrightarrow> reg_step (t, db) (t, db')"
| deletes: "delete_component sx cid db = Inr db' \<Longrightarrow> reg_step (t, db) (t, db')"
| moves: "update_component_fields sx cid dept shown db = Inr db' \<Longrightarrow> reg_step (t, db) (t, db')"

definition reachable_registry :: "timestamp \<times> registry \<Rightarrow> bool" where
  "reachable_registry s \<longleftrightarrow> (\<exists>t0. reg_step\<^sup>*\<^sup>* (t0, empty_registry) s)"

section \<open>The texts of versions\<close>

definition nth_version :: "nat \<Rightarrow> string" where
  "nth_version n = version_name ''1'' ''0'' (int n)"

lemma dec_digits_no_dot: "CHR ''.'' \<notin> set (dec_digits n)"
  using in_dec_digits [of "CHR ''.''" n] dec_char_plain(4) by metis

lemma nth_version_0: "nth_version 0 = ''1.0.0''"
proof -
  have "dec_digits 0 = ''0''"
    using char_of_char [of "CHR ''0''", where ?'a = nat] by (subst dec_digits.simps) simp
  then show ?thesis
    by (simp add: nth_version_def version_name_def py_str_int_def)
qed

lemma nth_version_inject [simp]: "nth_version m = nth_version n \<longleftrightarrow> m = n"
proof
  assume "nth_version m = nth_version n"
  then have "dec_digits m = dec_digits n"
    by (simp add: nth_version_def version_name_def py_str_int_def)
  then show "m = n"
    by (metis dec_number_digits option.inject)
qed simp

lemma bump_nth_version: "bump_version (nth_version n) = Some (nth_version (Suc n))"
proof -
  have "py_split CHR ''.'' (nth_version n) = [''1'', ''0'', dec_digits n]"
    using py_split_plain [OF dec_digits_no_dot [of n]]
    by (simp add: nth_version_def version_name_def py_str_int_def)
  then show ?thesis
    by (simp add: bump_version_def nth_version_def version_name_def add.commute)
qed

section \<open>Newest rows\<close>

lemma newest_first_sorted:
  assumes "sorted_wrt (\<lambda>a b. t a < t b) rows"
  shows "newest_first t rows = rev rows"
  unfolding newest_first_def
proof (rule sort_key_inj_key_eq)
  have "distinct (map t rows)"
    using assms by (induction rows) force+
  then show "inj_on (\<lambda>r. - t r) (set rows)"
    by (auto simp: distinct_map inj_on_def)
  have "sorted_wrt (\<lambda>a b. - t a \<le> - t b) (rev rows)"
    unfolding sorted_wrt_rev using assms by (auto elim!: sorted_wrt_mono_rel [rotated])
  then show "sorted (map (\<lambda>r. - t r) (rev rows))"
    unfolding sorted_map by simp
qed simp

lemma newest_by_sorted:
  assumes "sorted_wrt (\<lambda>a b. t a < t b) rows"
  shows "newest_by t rows = (if rows = [] then None else Some (last rows))"
  using newest_first_sorted [OF assms] by (cases rows rule: rev_cases) (simp_all add: newest_by_def)

section \<open>The invariant\<close>

definition numbered_versions :: "registry \<Rightarrow> bool" where
  "numbered_versions db \<longleftrightarrow>
    (\<forall>cid. map cv_version (versions_of_component cid db) =
           map nth_version [0..<length (versions_of_component cid db)])"

definition points_home :: "registry \<Rightarrow> component \<Rightarrow> bool" where
  "points_home db c \<longleftrightarrow> (\<exists>v\<in>set (rg_versions db). cv_component_id v = co_id c \<and> co_active_version_id c = Some (cv_id v))"

text \<open>Everything but the pointers of the components, and with them.\<close>

definition reg_core :: "timestamp \<Rightarrow> registry \<Rightarrow> bool" where
  "reg_core t db \<longleftrightarrow> unique_rows co_id (rg_components db) \<and> unique_rows cv_id (rg_versions db)
    \<and> sorted_wrt (\<lambda>v w. cv_created_at v < cv_created_at w) (rg_versions db)
    \<and> (\<forall>v\<in>set (rg_versions db). cv_status v = ''published'' \<and> cv_created_at v \<le> t
         \<and> cv_component_id v \<in> co_id ` set (rg_components db))
    \<and> numbered_versions db"

definition reg_inv :: "timestamp \<times> registry \<Rightarrow> bool" where
  "reg_inv s \<longleftrightarrow> reg_core (fst s) (snd s) \<and> (\<forall>c\<in>set (rg_components (snd s)). points_home (snd s) c)"

lemma reg_inv_empty: "reg_inv (t0, empty_registry)"
  by (simp add: reg_inv_def reg_core_def empty_registry_def numbered_versions_def versions_of_component_def)

lemma versions_cong: "rg_versions db' = rg_versions db \<Longrightarrow> versions_of_component cid db' = versions_of_component cid db"
  by (simp add: versions_of_component_def)

lemma core_components:
  assumes "reg_core t db" and "rg_versions db' = rg_versions db"
    and "unique_rows co_id (rg_components db')"
    and "co_id ` set (rg_components db) \<subseteq> co_id ` set (rg_components db')"
  shows "reg_core t db'"
  using assms versions_cong [OF assms(2)] unfolding reg_core_def numbered_versions_def by auto

text \<open>What writing a component does to the tables.\<close>

lemma write_componentE:
  assumes "write_component sx f c db = Inr (c', db')"
  shows "c' = f c" "sees_component sx c'" "rg_versions db' = rg_versions db"
    "rg_components db' = sql_update (\<lambda>x. co_id x = co_id c) (\<lambda>_. c') (rg_components db)"
  using assms by (auto simp: write_component_def split: if_splits)

lemma written_keys:
  assumes "co_id c' = co_id c"
  shows "map co_id (sql_update (\<lambda>x. co_id x = co_id c) (\<lambda>_. c') rows) = map co_id rows"
  using assms by (induction rows) auto

lemma write_core:
  assumes "reg_core t db" and "write_component sx f c db = Inr (c', db')" and "co_id c' = co_id c"
  shows "reg_core t db'"
proof (rule core_components [OF assms(1)])
  note w = write_componentE [OF assms(2)]
  show "rg_versions db' = rg_versions db"
    by (rule w(3))
  have "map co_id (rg_components db') = map co_id (rg_components db)"
    unfolding w(4) by (rule written_keys [OF assms(3)])
  then show "unique_rows co_id (rg_components db')" "co_id ` set (rg_components db) \<subseteq> co_id ` set (rg_components db')"
    using assms(1) by (simp_all add: reg_core_def unique_rows_def) (metis list.set_map order_refl)
qed

lemma write_inv:
  assumes "reg_inv (t, db)" and "write_component sx f c db = Inr (c', db')" and "co_id c' = co_id c"
    and "points_home db c'"
  shows "reg_inv (t, db')"
proof -
  note w = write_componentE [OF assms(2)]
  have "points_home db x" if "x \<in> set (rg_components db')" for x
    using that assms(1,4) unfolding w(4) by (auto simp: set_sql_update reg_inv_def)
  then show ?thesis
    using write_core [OF _ assms(2,3)] assms(1) by (simp add: reg_inv_def points_home_def w(3))
qed

section \<open>Publication\<close>

lemma publish_targetE:
  assumes "publish_target sx actor p m dept shown db = Inr (c, db1)"
  obtains (new) "(if starts_with ''iface_ffff'' (mn_name m) then None else find_component sx (mn_name m) db) = None"
      "c = new_component sx actor p (mn_kind m) dept shown" "sees_component sx c"
      "co_id c \<notin> co_id ` set (rg_components db)"
      "db1 = db\<lparr>rg_components := rg_components db @ [c]\<rparr>"
  | (old) c0 where "(if starts_with ''iface_ffff'' (mn_name m) then None else find_component sx (mn_name m) db) = Some c0"
      "find_component sx (mn_name m) db = Some c0" "co_kind c0 = mn_kind m" "c = move_component dept shown c0"
      "write_component sx (move_component dept shown) c0 db = Inr (c, db1)"
  using assms
  by (auto simp: publish_target_def Let_def insert_row_def write_component_def
      split: option.splits if_splits sum.splits)

lemma find_componentD:
  "find_component sx name db = Some c \<Longrightarrow> c \<in> set (rg_components db) \<and> sees_component sx c \<and> co_name c = name"
  by (auto simp: find_component_def dest!: sql_find_SomeD)

lemma move_component_sel [simp]:
  "co_id (move_component dept shown c) = co_id c"
  "co_name (move_component dept shown c) = co_name c"
  "co_active_version_id (move_component dept shown c) = co_active_version_id c"
  "co_kind (move_component dept shown c) = co_kind c"
  "co_status (move_component dept shown c) = co_status c"
  by (simp_all add: move_component_def)

lemma activate_values_sel [simp]:
  "co_id (activate_values now vid c) = co_id c"
  "co_name (activate_values now vid c) = co_name c"
  "co_active_version_id (activate_values now vid c) = Some vid"
  "co_scope (activate_values now vid c) = co_scope c"
  "co_kind (activate_values now vid c) = co_kind c"
  by (simp_all add: activate_values_def)

lemma status_values_sel [simp]:
  "co_id (status_values now st c) = co_id c"
  "co_name (status_values now st c) = co_name c"
  "co_active_version_id (status_values now st c) = co_active_version_id c"
  "co_scope (status_values now st c) = co_scope c"
  by (simp_all add: status_values_def)

text \<open>The target is in the intermediate tables, which differ from the old ones in no version.\<close>

definition target_ready :: "session_ctx \<Rightarrow> timestamp \<Rightarrow> component \<Rightarrow> registry \<Rightarrow> bool" where
  "target_ready sx t c db \<longleftrightarrow> reg_core t db \<and> c \<in> set (rg_components db) \<and> sees_component sx c
    \<and> (\<forall>x\<in>set (rg_components db). x = c \<or> co_id x \<noteq> co_id c \<and> points_home db x)"

lemma publish_target_ready:
  assumes "publish_target sx actor p m dept shown db = Inr (c, db1)" and "reg_inv (t, db)"
  shows "target_ready sx t c db1 \<and> rg_versions db1 = rg_versions db"
  using assms(1)
proof (cases rule: publish_targetE)
  case new
  have core: "reg_core t db"
    using assms(2) by (simp add: reg_inv_def)
  have "reg_core t db1"
    by (rule core_components [OF core]) (use core new in \<open>auto simp: unique_rows_snoc reg_core_def\<close>)
  then show ?thesis
    using new assms(2) by (auto simp: target_ready_def reg_inv_def points_home_def image_iff)
next
  case (old c0)
  have core: "reg_core t db"
    using assms(2) by (simp add: reg_inv_def)
  note w = write_componentE [OF old(5)]
  have "reg_core t db1"
    by (rule write_core [OF core old(5)]) (simp add: old(4))
  moreover have "c \<in> set (rg_components db1)"
    using find_componentD [OF old(2)] unfolding w(4) by (auto simp: set_sql_update image_iff)
  moreover have "x = c \<or> co_id x \<noteq> co_id c \<and> points_home db1 x" if "x \<in> set (rg_components db1)" for x
    using that assms(2) old(4) unfolding w(4)
    by (auto simp: set_sql_update reg_inv_def points_home_def w(3) split: if_splits)
  ultimately show ?thesis
    using w(2,3) by (simp add: target_ready_def)
qed

lemma publish_target_core:
  assumes "publish_target sx actor p m dept shown db = Inr (c, db1)" and "reg_inv (t, db)"
  shows "reg_core t db1" "c \<in> set (rg_components db1)" "sees_component sx c" "rg_versions db1 = rg_versions db"
    "\<forall>x\<in>set (rg_components db1). x = c \<or> co_id x \<noteq> co_id c \<and> points_home db x"
  using publish_target_ready [OF assms] by (auto simp: target_ready_def points_home_def)

lemma sorted_wrt_rows_of: "sorted_wrt P rows \<Longrightarrow> sorted_wrt P (rows_of own k rows)"
  by (induction rows) auto

lemma auto_version_next:
  assumes "reg_core t db"
  shows "auto_version cid db = Some (nth_version (length (versions_of_component cid db)))"
proof -
  let ?vs = "versions_of_component cid db"
  have "sorted_wrt (\<lambda>v w. cv_created_at v < cv_created_at w) ?vs"
    using assms by (simp add: reg_core_def versions_of_component_def sorted_wrt_rows_of)
  then have newest: "newest_by cv_created_at ?vs = (if ?vs = [] then None else Some (last ?vs))"
    by (rule newest_by_sorted)
  show ?thesis
  proof (cases ?vs rule: rev_cases)
    case Nil
    then show ?thesis
      using newest by (simp add: auto_version_def nth_version_0)
  next
    case (snoc vs v)
    have "map cv_version ?vs = map nth_version [0..<length ?vs]"
      using assms by (simp add: reg_core_def numbered_versions_def)
    then have "cv_version v = nth_version (length vs)"
      by (simp add: snoc)
    then show ?thesis
      using newest by (simp add: auto_version_def snoc bump_nth_version)
  qed
qed

lemma no_such_version:
  assumes "reg_core t db"
  shows "sql_find (has_version cid (nth_version (length (versions_of_component cid db)))) (rg_versions db) = None"
proof -
  let ?vs = "versions_of_component cid db"
  have "cv_version v \<noteq> nth_version (length ?vs)" if "v \<in> set ?vs" for v
  proof -
    have "cv_version v \<in> set (map nth_version [0..<length ?vs])"
      using that assms unfolding reg_core_def numbered_versions_def by (metis image_eqI list.set_map)
    then show ?thesis
      by auto
  qed
  then show ?thesis
    unfolding sql_find_None_iff has_version_def versions_of_component_def by auto
qed

text \<open>The whole of a successful publication.\<close>

lemma registry_publishE:
  assumes "publish sx actor p m ocode eq dept shown db = Inr (v, db')" and "reg_inv (t, db)"
  obtains c db1 where "publish_target sx actor p m dept shown db = Inr (c, db1)"
    "v = new_version p c (nth_version (length (versions_of_component (co_id c) db))) m ocode eq"
    "pb_version_id p \<notin> cv_id ` set (rg_versions db)"
    "rg_versions db' = rg_versions db @ [v]"
    "rg_components db' = sql_update (\<lambda>x. co_id x = co_id c)
       (\<lambda>_. activate_values (pb_now p) (pb_version_id p) c) (rg_components db1)"
proof -
  obtain c db1 where t: "publish_target sx actor p m dept shown db = Inr (c, db1)"
    using assms(1) by (auto simp: publish_def split: sum.splits)
  note k = publish_target_core [OF t assms(2)]
  let ?n = "length (versions_of_component (co_id c) db1)"
  have "publish_insert sx p c (new_version p c (nth_version ?n) m ocode eq) db1 = Inr (v, db')"
    using assms(1) t by (simp add: publish_def auto_version_next [OF k(1)] no_such_version [OF k(1)])
  then show ?thesis
    using that [OF t] k(4) versions_cong [OF k(4)]
    by (auto simp: publish_insert_def insert_row_def write_component_def new_version_def
        split: if_splits sum.splits)
qed

lemma new_version_sel [simp]:
  "cv_id (new_version p c v m ocode eq) = pb_version_id p"
  "cv_component_id (new_version p c v m ocode eq) = co_id c"
  "cv_version (new_version p c v m ocode eq) = v"
  "cv_status (new_version p c v m ocode eq) = ''published''"
  "cv_created_at (new_version p c v m ocode eq) = pb_tx_time p"
  by (simp_all add: new_version_def)

lemma numbered_versions_snoc:
  assumes "numbered_versions db" and "rg_versions db' = rg_versions db @ [v]"
    and "cv_version v = nth_version (length (versions_of_component (cv_component_id v) db))"
  shows "numbered_versions db'"
  using assms unfolding numbered_versions_def versions_of_component_def by simp

lemma publish_inv:
  assumes "publish sx actor p m ocode eq dept shown db = Inr (v, db')" and "reg_inv (t, db)" and "t < pb_tx_time p"
  shows "reg_inv (pb_tx_time p, db')"
  using assms(1,2)
proof (rule registry_publishE)
  fix c db1
  assume t: "publish_target sx actor p m dept shown db = Inr (c, db1)"
    and v: "v = new_version p c (nth_version (length (versions_of_component (co_id c) db))) m ocode eq"
    and fresh: "pb_version_id p \<notin> cv_id ` set (rg_versions db)"
    and vs: "rg_versions db' = rg_versions db @ [v]"
    and cs: "rg_components db' = sql_update (\<lambda>x. co_id x = co_id c)
       (\<lambda>_. activate_values (pb_now p) (pb_version_id p) c) (rg_components db1)"
  note k = publish_target_core [OF t assms(2)]
  have keys: "map co_id (rg_components db') = map co_id (rg_components db1)"
    unfolding cs by (rule written_keys) simp
  have numbered: "numbered_versions db'"
    using k(1) assms(2) by (intro numbered_versions_snoc [OF _ vs]) (simp_all add: reg_inv_def reg_core_def v)
  have ids: "co_id ` set (rg_components db') = co_id ` set (rg_components db1)"
    by (metis keys list.set_map)
  have core: "reg_core (pb_tx_time p) db'"
    unfolding reg_core_def
  proof (intro conjI ballI)
    show "unique_rows co_id (rg_components db')"
      using k(1) keys by (simp add: reg_core_def unique_rows_def)
    show "unique_rows cv_id (rg_versions db')"
      using k(1,4) fresh by (simp add: reg_core_def vs unique_rows_snoc v)
    show "sorted_wrt (\<lambda>v w. cv_created_at v < cv_created_at w) (rg_versions db')"
      using k(1,4) assms(3) by (auto simp: reg_core_def vs sorted_wrt_append v)
    fix w assume "w \<in> set (rg_versions db')"
    then consider "w \<in> set (rg_versions db1)" | "w = v"
      by (auto simp: vs k(4))
    then show "cv_status w = ''published''" "cv_created_at w \<le> pb_tx_time p"
        "cv_component_id w \<in> co_id ` set (rg_components db')"
      using k(1,2) assms(3) unfolding ids by (cases; force simp: reg_core_def v)+
  qed (rule numbered)
  have "points_home db' x" if "x \<in> set (rg_components db')" for x
    using that k(5) by (auto simp: cs set_sql_update points_home_def vs v split: if_splits)
  then show ?thesis
    using core by (simp add: reg_inv_def)
qed

section \<open>Every step keeps it\<close>

lemma filter_components_keys:
  "unique_rows co_id rows \<Longrightarrow> unique_rows co_id (filter P rows)"
  by (simp add: unique_rows_def distinct_map_filter)

lemma delete_inv:
  assumes "delete_component sx cid db = Inr db'" and "reg_inv (t, db)"
  shows "reg_inv (t, db')"
proof -
  have db': "rg_versions db' = filter (\<lambda>v. cv_component_id v \<noteq> cid) (rg_versions db)"
      "rg_components db' = filter (\<lambda>c. co_id c \<noteq> cid) (rg_components db)"
    using assms(1) by (auto simp: delete_component_def split: option.splits if_splits)
  have rows: "versions_of_component k db' = (if k = cid then [] else versions_of_component k db)" for k
    unfolding versions_of_component_def db'(1) rows_of_def filter_filter
    by (auto intro!: filter_cong simp: filter_empty_conv)
  have "reg_core t db'"
    using assms(2) unfolding reg_inv_def reg_core_def numbered_versions_def rows
    by (auto simp: db' filter_components_keys unique_rows_def distinct_map_filter sorted_wrt_filter)
  then show ?thesis
    using assms(2) by (fastforce simp: reg_inv_def points_home_def db')
qed

lemma active_component:
  assumes "activate_version sx now vid db = Inr (v, db')"
  obtains c c' where "component_of sx db v = Some c" "c \<in> set (rg_components db)" "co_id c = cv_component_id v"
    "v \<in> set (rg_versions db)" "cv_id v = vid" "write_component sx (activate_values now vid) c db = Inr (c', db')"
proof -
  obtain c where c: "get_version_by_id sx vid db = Inr (c, v)"
    using assms by (auto simp: activate_version_def split: sum.splits)
  then obtain c' where c': "write_component sx (activate_values now vid) c db = Inr (c', db')"
    using assms by (auto simp: activate_version_def split: sum.splits)
  have v: "sql_find (\<lambda>v. cv_id v = vid \<and> component_of sx db v \<noteq> None) (rg_versions db) = Some v"
    and comp: "component_of sx db v = Some c"
    using c by (auto simp: get_version_by_id_def split: option.splits)
  show ?thesis
    using that [OF comp _ _ _ _ c'] sql_find_SomeD [OF v] sql_find_SomeD [OF comp [unfolded component_of_def]] by auto
qed

lemma reg_step_inv:
  assumes "reg_step s s'" and "reg_inv s"
  shows "reg_inv s'"
  using assms
proof cases
  case (publishes t p sx actor m ocode eq dept shown db v db')
  then show ?thesis
    using publish_inv assms(2) by blast
next
  case (sets_status sx now st name db c db' t)
  then obtain c0 where c0: "c0 \<in> set (rg_components db)" "write_component sx (status_values now st) c0 db = Inr (c, db')"
    by (auto simp: set_component_status_def split: option.splits dest: find_componentD)
  have "c = status_values now st c0"
    by (rule write_componentE(1) [OF c0(2)])
  then show ?thesis
    using write_inv [OF _ c0(2)] assms(2) c0(1) sets_status(1,2) by (auto simp: reg_inv_def points_home_def)
next
  case (activates sx now vid db v db' t)
  from activates(3) show ?thesis
  proof (rule active_component)
    fix c c'
    assume c: "co_id c = cv_component_id v" "v \<in> set (rg_versions db)" "cv_id v = vid"
      "write_component sx (activate_values now vid) c db = Inr (c', db')"
    have "c' = activate_values now vid c"
      by (rule write_componentE(1) [OF c(4)])
    then show ?thesis
      using write_inv [OF _ c(4), of t] assms(2) c(1-3) activates(1,2) by (auto simp: points_home_def)
  qed
next
  case (deletes sx cid db db' t)
  then show ?thesis
    using delete_inv assms(2) by blast
next
  case (moves sx cid dept shown db db' t)
  show ?thesis
  proof (cases "sql_find (\<lambda>c. co_id c = cid \<and> sees_component sx c) (rg_components db)")
    case None
    then show ?thesis
      using moves assms(2) by (simp add: update_component_fields_def)
  next
    case (Some c)
    then obtain c' where c': "write_component sx (move_component dept shown) c db = Inr (c', db')"
      using moves(3) by (auto simp: update_component_fields_def split: sum.splits)
    have "c' = move_component dept shown c"
      by (rule write_componentE(1) [OF c'])
    then show ?thesis
      using write_inv [OF _ c'] assms(2) sql_find_SomeD [OF Some] moves(1,2) by (auto simp: reg_inv_def points_home_def)
  qed
qed

lemma reachable_reg_inv:
  assumes "reachable_registry s"
  shows "reg_inv s"
proof -
  obtain t0 where "reg_step\<^sup>*\<^sup>* (t0, empty_registry) s"
    using assms by (auto simp: reachable_registry_def)
  then show ?thesis
    by (induction rule: rtranclp_induct) (auto intro: reg_inv_empty reg_step_inv)
qed

section \<open>Finding what was written\<close>

lemma find_after_write:
  assumes "sql_find P rows = Some c" and "unique_rows co_id rows" and "P c'"
  shows "sql_find P (sql_update (\<lambda>x. co_id x = co_id c) (\<lambda>_. c') rows) = Some c'"
  using assms
proof (induction rows)
  case (Cons a rows)
  show ?case
  proof (cases "P a")
    case True
    then show ?thesis
      using Cons.prems by (simp add: sql_find_def)
  next
    case False
    then have found: "sql_find P rows = Some c"
      using Cons.prems(1) by (simp add: sql_find_def)
    then have "co_id a \<noteq> co_id c"
      using Cons.prems(2) sql_find_SomeD [OF found] by (auto simp: unique_rows_def)
    then show ?thesis
      using False Cons.IH [OF found _ Cons.prems(3)] Cons.prems(2) by (simp add: sql_find_def unique_rows_def)
  qed
qed (simp add: sql_find_def)

lemma sql_update_append: "sql_update p f (xs @ ys) = sql_update p f xs @ sql_update p f ys"
  by (simp add: sql_update_def)

lemma update_absent: "k \<notin> co_id ` set rows \<Longrightarrow> sql_update (\<lambda>x. co_id x = k) f rows = rows"
  by (rule sql_update_id) (auto simp: sql_rowcount_0_iff)

definition published_name :: "session_ctx \<Rightarrow> publication \<Rightarrow> component_manifest \<Rightarrow> registry \<Rightarrow> string" where
  "published_name sx p m db =
    (case (if starts_with ''iface_ffff'' (mn_name m) then None else find_component sx (mn_name m) db) of
       None \<Rightarrow> pb_code p | Some _ \<Rightarrow> mn_name m)"

lemma target_name:
  assumes "publish_target sx actor p m dept shown db = Inr (c, db1)"
  shows "co_name c = published_name sx p m db"
  using assms
proof (cases rule: publish_targetE)
  case new
  then show ?thesis
    by (simp add: published_name_def new_component_def)
next
  case (old c0)
  then show ?thesis
    using find_componentD [OF old(2)] by (simp add: published_name_def)
qed

lemma find_published:
  assumes "publish_target sx actor p m dept shown db = Inr (c, db1)" and "reg_inv (t, db)"
    and "pb_code p \<notin> co_name ` set (rg_components db)"
    and "rg_components db' = sql_update (\<lambda>x. co_id x = co_id c) (\<lambda>_. activate_values now vid c) (rg_components db1)"
  shows "find_component sx (published_name sx p m db) db' = Some (activate_values now vid c)"
proof -
  note k = publish_target_core [OF assms(1,2)]
  let ?P = "\<lambda>x. sees_component sx x \<and> co_name x = published_name sx p m db"
  have "sees_component sx (activate_values now vid c)"
    using k(3) by (simp add: sees_component_def)
  then have P: "?P (activate_values now vid c)"
    by (simp add: target_name [OF assms(1)])
  have "sql_find ?P (rg_components db1) = Some c"
    using assms(1)
  proof (cases rule: publish_targetE)
    case new
    then have "sql_find ?P (rg_components db) = None"
      using assms(3) by (auto simp: sql_find_None_iff published_name_def image_iff)
    then show ?thesis
      using new k(3) target_name [OF assms(1)] by (simp add: sql_find_append) (simp add: sql_find_def)
  next
    case (old c0)
    note w = write_componentE [OF old(5)]
    have n: "published_name sx p m db = mn_name m"
      using old(1) by (simp add: published_name_def)
    have "sql_find ?P (sql_update (\<lambda>x. co_id x = co_id c0) (\<lambda>_. c) (rg_components db)) = Some c"
      by (rule find_after_write)
        (use old(2) k(3) target_name [OF assms(1)] assms(2) n in
          \<open>simp_all add: find_component_def reg_inv_def reg_core_def\<close>)
    then show ?thesis
      by (simp add: w(4))
  qed
  moreover have "unique_rows co_id (rg_components db1)"
    using k(1) by (simp add: reg_core_def)
  ultimately show ?thesis
    unfolding find_component_def assms(4) using find_after_write P by blast
qed

section \<open>A small registry\<close>

definition sx_reg :: session_ctx where
  "sx_reg = \<lparr>sx_visible = [1], sx_dept = 1, sx_rls_dept = None, sx_actor = Some 7\<rparr>"

definition demo_manifest :: "string \<Rightarrow> component_manifest" where
  "demo_manifest n =
    \<lparr>mn_name = n, mn_display_name = [], mn_version = ''0.0.0'', mn_kind = ''transform'', mn_runtime = ''python'',
     mn_inputs = [], mn_outputs = [], mn_parameters = [], mn_dependencies = [],
     mn_raw_yaml = ''name: '' @ n @ CHR 0x0A # ''kind: transform'',
     mn_sha256 = ''name: '' @ n @ CHR 0x0A # ''kind: transform''\<rparr>"

definition demo_publication :: "nat \<Rightarrow> publication" where
  "demo_publication k =
    \<lparr>pb_tx_time = int k, pb_now = int k, pb_component_id = 100 + k, pb_version_id = 200 + k,
     pb_code = (if k = 1 then ''iface_a'' else ''iface_b'')\<rparr>"

definition demo_v1 :: version_row where
  "demo_v1 = new_version (demo_publication 1)
     (new_component sx_reg 7 (demo_publication 1) ''transform'' None None) ''1.0.0'' (demo_manifest ''mill'') None None"

definition demo_c1 :: component where
  "demo_c1 = activate_values 1 201 (new_component sx_reg 7 (demo_publication 1) ''transform'' None None)"

definition demo_registry :: registry where
  "demo_registry = \<lparr>rg_components = [demo_c1], rg_versions = [demo_v1]\<rparr>"

lemmas demo_reg_simps = sx_reg_def demo_manifest_def demo_publication_def new_component_def sees_component_def
  sees_a_def policy_a_def guc_dept_def Let_def

lemma demo_publish:
  "publish sx_reg 7 (demo_publication 1) (demo_manifest ''mill'') None None None None empty_registry =
    Inr (demo_v1, demo_registry)"
  by (simp add: publish_def publish_target_def find_component_def sql_find_def empty_registry_def insert_row_def
      auto_version_def versions_of_component_def newest_by_def newest_first_def publish_insert_def write_component_def
      demo_registry_def demo_v1_def demo_c1_def demo_reg_simps new_version_def activate_values_def)

lemma demo_reachable: "reachable_registry (1, demo_registry)"
proof -
  have "reg_step (0, empty_registry) (pb_tx_time (demo_publication 1), demo_registry)"
    by (rule publishes [OF _ demo_publish]) (simp add: demo_publication_def)
  then show ?thesis
    unfolding reachable_registry_def by (intro exI [of _ 0] r_into_rtranclp) (simp add: demo_publication_def)
qed

lemma empty_reachable: "reachable_registry (0, empty_registry)"
  unfolding reachable_registry_def by blast

lemma demo_c1_sel [simp]:
  "co_id demo_c1 = 101" "co_name demo_c1 = ''iface_a''" "co_kind demo_c1 = ''transform''"
  "co_active_version_id demo_c1 = Some 201" "sees_component sx_reg demo_c1"
  by (simp_all add: demo_c1_def demo_reg_simps activate_values_def)

lemma demo_v1_sel [simp]:
  "cv_id demo_v1 = 201" "cv_component_id demo_v1 = 101" "cv_version demo_v1 = ''1.0.0''"
  "cv_created_at demo_v1 = 1" "cv_status demo_v1 = ''published''"
  by (simp_all add: demo_v1_def demo_reg_simps new_version_def)

lemma demo_name: "published_name sx_reg (demo_publication 1) (demo_manifest ''mill'') empty_registry = ''iface_a''"
  by (simp add: published_name_def empty_registry_def find_component_def sql_find_def demo_publication_def demo_manifest_def)

section \<open>Properties\<close>

text \<open>
  The versions of a component. However publications, activations, moves and deletions follow each
  other, the versions of every component are 1.0.0, 1.0.1, 1.0.2, ... in the order of their creation, with
  no gap and no repetition, all of them published, and the component points to one of its own.
\<close>

theorem component_versions_consecutive:
  assumes "reachable_registry (t, db)" and "c \<in> set (rg_components db)"
  shows "map cv_version (versions_of_component (co_id c) db) =
      map nth_version [0..<length (versions_of_component (co_id c) db)] \<and>
    sorted_wrt (\<lambda>v w. cv_created_at v < cv_created_at w) (versions_of_component (co_id c) db) \<and>
    (\<exists>v\<in>set (versions_of_component (co_id c) db). co_active_version_id c = Some (cv_id v) \<and> cv_status v = ''published'')"
proof -
  have inv: "reg_inv (t, db)"
    by (rule reachable_reg_inv [OF assms(1)])
  then have "points_home db c" and core: "reg_core t db"
    using assms(2) by (simp_all add: reg_inv_def)
  then show ?thesis
    by (auto simp: points_home_def reg_core_def numbered_versions_def versions_of_component_def sorted_wrt_rows_of)
qed

lemma component_versions_consecutive_witness:
  "map cv_version (versions_of_component 101 demo_registry) = map nth_version [0..<1]"
  using component_versions_consecutive [OF demo_reachable, of demo_c1]
  by (simp add: demo_registry_def versions_of_component_def)

text \<open>
  A publication takes effect at once. The version that \<open>publish\<close> returns is what \<open>get_latest\<close>, with
  which the flow engine looks up components, delivers under the component's name from then on, and what
  \<open>get\<close> delivers under its version.
\<close>

theorem publish_becomes_latest:
  assumes "reachable_registry (t, db)" and "publish sx actor p m ocode eq dept shown db = Inr (v, db')"
    and "pb_code p \<notin> co_name ` set (rg_components db)"
  shows "get_latest sx (published_name sx p m db) db' = Inr v \<and>
    get_version sx (published_name sx p m db) (cv_version v) db' = Inr v \<and>
    cv_manifest_sha256 v = mn_sha256 m"
proof -
  have inv: "reg_inv (t, db)"
    by (rule reachable_reg_inv [OF assms(1)])
  show ?thesis
    using assms(2) inv
  proof (rule registry_publishE)
    fix c db1
    assume t: "publish_target sx actor p m dept shown db = Inr (c, db1)"
      and v: "v = new_version p c (nth_version (length (versions_of_component (co_id c) db))) m ocode eq"
      and fresh: "pb_version_id p \<notin> cv_id ` set (rg_versions db)"
      and vs: "rg_versions db' = rg_versions db @ [v]"
      and cs: "rg_components db' = sql_update (\<lambda>x. co_id x = co_id c)
         (\<lambda>_. activate_values (pb_now p) (pb_version_id p) c) (rg_components db1)"
    have find: "find_component sx (published_name sx p m db) db' = Some (activate_values (pb_now p) (pb_version_id p) c)"
      by (rule find_published [OF t inv assms(3) cs])
    have "sql_find (\<lambda>w. cv_id w = pb_version_id p \<and> cv_status w = ''published'') (rg_versions db) = None"
      using fresh by (auto simp: sql_find_None_iff image_iff)
    moreover have "sql_find (has_version (co_id c) (cv_version v)) (rg_versions db) = None"
      using no_such_version [of t db "co_id c"] inv by (simp add: v reg_inv_def)
    ultimately show ?thesis
      using find by (simp add: get_latest_def get_version_def active_version_def vs sql_find_append)
        (simp add: sql_find_def has_version_def v new_version_def)
  qed
qed

lemma publish_becomes_latest_witness:
  "get_latest sx_reg ''iface_a'' demo_registry = Inr demo_v1"
  using publish_becomes_latest [OF empty_reachable demo_publish, unfolded demo_name]
  by (simp add: empty_registry_def)

text \<open>
  Published versions are immutable. No sequence of operations changes a version or adds one to the
  past: of the versions created up to a moment, later tables hold exact copies only.
\<close>

theorem registry_history_fixed:
  assumes "reachable_registry (t, db)" and "reg_step\<^sup>*\<^sup>* (t, db) (t', db')"
    and "w \<in> set (rg_versions db')" and "cv_created_at w \<le> t"
  shows "w \<in> set (rg_versions db)"
proof -
  have step: "\<forall>w\<in>set (rg_versions (snd s')). cv_created_at w \<le> t \<longrightarrow> w \<in> set (rg_versions (snd s))"
    if "reg_step s s'" "reg_inv s" "t \<le> fst s" for s s'
    using that
  proof cases
    case (publishes u p sx actor m ocode eq dept shown d v d')
    have inv: "reg_inv (u, d)"
      using that(2) publishes(1) by simp
    show ?thesis
      using publishes(4) inv by (rule registry_publishE) (use publishes that(3) in auto)
  next
    case (sets_status sx now st name d c d' u)
    then show ?thesis
      by (auto simp: set_component_status_def split: option.splits dest: write_componentE(3))
  next
    case (activates sx now vid d v d' u)
    from activates(3) show ?thesis
      by (rule active_component) (use activates write_componentE(3) in auto)
  next
    case (deletes sx cid d d' u)
    then show ?thesis
      by (auto simp: delete_component_def split: option.splits if_splits)
  next
    case (moves sx cid dept shown d d' u)
    then show ?thesis
      by (auto simp: update_component_fields_def split: option.splits sum.splits dest: write_componentE(3))
  qed
  have grow: "fst s \<le> fst s'" if "reg_step s s'" for s s'
    using that by cases auto
  have "reg_inv s \<and> t \<le> fst s \<and> (\<forall>w\<in>set (rg_versions (snd s)). cv_created_at w \<le> t \<longrightarrow> w \<in> set (rg_versions db))"
    if "reg_step\<^sup>*\<^sup>* (t, db) s" for s
    using that
  proof (induction rule: rtranclp_induct)
    case base
    then show ?case
      using reachable_reg_inv [OF assms(1)] by simp
  next
    case (step y z)
    then show ?case
      using reg_step_inv step(2) grow [OF step(2)] \<open>\<And>s s'. reg_step s s' \<Longrightarrow> reg_inv s \<Longrightarrow> t \<le> fst s \<Longrightarrow> _\<close> by fastforce
  qed
  from this [OF assms(2)] show ?thesis
    using assms(3,4) by simp
qed

lemma registry_history_fixed_witness:
  "\<exists>db'. deprecate_component sx_reg 5 ''iface_a'' demo_registry = Inr (status_values 5 ''deprecated'' demo_c1, db') \<and>
    (demo_v1 \<in> set (rg_versions db')) \<and> demo_v1 \<in> set (rg_versions demo_registry)"
proof -
  let ?db = "demo_registry\<lparr>rg_components := [status_values 5 ''deprecated'' demo_c1]\<rparr>"
  have d: "deprecate_component sx_reg 5 ''iface_a'' demo_registry = Inr (status_values 5 ''deprecated'' demo_c1, ?db)"
    by (simp add: deprecate_component_def set_component_status_def find_component_def sql_find_def demo_registry_def
        write_component_def) (simp add: sees_component_def [of _ "status_values _ _ _"] flip: sees_component_def)
  have "reg_step\<^sup>*\<^sup>* (1, demo_registry) (1, ?db)"
    by (intro r_into_rtranclp sets_status [OF d [unfolded deprecate_component_def]]) simp
  from registry_history_fixed [OF demo_reachable this, of demo_v1] d show ?thesis
    by (simp add: demo_registry_def)
qed

text \<open>
  Deprecation stops nothing. After a successful \<open>deprecate\<close> both lookups deliver exactly what they
  delivered before, so flows go on running the deprecated component and new flows can be published with it.
\<close>

theorem deprecated_component_still_served:
  assumes "reachable_registry (t, db)" and "deprecate_component sx now name db = Inr (c, db')"
  shows "co_status c = ''deprecated'' \<and> c \<in> set (rg_components db') \<and>
    get_latest sx name db' = get_latest sx name db \<and> get_version sx name v db' = get_version sx name v db"
proof -
  obtain c0 where c0: "find_component sx name db = Some c0"
      "write_component sx (status_values now ''deprecated'') c0 db = Inr (c, db')"
    using assms(2) by (auto simp: deprecate_component_def set_component_status_def split: option.splits)
  note w = write_componentE [OF c0(2)]
  have "unique_rows co_id (rg_components db)"
    using reachable_reg_inv [OF assms(1)] by (simp add: reg_inv_def reg_core_def)
  moreover have "sees_component sx c \<and> co_name c = name"
    using w(1,2) find_componentD [OF c0(1)] by simp
  ultimately have find: "find_component sx name db' = Some c"
    using c0(1) unfolding find_component_def w(4) by (intro find_after_write) simp_all
  show ?thesis
    using find c0(1) w(3) find_componentD [OF find]
    by (simp add: get_latest_def get_version_def active_version_def published_versions_def versions_of_component_def
        w(1) split: option.split) (simp add: status_values_def)
qed

lemma deprecated_component_still_served_witness:
  "\<exists>db'. deprecate_component sx_reg 5 ''iface_a'' demo_registry = Inr (status_values 5 ''deprecated'' demo_c1, db') \<and>
    get_latest sx_reg ''iface_a'' db' = Inr demo_v1"
proof -
  let ?db = "demo_registry\<lparr>rg_components := [status_values 5 ''deprecated'' demo_c1]\<rparr>"
  have d: "deprecate_component sx_reg 5 ''iface_a'' demo_registry = Inr (status_values 5 ''deprecated'' demo_c1, ?db)"
    by (simp add: deprecate_component_def set_component_status_def find_component_def sql_find_def demo_registry_def
        write_component_def) (simp add: sees_component_def [of _ "status_values _ _ _"] flip: sees_component_def)
  have "get_latest sx_reg ''iface_a'' demo_registry = Inr demo_v1"
    by (simp add: get_latest_def find_component_def active_version_def sql_find_def demo_registry_def)
  then show ?thesis
    using deprecated_component_still_served [OF demo_reachable d] d by auto
qed

text \<open>
  A name cannot be chosen. Publishing a manifest under a name that the user's components do not carry
  creates a component with a generated code instead; the name is still unknown afterwards, so publishing
  the next version of the same manifest creates yet another component.
\<close>

theorem unknown_name_forks:
  assumes "reachable_registry (t, db)" and "publish sx actor p m ocode eq dept shown db = Inr (v, db')"
    and "find_component sx (mn_name m) db = None" and "pb_code p \<noteq> mn_name m"
  shows "find_component sx (mn_name m) db' = None \<and>
    length (rg_components db') = Suc (length (rg_components db)) \<and>
    cv_component_id v \<notin> co_id ` set (rg_components db) \<and> cv_version v = ''1.0.0''"
proof -
  have inv: "reg_inv (t, db)"
    by (rule reachable_reg_inv [OF assms(1)])
  show ?thesis
    using assms(2) inv
  proof (rule registry_publishE)
    fix c db1
    assume t: "publish_target sx actor p m dept shown db = Inr (c, db1)"
      and v: "v = new_version p c (nth_version (length (versions_of_component (co_id c) db))) m ocode eq"
      and cs: "rg_components db' = sql_update (\<lambda>x. co_id x = co_id c)
         (\<lambda>_. activate_values (pb_now p) (pb_version_id p) c) (rg_components db1)"
    show ?thesis
      using t
    proof (cases rule: publish_targetE)
      case new
      have "rg_components db' = rg_components db @ [activate_values (pb_now p) (pb_version_id p) c]"
        unfolding cs new(5) by (simp add: sql_update_append update_absent [OF new(4)])
      moreover have "co_name c = pb_code p"
        by (simp add: new(2) new_component_def)
      moreover have "versions_of_component (co_id c) db = []"
      proof -
        have "\<forall>w\<in>set (rg_versions db). cv_component_id w \<in> co_id ` set (rg_components db)"
          using inv by (simp add: reg_inv_def reg_core_def)
        then show ?thesis
          using new(4) unfolding versions_of_component_def rows_of_def filter_empty_conv by metis
      qed
      ultimately show ?thesis
        using assms(3,4) new(4) by (simp add: find_component_def sql_find_append v nth_version_0) (simp add: sql_find_def)
    next
      case (old c0)
      then show ?thesis
        using assms(3) by simp
    qed
  qed
qed

lemma unknown_name_forks_witness:
  "find_component sx_reg ''mill'' demo_registry = None"
  using unknown_name_forks [OF empty_reachable demo_publish]
  by (simp add: empty_registry_def find_component_def sql_find_def demo_publication_def demo_manifest_def)

text \<open>
  The stored digest is not that of the stored text. When the component's name differs from the name
  in the manifest, as it does for every new component, the stored text is the rewritten one while the
  digest stored beside it is that of the text submitted: checking the content against it always fails.
\<close>

theorem stored_digest_of_other_text:
  assumes "reachable_registry (t, db)" and "publish sx actor p m ocode eq dept shown db = Inr (v, db')"
    and "mn_raw_yaml m = ''name: '' @ n @ CHR 0x0A # rest" and "n \<noteq> []" and "list_all (\<lambda>c. \<not> is_py_space c) n"
    and "mn_sha256 m = sha (mn_raw_yaml m)" and "inj sha" and "published_name sx p m db \<noteq> n"
  shows "cv_manifest_yaml v = ''name: '' @ published_name sx p m db @ CHR 0x0A # rest \<and>
    cv_manifest_sha256 v \<noteq> sha (cv_manifest_yaml v)"
proof -
  have inv: "reg_inv (t, db)"
    by (rule reachable_reg_inv [OF assms(1)])
  have plain: "\<forall>c\<in>set n. \<not> is_py_space c"
    using assms(5) by (simp add: list_all_iff)
  then have no_nl: "\<forall>c\<in>set n. c \<noteq> CHR 0x0A"
    by (auto simp: is_py_space_def)
  have sp: "is_py_space CHR '' ''"
    by (simp add: is_py_space_def)
  have "dropWhile is_py_space (n @ CHR 0x0A # rest) = n @ CHR 0x0A # rest"
    using plain assms(4) by (cases n) simp_all
  moreover have "dropWhile (\<lambda>d. d \<noteq> CHR 0x0A) (n @ CHR 0x0A # rest) = CHR 0x0A # rest"
    using no_nl by (subst dropWhile_append2) auto
  ultimately have "name_line (mn_raw_yaml m) = Some (CHR 0x0A # rest)"
    using sp assms(4) by (cases n) (simp_all add: name_line_def assms(3))
  then have renamed: "replace_name nm (mn_raw_yaml m) = ''name: '' @ nm @ CHR 0x0A # rest" for nm
    by (subst replace_name.simps) simp
  show ?thesis
    using assms(2) inv
  proof (rule registry_publishE)
    fix c db1
    assume t: "publish_target sx actor p m dept shown db = Inr (c, db1)"
      and v: "v = new_version p c (nth_version (length (versions_of_component (co_id c) db))) m ocode eq"
    have yaml: "cv_manifest_yaml v = ''name: '' @ published_name sx p m db @ CHR 0x0A # rest"
      by (simp add: v new_version_def target_name [OF t] renamed)
    moreover have "cv_manifest_sha256 v = sha (mn_raw_yaml m)"
      by (simp add: v new_version_def assms(6))
    ultimately show ?thesis
      using assms(3,8) inj_eq [OF assms(7)] by simp
  qed
qed

lemma stored_digest_of_other_text_witness:
  "cv_manifest_sha256 demo_v1 \<noteq> cv_manifest_yaml demo_v1"
proof -
  have n: "published_name sx_reg (demo_publication 1) (demo_manifest ''mill'') empty_registry \<noteq> ''mill''"
    by (simp only: demo_name) simp
  have plain: "list_all (\<lambda>c. \<not> is_py_space c) ''mill''"
    by (simp add: is_py_space_def)
  have m: "mn_raw_yaml (demo_manifest ''mill'') = ''name: '' @ ''mill'' @ CHR 0x0A # ''kind: transform''"
      "mn_sha256 (demo_manifest ''mill'') = (\<lambda>s. s) (mn_raw_yaml (demo_manifest ''mill''))"
    by (simp_all add: demo_manifest_def)
  show ?thesis
    using stored_digest_of_other_text [where sha = "\<lambda>s. s", OF empty_reachable demo_publish m(1) _ plain m(2) _ n,
      THEN conjunct2] by simp
qed

end
