(* ===== verification/FlowDefinitions.thy ===== *)
theory FlowDefinitions imports FlowRuns RegistrySystem begin

text \<open>
  Flow definitions: \<open>packages/components/flow/definition_service.py\<close> (create, publish, list, get,
  archive, restore, delete, update), the creation and listing of runs in \<open>run_service.py\<close> and the two
  endpoints of \<open>apps/api/routers/flows.py\<close> with rules of their own. A definition is a row of class A, a
  run of class B; versions and node executions have no row policy. Foreign keys to departments, projects
  and users are taken to hold.
\<close>

section \<open>Rows and state\<close>

record flow_def =
  fd_id :: uuid
  fd_code :: string
  fd_display_name :: string
  fd_status :: string
  fd_lock_version :: nat
  fd_project_id :: "uuid option"
  fd_operator :: "string option"
  fd_object_code :: "string option"
  fd_updated_at :: timestamp
  fd_scope :: row_scope

record flow_db =
  fl_defs :: "flow_def list"
  fl_versions :: "flow_version list"
  fl_runs :: "flow_run list"
  fl_execs :: "node_exec list"
  fl_jobs :: job_db

text \<open>
  What an operation can end with: one of the errors every transaction can end with, or a validation
  that names what is wrong with the graph, or with one node of it.
\<close>

datatype flow_def_error =
    DefData data_error
  | DefInvalid "flow_issue list"
  | DefInvalidNode string "flow_issue list"

definition def_fail :: "string \<Rightarrow> dict \<Rightarrow> flow_def_error" where
  "def_fail c fs = DefData (app_fail c fs)"

definition sees_def :: "session_ctx \<Rightarrow> flow_def \<Rightarrow> bool" where
  "sees_def sx d = sees_a sx (fd_scope d)"

definition def_row :: "session_ctx \<Rightarrow> uuid \<Rightarrow> flow_def \<Rightarrow> bool" where
  "def_row sx fid d = (fd_id d = fid \<and> sees_def sx d)"

definition find_def :: "session_ctx \<Rightarrow> uuid \<Rightarrow> flow_db \<Rightarrow> flow_def option" where
  "find_def sx fid db = sql_find (def_row sx fid) (fl_defs db)"

definition def_missing :: "string \<Rightarrow> uuid \<Rightarrow> flow_def_error" where
  "def_missing field fid = def_fail ''not_found'' [(field, JStr (uuid_str fid))]"

section \<open>\<open>create_definition\<close>\<close>

definition new_def ::
    "session_ctx \<Rightarrow> uuid \<Rightarrow> timestamp \<Rightarrow> uuid \<Rightarrow> string \<Rightarrow> string \<Rightarrow> uuid option \<Rightarrow> uuid option \<Rightarrow> string option
      \<Rightarrow> string option \<Rightarrow> flow_def" where
  "new_def sx actor now fid code name dept project operator ocode =
    \<lparr>fd_id = fid, fd_code = code, fd_display_name = name, fd_status = ''draft'', fd_lock_version = 0,
     fd_project_id = project, fd_operator = operator, fd_object_code = ocode, fd_updated_at = now,
     fd_scope = \<lparr>rs_department_id = (case dept of None \<Rightarrow> sx_dept sx | Some d \<Rightarrow> d),
       rs_visible_departments = [], rs_visibility_scope = ''tree'', rs_owner_user_id = actor\<rparr>\<rparr>"

definition check_dag :: "flow_node list \<Rightarrow> flow_edge list \<Rightarrow> flow_def_error option" where
  "check_dag nodes edges =
    (case validate_dag nodes edges of
       None \<Rightarrow> Some (DefData DPython)
     | Some r \<Rightarrow> if valid r then None else Some (DefInvalid (errors r)))"

definition create_definition ::
    "session_ctx \<Rightarrow> uuid \<Rightarrow> timestamp \<Rightarrow> uuid \<Rightarrow> string \<Rightarrow> string \<Rightarrow> flow_node list \<Rightarrow> flow_edge list
      \<Rightarrow> uuid option \<Rightarrow> uuid option \<Rightarrow> string option \<Rightarrow> string option \<Rightarrow> flow_db
      \<Rightarrow> flow_def_error + flow_def \<times> flow_db" where
  "create_definition sx actor now fid code name nodes edges dept project operator ocode db =
    (case (if nodes \<noteq> [] then check_dag nodes edges else None) of
       Some e \<Rightarrow> Inl e
     | None \<Rightarrow>
         if sql_find (\<lambda>d. sees_def sx d \<and> fd_code d = code) (fl_defs db) \<noteq> None
         then Inl (def_fail ''conflict'' [(''code'', JStr code)])
         else (let d = new_def sx actor now fid code name dept project operator ocode
               in case insert_row fd_id (sees_def sx) d (fl_defs db) of
                    Inl e \<Rightarrow> Inl (DefData e)
                  | Inr rows \<Rightarrow> Inr (d, db\<lparr>fl_defs := rows\<rparr>)))"

section \<open>\<open>publish_version\<close>\<close>

text \<open>What the validation reads of a registered component: ports and manifest.\<close>

definition ports_of :: "version_row \<Rightarrow> port_schemas" where
  "ports_of v =
    \<lparr>ps_inputs = map (\<lambda>p. (po_name p, Some (po_data_type p))) (cv_inputs v),
     ps_outputs = map (\<lambda>p. (po_name p, Some (po_data_type p))) (cv_outputs v)\<rparr>"

definition registered_ports :: "session_ctx \<Rightarrow> registry \<Rightarrow> string \<Rightarrow> string \<Rightarrow> port_schemas option" where
  "registered_ports sx reg name version =
    (case get_version sx name version reg of Inl _ \<Rightarrow> None | Inr v \<Rightarrow> Some (ports_of v))"

definition node_manifest :: "component_manifest \<Rightarrow> manifest" where
  "node_manifest m =
    \<lparr>mf_parameters = mn_parameters m,
     mf_inputs = map (\<lambda>p. \<lparr>port_name = po_name p, port_required = po_required p\<rparr>) (mn_inputs m),
     mf_outputs = map (\<lambda>p. \<lparr>port_name = po_name p, port_required = po_required p\<rparr>) (mn_outputs m)\<rparr>"

definition check_node ::
    "session_ctx \<Rightarrow> (string \<Rightarrow> json option) \<Rightarrow> (json \<Rightarrow> json \<Rightarrow> bool) \<Rightarrow> registry \<Rightarrow> flow_node
      \<Rightarrow> flow_def_error option" where
  "check_node sx yaml conforms reg n =
    (case get_version sx (component_name n) (component_version n) reg of
       Inl _ \<Rightarrow> Some (def_fail ''validation_failed''
         [(''node_id'', JStr (node_id n)), (''component'', JStr (component_name n))])
     | Inr v \<Rightarrow>
         (case build_manifest_from_version yaml v of
            Inl e \<Rightarrow> Some (DefData e)
          | Inr m \<Rightarrow>
              (let r = check_param_schema conforms n (node_manifest m)
               in if valid r then None else Some (DefInvalidNode (node_id n) (errors r)))))"

fun check_nodes ::
    "session_ctx \<Rightarrow> (string \<Rightarrow> json option) \<Rightarrow> (json \<Rightarrow> json \<Rightarrow> bool) \<Rightarrow> registry \<Rightarrow> flow_node list
      \<Rightarrow> flow_def_error option" where
  "check_nodes sx yaml conforms reg [] = None"
| "check_nodes sx yaml conforms reg (n # ns) =
    (case check_node sx yaml conforms reg n of
       Some e \<Rightarrow> Some e
     | None \<Rightarrow> check_nodes sx yaml conforms reg ns)"

definition validate_flow ::
    "session_ctx \<Rightarrow> (string \<Rightarrow> json option) \<Rightarrow> (json \<Rightarrow> json \<Rightarrow> bool) \<Rightarrow> registry \<Rightarrow> flow_node list
      \<Rightarrow> flow_edge list \<Rightarrow> flow_def_error option" where
  "validate_flow sx yaml conforms reg nodes edges =
    (case check_dag nodes edges of
       Some e \<Rightarrow> Some e
     | None \<Rightarrow>
         (let r = check_port_types (registered_ports sx reg) nodes edges
          in if \<not> valid r then Some (DefInvalid (errors r))
             else check_nodes sx yaml conforms reg nodes))"

definition new_flow_version ::
    "(json \<Rightarrow> string) \<Rightarrow> uuid \<Rightarrow> uuid \<Rightarrow> nat \<Rightarrow> flow_node list \<Rightarrow> flow_edge list \<Rightarrow> int \<Rightarrow> flow_version" where
  "new_flow_version sha vid fid n nodes edges seed =
    \<lparr>fv_id = vid, fv_definition_id = fid, fv_version = n, fv_nodes_json = nodes_to_json nodes,
     fv_edges_json = edges_to_json edges, fv_random_seed = seed,
     fv_digest = compute_flow_digest sha nodes edges seed, fv_status = ''published''\<rparr>"

definition def_status_values :: "timestamp \<Rightarrow> string \<Rightarrow> flow_def \<Rightarrow> flow_def" where
  "def_status_values now st d =
    d\<lparr>fd_status := st, fd_updated_at := now, fd_lock_version := fd_lock_version d + 1\<rparr>"

text \<open>The transaction after the validation: the next number, the row, the status of the definition.\<close>

definition publish_insert_version ::
    "session_ctx \<Rightarrow> (json \<Rightarrow> string) \<Rightarrow> timestamp \<Rightarrow> uuid \<Rightarrow> uuid \<Rightarrow> flow_node list \<Rightarrow> flow_edge list \<Rightarrow> int
      \<Rightarrow> flow_db \<Rightarrow> flow_def_error + flow_version \<times> flow_db" where
  "publish_insert_version sx sha now vid fid nodes edges seed db =
    (case find_def sx fid db of
       None \<Rightarrow> Inl (def_missing ''flow_definition_id'' fid)
     | Some d \<Rightarrow>
         (let v = new_flow_version sha vid fid (max_number fv_definition_id fv_version fid (fl_versions db) + 1)
                    nodes edges seed
          in case insert_row fv_id (\<lambda>_. True) v (fl_versions db) of
               Inl e \<Rightarrow> Inl (DefData e)
             | Inr rows \<Rightarrow>
                 Inr (v, db\<lparr>fl_versions := rows,
                           fl_defs := sql_update (\<lambda>x. fd_id x = fid) (def_status_values now ''published'') (fl_defs db)\<rparr>)))"

definition publish_flow_version ::
    "session_ctx \<Rightarrow> (string \<Rightarrow> json option) \<Rightarrow> (json \<Rightarrow> json \<Rightarrow> bool) \<Rightarrow> (json \<Rightarrow> string) \<Rightarrow> registry \<Rightarrow> timestamp
      \<Rightarrow> uuid \<Rightarrow> uuid \<Rightarrow> flow_node list \<Rightarrow> flow_edge list \<Rightarrow> int \<Rightarrow> flow_db
      \<Rightarrow> flow_def_error + flow_version \<times> flow_db" where
  "publish_flow_version sx yaml conforms sha reg now vid fid nodes edges seed db =
    (case validate_flow sx yaml conforms reg nodes edges of
       Some e \<Rightarrow> Inl e
     | None \<Rightarrow> publish_insert_version sx sha now vid fid nodes edges seed db)"

section \<open>Reading definitions\<close>

definition versions_of_flow :: "uuid \<Rightarrow> flow_db \<Rightarrow> flow_version list" where
  "versions_of_flow fid db = rows_of fv_definition_id fid (fl_versions db)"

definition latest_version :: "uuid \<Rightarrow> flow_db \<Rightarrow> flow_version option" where
  "latest_version fid db = latest_by fv_version (versions_of_flow fid db)"

definition get_definition :: "session_ctx \<Rightarrow> uuid \<Rightarrow> flow_db \<Rightarrow> flow_def_error + flow_def \<times> flow_version option" where
  "get_definition sx fid db =
    (case find_def sx fid db of
       None \<Rightarrow> Inl (def_missing ''flow_id'' fid)
     | Some d \<Rightarrow> Inr (d, latest_version (fd_id d) db))"

text \<open>The project filter is a text; \<open>UUID(text)\<close> may raise \<open>ValueError\<close>.\<close>

definition list_definitions ::
    "session_ctx \<Rightarrow> string option \<Rightarrow> string option \<Rightarrow> flow_db
      \<Rightarrow> flow_def_error + (flow_def \<times> flow_version option) list" where
  "list_definitions sx wanted project db =
    (case (case project of None \<Rightarrow> Some None | Some s \<Rightarrow> map_option Some (uuid_parse s)) of
       None \<Rightarrow> Inl (DefData DPython)
     | Some proj \<Rightarrow>
         Inr (map (\<lambda>d. (d, latest_version (fd_id d) db))
           (sort_key fd_code
             (filter (\<lambda>d. sees_def sx d
                \<and> (case wanted of None \<Rightarrow> True | Some s \<Rightarrow> fd_status d = s)
                \<and> (case proj of None \<Rightarrow> True | Some p \<Rightarrow> fd_project_id d = Some p)) (fl_defs db)))))"

definition get_definition_by_id :: "session_ctx \<Rightarrow> uuid \<Rightarrow> flow_db \<Rightarrow> flow_def_error + flow_def \<times> flow_version" where
  "get_definition_by_id sx vid db =
    (case sql_find (\<lambda>v. fv_id v = vid \<and> find_def sx (fv_definition_id v) db \<noteq> None) (fl_versions db) of
       None \<Rightarrow> Inl (def_missing ''version_id'' vid)
     | Some v \<Rightarrow>
         (case find_def sx (fv_definition_id v) db of
            None \<Rightarrow> Inl (DefData DPython)
          | Some d \<Rightarrow> Inr (d, v)))"

section \<open>Archiving, updating, deleting\<close>

definition set_def_status ::
    "session_ctx \<Rightarrow> timestamp \<Rightarrow> string \<Rightarrow> uuid \<Rightarrow> flow_db \<Rightarrow> flow_def_error + flow_def \<times> flow_db" where
  "set_def_status sx now st fid db =
    (case find_def sx fid db of
       None \<Rightarrow> Inl (def_missing ''flow_id'' fid)
     | Some d \<Rightarrow>
         Inr (def_status_values now st d,
              db\<lparr>fl_defs := sql_update (\<lambda>x. fd_id x = fid) (def_status_values now st) (fl_defs db)\<rparr>))"

definition deprecate_definition :: "session_ctx \<Rightarrow> timestamp \<Rightarrow> uuid \<Rightarrow> flow_db \<Rightarrow> flow_def_error + flow_def \<times> flow_db" where
  "deprecate_definition sx now fid db = set_def_status sx now ''deprecated'' fid db"

definition restore_definition :: "session_ctx \<Rightarrow> timestamp \<Rightarrow> uuid \<Rightarrow> flow_db \<Rightarrow> flow_def_error + flow_def \<times> flow_db" where
  "restore_definition sx now fid db = set_def_status sx now ''published'' fid db"

text \<open>
  \<open>UUID(s) if s else None\<close> for an optional text: nothing to change (\<open>Some None\<close>), the new value, or
  \<open>ValueError\<close> (\<open>None\<close>).
\<close>

definition optional_uuid :: "string option \<Rightarrow> uuid option option option" where
  "optional_uuid s =
    (case s of
       None \<Rightarrow> Some None
     | Some t \<Rightarrow> if t = [] then Some (Some None) else map_option (\<lambda>u. Some (Some u)) (uuid_parse t))"

definition update_values ::
    "timestamp \<Rightarrow> string \<Rightarrow> uuid option \<Rightarrow> uuid option option \<Rightarrow> string option \<Rightarrow> string option \<Rightarrow> flow_def \<Rightarrow> flow_def" where
  "update_values now name dept project operator ocode d =
    d\<lparr>fd_display_name := name,
      fd_scope := (fd_scope d)\<lparr>rs_department_id := (case dept of None \<Rightarrow> rs_department_id (fd_scope d) | Some u \<Rightarrow> u)\<rparr>,
      fd_project_id := (case project of None \<Rightarrow> fd_project_id d | Some p \<Rightarrow> p),
      fd_operator := (case operator of None \<Rightarrow> fd_operator d | Some s \<Rightarrow> Some s),
      fd_object_code := (case ocode of None \<Rightarrow> fd_object_code d | Some s \<Rightarrow> if s = [] then None else Some s),
      fd_updated_at := now\<rparr>"

text \<open>A department of NULL violates the column's constraint, an invisible one the row policy.\<close>

definition update_definition ::
    "session_ctx \<Rightarrow> timestamp \<Rightarrow> uuid \<Rightarrow> string \<Rightarrow> string option \<Rightarrow> string option \<Rightarrow> string option \<Rightarrow> string option
      \<Rightarrow> flow_db \<Rightarrow> flow_def_error + flow_def \<times> flow_db" where
  "update_definition sx now fid name dept project operator ocode db =
    (case find_def sx fid db of
       None \<Rightarrow> Inl (def_missing ''flow_id'' fid)
     | Some d \<Rightarrow>
         (case (optional_uuid dept, optional_uuid project) of
            (Some du, Some pu) \<Rightarrow>
              (if du = Some None then Inl (DefData DDatabase)
               else (let d' = update_values now name (case du of Some u \<Rightarrow> u | None \<Rightarrow> None) pu operator ocode d
                     in if sees_def sx d'
                        then Inr (d', db\<lparr>fl_defs := sql_update (\<lambda>x. fd_id x = fid) (\<lambda>_. d') (fl_defs db)\<rparr>)
                        else Inl (DefData DDatabase)))
          | _ \<Rightarrow> Inl (DefData DPython)))"

text \<open>
  \<open>delete_flow\<close>: node executions and runs that the session sees, then the versions, which the foreign
  key of a run it does not see holds back, then the definition if the session sees it.
\<close>

definition sees_run :: "session_ctx \<Rightarrow> flow_run \<Rightarrow> bool" where
  "sees_run sx r = sees_b sx (fr_department_id r)"

definition flow_version_ids :: "uuid \<Rightarrow> flow_db \<Rightarrow> uuid set" where
  "flow_version_ids fid db = fv_id ` set (versions_of_flow fid db)"

definition doomed_run :: "session_ctx \<Rightarrow> uuid \<Rightarrow> flow_db \<Rightarrow> flow_run \<Rightarrow> bool" where
  "doomed_run sx fid db r = (sees_run sx r \<and> fr_flow_version_id r \<in> flow_version_ids fid db)"

definition delete_flow :: "session_ctx \<Rightarrow> uuid \<Rightarrow> flow_db \<Rightarrow> flow_def_error + flow_db" where
  "delete_flow sx fid db =
    (let runs = filter (doomed_run sx fid db) (fl_runs db);
         kept = filter (\<lambda>r. \<not> doomed_run sx fid db r) (fl_runs db)
     in if (\<exists>r\<in>set kept. fr_flow_version_id r \<in> flow_version_ids fid db) then Inl (DefData DDatabase)
        else Inr (db\<lparr>fl_execs := filter (\<lambda>e. ne_flow_run_id e \<notin> fr_id ` set runs) (fl_execs db),
                    fl_runs := kept,
                    fl_versions := filter (\<lambda>v. fv_definition_id v \<noteq> fid) (fl_versions db),
                    fl_defs := filter (\<lambda>d. \<not> def_row sx fid d) (fl_defs db)\<rparr>))"

section \<open>Runs\<close>

definition list_runs :: "session_ctx \<Rightarrow> uuid \<Rightarrow> flow_db \<Rightarrow> flow_run list" where
  "list_runs sx fid db = newest_first fr_created_at (filter (doomed_run sx fid db) (fl_runs db))"

text \<open>
  \<open>create_run\<close> is three transactions: the version is looked up, the job accepted, the run inserted.
  The job belongs to the department of the session, the run to that of the definition.
\<close>

definition run_payload :: "uuid \<Rightarrow> uuid \<Rightarrow> uuid \<Rightarrow> json" where
  "run_payload rid vid dept =
    JObj [(''run_id'', JStr (uuid_str rid)), (''flow_version_id'', JStr (uuid_str vid)),
          (''department_id'', JStr (uuid_str dept))]"

definition create_run_accept ::
    "session_ctx \<Rightarrow> uuid \<Rightarrow> timestamp \<Rightarrow> uuid \<Rightarrow> uuid \<Rightarrow> uuid \<Rightarrow> uuid \<Rightarrow> uuid \<Rightarrow> flow_db
      \<Rightarrow> (service_error + job_ref) \<times> flow_db" where
  "create_run_accept sx actor now rid vid dept jid eid db =
    (case accept (sees_b sx) now (sx_dept sx) actor ''flow_execute'' (run_payload rid vid dept)
            (''flow-run-'' @ uuid_str rid) jid eid (fl_jobs db) of
       (r, jobs) \<Rightarrow> (r, db\<lparr>fl_jobs := jobs\<rparr>))"

definition new_run :: "timestamp \<Rightarrow> uuid \<Rightarrow> uuid \<Rightarrow> uuid \<Rightarrow> uuid \<Rightarrow> dict \<Rightarrow> flow_run" where
  "new_run now rid dept vid jid inputs =
    \<lparr>fr_id = rid, fr_department_id = dept, fr_flow_version_id = vid, fr_status = RunPending,
     fr_job_id = Some jid, fr_input_snapshot = inputs, fr_output_digest = None, fr_started_at = None,
     fr_completed_at = None, fr_created_at = now\<rparr>"

definition create_run_insert ::
    "session_ctx \<Rightarrow> timestamp \<Rightarrow> uuid \<Rightarrow> uuid \<Rightarrow> uuid \<Rightarrow> uuid \<Rightarrow> dict \<Rightarrow> flow_db \<Rightarrow> flow_def_error + flow_run \<times> flow_db" where
  "create_run_insert sx now rid dept vid jid inputs db =
    (if vid \<notin> fv_id ` set (fl_versions db) then Inl (DefData DDatabase)
     else case insert_row fr_id (sees_run sx) (new_run now rid dept vid jid inputs) (fl_runs db) of
       Inl e \<Rightarrow> Inl (DefData e)
     | Inr rows \<Rightarrow> Inr (new_run now rid dept vid jid inputs, db\<lparr>fl_runs := rows\<rparr>))"

datatype create_run_error = RunDef flow_def_error | RunJob service_error

definition create_run_of_version ::
    "session_ctx \<Rightarrow> uuid \<Rightarrow> timestamp \<Rightarrow> uuid \<Rightarrow> uuid \<Rightarrow> uuid \<Rightarrow> uuid \<Rightarrow> dict \<Rightarrow> flow_db
      \<Rightarrow> (create_run_error + flow_run) \<times> flow_db" where
  "create_run_of_version sx actor now rid vid jid eid inputs db =
    (case get_definition_by_id sx vid db of
       Inl e \<Rightarrow> (Inl (RunDef e), db)
     | Inr (d, v) \<Rightarrow>
         (let dept = rs_department_id (fd_scope d)
          in case create_run_accept sx actor now rid vid dept jid eid db of
               (Inl e, db1) \<Rightarrow> (Inl (RunJob e), db1)
             | (Inr ref, db1) \<Rightarrow>
                 (case create_run_insert sx now rid dept vid (ref_job_id ref) inputs db1 of
                    Inl e \<Rightarrow> (Inl (RunDef e), db1)
                  | Inr (r, db2) \<Rightarrow> (Inr r, db2))))"

text \<open>The endpoint: the latest version, and inputs without the protected names that are no artifacts.\<close>

definition safe_inputs :: "dict \<Rightarrow> dict" where
  "safe_inputs inputs = filter (\<lambda>(k, v). k \<in> set PROTECTED_PARAMS \<longrightarrow> is_artifact v) inputs"

definition create_run_endpoint ::
    "session_ctx \<Rightarrow> uuid \<Rightarrow> timestamp \<Rightarrow> uuid \<Rightarrow> uuid \<Rightarrow> uuid \<Rightarrow> uuid \<Rightarrow> dict \<Rightarrow> flow_db
      \<Rightarrow> (create_run_error + flow_run) \<times> flow_db" where
  "create_run_endpoint sx actor now rid fid jid eid inputs db =
    (case get_definition sx fid db of
       Inl e \<Rightarrow> (Inl (RunDef e), db)
     | Inr (d, None) \<Rightarrow> (Inl (RunDef (def_fail ''validation_failed'' [(''flow_id'', JStr (uuid_str fid))])), db)
     | Inr (d, Some v) \<Rightarrow> create_run_of_version sx actor now rid (fv_id v) jid eid (safe_inputs inputs) db)"

end
