(* ===== verification/FlowStore.thy ===== *)
theory FlowStore imports FlowDefinitions begin

text \<open>
  Any sequence of operations on flow definitions and runs, the invariant of their tables, and what it
  gives the engine: a stored version can always be parsed and sorted, so that a run of it never stops
  for the shape of its graph.
\<close>

section \<open>Steps\<close>

text \<open>
  The parameters of a publication (registry, parser, schema library) may change from step to step;
  the digest function is the same throughout. The engine and the deletion of single runs change
  runs, executions and jobs, but neither definitions nor versions, and they add no run.
\<close>

definition empty_flows :: "job_db \<Rightarrow> flow_db" where
  "empty_flows jobs = \<lparr>fl_defs = [], fl_versions = [], fl_runs = [], fl_execs = [], fl_jobs = jobs\<rparr>"

definition run_refs :: "flow_db \<Rightarrow> (uuid \<times> uuid) set" where
  "run_refs db = (\<lambda>r. (fr_id r, fr_flow_version_id r)) ` set (fl_runs db)"

inductive flow_step :: "(json \<Rightarrow> string) \<Rightarrow> flow_db \<Rightarrow> flow_db \<Rightarrow> bool" for sha where
  creates_def: "create_definition sx actor now fid code name nodes edges dept project operator ocode db = Inr (d, db') \<Longrightarrow>
    flow_step sha db db'"
| publishes_flow: "publish_flow_version sx yaml conforms sha reg now vid fid nodes edges seed db = Inr (v, db') \<Longrightarrow>
    flow_step sha db db'"
| sets_def_status: "set_def_status sx now st fid db = Inr (d, db') \<Longrightarrow> st \<in> {''deprecated'', ''published''} \<Longrightarrow>
    flow_step sha db db'"
| updates_def: "update_definition sx now fid name dept project operator ocode db = Inr (d, db') \<Longrightarrow> flow_step sha db db'"
| deletes_flow: "delete_flow sx fid db = Inr db' \<Longrightarrow> flow_step sha db db'"
| accepts_run: "create_run_accept sx actor now rid vid dept jid eid db = (res, db') \<Longrightarrow> flow_step sha db db'"
| inserts_run: "create_run_insert sx now rid dept vid jid inputs db = Inr (r, db') \<Longrightarrow> flow_step sha db db'"
| runs_flows: "fl_defs db' = fl_defs db \<Longrightarrow> fl_versions db' = fl_versions db \<Longrightarrow> run_refs db' \<subseteq> run_refs db \<Longrightarrow>
    flow_step sha db db'"

definition reachable_flows :: "(json \<Rightarrow> string) \<Rightarrow> flow_db \<Rightarrow> bool" where
  "reachable_flows sha db \<longleftrightarrow> (\<exists>jobs. (flow_step sha)\<^sup>*\<^sup>* (empty_flows jobs) db)"

section \<open>The invariant\<close>

definition executable_graph :: "flow_version \<Rightarrow> flow_node list \<Rightarrow> flow_edge list \<Rightarrow> bool" where
  "executable_graph v nodes edges \<longleftrightarrow>
    nodes_from_json (fv_nodes_json v) = Some nodes \<and> edges_from_json (fv_edges_json v) = Some edges
    \<and> (\<exists>order. topological_sort nodes edges = Inr order)"

definition flow_version_ok :: "(json \<Rightarrow> string) \<Rightarrow> flow_version \<Rightarrow> bool" where
  "flow_version_ok sha v \<longleftrightarrow> (\<exists>nodes edges. executable_graph v nodes edges
    \<and> fv_digest v = compute_flow_digest sha nodes edges (fv_random_seed v)) \<and> fv_status v = ''published''"

definition flow_inv :: "(json \<Rightarrow> string) \<Rightarrow> flow_db \<Rightarrow> bool" where
  "flow_inv sha db \<longleftrightarrow> unique_rows fd_id (fl_defs db) \<and> unique_rows fv_id (fl_versions db)
    \<and> numbered_rows fv_definition_id fv_version (fl_versions db)
    \<and> (\<forall>v\<in>set (fl_versions db). flow_version_ok sha v \<and> fv_definition_id v \<in> fd_id ` set (fl_defs db))
    \<and> snd ` run_refs db \<subseteq> fv_id ` set (fl_versions db)"

lemma flow_inv_empty: "flow_inv sha (empty_flows jobs)"
  by (simp add: flow_inv_def empty_flows_def run_refs_def)

lemma check_dag_None: "check_dag nodes edges = None \<Longrightarrow> \<exists>order. topological_sort nodes edges = Inr order"
  using validate_dag_sorts [of nodes edges] by (auto simp: check_dag_def split: if_splits)

lemma new_version_ok:
  assumes "validate_flow sx yaml conforms reg nodes edges = None"
  shows "flow_version_ok sha (new_flow_version sha vid fid n nodes edges seed)"
proof -
  have "\<exists>order. topological_sort nodes edges = Inr order"
    using assms by (intro check_dag_None) (auto simp: validate_flow_def split: option.splits)
  then show ?thesis
    using all_some_map [of node_from_dict node_to_dict, OF node_round_trip, of nodes]
      all_some_map [of edge_from_dict edge_to_dict, OF edge_round_trip, of edges]
    by (auto simp: flow_version_ok_def executable_graph_def new_flow_version_def nodes_to_json_def edges_to_json_def)
qed

lemma find_defD: "find_def sx fid db = Some d \<Longrightarrow> d \<in> set (fl_defs db) \<and> fd_id d = fid \<and> sees_def sx d"
  by (auto simp: find_def_def def_row_def dest!: sql_find_SomeD)

interpretation def_status_upd: versioned_update fd_id "def_status_values now st" fd_lock_version for now st
  by unfold_locales (simp_all add: def_status_values_def)

lemma flow_inv_defs:
  assumes "flow_inv sha db" and "fl_versions db' = fl_versions db" and "run_refs db' \<subseteq> run_refs db"
    and "unique_rows fd_id (fl_defs db')" and "fd_id ` set (fl_defs db) \<subseteq> fd_id ` set (fl_defs db')"
  shows "flow_inv sha db'"
proof -
  have "snd ` run_refs db' \<subseteq> fv_id ` set (fl_versions db')"
    unfolding assms(2)
    by (rule order_trans [OF image_mono [OF assms(3)]]) (use assms(1) in \<open>simp add: flow_inv_def\<close>)
  then show ?thesis
    using assms unfolding flow_inv_def by (auto simp: subset_iff)
qed

lemma run_refs_cong: "fl_runs db' = fl_runs db \<Longrightarrow> run_refs db' = run_refs db"
  by (simp add: run_refs_def)

lemma publish_version_inv:
  assumes "publish_flow_version sx yaml conforms sha reg now vid fid nodes edges seed db = Inr (v, db')"
    and "flow_inv sha db"
  shows "flow_inv sha db'"
proof -
  let ?n = "max_number fv_definition_id fv_version fid (fl_versions db) + 1"
  have valid: "validate_flow sx yaml conforms reg nodes edges = None"
    and ins: "publish_insert_version sx sha now vid fid nodes edges seed db = Inr (v, db')"
    using assms(1) by (auto simp: publish_flow_version_def split: option.splits)
  obtain d where d: "find_def sx fid db = Some d"
    using ins by (auto simp: publish_insert_version_def split: option.splits)
  have v: "v = new_flow_version sha vid fid ?n nodes edges seed" "vid \<notin> fv_id ` set (fl_versions db)"
    and db': "fl_versions db' = fl_versions db @ [v]" "fl_runs db' = fl_runs db"
      "fl_defs db' = sql_update (\<lambda>x. fd_id x = fid) (def_status_values now ''published'') (fl_defs db)"
    using ins d by (auto simp: publish_insert_version_def Let_def insert_row_def new_flow_version_def
        split: sum.splits if_splits)
  have ids: "fd_id ` set (fl_defs db') = fd_id ` set (fl_defs db)" "unique_rows fd_id (fl_defs db')"
    using assms(2) by (simp_all add: db'(3) def_status_upd.keys_update def_status_upd.unique_update flow_inv_def)
  have "numbered_rows fv_definition_id fv_version (fl_versions db')"
    unfolding db'(1)
    by (rule numbered_rows_snoc) (use assms(2) v(1) in \<open>simp_all add: flow_inv_def new_flow_version_def\<close>)
  moreover have "unique_rows fv_id (fl_versions db')"
    using assms(2) v by (simp add: db'(1) unique_rows_snoc flow_inv_def new_flow_version_def)
  moreover have "flow_version_ok sha v \<and> fv_definition_id v \<in> fd_id ` set (fl_defs db')"
    using new_version_ok [OF valid] find_defD [OF d] unfolding ids(1) v(1) by (auto simp: new_flow_version_def)
  moreover have "\<forall>w\<in>set (fl_versions db). flow_version_ok sha w \<and> fv_definition_id w \<in> fd_id ` set (fl_defs db')"
    using assms(2) unfolding ids(1) by (simp add: flow_inv_def)
  moreover have "snd ` run_refs db' \<subseteq> fv_id ` set (fl_versions db')"
    using assms(2) by (auto simp: run_refs_cong [OF db'(2)] db'(1) flow_inv_def)
  ultimately show ?thesis
    using ids(2) by (auto simp: flow_inv_def db'(1))
qed

lemma delete_flow_tables:
  assumes "delete_flow sx fid db = Inr db'"
  shows "fl_versions db' = filter (\<lambda>v. fv_definition_id v \<noteq> fid) (fl_versions db)"
    "fl_defs db' = filter (\<lambda>d. \<not> def_row sx fid d) (fl_defs db)"
    "fl_runs db' = filter (\<lambda>r. fr_flow_version_id r \<notin> flow_version_ids fid db) (fl_runs db)"
    "fl_execs db' = filter (\<lambda>e. ne_flow_run_id e \<notin>
       fr_id ` {r \<in> set (fl_runs db). fr_flow_version_id r \<in> flow_version_ids fid db}) (fl_execs db)"
    "fl_jobs db' = fl_jobs db"
proof -
  have all: "\<forall>r\<in>set (fl_runs db). fr_flow_version_id r \<in> flow_version_ids fid db \<longrightarrow> sees_run sx r"
    using assms by (auto simp: delete_flow_def Let_def doomed_run_def split: if_splits)
  then have doomed: "doomed_run sx fid db r \<longleftrightarrow> fr_flow_version_id r \<in> flow_version_ids fid db"
    if "r \<in> set (fl_runs db)" for r
    using that by (auto simp: doomed_run_def)
  have "set (filter (doomed_run sx fid db) (fl_runs db)) =
      {r \<in> set (fl_runs db). fr_flow_version_id r \<in> flow_version_ids fid db}"
    using doomed by auto
  then show "fl_versions db' = filter (\<lambda>v. fv_definition_id v \<noteq> fid) (fl_versions db)"
    "fl_defs db' = filter (\<lambda>d. \<not> def_row sx fid d) (fl_defs db)"
    "fl_runs db' = filter (\<lambda>r. fr_flow_version_id r \<notin> flow_version_ids fid db) (fl_runs db)"
    "fl_execs db' = filter (\<lambda>e. ne_flow_run_id e \<notin>
       fr_id ` {r \<in> set (fl_runs db). fr_flow_version_id r \<in> flow_version_ids fid db}) (fl_execs db)"
    "fl_jobs db' = fl_jobs db"
    using assms doomed by (auto simp: delete_flow_def Let_def split: if_splits intro!: filter_cong)
qed

lemma in_version_ids: "v \<in> set (fl_versions db) \<Longrightarrow> unique_rows fv_id (fl_versions db) \<Longrightarrow>
    fv_id v \<in> flow_version_ids fid db \<longleftrightarrow> fv_definition_id v = fid"
  using unique_rows_eq [of fv_id "fl_versions db"]
  by (auto simp: flow_version_ids_def versions_of_flow_def image_iff)

lemma delete_flow_inv:
  assumes "delete_flow sx fid db = Inr db'" and "flow_inv sha db"
  shows "flow_inv sha db'"
proof -
  note t = delete_flow_tables [OF assms(1)]
  have u: "unique_rows fv_id (fl_versions db)"
    using assms(2) by (simp add: flow_inv_def)
  have "fv_definition_id v \<in> fd_id ` set (fl_defs db')" if "v \<in> set (fl_versions db')" for v
  proof -
    have "v \<in> set (fl_versions db)"
      using that by (simp add: t(1))
    then obtain d where "d \<in> set (fl_defs db)" "fd_id d = fv_definition_id v"
      using assms(2) unfolding flow_inv_def by (metis imageE)
    then show ?thesis
      using that by (auto simp: t(1,2) def_row_def image_iff intro!: bexI [of _ d])
  qed
  moreover have "snd ` run_refs db' \<subseteq> fv_id ` set (fl_versions db')"
  proof
    fix x assume "x \<in> snd ` run_refs db'"
    then obtain r where r: "r \<in> set (fl_runs db)" "x = fr_flow_version_id r" "x \<notin> flow_version_ids fid db"
      by (auto simp: run_refs_def t(3))
    then have "x \<in> fv_id ` set (fl_versions db)"
      using assms(2) by (force simp: flow_inv_def run_refs_def)
    then show "x \<in> fv_id ` set (fl_versions db')"
      using r(3) in_version_ids [OF _ u] by (auto simp: t(1) image_iff)
  qed
  ultimately show ?thesis
    using assms(2) by (auto simp: flow_inv_def t(1,2) unique_rows_def distinct_map_filter numbered_drop_owner)
qed

lemma flow_step_inv:
  assumes "flow_step sha db db'" and "flow_inv sha db"
  shows "flow_inv sha db'"
  using assms(1)
proof cases
  case (creates_def sx actor now fid code name nodes edges dept project operator ocode d)
  have "db' = db\<lparr>fl_defs := fl_defs db @ [d]\<rparr>" "fd_id d \<notin> fd_id ` set (fl_defs db)"
    using creates_def
    by (auto simp: create_definition_def Let_def insert_row_def split: option.splits if_splits sum.splits)
  then show ?thesis
    using assms(2) by (intro flow_inv_defs [OF assms(2)]) (auto simp: run_refs_def unique_rows_snoc flow_inv_def)
next
  case publishes_flow
  then show ?thesis
    using publish_version_inv assms(2) by blast
next
  case (sets_def_status sx now st fid d)
  then have "db' = db\<lparr>fl_defs := sql_update (\<lambda>x. fd_id x = fid) (def_status_values now st) (fl_defs db)\<rparr>"
    by (auto simp: set_def_status_def split: option.splits)
  then show ?thesis
    using assms(2)
    by (intro flow_inv_defs [OF assms(2)])
      (simp_all add: run_refs_def def_status_upd.keys_update def_status_upd.unique_update flow_inv_def)
next
  case (updates_def sx now fid name dept project operator ocode d)
  then obtain d0 where d0: "find_def sx fid db = Some d0" "fd_id d = fd_id d0"
      "db' = db\<lparr>fl_defs := sql_update (\<lambda>x. fd_id x = fid) (\<lambda>_. d) (fl_defs db)\<rparr>"
    by (auto simp: update_definition_def update_values_def Let_def split: option.splits if_splits)
  have "map fd_id (sql_update (\<lambda>x. fd_id x = fid) (\<lambda>_. d) rows) = map fd_id rows" for rows
    using find_defD [OF d0(1)] d0(2) by (induction rows) auto
  then have "map fd_id (fl_defs db') = map fd_id (fl_defs db)"
    by (simp add: d0(3))
  then have "fd_id ` set (fl_defs db') = fd_id ` set (fl_defs db)" "unique_rows fd_id (fl_defs db')"
    using assms(2) by (metis list.set_map, simp add: unique_rows_def flow_inv_def)
  then show ?thesis
    using d0(3) by (intro flow_inv_defs [OF assms(2)]) (simp_all add: run_refs_def)
next
  case deletes_flow
  then show ?thesis
    using delete_flow_inv assms(2) by blast
next
  case (accepts_run sx actor now rid vid dept jid eid res)
  then have "fl_defs db' = fl_defs db" "fl_versions db' = fl_versions db" "fl_runs db' = fl_runs db"
    by (auto simp: create_run_accept_def split: prod.splits)
  then show ?thesis
    using assms(2) by (intro flow_inv_defs [OF assms(2)]) (simp_all add: run_refs_def flow_inv_def)
next
  case (inserts_run sx now rid dept vid jid inputs r)
  then have "vid \<in> fv_id ` set (fl_versions db)" "fr_flow_version_id r = vid"
      "db' = db\<lparr>fl_runs := fl_runs db @ [r]\<rparr>"
    by (auto simp: create_run_insert_def insert_row_def new_run_def split: if_splits)
  then show ?thesis
    using assms(2) by (auto simp: flow_inv_def run_refs_def)
next
  case runs_flows
  then show ?thesis
    using assms(2) by (intro flow_inv_defs [OF assms(2)]) (simp_all add: flow_inv_def)
qed

lemma reachable_flow_inv:
  assumes "reachable_flows sha db"
  shows "flow_inv sha db"
proof -
  obtain jobs where "(flow_step sha)\<^sup>*\<^sup>* (empty_flows jobs) db"
    using assms by (auto simp: reachable_flows_def)
  then show ?thesis
    by (induction rule: rtranclp_induct) (auto intro: flow_inv_empty flow_step_inv)
qed

section \<open>The loop of the engine\<close>

lemma run_loop_returns:
  assumes "map_ok nm order"
  shows "\<exists>s'. run_node_loop env rid nm snapshot jid vd succeeded outs smr order s = (Inr (), s')"
  using assms
proof (induction order arbitrary: outs smr s)
  case (Cons n order)
  then have rest: "map_ok nm order" and "\<exists>node. dict_get nm n = Some node"
    by (auto simp: map_ok_def)
  then obtain node where "dict_get nm n = Some node"
    by blast
  then show ?case
    using Cons.IH [OF rest] by (auto simp: Let_def split: prod.split)
qed simp

section \<open>A small store\<close>

definition fl_node :: flow_node where
  "fl_node = \<lparr>node_id = ''n'', component_name = ''iface_a'', component_version = ''1.0.0'', params = [], input_bindings = []\<rparr>"

definition fl_def0 :: flow_def where
  "fl_def0 = new_def sx_reg 7 1 5 ''task_a'' ''Milling'' None None None None"

definition fl_version0 :: "(json \<Rightarrow> string) \<Rightarrow> flow_version" where
  "fl_version0 sha = new_flow_version sha 11 5 1 [fl_node] [] 0"

definition no_jobs :: job_db where
  "no_jobs = \<lparr>db_jobs = [], db_outbox = []\<rparr>"

definition fl_demo0 :: flow_db where
  "fl_demo0 = (empty_flows no_jobs)\<lparr>fl_defs := [fl_def0]\<rparr>"

definition fl_demo1 :: "(json \<Rightarrow> string) \<Rightarrow> flow_db" where
  "fl_demo1 sha = (empty_flows no_jobs)
    \<lparr>fl_defs := [def_status_values 2 ''published'' fl_def0], fl_versions := [fl_version0 sha]\<rparr>"

definition fl_run0 :: flow_run where
  "fl_run0 = new_run 3 21 1 11 31 []"

definition fl_demo2 :: "(json \<Rightarrow> string) \<Rightarrow> flow_db" where
  "fl_demo2 sha = fl_demo1 sha\<lparr>fl_runs := [fl_run0]\<rparr>"

definition fl_yaml :: "string \<Rightarrow> json option" where
  "fl_yaml s = Some (JObj [(''name'', JStr ''mill''), (''kind'', JStr ''transform'')])"

lemma fl_def0_sel [simp]: "fd_id fl_def0 = 5" "sees_def sx_reg fl_def0"
  by (simp_all add: fl_def0_def new_def_def sees_def_def demo_reg_simps)

lemma fl_create:
  "create_definition sx_reg 7 1 5 ''task_a'' ''Milling'' [] [] None None None None (empty_flows no_jobs) = Inr (fl_def0, fl_demo0)"
  using fl_def0_sel
  by (simp add: create_definition_def empty_flows_def sql_find_def Let_def insert_row_def fl_demo0_def flip: fl_def0_def)

lemma fl_validate: "validate_flow sx_reg fl_yaml (\<lambda>_ _. True) demo_registry [fl_node] [] = None"
proof -
  have d: "check_dag [fl_node] [] = None"
    by (simp add: check_dag_def validate_dag_def Let_def kahn_def mk_validation_def dict_of_def dict_keys_def fl_node_def
        dict_get_def)
  have v: "get_version sx_reg ''iface_a'' ''1.0.0'' demo_registry = Inr demo_v1"
    by (simp add: get_version_def find_component_def sql_find_def demo_registry_def has_version_def)
  have m: "build_manifest_from_version fl_yaml demo_v1 = Inr
      \<lparr>mn_name = ''mill'', mn_display_name = [], mn_version = ''auto'', mn_kind = ''transform'', mn_runtime = ''python'',
       mn_inputs = [], mn_outputs = [], mn_parameters = [], mn_dependencies = [],
       mn_raw_yaml = cv_manifest_yaml demo_v1, mn_sha256 = cv_manifest_sha256 demo_v1\<rparr>"
    by (simp add: build_manifest_from_version_def fl_yaml_def build_manifest_def dict_get_def get_or_def)
  show ?thesis
    unfolding validate_flow_def d
    by (simp add: check_port_types_def mk_validation_def Let_def registered_ports_def v fl_node_def
        check_node_def m check_param_schema_def node_manifest_def)
qed

lemma fl_publish:
  "publish_flow_version sx_reg fl_yaml (\<lambda>_ _. True) sha demo_registry 2 11 5 [fl_node] [] 0 fl_demo0 =
    Inr (fl_version0 sha, fl_demo1 sha)"
  by (simp add: publish_flow_version_def fl_validate publish_insert_version_def find_def_def def_row_def sql_find_def
      fl_demo0_def empty_flows_def max_number_def insert_row_def fl_demo1_def fl_version0_def Let_def)

lemma fl_insert: "create_run_insert sx_reg 3 21 1 11 31 [] (fl_demo1 sha) = Inr (fl_run0, fl_demo2 sha)"
  by (simp add: create_run_insert_def fl_demo1_def empty_flows_def fl_version0_def new_flow_version_def insert_row_def
      sees_run_def sees_b_def policy_b_def new_run_def sx_reg_def fl_run0_def fl_demo2_def)

lemma fl_reachable: "reachable_flows sha (fl_demo1 sha)" "reachable_flows sha (fl_demo2 sha)"
proof -
  have "(flow_step sha)\<^sup>*\<^sup>* (empty_flows no_jobs) (fl_demo1 sha)"
    using creates_def [OF fl_create] publishes_flow [OF fl_publish] by (meson converse_rtranclp_into_rtranclp rtranclp.rtrancl_refl)
  moreover have "flow_step sha (fl_demo1 sha) (fl_demo2 sha)"
    by (rule inserts_run [OF fl_insert])
  ultimately show "reachable_flows sha (fl_demo1 sha)" "reachable_flows sha (fl_demo2 sha)"
    unfolding reachable_flows_def by (blast, meson rtranclp.rtrancl_into_rtrancl)
qed

section \<open>Properties\<close>

text \<open>
  C37. Stored versions are well formed. In every reachable state the two JSON columns of a version read
  back as nodes and edges that the topological sort orders, its digest is the digest of exactly these, and
  its number lies between 1 and the number of versions of its definition, without gaps.
\<close>

theorem flow_versions_well_formed:
  assumes "reachable_flows sha db" and "v \<in> set (fl_versions db)"
  shows "\<exists>nodes edges. executable_graph v nodes edges \<and>
      fv_digest v = compute_flow_digest sha nodes edges (fv_random_seed v) \<and>
      map fv_version (versions_of_flow (fv_definition_id v) db) =
        [1..<Suc (length (versions_of_flow (fv_definition_id v) db))]"
  using reachable_flow_inv [OF assms(1)] assms(2)
  by (auto simp: flow_inv_def flow_version_ok_def numbered_rows_def versions_of_flow_def simp del: upt_Suc)

lemma flow_versions_well_formed_witness:
  "\<forall>sha. \<exists>nodes edges. executable_graph (fl_version0 sha) nodes edges"
proof
  fix sha
  show "\<exists>nodes edges. executable_graph (fl_version0 sha) nodes edges"
    using flow_versions_well_formed [OF fl_reachable(1) [of sha], of "fl_version0 sha"]
    by (auto simp: fl_demo1_def)
qed



text \<open>
  A job can be executed before its run exists. \<open>create_run\<close> accepts the job in one transaction and
  inserts the run in a later one. A worker that takes the job in between finds no run: the engine raises
  \<open>not_found\<close>, an error that is not retried, and the run inserted afterwards stays pending.
\<close>

theorem job_starts_before_run:
  assumes "reachable_flows sha db" and "create_run_accept sx actor now rid vid dept jid eid db = (Inr ref, db1)"
    and "rid \<notin> fr_id ` set (fl_runs db)" and "fs_runs s = fl_runs db1"
    and "create_run_insert sx now' rid dept vid jid' inputs db1 = Inr (r, db2)"
  shows "flow_execute env rid s = (Inl (FlowApp (run_not_found rid)), s) \<and>
    err_retryable (run_not_found rid) = False \<and> r \<in> set (fl_runs db2) \<and> fr_status r = RunPending"
proof -
  have "fl_runs db1 = fl_runs db"
    using assms(2) by (auto simp: create_run_accept_def split: prod.splits)
  then have "find_run env rid s = None"
    using assms(3,4) by (auto simp: find_run_def sql_find_None_iff run_where_def image_iff)
  then show ?thesis
    using assms(5)
    by (auto simp: flow_execute_def load_run_def run_not_found_def create_run_insert_def insert_row_def new_run_def
        split: if_splits)
qed

lemma fl_accept:
  "\<exists>ref db1. create_run_accept sx_reg 7 3 21 11 1 31 41 (fl_demo1 sha) = (Inr ref, db1) \<and> fl_runs db1 = [] \<and>
     fl_versions db1 = [fl_version0 sha]"
proof -
  have "\<exists>ref jobs. accept v now dept actor ''flow_execute'' p key jid eid no_jobs = (Inr ref, jobs)"
    for v now dept actor p key jid eid
    by (simp add: accept_def accept_read_def is_blank_def py_strip_def strip_by_def is_py_space_def
        get_by_idempotency_dept_def scalar_one_or_none_def no_jobs_def accept_write_def insert_job_def)
  then obtain ref jobs where "accept (sees_b sx_reg) 3 (sx_dept sx_reg) 7 ''flow_execute'' (run_payload 21 11 1)
      (''flow-run-'' @ uuid_str 21) 31 41 no_jobs = (Inr ref, jobs)"
    by blast
  then show ?thesis
    by (simp add: create_run_accept_def fl_demo1_def empty_flows_def)
qed

lemma job_starts_before_run_witness:
  "\<forall>env. err_retryable (run_not_found 21) = False \<and>
    flow_execute env 21 \<lparr>fs_runs = [], fs_versions = [], fs_execs = [], fs_jobs = [], fs_events = [], fs_tick = 0\<rparr> =
    (Inl (FlowApp (run_not_found 21)),
     \<lparr>fs_runs = [], fs_versions = [], fs_execs = [], fs_jobs = [], fs_events = [], fs_tick = 0\<rparr>)"
proof
  fix env
  let ?s = "\<lparr>fs_runs = [], fs_versions = [], fs_execs = [], fs_jobs = [], fs_events = [], fs_tick = 0\<rparr>"
  obtain ref db1 where a: "create_run_accept sx_reg 7 3 21 11 1 31 41 (fl_demo1 (\<lambda>_. [])) = (Inr ref, db1)"
      "fl_runs db1 = []" "fl_versions db1 = [fl_version0 (\<lambda>_. [])]"
    using fl_accept by blast
  have i: "create_run_insert sx_reg 3 21 1 11 31 [] db1 = Inr (fl_run0, db1\<lparr>fl_runs := [fl_run0]\<rparr>)"
    by (simp add: create_run_insert_def a(2,3) fl_version0_def new_flow_version_def insert_row_def
        sees_run_def sees_b_def policy_b_def new_run_def sx_reg_def fl_run0_def)
  show "err_retryable (run_not_found 21) = False \<and> flow_execute env 21 ?s = (Inl (FlowApp (run_not_found 21)), ?s)"
    using job_starts_before_run [OF fl_reachable(1) a(1) _ _ i, of ?s env] by (simp add: a(2) fl_demo1_def empty_flows_def)
qed

text \<open>
  Deletion is complete. A successful \<open>delete_flow\<close> leaves no version, run or node execution of the flow
  behind and touches no other flow; it leaves the jobs.
\<close>

theorem delete_flow_complete:
  assumes "reachable_flows sha db" and "delete_flow sx fid db = Inr db'"
  shows "versions_of_flow fid db' = [] \<and> fl_jobs db' = fl_jobs db \<and>
    snd ` run_refs db' \<inter> flow_version_ids fid db = {} \<and>
    (\<forall>g. g \<noteq> fid \<longrightarrow> versions_of_flow g db' = versions_of_flow g db) \<and>
    {r \<in> set (fl_runs db'). fr_flow_version_id r \<notin> flow_version_ids fid db} =
    {r \<in> set (fl_runs db). fr_flow_version_id r \<notin> flow_version_ids fid db}"
proof -
  note t = delete_flow_tables [OF assms(2)]
  have "versions_of_flow g db' = versions_of_flow g db" if "g \<noteq> fid" for g
    unfolding versions_of_flow_def rows_of_def t(1) filter_filter by (rule filter_cong) (use that in auto)
  then show ?thesis
    using t by (auto simp: versions_of_flow_def rows_of_def filter_empty_conv run_refs_def)
qed

text \<open>
  A moved flow may be impossible to delete. A run keeps the department that its flow had when it was
  created; once the flow has moved, a user who does not see that department cannot delete the flow.
\<close>

theorem moved_flow_undeletable:
  assumes "r \<in> set (fl_runs db)" and "fr_flow_version_id r \<in> flow_version_ids fid db"
    and "fr_department_id r \<notin> set (sx_visible sx)"
  shows "delete_flow sx fid db = Inl (DefData DDatabase)"
  using assms by (auto simp: delete_flow_def Let_def doomed_run_def sees_run_def sees_b_def policy_b_def)

text \<open>
  The text that should clear the department of a flow violates the column's constraint, and
  restoring a definition publishes it even when it was never published.
\<close>

theorem clearing_department_fails:
  assumes "find_def sx fid db = Some d"
  shows "\<exists>e. update_definition sx now fid name (Some []) project operator ocode db = Inl e"
  using assms by (simp add: update_definition_def optional_uuid_def split: option.split)

theorem restore_publishes_draft:
  assumes "find_def sx fid db = Some d" and "fd_status d = ''draft''" and "versions_of_flow fid db = []"
  shows "\<exists>d' db'. restore_definition sx now fid db = Inr (d', db') \<and> fd_status d' = ''published'' \<and>
    versions_of_flow fid db' = []"
  using assms by (simp add: restore_definition_def set_def_status_def def_status_values_def versions_of_flow_def)

end
