(* ===== verification/Provenance.thy ===== *)
theory Provenance imports Sessions Pagination begin

text \<open>
  Evidence, recipes, derivations and the graph that links them: the rows
  (\<open>packages/provenance/entities.py\<close>), \<open>EvidenceService\<close> (\<open>evidence.py\<close>), \<open>RecipeService\<close>
  (\<open>recipes.py\<close>), the registry of executors (\<open>algorithms.py\<close>), \<open>DerivationService\<close>
  (\<open>derivations.py\<close>) and \<open>ProvenanceGraphService\<close> (\<open>graph.py\<close>). Every operation is one transaction:
  it returns its result with the new state, or an error with the state unchanged.
\<close>

section \<open>Rows\<close>

record fact =
  fc_id :: uuid
  fc_created_at :: timestamp
  fc_status :: string
  fc_subject_id :: string
  fc_scope :: row_scope

record evidence_set =
  es_id :: uuid
  es_name :: string
  es_status :: string
  es_lock_version :: nat
  es_created_at :: timestamp
  es_updated_at :: timestamp
  es_created_by :: "uuid option"
  es_scope :: row_scope

record set_version =
  sv_id :: uuid
  sv_set_id :: uuid
  sv_version :: nat
  sv_status :: string
  sv_members :: "json list"
  sv_member_count :: nat
  sv_created_at :: timestamp
  sv_frozen_at :: timestamp

record recipe =
  re_id :: uuid
  re_code :: string
  re_display_name :: string
  re_status :: string
  re_lock_version :: nat
  re_created_at :: timestamp
  re_updated_at :: timestamp
  re_scope :: row_scope

record recipe_version =
  rv_id :: uuid
  rv_recipe_id :: uuid
  rv_version :: nat
  rv_component_name :: string
  rv_component_version :: string
  rv_parameters :: dict
  rv_random_seed :: int
  rv_output_definitions :: "string list"
  rv_status :: string
  rv_created_at :: timestamp
  rv_published_at :: timestamp

record derivation_run =
  dr_id :: uuid
  dr_evidence_set_version_id :: uuid
  dr_recipe_version_id :: uuid
  dr_job_id :: "uuid option"
  dr_status :: string
  dr_output_digest :: "string option"
  dr_outputs :: "json list option"
  dr_started_at :: "timestamp option"
  dr_completed_at :: "timestamp option"
  dr_error :: "string option"
  dr_created_at :: timestamp
  dr_department_id :: uuid

record prov_edge =
  pe_id :: uuid
  pe_derivation_run_id :: uuid
  pe_department_id :: uuid
  pe_source_type :: string
  pe_source_id :: uuid
  pe_target_type :: string
  pe_target_id :: uuid
  pe_edge_type :: string
  pe_metadata :: "dict option"
  pe_created_at :: timestamp

record prov_db =
  pv_facts :: "fact list"
  pv_sets :: "evidence_set list"
  pv_set_versions :: "set_version list"
  pv_recipes :: "recipe list"
  pv_recipe_versions :: "recipe_version list"
  pv_runs :: "derivation_run list"
  pv_edges :: "prov_edge list"

section \<open>Evidence\<close>

record evidence_member =
  em_fact_id :: uuid
  em_observation_id :: "uuid option"
  em_decision :: string
  em_reason :: string

definition member_to_dict :: "evidence_member \<Rightarrow> json" where
  "member_to_dict m = JObj
     [(''fact_id'', JStr (uuid_str (em_fact_id m))),
      (''observation_id'', case em_observation_id m of None \<Rightarrow> JNull | Some ob \<Rightarrow> JStr (uuid_str ob)),
      (''decision'', JStr (em_decision m)), (''reason'', JStr (em_reason m))]"

text \<open>
  Reading back. \<open>None\<close>: a missing key, a bad UUID, or a decision or reason that is no string, which
  no operation stores.
\<close>

definition member_from_dict :: "json \<Rightarrow> evidence_member option" where
  "member_from_dict data =
    Option.bind (json_obj data) (\<lambda>d.
    Option.bind (Option.bind (dict_get d ''fact_id'') json_uuid) (\<lambda>f.
    Option.bind (case dict_get d ''observation_id'' of
                   None \<Rightarrow> Some None
                 | Some ob \<Rightarrow> if py_truthy ob then map_option Some (json_uuid ob) else Some None) (\<lambda>ob.
    Option.bind (json_str (dict_get d ''decision'')) (\<lambda>c.
    Option.bind (case dict_get d ''reason'' of None \<Rightarrow> Some [] | Some r \<Rightarrow> json_str (Some r)) (\<lambda>r.
      Some \<lparr>em_fact_id = f, em_observation_id = ob, em_decision = c, em_reason = r\<rparr>)))))"

definition set_row :: "session_ctx \<Rightarrow> uuid \<Rightarrow> 'z prov_db_scheme \<Rightarrow> evidence_set option" where
  "set_row sx sid db = sql_find (\<lambda>e. es_id e = sid \<and> sees_a sx (es_scope e)) (pv_sets db)"

definition create_set ::
    "session_ctx \<Rightarrow> timestamp \<Rightarrow> uuid \<Rightarrow> string \<Rightarrow> 'z prov_db_scheme
      \<Rightarrow> (data_error + uuid \<times> string \<times> string) \<times> 'z prov_db_scheme" where
  "create_set sx now new_id name db =
    (if is_blank name then (Inl (app_fail ''validation_failed'' [(''name'', JStr ''required'')]), db)
     else case sx_actor sx of
       None \<Rightarrow> (Inl DDatabase, db)
     | Some a \<Rightarrow>
         (case insert_row es_id (\<lambda>e. sees_a sx (es_scope e))
            \<lparr>es_id = new_id, es_name = py_strip name, es_status = ''draft'', es_lock_version = 0,
             es_created_at = now, es_updated_at = now, es_created_by = Some a, es_scope = tree_scope sx a\<rparr>
            (pv_sets db) of
            Inl e \<Rightarrow> (Inl e, db)
          | Inr rows \<Rightarrow> (Inr (new_id, py_strip name, ''draft''), db\<lparr>pv_sets := rows\<rparr>)))"

text \<open>The facts that \<open>freeze\<close> selects, and the members it makes of them.\<close>

definition REASON_AUTO :: string where
  "REASON_AUTO =
    [CHR 0xE8, CHR 0x87, CHR 0xAA, CHR 0xE5, CHR 0x8A, CHR 0xA8,
     CHR 0xE7, CHR 0xBA, CHR 0xB3, CHR 0xE5, CHR 0x85, CHR 0xA5]"

definition active_facts :: "session_ctx \<Rightarrow> 'z prov_db_scheme \<Rightarrow> fact list" where
  "active_facts sx db =
    sort_key fc_created_at (filter (\<lambda>f. fc_status f = ''active'' \<and> sees_a sx (fc_scope f)) (pv_facts db))"

definition auto_member :: "fact \<Rightarrow> evidence_member" where
  "auto_member f =
    \<lparr>em_fact_id = fc_id f, em_observation_id = None, em_decision = ''included'', em_reason = REASON_AUTO\<rparr>"

definition frozen_values :: "timestamp \<Rightarrow> evidence_set \<Rightarrow> evidence_set" where
  "frozen_values now e =
    e\<lparr>es_status := ''frozen'', es_updated_at := now, es_lock_version := es_lock_version e + 1\<rparr>"

definition freeze ::
    "session_ctx \<Rightarrow> timestamp \<Rightarrow> uuid \<Rightarrow> uuid \<Rightarrow> 'z prov_db_scheme
      \<Rightarrow> (data_error + set_version) \<times> 'z prov_db_scheme" where
  "freeze sx now new_id sid db =
    (case set_row sx sid db of
       None \<Rightarrow> (Inl (app_fail ''not_found'' [(''set_id'', JStr (uuid_str sid))]), db)
     | Some e \<Rightarrow>
         if es_status e = ''frozen''
         then (Inl (app_fail ''evidence_not_frozen'' [(''set_id'', JStr (uuid_str sid))]), db)
         else let members = map (\<lambda>f. member_to_dict (auto_member f)) (active_facts sx db);
                  v = \<lparr>sv_id = new_id, sv_set_id = sid, sv_version = 1, sv_status = ''frozen'',
                       sv_members = members, sv_member_count = length members,
                       sv_created_at = now, sv_frozen_at = now\<rparr>
              in if \<exists>x\<in>set (pv_set_versions db). sv_set_id x = sid \<and> sv_version x = 1
                 then (Inl DDatabase, db)
                 else (case insert_row sv_id (\<lambda>_. True) v (pv_set_versions db) of
                    Inl err \<Rightarrow> (Inl err, db)
                  | Inr rows \<Rightarrow>
                      (Inr v, db\<lparr>pv_set_versions := rows,
                        pv_sets := sql_update (\<lambda>x. es_id x = sid \<and> sees_a sx (es_scope x))
                                     (frozen_values now) (pv_sets db)\<rparr>)))"

definition versions_of_set :: "uuid \<Rightarrow> 'z prov_db_scheme \<Rightarrow> set_version list" where
  "versions_of_set sid db = filter (\<lambda>v. sv_set_id v = sid) (pv_set_versions db)"

text \<open>\<open>get_set\<close>: name, status, then version, version id and member count of the latest version.\<close>

definition get_set ::
    "session_ctx \<Rightarrow> uuid \<Rightarrow> 'z prov_db_scheme \<Rightarrow> data_error + (string \<times> string \<times> nat \<times> uuid option \<times> nat)" where
  "get_set sx sid db =
    (case set_row sx sid db of
       None \<Rightarrow> Inl (app_fail ''not_found'' [(''set_id'', JStr (uuid_str sid))])
     | Some e \<Rightarrow>
         (case latest_by sv_version (versions_of_set sid db) of
            None \<Rightarrow> Inr (es_name e, es_status e, 0, None, 0)
          | Some v \<Rightarrow> Inr (es_name e, es_status e, sv_version v, Some (sv_id v), sv_member_count v)))"

definition version_text :: "nat option \<Rightarrow> string" where
  "version_text v = (case v of None \<Rightarrow> ''None'' | Some n \<Rightarrow> py_str_int (int n))"

definition list_members ::
    "session_ctx \<Rightarrow> uuid \<Rightarrow> nat option \<Rightarrow> 'z prov_db_scheme \<Rightarrow> data_error + evidence_member list" where
  "list_members sx sid version db =
    (case set_row sx sid db of
       None \<Rightarrow> Inl (app_fail ''not_found'' [(''set_id'', JStr (uuid_str sid))])
     | Some _ \<Rightarrow>
         (case (case version of
                  Some n \<Rightarrow> sql_find (\<lambda>v. sv_version v = n) (versions_of_set sid db)
                | None \<Rightarrow> latest_by sv_version (versions_of_set sid db)) of
            None \<Rightarrow> Inl (app_fail ''not_found''
                     [(''set_id'', JStr (uuid_str sid)), (''version'', JStr (version_text version))])
          | Some v \<Rightarrow> (case all_some (map member_from_dict (sv_members v)) of
                        None \<Rightarrow> Inl DPython | Some ms \<Rightarrow> Inr ms)))"

section \<open>Recipes\<close>

definition recipe_row :: "session_ctx \<Rightarrow> uuid \<Rightarrow> 'z prov_db_scheme \<Rightarrow> recipe option" where
  "recipe_row sx rid db = sql_find (\<lambda>r. re_id r = rid \<and> sees_a sx (re_scope r)) (pv_recipes db)"

definition create_recipe ::
    "session_ctx \<Rightarrow> timestamp \<Rightarrow> uuid \<Rightarrow> string \<Rightarrow> string \<Rightarrow> 'z prov_db_scheme
      \<Rightarrow> (data_error + uuid \<times> string \<times> string \<times> string) \<times> 'z prov_db_scheme" where
  "create_recipe sx now new_id code name db =
    (if is_blank code then (Inl (app_fail ''validation_failed'' [(''code'', JStr ''required'')]), db)
     else if is_blank name
     then (Inl (app_fail ''validation_failed'' [(''display_name'', JStr ''required'')]), db)
     else if \<exists>r\<in>set (pv_recipes db). re_code r = py_strip code \<and> sees_a sx (re_scope r)
     then (Inl (app_fail ''conflict'' [(''code'', JStr code)]), db)
     else case sx_actor sx of
       None \<Rightarrow> (Inl DDatabase, db)
     | Some a \<Rightarrow>
         if \<exists>r\<in>set (pv_recipes db). rs_department_id (re_scope r) = sx_dept sx \<and> re_code r = py_strip code
         then (Inl DDatabase, db)
         else (case insert_row re_id (\<lambda>r. sees_a sx (re_scope r))
                \<lparr>re_id = new_id, re_code = py_strip code, re_display_name = py_strip name, re_status = ''draft'',
                 re_lock_version = 0, re_created_at = now, re_updated_at = now, re_scope = tree_scope sx a\<rparr>
                (pv_recipes db) of
            Inl e \<Rightarrow> (Inl e, db)
          | Inr rows \<Rightarrow> (Inr (new_id, py_strip code, py_strip name, ''draft''), db\<lparr>pv_recipes := rows\<rparr>)))"

definition versions_of_recipe :: "uuid \<Rightarrow> 'z prov_db_scheme \<Rightarrow> recipe_version list" where
  "versions_of_recipe rid db = filter (\<lambda>v. rv_recipe_id v = rid) (pv_recipe_versions db)"

definition published_values :: "timestamp \<Rightarrow> recipe \<Rightarrow> recipe" where
  "published_values now r =
    r\<lparr>re_status := ''published'', re_updated_at := now, re_lock_version := re_lock_version r + 1\<rparr>"

definition publish_version ::
    "session_ctx \<Rightarrow> timestamp \<Rightarrow> uuid \<Rightarrow> uuid \<Rightarrow> string \<Rightarrow> string \<Rightarrow> dict \<Rightarrow> int \<Rightarrow> string list
      \<Rightarrow> 'z prov_db_scheme \<Rightarrow> (data_error + recipe_version) \<times> 'z prov_db_scheme" where
  "publish_version sx now new_id rid cname cversion ps seed outs db =
    (if is_blank cname then (Inl (app_fail ''validation_failed'' [(''component_name'', JStr ''required'')]), db)
     else if is_blank cversion
     then (Inl (app_fail ''validation_failed'' [(''component_version'', JStr ''required'')]), db)
     else case recipe_row sx rid db of
       None \<Rightarrow> (Inl (app_fail ''not_found'' [(''recipe_id'', JStr (uuid_str rid))]), db)
     | Some _ \<Rightarrow>
         let new_version = (case latest_by rv_version (versions_of_recipe rid db) of
                              None \<Rightarrow> 1 | Some v \<Rightarrow> rv_version v + 1);
             v = \<lparr>rv_id = new_id, rv_recipe_id = rid, rv_version = new_version,
                  rv_component_name = py_strip cname, rv_component_version = py_strip cversion,
                  rv_parameters = ps, rv_random_seed = seed, rv_output_definitions = outs,
                  rv_status = ''published'', rv_created_at = now, rv_published_at = now\<rparr>
         in (case insert_row rv_id (\<lambda>_. True) v (pv_recipe_versions db) of
               Inl e \<Rightarrow> (Inl e, db)
             | Inr rows \<Rightarrow>
                 (Inr v, db\<lparr>pv_recipe_versions := rows,
                   pv_recipes := sql_update (\<lambda>r. re_id r = rid \<and> sees_a sx (re_scope r))
                                   (published_values now) (pv_recipes db)\<rparr>)))"

definition get_recipe ::
    "session_ctx \<Rightarrow> uuid \<Rightarrow> 'z prov_db_scheme \<Rightarrow> data_error + (string \<times> string \<times> string \<times> recipe_version option)" where
  "get_recipe sx rid db =
    (case recipe_row sx rid db of
       None \<Rightarrow> Inl (app_fail ''not_found'' [(''recipe_id'', JStr (uuid_str rid))])
     | Some r \<Rightarrow> Inr (re_code r, re_display_name r, re_status r,
                     latest_by rv_version (versions_of_recipe rid db)))"

definition list_recipes ::
    "session_ctx \<Rightarrow> (timestamp \<times> uuid) cursor_arg \<Rightarrow> nat \<Rightarrow> 'z prov_db_scheme
      \<Rightarrow> data_error + ((uuid \<times> string \<times> string \<times> string) list \<times> (timestamp \<times> uuid) option)" where
  "list_recipes sx cursor page_size db =
    (case cursor of
       Some (Inl text) \<Rightarrow> Inl (app_fail ''invalid_cursor'' [(''cursor'', JStr text)])
     | _ \<Rightarrow>
         (case keyset_asc (\<lambda>r. (re_created_at r, re_id r)) page_size
                 (case cursor of Some (Inr c) \<Rightarrow> Some c | _ \<Rightarrow> None)
                 (filter (\<lambda>r. sees_a sx (re_scope r)) (pv_recipes db)) of
            (page, next_cursor) \<Rightarrow>
              Inr (map (\<lambda>r. (re_id r, re_code r, re_display_name r, re_status r)) page, next_cursor)))"

section \<open>Executors\<close>

text \<open>
  A \<open>Decimal\<close> is held as the text that \<open>str\<close> gives; \<open>Decimal(str(d))\<close> reads that text back
  unchanged. A derivation output as the value object \<open>ParameterCandidateOutput\<close>.
\<close>

record candidate_output =
  co_variable_code :: string
  co_value :: string
  co_unit :: "string option"
  co_confidence :: pyfloat
  co_exclusion_reasons :: "string list"

type_synonym executor = "string list \<Rightarrow> dict \<Rightarrow> candidate_output"
type_synonym registry = "((string \<times> string) \<times> executor) list"

text \<open>
  \<open>RobustParameterEstimator.execute\<close>: the branch without values. What it computes from a non-empty
  sequence (medians and a bootstrap in floating point) is the parameter \<open>estimate\<close>.
\<close>

definition robust_execute :: "executor \<Rightarrow> executor" where
  "robust_execute estimate vals ps =
    (if vals = []
     then \<lparr>co_variable_code = ''estimated_value'', co_value = ''0'', co_unit = None,
           co_confidence = Fin 0, co_exclusion_reasons = []\<rparr>
     else estimate vals ps)"

definition register_executor :: "string \<Rightarrow> string \<Rightarrow> executor \<Rightarrow> registry \<Rightarrow> registry" where
  "register_executor name version ex reg = dict_set reg (name, version) ex"

definition get_executor :: "string \<Rightarrow> string \<Rightarrow> registry \<Rightarrow> executor option" where
  "get_executor name version reg = dict_get reg (name, version)"

text \<open>The registry after the module is loaded; nothing else in the repository registers an executor.\<close>

definition default_registry :: "executor \<Rightarrow> registry" where
  "default_registry estimate =
    register_executor ''robust-parameter-estimator'' ''0.8.0'' (robust_execute estimate) []"

section \<open>Derivations\<close>

definition output_to_dict :: "candidate_output \<Rightarrow> json" where
  "output_to_dict c = JObj
     [(''variable_code'', JStr (co_variable_code c)), (''value'', JStr (co_value c)),
      (''unit'', case co_unit c of None \<Rightarrow> JNull | Some u \<Rightarrow> JStr u),
      (''confidence'', JFloat (co_confidence c)),
      (''exclusion_reasons'', JArr (map JStr (co_exclusion_reasons c)))]"

fun opt_str :: "json option \<Rightarrow> string option option" where
  "opt_str None = Some None"
| "opt_str (Some JNull) = Some None"
| "opt_str (Some (JStr s)) = Some (Some s)"
| "opt_str (Some _) = None"

fun float_of :: "json \<Rightarrow> pyfloat option" where
  "float_of (JFloat f) = Some f"
| "float_of (JInt i) = Some (Fin (rat_of_int i))"
| "float_of (JBool b) = Some (Fin (if b then 1 else 0))"
| "float_of _ = None"

fun str_items :: "json option \<Rightarrow> string list option" where
  "str_items None = Some []"
| "str_items (Some (JArr vs)) = all_some (map (\<lambda>v. json_str (Some v)) vs)"
| "str_items (Some _) = None"

definition output_from_dict :: "json \<Rightarrow> candidate_output option" where
  "output_from_dict data =
    Option.bind (json_obj data) (\<lambda>d.
    Option.bind (json_str (dict_get d ''variable_code'')) (\<lambda>c.
    Option.bind (json_str (dict_get d ''value'')) (\<lambda>v.
    Option.bind (opt_str (dict_get d ''unit'')) (\<lambda>u.
    Option.bind (Option.bind (dict_get d ''confidence'') float_of) (\<lambda>f.
    Option.bind (str_items (dict_get d ''exclusion_reasons'')) (\<lambda>rs.
      Some \<lparr>co_variable_code = c, co_value = v, co_unit = u, co_confidence = f, co_exclusion_reasons = rs\<rparr>))))))"

text \<open>\<open>_compute_output_digest\<close>; \<open>sha\<close> is the hash of the text of a JSON value.\<close>

definition outputs_digest :: "(json \<Rightarrow> string) \<Rightarrow> candidate_output list \<Rightarrow> string" where
  "outputs_digest sha outs = sha (canonical (JArr (map output_to_dict (sort_key co_variable_code outs))))"

text \<open>The fact ids of the included members; \<open>None\<close>: a member is no object or an id is no UUID.\<close>

definition included :: "dict \<Rightarrow> bool" where
  "included d = (dict_get d ''decision'' = Some (JStr ''included'')
    \<and> (case dict_get d ''fact_id'' of None \<Rightarrow> False | Some f \<Rightarrow> py_truthy f))"

definition member_fact_ids :: "json list \<Rightarrow> uuid list option" where
  "member_fact_ids members =
    Option.bind (all_some (map json_obj members)) (\<lambda>ds.
      all_some (map (\<lambda>d. Option.bind (dict_get d ''fact_id'') json_uuid) (filter included ds)))"

definition algo_params :: "recipe_version \<Rightarrow> dict" where
  "algo_params rv = dict_set (rv_parameters rv) ''random_seed'' (JInt (rv_random_seed rv))"

text \<open>
  Steps 5 and 6 of \<open>create_run\<close>: the code passes an empty list of values, because the table they came
  from is gone.
\<close>

definition run_outputs :: "executor \<Rightarrow> recipe_version \<Rightarrow> candidate_output list" where
  "run_outputs ex rv =
    (let r = ex [] (algo_params rv)
     in if rv_output_definitions rv \<noteq> []
        then map (\<lambda>d. r\<lparr>co_variable_code := d\<rparr>) (rv_output_definitions rv)
        else [r])"

definition selected_edge :: "session_ctx \<Rightarrow> timestamp \<Rightarrow> uuid \<Rightarrow> uuid \<Rightarrow> uuid \<Rightarrow> prov_edge" where
  "selected_edge sx now eid rid fid =
    \<lparr>pe_id = eid, pe_derivation_run_id = rid, pe_department_id = sx_dept sx,
     pe_source_type = ''derivation_run'', pe_source_id = rid, pe_target_type = ''fact'', pe_target_id = fid,
     pe_edge_type = ''selected_from'', pe_metadata = None, pe_created_at = now\<rparr>"

fun insert_rows :: "('r \<Rightarrow> uuid) \<Rightarrow> ('r \<Rightarrow> bool) \<Rightarrow> 'r list \<Rightarrow> 'r list \<Rightarrow> data_error + 'r list" where
  "insert_rows key visible [] rows = Inr rows"
| "insert_rows key visible (r # rs) rows =
    (case insert_row key visible r rows of Inl e \<Rightarrow> Inl e | Inr rows' \<Rightarrow> insert_rows key visible rs rows')"

record run_ref =
  ref_id :: uuid
  ref_status :: string
  ref_output_digest :: string
  ref_outputs :: "candidate_output list"

text \<open>\<open>new_id\<close> is the id of the run, \<open>edge_id i\<close> that of its \<open>i\<close>-th edge.\<close>

definition create_run ::
    "(json \<Rightarrow> string) \<Rightarrow> registry \<Rightarrow> session_ctx \<Rightarrow> timestamp \<Rightarrow> uuid \<Rightarrow> (nat \<Rightarrow> uuid) \<Rightarrow> uuid \<Rightarrow> uuid
      \<Rightarrow> 'z prov_db_scheme \<Rightarrow> (data_error + run_ref) \<times> 'z prov_db_scheme" where
  "create_run sha reg sx now new_id edge_id svid rvid db =
    (case sql_find (\<lambda>v. sv_id v = svid) (pv_set_versions db) of
       None \<Rightarrow> (Inl (app_fail ''not_found'' [(''evidence_set_version_id'', JStr (uuid_str svid))]), db)
     | Some sv \<Rightarrow>
     (case sql_find (\<lambda>v. rv_id v = rvid) (pv_recipe_versions db) of
        None \<Rightarrow> (Inl (app_fail ''not_found'' [(''recipe_version_id'', JStr (uuid_str rvid))]), db)
      | Some rv \<Rightarrow>
      if rv_status rv \<noteq> ''published''
      then (Inl (app_fail ''recipe_not_published'' [(''recipe_version_id'', JStr (uuid_str rvid))]), db)
      else
      (case get_executor (rv_component_name rv) (rv_component_version rv) reg of
         None \<Rightarrow> (Inl (app_fail ''component_unavailable''
                     [(''component_name'', JStr (rv_component_name rv)),
                      (''component_version'', JStr (rv_component_version rv))]), db)
       | Some ex \<Rightarrow>
       (case member_fact_ids (sv_members sv) of
          None \<Rightarrow> (Inl DPython, db)
        | Some fids \<Rightarrow>
        (let outs = run_outputs ex rv;
             dig = outputs_digest sha outs;
             run = \<lparr>dr_id = new_id, dr_evidence_set_version_id = svid, dr_recipe_version_id = rvid,
                    dr_job_id = None, dr_status = ''succeeded'', dr_output_digest = Some dig,
                    dr_outputs = Some (map output_to_dict outs), dr_started_at = Some now,
                    dr_completed_at = Some now, dr_error = None, dr_created_at = now,
                    dr_department_id = sx_dept sx\<rparr>;
             edges = map (\<lambda>(i, f). selected_edge sx now (edge_id i) new_id f) (enumerate 0 fids)
         in (case insert_row dr_id (\<lambda>r. sees_b sx (dr_department_id r)) run (pv_runs db) of
               Inl e \<Rightarrow> (Inl e, db)
             | Inr runs \<Rightarrow>
             (case insert_rows pe_id (\<lambda>e. sees_b sx (pe_department_id e)) edges (pv_edges db) of
                Inl e \<Rightarrow> (Inl e, db)
              | Inr es \<Rightarrow>
                  (Inr \<lparr>ref_id = new_id, ref_status = ''succeeded'', ref_output_digest = dig, ref_outputs = outs\<rparr>,
                   db\<lparr>pv_runs := runs, pv_edges := es\<rparr>))))))))"

definition run_row :: "session_ctx \<Rightarrow> uuid \<Rightarrow> 'z prov_db_scheme \<Rightarrow> derivation_run option" where
  "run_row sx rid db = sql_find (\<lambda>r. dr_id r = rid \<and> sees_b sx (dr_department_id r)) (pv_runs db)"

text \<open>A digest that is NULL is written as the JSON null.\<close>

definition opt_json :: "string option \<Rightarrow> json" where
  "opt_json v = (case v of None \<Rightarrow> JNull | Some s \<Rightarrow> JStr s)"

text \<open>
  \<open>replay\<close>: the new run is committed by \<open>create_run\<close> before the digests are compared.
\<close>

definition replay ::
    "(json \<Rightarrow> string) \<Rightarrow> registry \<Rightarrow> session_ctx \<Rightarrow> timestamp \<Rightarrow> uuid \<Rightarrow> (nat \<Rightarrow> uuid) \<Rightarrow> uuid
      \<Rightarrow> 'z prov_db_scheme \<Rightarrow> (data_error + run_ref) \<times> 'z prov_db_scheme" where
  "replay sha reg sx now new_id edge_id rid db =
    (case run_row sx rid db of
       None \<Rightarrow> (Inl (app_fail ''not_found'' [(''run_id'', JStr (uuid_str rid))]), db)
     | Some r \<Rightarrow>
         (case create_run sha reg sx now new_id edge_id (dr_evidence_set_version_id r)
                 (dr_recipe_version_id r) db of
            (Inl e, db') \<Rightarrow> (Inl e, db')
          | (Inr ref, db') \<Rightarrow>
              if Some (ref_output_digest ref) \<noteq> dr_output_digest r
              then (Inl (app_fail ''validation_failed''
                     [(''original_digest'', opt_json (dr_output_digest r)),
                      (''replay_digest'', JStr (ref_output_digest ref))]), db')
              else (Inr ref, db')))"

definition to_ref :: "derivation_run \<Rightarrow> run_ref option" where
  "to_ref r =
    map_option (\<lambda>outs.
      \<lparr>ref_id = dr_id r, ref_status = dr_status r,
       ref_output_digest = (case dr_output_digest r of None \<Rightarrow> [] | Some d \<Rightarrow> d), ref_outputs = outs\<rparr>)
    (all_some (map output_from_dict (case dr_outputs r of None \<Rightarrow> [] | Some os \<Rightarrow> os)))"

definition get_derivation_run ::
    "session_ctx \<Rightarrow> uuid \<Rightarrow> 'z prov_db_scheme \<Rightarrow> data_error + run_ref" where
  "get_derivation_run sx rid db =
    (case run_row sx rid db of
       None \<Rightarrow> Inl (app_fail ''not_found'' [(''run_id'', JStr (uuid_str rid))])
     | Some r \<Rightarrow> (case to_ref r of None \<Rightarrow> Inl DPython | Some ref \<Rightarrow> Inr ref))"

definition list_runs ::
    "session_ctx \<Rightarrow> (timestamp \<times> uuid) cursor_arg \<Rightarrow> nat \<Rightarrow> 'z prov_db_scheme
      \<Rightarrow> data_error + (run_ref list \<times> (timestamp \<times> uuid) option)" where
  "list_runs sx cursor page_size db =
    (case cursor of
       Some (Inl text) \<Rightarrow> Inl (app_fail ''invalid_cursor'' [(''cursor'', JStr text)])
     | _ \<Rightarrow>
         (case keyset_asc (\<lambda>r. (dr_created_at r, dr_id r)) page_size
                 (case cursor of Some (Inr c) \<Rightarrow> Some c | _ \<Rightarrow> None)
                 (filter (\<lambda>r. sees_b sx (dr_department_id r)) (pv_runs db)) of
            (page, next_cursor) \<Rightarrow>
              (case all_some (map to_ref page) of None \<Rightarrow> Inl DPython | Some refs \<Rightarrow> Inr (refs, next_cursor))))"

section \<open>The graph\<close>

record prov_node =
  pn_id :: uuid
  pn_node_type :: string
  pn_label :: string
  pn_version :: string
  pn_status :: string

record edge_ref =
  ef_source_id :: uuid
  ef_source_type :: string
  ef_target_id :: uuid
  ef_target_type :: string
  ef_edge_type :: string

definition fact_node :: "fact \<Rightarrow> prov_node" where
  "fact_node f = \<lparr>pn_id = fc_id f, pn_node_type = ''fact'', pn_label = fc_subject_id f, pn_version = [],
    pn_status = fc_status f\<rparr>"

definition run_node :: "derivation_run \<Rightarrow> prov_node" where
  "run_node r = \<lparr>pn_id = dr_id r, pn_node_type = ''derivation_run'', pn_label = ''DerivationRun'',
    pn_version = uuid_str (dr_id r), pn_status = dr_status r\<rparr>"

definition version_node :: "uuid \<Rightarrow> prov_node" where
  "version_node i = \<lparr>pn_id = i, pn_node_type = ''parameter_version'', pn_label = ''ParameterVersion'',
    pn_version = [], pn_status = ''published''\<rparr>"

definition to_edge_ref :: "prov_edge \<Rightarrow> edge_ref" where
  "to_edge_ref e = \<lparr>ef_source_id = pe_source_id e, ef_source_type = pe_source_type e,
    ef_target_id = pe_target_id e, ef_target_type = pe_target_type e, ef_edge_type = pe_edge_type e\<rparr>"

definition seen_edges :: "session_ctx \<Rightarrow> 'z prov_db_scheme \<Rightarrow> prov_edge list" where
  "seen_edges sx db = filter (\<lambda>e. sees_b sx (pe_department_id e)) (pv_edges db)"

text \<open>The edges of the graph, without a second edge of the same source, target and type.\<close>

definition edge_key :: "prov_edge \<Rightarrow> uuid \<times> uuid \<times> string" where
  "edge_key e = (pe_source_id e, pe_target_id e, pe_edge_type e)"

fun fresh_edges :: "(uuid \<times> uuid \<times> string) list \<Rightarrow> prov_edge list \<Rightarrow> edge_ref list" where
  "fresh_edges visited [] = []"
| "fresh_edges visited (e # es) =
    (if edge_key e \<in> set visited then fresh_edges visited es
     else to_edge_ref e # fresh_edges (edge_key e # visited) es)"

definition get_graph ::
    "session_ctx \<Rightarrow> uuid \<Rightarrow> 'z prov_db_scheme \<Rightarrow> data_error + (prov_node list \<times> edge_ref list)" where
  "get_graph sx rid db =
    (case run_row sx rid db of
       None \<Rightarrow> Inl (app_fail ''not_found'' [(''run_id'', JStr (uuid_str rid))])
     | Some r \<Rightarrow>
         let es = filter (\<lambda>e. pe_derivation_run_id e = rid) (seen_edges sx db);
             fids = map pe_target_id (filter (\<lambda>e. pe_target_type e = ''fact'') es);
             facts = filter (\<lambda>f. fc_id f \<in> set fids \<and> sees_a sx (fc_scope f)) (pv_facts db);
             nodes = foldl (\<lambda>d f. dict_set d (fc_id f) (fact_node f)) [(dr_id r, run_node r)] facts;
             nodes' = foldl (\<lambda>d e. if pe_target_type e = ''parameter_version'' \<and> pe_target_id e \<notin> set (dict_keys d)
                                   then dict_set d (pe_target_id e) (version_node (pe_target_id e)) else d) nodes es
         in Inr (map snd nodes', fresh_edges [] es))"

text \<open>
  The breadth-first search of \<open>get_paths_to_raw\<close>: \<open>es\<close> are the edges the session sees, \<open>ft\<close> and
  \<open>rn\<close> the look-ups of the nodes. An entry of the queue is an id, its node type and the path to it.
\<close>

definition up_entries ::
    "prov_edge list \<Rightarrow> uuid \<Rightarrow> uuid set \<Rightarrow> prov_node list \<Rightarrow> (uuid \<times> string \<times> prov_node list) list" where
  "up_entries es current visited path =
    map (\<lambda>e. (pe_source_id e, pe_source_type e, path))
      (filter (\<lambda>e. pe_target_id e = current \<and> pe_source_id e \<notin> visited) es)"

function paths_loop ::
    "prov_edge list \<Rightarrow> (uuid \<Rightarrow> prov_node option) \<Rightarrow> (uuid \<Rightarrow> prov_node option) \<Rightarrow> uuid set
      \<Rightarrow> prov_node list list \<Rightarrow> (uuid \<times> string \<times> prov_node list) list \<Rightarrow> prov_node list list" where
  "paths_loop es ft rn visited paths [] = paths"
| "paths_loop es ft rn visited paths ((current, ty, path) # q) =
    (if current \<in> visited \<and> ty \<noteq> ''fact'' then paths_loop es ft rn visited paths q
     else if ty = ''fact''
     then paths_loop es ft rn (insert current visited)
            (case ft current of None \<Rightarrow> paths | Some f \<Rightarrow> paths @ [path @ [f]]) q
     else case (if ty = ''derivation_run'' then rn current else None) of
       None \<Rightarrow> paths_loop es ft rn (insert current visited) paths q
     | Some n \<Rightarrow>
         paths_loop es ft rn (insert current visited) paths
           (q @ up_entries es current (insert current visited) (path @ [n])))"
  by pat_completeness auto

text \<open>The ids that may still be visited; it shrinks whenever a node is expanded.\<close>

definition pending_ids ::
    "prov_edge list \<Rightarrow> uuid set \<Rightarrow> (uuid \<times> string \<times> prov_node list) list \<Rightarrow> uuid set" where
  "pending_ids es visited q = (fst ` set q \<union> pe_source_id ` set es) - visited"

lemma finite_pending_ids [simp]: "finite (pending_ids es visited q)"
  by (simp add: pending_ids_def)

lemma pending_skip:
  "card (pending_ids es (insert c v) q) \<le> card (pending_ids es v ((c, t, p) # q))"
  "card (pending_ids es v q) \<le> card (pending_ids es v ((c, t, p) # q))"
  by (auto intro!: card_mono simp: pending_ids_def)

lemma pending_expand:
  "c \<notin> v \<Longrightarrow> pending_ids es (insert c v) (q @ up_entries es c (insert c v) path) \<subset> pending_ids es v ((c, t, p) # q)"
  by (auto simp: pending_ids_def up_entries_def)

termination paths_loop
proof (relation "measures [\<lambda>(es, ft, rn, visited, paths, q). card (pending_ids es visited q),
                           \<lambda>(es, ft, rn, visited, paths, q). length q]")
  fix es :: "prov_edge list" and ft rn visited paths q and current :: uuid and ty :: string
    and path :: "prov_node list" and n
  assume "\<not> (current \<in> visited \<and> ty \<noteq> ''fact'')" and "ty \<noteq> ''fact''"
  then have "card (pending_ids es (insert current visited)
        (q @ up_entries es current (insert current visited) (path @ [n])))
      < card (pending_ids es visited ((current, ty, path) # q))"
    by (intro psubset_card_mono pending_expand) auto
  then show "((es, ft, rn, insert current visited, paths,
        q @ up_entries es current (insert current visited) (path @ [n])),
      (es, ft, rn, visited, paths, (current, ty, path) # q))
    \<in> measures [\<lambda>(es, ft, rn, visited, paths, q). card (pending_ids es visited q),
                \<lambda>(es, ft, rn, visited, paths, q). length q]"
    by simp
next
qed (simp_all add: less_le pending_skip)

definition get_paths_to_raw :: "session_ctx \<Rightarrow> uuid \<Rightarrow> 'z prov_db_scheme \<Rightarrow> prov_node list list" where
  "get_paths_to_raw sx vid db =
    (let es = seen_edges sx db;
         start = filter (\<lambda>e. pe_target_id e = vid \<and> pe_target_type e = ''parameter_version'') es
     in if start = [] then []
        else paths_loop es
          (\<lambda>i. map_option fact_node (sql_find (\<lambda>f. fc_id f = i \<and> sees_a sx (fc_scope f)) (pv_facts db)))
          (\<lambda>i. map_option run_node (run_row sx i db))
          {vid} []
          (map (\<lambda>e. (pe_source_id e, pe_source_type e, [version_node vid])) start))"

definition add_edge ::
    "session_ctx \<Rightarrow> timestamp \<Rightarrow> uuid \<Rightarrow> uuid \<Rightarrow> string \<Rightarrow> uuid \<Rightarrow> string \<Rightarrow> uuid \<Rightarrow> string \<Rightarrow> dict option
      \<Rightarrow> 'z prov_db_scheme \<Rightarrow> (data_error + unit) \<times> 'z prov_db_scheme" where
  "add_edge sx now new_id rid st sid tt tid et meta db =
    (if rid \<notin> dr_id ` set (pv_runs db) then (Inl DDatabase, db)
     else case insert_row pe_id (\<lambda>e. sees_b sx (pe_department_id e))
        \<lparr>pe_id = new_id, pe_derivation_run_id = rid, pe_department_id = sx_dept sx, pe_source_type = st,
         pe_source_id = sid, pe_target_type = tt, pe_target_id = tid, pe_edge_type = et, pe_metadata = meta,
         pe_created_at = now\<rparr> (pv_edges db) of
       Inl e \<Rightarrow> (Inl e, db)
     | Inr rows \<Rightarrow> (Inr (), db\<lparr>pv_edges := rows\<rparr>))"

end
