(* ===== verification/Parameters.thy ===== *)
theory Parameters imports Provenance begin

text \<open>
  Parameters: the rows (\<open>packages/parameters/entities.py\<close>) and \<open>ParameterService\<close>
  (\<open>packages/parameters/service.py\<close>): parameters, the candidates that derivations produce for them,
  the review of candidates by a second person, and the versions that an approval publishes.
  Parameters are under the row policy of class A; candidates and versions have no row policy.
\<close>

section \<open>Rows\<close>

datatype parameter_status = PDraft | PPendingReview | PPublished | PRejected | PExpired | PDeprecated

fun parameter_status_value :: "parameter_status \<Rightarrow> string" where
  "parameter_status_value PDraft = ''draft''"
| "parameter_status_value PPendingReview = ''pending_review''"
| "parameter_status_value PPublished = ''published''"
| "parameter_status_value PRejected = ''rejected''"
| "parameter_status_value PExpired = ''expired''"
| "parameter_status_value PDeprecated = ''deprecated''"

datatype candidate_status = CPending | CApproved | CRejected

fun candidate_status_value :: "candidate_status \<Rightarrow> string" where
  "candidate_status_value CPending = ''pending_review''"
| "candidate_status_value CApproved = ''approved''"
| "candidate_status_value CRejected = ''rejected''"

datatype version_status = VPublished | VDeprecated

record parameter =
  pm_id :: uuid
  pm_variable_code :: string
  pm_object_id :: uuid
  pm_status :: parameter_status
  pm_lock_version :: nat
  pm_created_at :: timestamp
  pm_updated_at :: timestamp
  pm_created_by :: "uuid option"
  pm_scope :: row_scope

record param_version =
  vr_id :: uuid
  vr_parameter_id :: uuid
  vr_version :: nat
  vr_value :: string
  vr_unit :: "string option"
  vr_confidence :: "string option"
  vr_confidence_interval :: "dict option"
  vr_conditions :: "dict option"
  vr_derivation_run_id :: uuid
  vr_status :: version_status
  vr_published_at :: timestamp
  vr_published_by :: uuid
  vr_lock_version :: nat
  vr_created_at :: timestamp

record candidate =
  ca_id :: uuid
  ca_parameter_id :: uuid
  ca_derivation_run_id :: uuid
  ca_value :: string
  ca_unit :: "string option"
  ca_confidence :: "string option"
  ca_confidence_interval :: "dict option"
  ca_conditions :: "dict option"
  ca_status :: candidate_status
  ca_submitted_by :: uuid
  ca_submitted_at :: timestamp
  ca_reviewed_by :: "uuid option"
  ca_reviewed_at :: "timestamp option"
  ca_review_decision :: "string option"
  ca_review_comment :: "string option"
  ca_created_at :: timestamp

record param_db = prov_db +
  pd_parameters :: "parameter list"
  pd_candidates :: "candidate list"
  pd_versions :: "param_version list"

text \<open>\<open>ParameterVersionRef\<close>.\<close>

record version_ref =
  vf_parameter_id :: uuid
  vf_version :: nat
  vf_version_id :: uuid
  vf_variable_code :: string
  vf_value :: string
  vf_unit :: "string option"
  vf_confidence :: "string option"
  vf_status :: version_status
  vf_conditions :: "dict option"
  vf_published_at :: timestamp

section \<open>Statements\<close>

definition sees_parameter :: "session_ctx \<Rightarrow> uuid \<Rightarrow> parameter \<Rightarrow> bool" where
  "sees_parameter sx pid p = (pm_id p = pid \<and> sees_a sx (pm_scope p))"

definition param_row :: "session_ctx \<Rightarrow> uuid \<Rightarrow> param_db \<Rightarrow> parameter option" where
  "param_row sx pid db = sql_find (sees_parameter sx pid) (pd_parameters db)"

definition candidate_row :: "uuid \<Rightarrow> param_db \<Rightarrow> candidate option" where
  "candidate_row cid db = sql_find (\<lambda>c. ca_id c = cid) (pd_candidates db)"

definition status_values_pm :: "timestamp \<Rightarrow> parameter_status \<Rightarrow> parameter \<Rightarrow> parameter" where
  "status_values_pm now st p =
    p\<lparr>pm_status := st, pm_updated_at := now, pm_lock_version := pm_lock_version p + 1\<rparr>"

definition set_param_status ::
    "session_ctx \<Rightarrow> timestamp \<Rightarrow> uuid \<Rightarrow> parameter_status \<Rightarrow> param_db \<Rightarrow> param_db" where
  "set_param_status sx now pid st db =
    db\<lparr>pd_parameters := sql_update (sees_parameter sx pid) (status_values_pm now st) (pd_parameters db)\<rparr>"

definition versions_of :: "uuid \<Rightarrow> param_db \<Rightarrow> param_version list" where
  "versions_of pid db = filter (\<lambda>v. vr_parameter_id v = pid) (pd_versions db)"

text \<open>\<open>SELECT max(version)\<close>, NULL read as 0.\<close>

definition max_version :: "uuid \<Rightarrow> param_db \<Rightarrow> nat" where
  "max_version pid db = Max (insert 0 (vr_version ` set (versions_of pid db)))"

section \<open>Writing\<close>

definition create_parameter ::
    "session_ctx \<Rightarrow> timestamp \<Rightarrow> uuid \<Rightarrow> string \<Rightarrow> uuid \<Rightarrow> param_db
      \<Rightarrow> (data_error + uuid \<times> string \<times> uuid \<times> parameter_status) \<times> param_db" where
  "create_parameter sx now new_id code obj db =
    (if is_blank code then (Inl (app_fail ''validation_failed'' [(''variable_code'', JStr ''required'')]), db)
     else if \<exists>p\<in>set (pd_parameters db). pm_variable_code p = py_strip code \<and> pm_object_id p = obj
                \<and> sees_a sx (pm_scope p)
     then (Inl (app_fail ''conflict''
             [(''variable_code'', JStr code), (''object_id'', JStr (uuid_str obj))]), db)
     else case sx_actor sx of
       None \<Rightarrow> (Inl DDatabase, db)
     | Some a \<Rightarrow>
         if \<exists>p\<in>set (pd_parameters db). rs_department_id (pm_scope p) = sx_dept sx
              \<and> pm_variable_code p = py_strip code \<and> pm_object_id p = obj
         then (Inl DDatabase, db)
         else (case insert_row pm_id (\<lambda>p. sees_a sx (pm_scope p))
                \<lparr>pm_id = new_id, pm_variable_code = py_strip code, pm_object_id = obj, pm_status = PDraft,
                 pm_lock_version = 0, pm_created_at = now, pm_updated_at = now, pm_created_by = Some a,
                 pm_scope = tree_scope sx a\<rparr> (pd_parameters db) of
            Inl e \<Rightarrow> (Inl e, db)
          | Inr rows \<Rightarrow> (Inr (new_id, py_strip code, obj, PDraft), db\<lparr>pd_parameters := rows\<rparr>)))"

definition run_not_found :: "uuid \<Rightarrow> data_error" where
  "run_not_found rid = app_fail ''not_found'' [(''derivation_run_id'', JStr (uuid_str rid))]"

definition run_not_succeeded :: "uuid \<Rightarrow> string \<Rightarrow> data_error" where
  "run_not_succeeded rid st = app_fail ''derivation_not_succeeded''
    [(''derivation_run_id'', JStr (uuid_str rid)), (''status'', JStr st)]"

definition param_not_found :: "uuid \<Rightarrow> data_error" where
  "param_not_found pid = app_fail ''not_found'' [(''parameter_id'', JStr (uuid_str pid))]"

definition new_candidate ::
    "timestamp \<Rightarrow> uuid \<Rightarrow> uuid \<Rightarrow> uuid \<Rightarrow> uuid \<Rightarrow> string \<Rightarrow> string option \<Rightarrow> string option \<Rightarrow> dict option
      \<Rightarrow> candidate" where
  "new_candidate now new_id actor pid rid val unit conf conds =
    \<lparr>ca_id = new_id, ca_parameter_id = pid, ca_derivation_run_id = rid, ca_value = val, ca_unit = unit,
     ca_confidence = conf, ca_confidence_interval = None, ca_conditions = conds, ca_status = CPending,
     ca_submitted_by = actor, ca_submitted_at = now, ca_reviewed_by = None, ca_reviewed_at = None,
     ca_review_decision = None, ca_review_comment = None, ca_created_at = now\<rparr>"

definition create_candidate ::
    "session_ctx \<Rightarrow> timestamp \<Rightarrow> uuid \<Rightarrow> uuid \<Rightarrow> uuid \<Rightarrow> string \<Rightarrow> string option \<Rightarrow> string option \<Rightarrow> dict option
      \<Rightarrow> param_db \<Rightarrow> (data_error + candidate) \<times> param_db" where
  "create_candidate sx now new_id pid rid val unit conf conds db =
    (case run_row sx rid db of
       None \<Rightarrow> (Inl (run_not_found rid), db)
     | Some r \<Rightarrow>
       if dr_status r \<noteq> ''succeeded'' then (Inl (run_not_succeeded rid (dr_status r)), db)
       else case param_row sx pid db of
         None \<Rightarrow> (Inl (param_not_found pid), db)
       | Some _ \<Rightarrow>
         if \<exists>c\<in>set (pd_candidates db). ca_parameter_id c = pid \<and> ca_derivation_run_id c = rid
         then (Inl (app_fail ''conflict''
                 [(''parameter_id'', JStr (uuid_str pid)), (''derivation_run_id'', JStr (uuid_str rid))]), db)
         else case sx_actor sx of
           None \<Rightarrow> (Inl DDatabase, db)
         | Some a \<Rightarrow>
             let c = new_candidate now new_id a pid rid val unit conf conds
             in (case insert_row ca_id (\<lambda>_. True) c (pd_candidates db) of
                   Inl e \<Rightarrow> (Inl e, db)
                 | Inr rows \<Rightarrow> (Inr c, set_param_status sx now pid PPendingReview (db\<lparr>pd_candidates := rows\<rparr>))))"

definition candidate_not_found :: "uuid \<Rightarrow> data_error" where
  "candidate_not_found cid = app_fail ''not_found'' [(''candidate_id'', JStr (uuid_str cid))]"

definition submit_for_review :: "uuid \<Rightarrow> param_db \<Rightarrow> data_error + candidate" where
  "submit_for_review cid db =
    (case candidate_row cid db of None \<Rightarrow> Inl (candidate_not_found cid) | Some c \<Rightarrow> Inr c)"

text \<open>The two checks that \<open>approve\<close> and \<open>reject\<close> make on the candidate: \<open>None\<close> if it may be reviewed.\<close>

definition review_error :: "candidate \<Rightarrow> uuid \<Rightarrow> data_error option" where
  "review_error c reviewer =
    (if ca_status c \<noteq> CPending
     then Some (app_fail ''candidate_not_pending''
            [(''candidate_id'', JStr (uuid_str (ca_id c))), (''status'', JStr (candidate_status_value (ca_status c)))])
     else if ca_submitted_by c = reviewer
     then Some (app_fail ''self_approval_forbidden''
            [(''candidate_id'', JStr (uuid_str (ca_id c))), (''reviewer'', JStr (uuid_str reviewer))])
     else None)"

definition reviewed_values ::
    "timestamp \<Rightarrow> candidate_status \<Rightarrow> uuid \<Rightarrow> string option \<Rightarrow> candidate \<Rightarrow> candidate" where
  "reviewed_values now st reviewer comment c =
    c\<lparr>ca_status := st, ca_reviewed_by := Some reviewer, ca_reviewed_at := Some now,
      ca_review_decision := Some (candidate_status_value st),
      ca_review_comment := (case comment of None \<Rightarrow> ca_review_comment c | Some t \<Rightarrow> Some t)\<rparr>"

definition new_version :: "timestamp \<Rightarrow> uuid \<Rightarrow> nat \<Rightarrow> uuid \<Rightarrow> candidate \<Rightarrow> param_version" where
  "new_version now vid n reviewer c =
    \<lparr>vr_id = vid, vr_parameter_id = ca_parameter_id c, vr_version = n, vr_value = ca_value c,
     vr_unit = ca_unit c, vr_confidence = ca_confidence c, vr_confidence_interval = ca_confidence_interval c,
     vr_conditions = ca_conditions c, vr_derivation_run_id = ca_derivation_run_id c, vr_status = VPublished,
     vr_published_at = now, vr_published_by = reviewer, vr_lock_version = 0, vr_created_at = now\<rparr>"

definition published_edge :: "session_ctx \<Rightarrow> timestamp \<Rightarrow> uuid \<Rightarrow> uuid \<Rightarrow> uuid \<Rightarrow> prov_edge" where
  "published_edge sx now eid vid rid =
    \<lparr>pe_id = eid, pe_derivation_run_id = rid, pe_department_id = sx_dept sx,
     pe_source_type = ''parameter_version'', pe_source_id = vid, pe_target_type = ''derivation_run'',
     pe_target_id = rid, pe_edge_type = ''published_as'', pe_metadata = None, pe_created_at = now\<rparr>"

definition version_to_ref :: "string \<Rightarrow> param_version \<Rightarrow> version_ref" where
  "version_to_ref code v =
    \<lparr>vf_parameter_id = vr_parameter_id v, vf_version = vr_version v, vf_version_id = vr_id v,
     vf_variable_code = code, vf_value = vr_value v, vf_unit = vr_unit v, vf_confidence = vr_confidence v,
     vf_status = vr_status v, vf_conditions = vr_conditions v, vf_published_at = vr_published_at v\<rparr>"

definition approve ::
    "session_ctx \<Rightarrow> timestamp \<Rightarrow> uuid \<Rightarrow> uuid \<Rightarrow> uuid \<Rightarrow> uuid \<Rightarrow> param_db
      \<Rightarrow> (data_error + version_ref) \<times> param_db" where
  "approve sx now vid eid cid reviewer db =
    (case candidate_row cid db of
       None \<Rightarrow> (Inl (candidate_not_found cid), db)
     | Some c \<Rightarrow>
     (case review_error c reviewer of
        Some e \<Rightarrow> (Inl e, db)
      | None \<Rightarrow>
      (case run_row sx (ca_derivation_run_id c) db of
         None \<Rightarrow> (Inl (run_not_found (ca_derivation_run_id c)), db)
       | Some r \<Rightarrow>
         if dr_status r \<noteq> ''succeeded'' then (Inl (run_not_succeeded (dr_id r) (dr_status r)), db)
         else
         let v = new_version now vid (max_version (ca_parameter_id c) db + 1) reviewer c
         in (case insert_row vr_id (\<lambda>_. True) v (pd_versions db) of
               Inl e \<Rightarrow> (Inl e, db)
             | Inr vs \<Rightarrow>
             (case insert_row pe_id (\<lambda>e. sees_b sx (pe_department_id e))
                     (published_edge sx now eid vid (ca_derivation_run_id c)) (pv_edges db) of
                Inl e \<Rightarrow> (Inl e, db)
              | Inr es \<Rightarrow>
                  (Inr (version_to_ref
                     (case param_row sx (ca_parameter_id c) db of None \<Rightarrow> [] | Some p \<Rightarrow> pm_variable_code p) v),
                   set_param_status sx now (ca_parameter_id c) PPublished
                     (db\<lparr>pd_versions := vs, pv_edges := es,
                         pd_candidates := sql_update (\<lambda>x. ca_id x = cid)
                           (reviewed_values now CApproved reviewer None) (pd_candidates db)\<rparr>)))))))"

text \<open>\<open>reject\<close> loads the candidate joined with its parameter, so the session must see the parameter.\<close>

definition joined_candidate :: "session_ctx \<Rightarrow> uuid \<Rightarrow> param_db \<Rightarrow> candidate option" where
  "joined_candidate sx cid db =
    sql_find (\<lambda>c. ca_id c = cid \<and> param_row sx (ca_parameter_id c) db \<noteq> None) (pd_candidates db)"

definition reject ::
    "session_ctx \<Rightarrow> timestamp \<Rightarrow> uuid \<Rightarrow> uuid \<Rightarrow> string \<Rightarrow> param_db \<Rightarrow> (data_error + candidate) \<times> param_db" where
  "reject sx now cid reviewer comment db =
    (case joined_candidate sx cid db of
       None \<Rightarrow> (Inl (candidate_not_found cid), db)
     | Some c \<Rightarrow>
     (case review_error c reviewer of
        Some e \<Rightarrow> (Inl e, db)
      | None \<Rightarrow>
          (Inr (reviewed_values now CRejected reviewer (Some comment) c),
           set_param_status sx now (ca_parameter_id c) PRejected
             (db\<lparr>pd_candidates := sql_update (\<lambda>x. ca_id x = cid)
                (reviewed_values now CRejected reviewer (Some comment)) (pd_candidates db)\<rparr>))))"

definition deprecate ::
    "session_ctx \<Rightarrow> timestamp \<Rightarrow> uuid \<Rightarrow> param_db \<Rightarrow> (data_error + uuid \<times> parameter_status) \<times> param_db" where
  "deprecate sx now pid db =
    (case param_row sx pid db of
       None \<Rightarrow> (Inl (param_not_found pid), db)
     | Some p \<Rightarrow>
         if pm_status p \<noteq> PPublished
         then (Inl (app_fail ''invalid_transition''
                 [(''parameter_id'', JStr (uuid_str pid)), (''status'', JStr (parameter_status_value (pm_status p)))]), db)
         else (Inr (pid, PDeprecated),
               (set_param_status sx now pid PDeprecated db)
                 \<lparr>pd_versions := sql_update (\<lambda>v. vr_parameter_id v = pid \<and> vr_status v = VPublished)
                    (\<lambda>v. v\<lparr>vr_status := VDeprecated\<rparr>) (pd_versions db)\<rparr>))"

section \<open>Reading\<close>

definition latest_published :: "uuid \<Rightarrow> param_db \<Rightarrow> param_version option" where
  "latest_published pid db = latest_by vr_version (filter (\<lambda>v. vr_status v = VPublished) (versions_of pid db))"

definition get_parameter ::
    "session_ctx \<Rightarrow> uuid \<Rightarrow> param_db \<Rightarrow> data_error + (parameter \<times> param_version option)" where
  "get_parameter sx pid db =
    (case param_row sx pid db of
       None \<Rightarrow> Inl (param_not_found pid)
     | Some p \<Rightarrow> Inr (p, latest_published pid db))"

definition get_version :: "session_ctx \<Rightarrow> uuid \<Rightarrow> nat option \<Rightarrow> param_db \<Rightarrow> data_error + version_ref" where
  "get_version sx pid version db =
    (case param_row sx pid db of
       None \<Rightarrow> Inl (param_not_found pid)
     | Some p \<Rightarrow>
         (case (case version of
                  Some n \<Rightarrow> sql_find (\<lambda>v. vr_version v = n) (versions_of pid db)
                | None \<Rightarrow> latest_published pid db) of
            None \<Rightarrow> Inl (app_fail ''not_found''
                     [(''parameter_id'', JStr (uuid_str pid)), (''version'', JStr (version_text version))])
          | Some v \<Rightarrow> Inr (version_to_ref (pm_variable_code p) v)))"

text \<open>\<open>filters\<close>: a variable code, an object and a status, each absent where the filter is empty.\<close>

definition list_parameters ::
    "session_ctx \<Rightarrow> string option \<Rightarrow> uuid option \<Rightarrow> string option \<Rightarrow> (timestamp \<times> uuid) cursor_arg \<Rightarrow> nat
      \<Rightarrow> param_db \<Rightarrow> data_error + ((uuid \<times> string \<times> uuid \<times> parameter_status) list \<times> (timestamp \<times> uuid) option)" where
  "list_parameters sx code obj st cursor page_size db =
    (case cursor of
       Some (Inl text) \<Rightarrow> Inl (app_fail ''invalid_cursor'' [(''cursor'', JStr text)])
     | _ \<Rightarrow>
         (case keyset_asc (\<lambda>p. (pm_created_at p, pm_id p)) page_size
                 (case cursor of Some (Inr c) \<Rightarrow> Some c | _ \<Rightarrow> None)
                 (filter (\<lambda>p. sees_a sx (pm_scope p)
                    \<and> (case code of None \<Rightarrow> True | Some c \<Rightarrow> pm_variable_code p = c)
                    \<and> (case obj of None \<Rightarrow> True | Some i \<Rightarrow> pm_object_id p = i)
                    \<and> (case st of None \<Rightarrow> True | Some s \<Rightarrow> parameter_status_value (pm_status p) = s))
                   (pd_parameters db)) of
            (page, next_cursor) \<Rightarrow>
              Inr (map (\<lambda>p. (pm_id p, pm_variable_code p, pm_object_id p, pm_status p)) page, next_cursor)))"

definition list_candidates :: "uuid \<Rightarrow> param_db \<Rightarrow> candidate list" where
  "list_candidates pid db =
    sort_key ca_created_at (filter (\<lambda>c. ca_parameter_id c = pid) (pd_candidates db))"

end
