(* ===== verification/ParameterSystem.thy ===== *)
theory ParameterSystem imports Parameters "HOL-Library.Sublist" begin

text \<open>
  The science tables as one system: any sequence of the operations of \<open>EvidenceService\<close>,
  \<open>RecipeService\<close>, \<open>DerivationService\<close> and \<open>ParameterService\<close>, by any sessions, with any fresh or
  stale identifiers, from empty tables. What the reviews, the versions and the derivations promise
  is proved of every state that such a sequence reaches. \<open>add_edge\<close> has no caller in the repository
  and is no step.
\<close>

section \<open>Steps\<close>

inductive sci_step :: "(json \<Rightarrow> string) \<Rightarrow> executor \<Rightarrow> param_db \<Rightarrow> param_db \<Rightarrow> bool"
  for sha :: "json \<Rightarrow> string" and est :: executor where
  other_services: "sci_step sha est db (db\<lparr>pv_facts := fs\<rparr>)"
| s_create_set: "create_set sx now i name db = (res, db') \<Longrightarrow> sci_step sha est db db'"
| s_freeze: "freeze sx now i sid db = (res', db') \<Longrightarrow> sci_step sha est db db'"
| s_create_recipe: "create_recipe sx now i code name db = (res2, db') \<Longrightarrow> sci_step sha est db db'"
| s_publish: "publish_version sx now i rid cn cv ps seed outs db = (res3, db') \<Longrightarrow> sci_step sha est db db'"
| s_create_run: "create_run sha (default_registry est) sx now i eid svid rvid db = (res4, db') \<Longrightarrow> sci_step sha est db db'"
| s_replay: "replay sha (default_registry est) sx now i eid rid db = (res4, db') \<Longrightarrow> sci_step sha est db db'"
| s_create_parameter: "create_parameter sx now i code obj db = (res5, db') \<Longrightarrow> sci_step sha est db db'"
| s_create_candidate: "create_candidate sx now i pid rid val unit conf conds db = (res6, db') \<Longrightarrow> sci_step sha est db db'"
| s_approve: "approve sx now vid e cid reviewer db = (res7, db') \<Longrightarrow> sci_step sha est db db'"
| s_reject: "reject sx now cid reviewer comment db = (res6, db') \<Longrightarrow> sci_step sha est db db'"
| s_deprecate: "deprecate sx now pid db = (res8, db') \<Longrightarrow> sci_step sha est db db'"

definition empty_db :: param_db where
  "empty_db = \<lparr>pv_facts = [], pv_sets = [], pv_set_versions = [], pv_recipes = [], pv_recipe_versions = [],
    pv_runs = [], pv_edges = [], pd_parameters = [], pd_candidates = [], pd_versions = []\<rparr>"

abbreviation sci_reach :: "(json \<Rightarrow> string) \<Rightarrow> executor \<Rightarrow> param_db \<Rightarrow> bool" where
  "sci_reach sha est db \<equiv> (sci_step sha est)\<^sup>*\<^sup>* empty_db db"

section \<open>What each operation does to the tables\<close>

lemma insert_row_Inr [simp]:
  "insert_row key vis r rows = Inr rows' \<longleftrightarrow> rows' = rows @ [r] \<and> vis r \<and> key r \<notin> key ` set rows"
  by (auto simp: insert_row_def)

lemma insert_row_Inl [simp]:
  "insert_row key vis r rows = Inl e \<longleftrightarrow> e = DDatabase \<and> \<not> (vis r \<and> key r \<notin> key ` set rows)"
  by (auto simp: insert_row_def)

lemma insert_rows_Inr: "insert_rows key vis rs rows = Inr rows' \<Longrightarrow> rows' = rows @ rs"
  by (induction rs arbitrary: rows) (fastforce split: sum.splits)+

lemma default_executor:
  "get_executor n v (default_registry est) = Some ex \<Longrightarrow>
    n = ''robust-parameter-estimator'' \<and> v = ''0.8.0'' \<and> ex = robust_execute est"
  by (auto simp: get_executor_def default_registry_def register_executor_def dict_get_def split: if_splits)

lemma create_setE:
  assumes "create_set sx now i name db = (res, db')"
  shows "db' = db \<or> (\<exists>e. db' = db\<lparr>pv_sets := pv_sets db @ [e]\<rparr> \<and> es_id e \<notin> es_id ` set (pv_sets db))"
  using assms by (auto simp: create_set_def split: if_splits option.splits sum.splits)

lemma freezeE:
  assumes "freeze sx now i sid db = (res, db')"
  shows "(db' = db \<and> (\<exists>e. res = Inl e)) \<or>
    (\<exists>v. res = Inr v \<and> db' = db\<lparr>pv_set_versions := pv_set_versions db @ [v],
           pv_sets := sql_update (\<lambda>x. es_id x = sid \<and> sees_a sx (es_scope x)) (frozen_values now) (pv_sets db)\<rparr>
       \<and> sv_set_id v = sid \<and> sv_version v = 1 \<and> sv_id v \<notin> sv_id ` set (pv_set_versions db)
       \<and> sv_members v = map (\<lambda>f. member_to_dict (auto_member f)) (active_facts sx db)
       \<and> sv_member_count v = length (active_facts sx db)
       \<and> (\<forall>x\<in>set (pv_set_versions db). \<not> (sv_set_id x = sid \<and> sv_version x = 1))
       \<and> set_row sx sid db \<noteq> None)"
  using assms by (auto simp: freeze_def Let_def split: if_splits option.splits sum.splits)

lemma create_recipeE:
  assumes "create_recipe sx now i code name db = (res, db')"
  shows "db' = db \<or> (\<exists>rows. db' = db\<lparr>pv_recipes := rows\<rparr>)"
  using assms by (auto simp: create_recipe_def split: if_splits option.splits sum.splits)

lemma publishE:
  assumes "publish_version sx now i rid cn cv ps seed outs db = (res, db')"
  shows "db' = db \<or> (\<exists>v rows. db' = db\<lparr>pv_recipe_versions := pv_recipe_versions db @ [v], pv_recipes := rows\<rparr>
      \<and> rv_id v \<notin> rv_id ` set (pv_recipe_versions db))"
  using assms by (auto simp: publish_version_def Let_def split: if_splits option.splits sum.splits)

lemma create_parameterE:
  assumes "create_parameter sx now i code obj db = (res, db')"
  shows "db' = db \<or> (\<exists>p. db' = db\<lparr>pd_parameters := pd_parameters db @ [p]\<rparr> \<and> pm_id p \<notin> pm_id ` set (pd_parameters db))"
  using assms by (auto simp: create_parameter_def split: if_splits option.splits sum.splits)

lemma create_candidateE:
  assumes "create_candidate sx now i pid rid val unit conf conds db = (res, db')"
  shows "db' = db \<or> (\<exists>c. db' = set_param_status sx now pid PPendingReview (db\<lparr>pd_candidates := pd_candidates db @ [c]\<rparr>)
      \<and> ca_id c \<notin> ca_id ` set (pd_candidates db) \<and> ca_status c = CPending)"
  using assms
  by (auto simp: create_candidate_def Let_def new_candidate_def split: if_splits option.splits sum.splits)

lemma review_error_None [simp]:
  "review_error c reviewer = None \<longleftrightarrow> ca_status c = CPending \<and> ca_submitted_by c \<noteq> reviewer"
  by (simp add: review_error_def)

lemma approveE:
  assumes "approve sx now vid e cid reviewer db = (res, db')"
  shows "(db' = db \<and> (\<exists>er. res = Inl er)) \<or>
    (\<exists>c r. sql_find (\<lambda>c. ca_id c = cid) (pd_candidates db) = Some c \<and> ca_status c = CPending
       \<and> ca_submitted_by c \<noteq> reviewer \<and> run_row sx (ca_derivation_run_id c) db = Some r
       \<and> dr_status r = ''succeeded'' \<and> vid \<notin> vr_id ` set (pd_versions db)
       \<and> e \<notin> pe_id ` set (pv_edges db) \<and> sees_b sx (sx_dept sx)
       \<and> res = Inr (version_to_ref
           (case param_row sx (ca_parameter_id c) db of None \<Rightarrow> [] | Some p \<Rightarrow> pm_variable_code p)
           (new_version now vid (max_version (ca_parameter_id c) db + 1) reviewer c))
       \<and> db' = set_param_status sx now (ca_parameter_id c) PPublished
           (db\<lparr>pd_versions := pd_versions db @ [new_version now vid (max_version (ca_parameter_id c) db + 1) reviewer c],
               pv_edges := pv_edges db @ [published_edge sx now e vid (ca_derivation_run_id c)],
               pd_candidates := sql_update (\<lambda>x. ca_id x = cid)
                 (reviewed_values now CApproved reviewer None) (pd_candidates db)\<rparr>))"
  using assms
  by (auto simp: approve_def candidate_row_def Let_def new_version_def published_edge_def
      split: if_splits option.splits sum.splits)

lemma rejectE:
  assumes "reject sx now cid reviewer comment db = (res, db')"
  shows "db' = db \<or>
    (\<exists>c. c \<in> set (pd_candidates db) \<and> ca_id c = cid \<and> ca_status c = CPending \<and> ca_submitted_by c \<noteq> reviewer
       \<and> db' = set_param_status sx now (ca_parameter_id c) PRejected
           (db\<lparr>pd_candidates := sql_update (\<lambda>x. ca_id x = cid)
                (reviewed_values now CRejected reviewer (Some comment)) (pd_candidates db)\<rparr>))"
  using assms
  by (auto simp: reject_def joined_candidate_def dest!: sql_find_SomeD split: if_splits option.splits)

lemma deprecateE:
  assumes "deprecate sx now pid db = (res, db')"
  shows "db' = db \<or> db' = (set_param_status sx now pid PDeprecated db)
    \<lparr>pd_versions := sql_update (\<lambda>v. vr_parameter_id v = pid \<and> vr_status v = VPublished)
       (\<lambda>v. v\<lparr>vr_status := VDeprecated\<rparr>) (pd_versions db)\<rparr>"
  using assms by (auto simp: deprecate_def split: if_splits option.splits)

lemma create_runE:
  assumes "create_run sha (default_registry est) sx now i eid svid rvid db = (res, db')"
  shows "(db' = db \<and> (\<exists>e. res = Inl e)) \<or>
    (\<exists>run es rv sv. db' = db\<lparr>pv_runs := pv_runs db @ [run], pv_edges := pv_edges db @ es\<rparr>
       \<and> (\<forall>e\<in>set es. pe_target_type e = ''fact'')
       \<and> dr_id run = i \<and> i \<notin> dr_id ` set (pv_runs db) \<and> dr_status run = ''succeeded''
       \<and> sv \<in> set (pv_set_versions db) \<and> sv_id sv = dr_evidence_set_version_id run \<and> member_fact_ids (sv_members sv) \<noteq> None
       \<and> rv \<in> set (pv_recipe_versions db) \<and> rv_id rv = dr_recipe_version_id run \<and> rv_status rv = ''published''
       \<and> get_executor (rv_component_name rv) (rv_component_version rv) (default_registry est) = Some (robust_execute est)
       \<and> dr_outputs run = Some (map output_to_dict (run_outputs (robust_execute est) rv))
       \<and> dr_output_digest run = Some (outputs_digest sha (run_outputs (robust_execute est) rv))
       \<and> res = Inr \<lparr>ref_id = i, ref_status = ''succeeded'',
           ref_output_digest = outputs_digest sha (run_outputs (robust_execute est) rv),
           ref_outputs = run_outputs (robust_execute est) rv\<rparr>)"
proof (cases res)
  case (Inl e)
  then show ?thesis
    using assms by (auto simp: create_run_def Let_def split: if_splits option.splits sum.splits)
next
  case (Inr ref)
  then obtain sv rv ex fids run es where *: "sql_find (\<lambda>v. sv_id v = svid) (pv_set_versions db) = Some sv"
      "sql_find (\<lambda>v. rv_id v = rvid) (pv_recipe_versions db) = Some rv" "rv_status rv = ''published''"
      "get_executor (rv_component_name rv) (rv_component_version rv) (default_registry est) = Some ex"
      "member_fact_ids (sv_members sv) = Some fids" "i \<notin> dr_id ` set (pv_runs db)"
      "insert_rows pe_id (\<lambda>e. sees_b sx (pe_department_id e))
         (map (\<lambda>(k, f). selected_edge sx now (eid k) i f) (enumerate 0 fids)) (pv_edges db) = Inr es"
      "ref = \<lparr>ref_id = i, ref_status = ''succeeded'', ref_output_digest = outputs_digest sha (run_outputs ex rv),
        ref_outputs = run_outputs ex rv\<rparr>"
      "db' = db\<lparr>pv_runs := pv_runs db @ [run], pv_edges := es\<rparr>" "dr_id run = i" "dr_status run = ''succeeded''"
      "dr_evidence_set_version_id run = svid" "dr_recipe_version_id run = rvid"
      "dr_outputs run = Some (map output_to_dict (run_outputs ex rv))"
      "dr_output_digest run = Some (outputs_digest sha (run_outputs ex rv))"
    using assms by (auto simp: create_run_def Let_def split: if_splits option.splits sum.splits)
  have "ex = robust_execute est"
    using default_executor [OF *(4)] by simp
  moreover have "es = pv_edges db @ map (\<lambda>(k, f). selected_edge sx now (eid k) i f) (enumerate 0 fids)"
    using insert_rows_Inr [OF *(7)] .
  moreover have "\<forall>e\<in>set (map (\<lambda>(k, f). selected_edge sx now (eid k) i f) (enumerate 0 fids)). pe_target_type e = ''fact''"
    by (auto simp: selected_edge_def)
  ultimately show ?thesis
    using * Inr sql_find_SomeD [OF *(1)] sql_find_SomeD [OF *(2)] by fastforce
qed

lemma replayE:
  assumes "replay sha reg sx now i eid rid db = (res, db')"
  shows "db' = db \<or> (\<exists>svid rvid res'. create_run sha reg sx now i eid svid rvid db = (res', db'))"
  using assms by (auto simp: replay_def split: if_splits option.splits sum.splits prod.splits)

section \<open>The invariant\<close>

definition keys_ok :: "param_db \<Rightarrow> bool" where
  "keys_ok db \<longleftrightarrow> unique_rows sv_id (pv_set_versions db) \<and> unique_rows rv_id (pv_recipe_versions db)
    \<and> unique_rows dr_id (pv_runs db) \<and> unique_rows ca_id (pd_candidates db) \<and> unique_rows es_id (pv_sets db)"

text \<open>A run is the outcome of the estimator on its recipe version.\<close>

definition run_ok :: "(json \<Rightarrow> string) \<Rightarrow> executor \<Rightarrow> param_db \<Rightarrow> derivation_run \<Rightarrow> bool" where
  "run_ok sha est db r \<longleftrightarrow> dr_status r = ''succeeded''
    \<and> (\<exists>sv\<in>set (pv_set_versions db). sv_id sv = dr_evidence_set_version_id r \<and> member_fact_ids (sv_members sv) \<noteq> None)
    \<and> (\<exists>rv\<in>set (pv_recipe_versions db). rv_id rv = dr_recipe_version_id r \<and> rv_status rv = ''published''
         \<and> get_executor (rv_component_name rv) (rv_component_version rv) (default_registry est) = Some (robust_execute est)
         \<and> dr_outputs r = Some (map output_to_dict (run_outputs (robust_execute est) rv))
         \<and> dr_output_digest r = Some (outputs_digest sha (run_outputs (robust_execute est) rv)))"

text \<open>A version is the content of a candidate that somebody else than the submitter approved.\<close>

definition approved_by_other :: "param_version \<Rightarrow> candidate \<Rightarrow> bool" where
  "approved_by_other v c \<longleftrightarrow> ca_status c = CApproved \<and> ca_parameter_id c = vr_parameter_id v
    \<and> ca_derivation_run_id c = vr_derivation_run_id v \<and> ca_value c = vr_value v \<and> ca_unit c = vr_unit v
    \<and> ca_confidence c = vr_confidence v \<and> ca_conditions c = vr_conditions v
    \<and> ca_reviewed_by c = Some (vr_published_by v) \<and> ca_submitted_by c \<noteq> vr_published_by v"

definition version_edge :: "param_version \<Rightarrow> prov_edge \<Rightarrow> bool" where
  "version_edge v e \<longleftrightarrow> pe_source_type e = ''parameter_version'' \<and> pe_source_id e = vr_id v
    \<and> pe_target_type e = ''derivation_run'' \<and> pe_target_id e = vr_derivation_run_id v"

definition version_ok :: "param_db \<Rightarrow> param_version \<Rightarrow> bool" where
  "version_ok db v \<longleftrightarrow> (\<exists>c\<in>set (pd_candidates db). approved_by_other v c)
    \<and> (\<exists>r\<in>set (pv_runs db). dr_id r = vr_derivation_run_id v)
    \<and> (\<exists>e\<in>set (pv_edges db). version_edge v e)"

definition numbered :: "param_db \<Rightarrow> bool" where
  "numbered db \<longleftrightarrow> (\<forall>pid. map vr_version (versions_of pid db) = [1..<Suc (length (versions_of pid db))])"

definition frozen_once :: "param_db \<Rightarrow> bool" where
  "frozen_once db \<longleftrightarrow> distinct (map sv_set_id (pv_set_versions db)) \<and> (\<forall>v\<in>set (pv_set_versions db). sv_version v = 1)"

definition sci_inv :: "(json \<Rightarrow> string) \<Rightarrow> executor \<Rightarrow> param_db \<Rightarrow> bool" where
  "sci_inv sha est db \<longleftrightarrow> keys_ok db \<and> (\<forall>r\<in>set (pv_runs db). run_ok sha est db r)
    \<and> (\<forall>v\<in>set (pd_versions db). version_ok db v) \<and> numbered db \<and> frozen_once db
    \<and> (\<forall>e\<in>set (pv_edges db). pe_target_type e \<noteq> ''parameter_version'')"

lemma set_param_status_sel [simp]:
  "pv_facts (set_param_status sx now pid st db) = pv_facts db"
  "pv_sets (set_param_status sx now pid st db) = pv_sets db"
  "pv_set_versions (set_param_status sx now pid st db) = pv_set_versions db"
  "pv_recipes (set_param_status sx now pid st db) = pv_recipes db"
  "pv_recipe_versions (set_param_status sx now pid st db) = pv_recipe_versions db"
  "pv_runs (set_param_status sx now pid st db) = pv_runs db"
  "pv_edges (set_param_status sx now pid st db) = pv_edges db"
  "pd_candidates (set_param_status sx now pid st db) = pd_candidates db"
  "pd_versions (set_param_status sx now pid st db) = pd_versions db"
  by (simp_all add: set_param_status_def)

interpretation freeze_upd: versioned_update es_id "frozen_values now" es_lock_version for now
  by unfold_locales (simp_all add: frozen_values_def)

interpretation review_upd: row_update ca_id "reviewed_values now st reviewer comment" for now st reviewer comment
  by unfold_locales (simp add: reviewed_values_def)

text \<open>The parts of the invariant see only some tables, and only more of them later.\<close>

lemma run_ok_mono:
  assumes "run_ok sha est db r"
    and "set (pv_set_versions db) \<subseteq> set (pv_set_versions db')"
    and "set (pv_recipe_versions db) \<subseteq> set (pv_recipe_versions db')"
  shows "run_ok sha est db' r"
  using assms unfolding run_ok_def by blast

lemma version_ok_mono:
  assumes "version_ok db v"
    and "\<And>c. c \<in> set (pd_candidates db) \<Longrightarrow> ca_status c = CApproved \<Longrightarrow> c \<in> set (pd_candidates db')"
    and "set (pv_runs db) \<subseteq> set (pv_runs db')" and "set (pv_edges db) \<subseteq> set (pv_edges db')"
  shows "version_ok db' v"
  using assms unfolding version_ok_def approved_by_other_def by blast

lemma numbered_cong: "pd_versions db' = pd_versions db \<Longrightarrow> numbered db' = numbered db"
  by (simp add: numbered_def versions_of_def)

lemma approved_kept:
  assumes "keys_ok db" and "c0 \<in> set (pd_candidates db)" and "ca_id c0 = cid" and "ca_status c0 = CPending"
    and "c \<in> set (pd_candidates db)" and "ca_status c = CApproved"
  shows "c \<in> set (sql_update (\<lambda>x. ca_id x = cid) f (pd_candidates db))"
proof -
  have "ca_id c \<noteq> cid"
    using assms unique_rows_eq [of ca_id "pd_candidates db" c c0] by (auto simp: keys_ok_def)
  then show ?thesis
    using assms(5) by (auto simp: set_sql_update image_iff intro!: bexI [of _ c])
qed

lemma max_version_numbered:
  assumes "numbered db"
  shows "max_version pid db = length (versions_of pid db)"
proof -
  have "vr_version ` set (versions_of pid db) = set [1..<Suc (length (versions_of pid db))]"
    using assms unfolding numbered_def by (metis list.set_map)
  also have "\<dots> = {1..length (versions_of pid db)}"
    by auto
  finally have "insert 0 (vr_version ` set (versions_of pid db)) = {0..length (versions_of pid db)}"
    by auto
  then show ?thesis
    unfolding max_version_def by (simp only:) (rule Max_eqI, auto)
qed

lemma numbered_snoc:
  assumes "numbered db" and "pd_versions db' = pd_versions db @ [v]"
    and "vr_version v = max_version (vr_parameter_id v) db + 1"
  shows "numbered db'"
  unfolding numbered_def
proof
  fix pid
  have old: "map vr_version (versions_of pid db) = [1..<Suc (length (versions_of pid db))]"
    using assms(1) by (simp add: numbered_def)
  show "map vr_version (versions_of pid db') = [1..<Suc (length (versions_of pid db'))]"
  proof (cases "vr_parameter_id v = pid")
    case True
    then have "versions_of pid db' = versions_of pid db @ [v]"
      by (simp add: versions_of_def assms(2))
    then show ?thesis
      using old True assms(3) max_version_numbered [OF assms(1), of pid] by simp
  next
    case False
    then show ?thesis
      using old by (simp add: versions_of_def assms(2))
  qed
qed

lemma numbered_deprecated:
  assumes "numbered db"
    and "pd_versions db' = sql_update (\<lambda>v. vr_parameter_id v = pid \<and> vr_status v = VPublished)
      (\<lambda>v. v\<lparr>vr_status := VDeprecated\<rparr>) (pd_versions db)"
  shows "numbered db'"
proof -
  have "map vr_version (filter (\<lambda>v. vr_parameter_id v = p)
      (sql_update (\<lambda>v. vr_parameter_id v = pid \<and> vr_status v = VPublished) (\<lambda>v. v\<lparr>vr_status := VDeprecated\<rparr>) vs)) =
    map vr_version (filter (\<lambda>v. vr_parameter_id v = p) vs)" for p vs
    by (induction vs) auto
  then have "map vr_version (versions_of p db') = map vr_version (versions_of p db)" for p
    by (simp add: versions_of_def assms(2))
  then show ?thesis
    using assms(1) unfolding numbered_def by (metis length_map)
qed

section \<open>Every step keeps it\<close>

lemma sci_inv_cong:
  assumes "sci_inv sha est db"
    and "pv_set_versions db' = pv_set_versions db" and "pv_recipe_versions db' = pv_recipe_versions db"
    and "pv_runs db' = pv_runs db" and "pv_edges db' = pv_edges db" and "pd_candidates db' = pd_candidates db"
    and "pd_versions db' = pd_versions db" and "unique_rows es_id (pv_sets db')"
  shows "sci_inv sha est db'"
  using assms numbered_cong [OF assms(7)] run_ok_mono [of sha est db _ db'] version_ok_mono [of db _ db']
  by (simp add: sci_inv_def keys_ok_def frozen_once_def)

lemma inv_create_set:
  assumes "sci_inv sha est db" and "create_set sx now i name db = (res, db')"
  shows "sci_inv sha est db'"
proof (rule sci_inv_cong [OF assms(1)])
  show "unique_rows es_id (pv_sets db')"
    using create_setE [OF assms(2)] assms(1) by (auto simp: sci_inv_def keys_ok_def unique_rows_snoc)
qed (use create_setE [OF assms(2)] in auto)

lemma inv_freeze:
  assumes "sci_inv sha est db" and "freeze sx now i sid db = (res, db')"
  shows "sci_inv sha est db'"
  using freezeE [OF assms(2)]
proof (elim disjE exE conjE)
  fix v
  assume db': "db' = db\<lparr>pv_set_versions := pv_set_versions db @ [v],
           pv_sets := sql_update (\<lambda>x. es_id x = sid \<and> sees_a sx (es_scope x)) (frozen_values now) (pv_sets db)\<rparr>"
    and v: "sv_set_id v = sid" "sv_version v = 1" "sv_id v \<notin> sv_id ` set (pv_set_versions db)"
      "\<forall>x\<in>set (pv_set_versions db). \<not> (sv_set_id x = sid \<and> sv_version x = 1)"
  have "frozen_once db'"
    using assms(1) v by (auto simp: sci_inv_def frozen_once_def db')
  moreover have "keys_ok db'"
    using assms(1) v by (simp add: sci_inv_def keys_ok_def db' unique_rows_snoc freeze_upd.unique_update)
  moreover have "run_ok sha est db' r" if "r \<in> set (pv_runs db')" for r
    by (rule run_ok_mono [of sha est db]) (use assms(1) that in \<open>auto simp: sci_inv_def db'\<close>)
  moreover have "version_ok db' w" if "w \<in> set (pd_versions db')" for w
    by (rule version_ok_mono [of db]) (use assms(1) that in \<open>auto simp: sci_inv_def db'\<close>)
  moreover have "numbered db'"
    using assms(1) numbered_cong [of db' db] by (simp add: sci_inv_def db')
  ultimately show ?thesis
    using assms(1) by (simp add: sci_inv_def db')
qed (use assms(1) in simp)

lemma inv_create_recipe:
  assumes "sci_inv sha est db" and "create_recipe sx now i code name db = (res, db')"
  shows "sci_inv sha est db'"
  by (rule sci_inv_cong [OF assms(1)]) (use create_recipeE [OF assms(2)] assms(1) in \<open>auto simp: sci_inv_def keys_ok_def\<close>)

lemma inv_publish:
  assumes "sci_inv sha est db" and "publish_version sx now i rid cn cv ps seed outs db = (res, db')"
  shows "sci_inv sha est db'"
  using publishE [OF assms(2)]
proof (elim disjE exE conjE)
  fix v rows
  assume db': "db' = db\<lparr>pv_recipe_versions := pv_recipe_versions db @ [v], pv_recipes := rows\<rparr>"
    and v: "rv_id v \<notin> rv_id ` set (pv_recipe_versions db)"
  have "run_ok sha est db' r" if "r \<in> set (pv_runs db')" for r
    by (rule run_ok_mono [of sha est db]) (use assms(1) that in \<open>auto simp: sci_inv_def db'\<close>)
  moreover have "version_ok db' w" if "w \<in> set (pd_versions db')" for w
    by (rule version_ok_mono [of db]) (use assms(1) that in \<open>auto simp: sci_inv_def db'\<close>)
  moreover have "numbered db'"
    using assms(1) numbered_cong [of db' db] by (simp add: sci_inv_def db')
  ultimately show ?thesis
    using assms(1) v by (simp add: sci_inv_def db' keys_ok_def unique_rows_snoc frozen_once_def)
qed (use assms(1) in simp)

lemma inv_create_run:
  assumes "sci_inv sha est db" and "create_run sha (default_registry est) sx now i eid svid rvid db = (res, db')"
  shows "sci_inv sha est db'"
  using create_runE [OF assms(2)]
proof (elim disjE exE conjE)
  fix run es rv sv
  assume db': "db' = db\<lparr>pv_runs := pv_runs db @ [run], pv_edges := pv_edges db @ es\<rparr>"
    and es: "\<forall>e\<in>set es. pe_target_type e = ''fact''"
    and run: "dr_id run = i" "i \<notin> dr_id ` set (pv_runs db)" "dr_status run = ''succeeded''"
      "sv \<in> set (pv_set_versions db)" "sv_id sv = dr_evidence_set_version_id run"
      "member_fact_ids (sv_members sv) \<noteq> None" "rv \<in> set (pv_recipe_versions db)"
      "rv_id rv = dr_recipe_version_id run" "rv_status rv = ''published''"
      "get_executor (rv_component_name rv) (rv_component_version rv) (default_registry est) = Some (robust_execute est)"
      "dr_outputs run = Some (map output_to_dict (run_outputs (robust_execute est) rv))"
      "dr_output_digest run = Some (outputs_digest sha (run_outputs (robust_execute est) rv))"
  have "run_ok sha est db' run"
    using run by (auto simp: run_ok_def db')
  moreover have "run_ok sha est db' r" if "r \<in> set (pv_runs db)" for r
    by (rule run_ok_mono [of sha est db]) (use assms(1) that in \<open>auto simp: sci_inv_def db'\<close>)
  moreover have "version_ok db' w" if "w \<in> set (pd_versions db')" for w
    by (rule version_ok_mono [of db]) (use assms(1) that in \<open>auto simp: sci_inv_def db'\<close>)
  moreover have "numbered db'"
    using assms(1) numbered_cong [of db' db] by (simp add: sci_inv_def db')
  ultimately show ?thesis
    using assms(1) run(1,2) es by (auto simp: sci_inv_def db' keys_ok_def unique_rows_snoc frozen_once_def)
qed (use assms(1) in simp)

lemma inv_replay:
  assumes "sci_inv sha est db" and "replay sha (default_registry est) sx now i eid rid db = (res, db')"
  shows "sci_inv sha est db'"
  using replayE [OF assms(2)] assms(1) inv_create_run [OF assms(1)] by blast

lemma inv_create_parameter:
  assumes "sci_inv sha est db" and "create_parameter sx now i code obj db = (res, db')"
  shows "sci_inv sha est db'"
  by (rule sci_inv_cong [OF assms(1)]) (use create_parameterE [OF assms(2)] assms(1) in \<open>auto simp: sci_inv_def keys_ok_def\<close>)

lemma inv_create_candidate:
  assumes "sci_inv sha est db" and "create_candidate sx now i pid rid val unit conf conds db = (res, db')"
  shows "sci_inv sha est db'"
  using create_candidateE [OF assms(2)]
proof (elim disjE exE conjE)
  fix c
  assume db': "db' = set_param_status sx now pid PPendingReview (db\<lparr>pd_candidates := pd_candidates db @ [c]\<rparr>)"
    and c: "ca_id c \<notin> ca_id ` set (pd_candidates db)"
  have "run_ok sha est db' r" if "r \<in> set (pv_runs db')" for r
    by (rule run_ok_mono [of sha est db]) (use assms(1) that in \<open>auto simp: sci_inv_def db'\<close>)
  moreover have "version_ok db' w" if "w \<in> set (pd_versions db')" for w
    by (rule version_ok_mono [of db]) (use assms(1) that in \<open>auto simp: sci_inv_def db'\<close>)
  moreover have "numbered db'"
    using assms(1) numbered_cong [of db' db] by (simp add: sci_inv_def db')
  ultimately show ?thesis
    using assms(1) c by (simp add: sci_inv_def db' keys_ok_def unique_rows_snoc frozen_once_def)
qed (use assms(1) in simp)

lemma inv_approve:
  assumes "sci_inv sha est db" and "approve sx now vid e cid reviewer db = (res, db')"
  shows "sci_inv sha est db'"
  using approveE [OF assms(2)]
proof (elim disjE exE conjE)
  fix c r
  let ?v = "new_version now vid (max_version (ca_parameter_id c) db + 1) reviewer c"
  assume c: "sql_find (\<lambda>c. ca_id c = cid) (pd_candidates db) = Some c" "ca_status c = CPending"
      "ca_submitted_by c \<noteq> reviewer"
    and r: "run_row sx (ca_derivation_run_id c) db = Some r" and fresh: "vid \<notin> vr_id ` set (pd_versions db)"
    and db': "db' = set_param_status sx now (ca_parameter_id c) PPublished
           (db\<lparr>pd_versions := pd_versions db @ [?v],
               pv_edges := pv_edges db @ [published_edge sx now e vid (ca_derivation_run_id c)],
               pd_candidates := sql_update (\<lambda>x. ca_id x = cid)
                 (reviewed_values now CApproved reviewer None) (pd_candidates db)\<rparr>)"
  have cin: "c \<in> set (pd_candidates db)" "ca_id c = cid"
    using sql_find_SomeD [OF c(1)] by auto
  have rin: "r \<in> set (pv_runs db)" "dr_id r = ca_derivation_run_id c"
    using r by (auto simp: run_row_def dest: sql_find_SomeD)
  have "reviewed_values now CApproved reviewer None c \<in> set (pd_candidates db')"
    using cin by (auto simp: db' set_sql_update)
  then have "version_ok db' ?v"
    unfolding version_ok_def
    using rin c(3) by (auto simp: db' approved_by_other_def new_version_def reviewed_values_def version_edge_def
        published_edge_def intro!: bexI [of _ "reviewed_values now CApproved reviewer None c"])
  moreover have "version_ok db' w" if "w \<in> set (pd_versions db)" for w
  proof (rule version_ok_mono [of db])
    show "version_ok db w"
      using assms(1) that by (simp add: sci_inv_def)
    show "x \<in> set (pd_candidates db')" if "x \<in> set (pd_candidates db)" "ca_status x = CApproved" for x
      using approved_kept [OF _ cin c(2) that] assms(1) by (simp add: db' sci_inv_def)
  qed (auto simp: db')
  moreover have "run_ok sha est db' x" if "x \<in> set (pv_runs db')" for x
    by (rule run_ok_mono [of sha est db]) (use assms(1) that in \<open>auto simp: sci_inv_def db'\<close>)
  moreover have "numbered db'"
    by (rule numbered_snoc [of db db' ?v]) (use assms(1) in \<open>simp_all add: sci_inv_def db' new_version_def\<close>)
  ultimately show ?thesis
    using assms(1) by (auto simp: sci_inv_def db' keys_ok_def review_upd.unique_update frozen_once_def published_edge_def)
qed (use assms(1) in simp)

lemma inv_reject:
  assumes "sci_inv sha est db" and "reject sx now cid reviewer comment db = (res, db')"
  shows "sci_inv sha est db'"
  using rejectE [OF assms(2)]
proof (elim disjE exE conjE)
  fix c
  assume c: "c \<in> set (pd_candidates db)" "ca_id c = cid" "ca_status c = CPending"
    and db': "db' = set_param_status sx now (ca_parameter_id c) PRejected
           (db\<lparr>pd_candidates := sql_update (\<lambda>x. ca_id x = cid)
                (reviewed_values now CRejected reviewer (Some comment)) (pd_candidates db)\<rparr>)"
  have "version_ok db' w" if "w \<in> set (pd_versions db')" for w
  proof (rule version_ok_mono [of db])
    show "version_ok db w"
      using assms(1) that by (simp add: sci_inv_def db')
    show "x \<in> set (pd_candidates db')" if "x \<in> set (pd_candidates db)" "ca_status x = CApproved" for x
      using approved_kept [OF _ c that] assms(1) by (simp add: db' sci_inv_def)
  qed (simp_all add: db')
  moreover have "run_ok sha est db' x" if "x \<in> set (pv_runs db')" for x
    by (rule run_ok_mono [of sha est db]) (use assms(1) that in \<open>auto simp: sci_inv_def db'\<close>)
  moreover have "numbered db'"
    using assms(1) numbered_cong [of db' db] by (simp add: sci_inv_def db')
  ultimately show ?thesis
    using assms(1) by (auto simp: sci_inv_def db' keys_ok_def review_upd.unique_update frozen_once_def)
qed (use assms(1) in simp)

lemma inv_deprecate:
  assumes "sci_inv sha est db" and "deprecate sx now pid db = (res, db')"
  shows "sci_inv sha est db'"
  using deprecateE [OF assms(2)]
proof (elim disjE)
  assume db': "db' = (set_param_status sx now pid PDeprecated db)
    \<lparr>pd_versions := sql_update (\<lambda>v. vr_parameter_id v = pid \<and> vr_status v = VPublished)
       (\<lambda>v. v\<lparr>vr_status := VDeprecated\<rparr>) (pd_versions db)\<rparr>"
  have "version_ok db' w" if "w \<in> set (pd_versions db')" for w
  proof -
    obtain v where v: "v \<in> set (pd_versions db)" "w = v \<or> w = v\<lparr>vr_status := VDeprecated\<rparr>"
      using \<open>w \<in> set (pd_versions db')\<close> by (auto simp: db' set_sql_update)
    have "version_ok db' v"
      by (rule version_ok_mono [of db]) (use assms(1) v(1) in \<open>auto simp: sci_inv_def db'\<close>)
    then show ?thesis
      using v(2) by (auto simp: version_ok_def approved_by_other_def version_edge_def)
  qed
  moreover have "run_ok sha est db' x" if "x \<in> set (pv_runs db')" for x
    by (rule run_ok_mono [of sha est db]) (use assms(1) that in \<open>auto simp: sci_inv_def db'\<close>)
  moreover have "numbered db'"
    by (rule numbered_deprecated [of db]) (use assms(1) in \<open>simp_all add: sci_inv_def db'\<close>)
  ultimately show ?thesis
    using assms(1) by (auto simp: sci_inv_def db' keys_ok_def frozen_once_def)
qed (use assms(1) in simp)

lemma inv_empty: "sci_inv sha est empty_db"
  by (simp add: sci_inv_def empty_db_def keys_ok_def numbered_def versions_of_def frozen_once_def)

lemma inv_step: "sci_step sha est db db' \<Longrightarrow> sci_inv sha est db \<Longrightarrow> sci_inv sha est db'"
proof (induction rule: sci_step.induct)
  case (other_services db fs)
  then show ?case
    by (rule sci_inv_cong) (use other_services in \<open>auto simp: sci_inv_def keys_ok_def\<close>)
qed (blast intro: inv_create_set inv_freeze inv_create_recipe inv_publish inv_create_run inv_replay
    inv_create_parameter inv_create_candidate inv_approve inv_reject inv_deprecate)+

lemma inv_reach: "sci_reach sha est db \<Longrightarrow> sci_inv sha est db"
  by (induction rule: rtranclp_induct) (auto intro: inv_empty inv_step)

section \<open>History\<close>

text \<open>A version row after some time: the same, or deprecated.\<close>

definition later :: "param_version \<Rightarrow> param_version \<Rightarrow> bool" where
  "later v v' \<longleftrightarrow> v' = v \<or> v' = v\<lparr>vr_status := VDeprecated\<rparr>"

definition set_identity :: "evidence_set \<Rightarrow> uuid \<times> string \<times> row_scope" where
  "set_identity e = (es_id e, es_name e, es_scope e)"

definition evolves :: "param_db \<Rightarrow> param_db \<Rightarrow> bool" where
  "evolves db db' \<longleftrightarrow> prefix (map set_identity (pv_sets db)) (map set_identity (pv_sets db'))
    \<and> prefix (pv_set_versions db) (pv_set_versions db') \<and> prefix (pv_recipe_versions db) (pv_recipe_versions db')
    \<and> prefix (pv_runs db) (pv_runs db') \<and> prefix (pv_edges db) (pv_edges db')
    \<and> (\<forall>v\<in>set (pd_versions db). \<exists>v'\<in>set (pd_versions db'). later v v')"

lemma later_refl [simp]: "later v v"
  by (simp add: later_def)

lemma later_trans: "later a b \<Longrightarrow> later b c \<Longrightarrow> later a c"
  by (auto simp: later_def)

lemma version_kept [intro]: "v \<in> A \<Longrightarrow> \<exists>v'\<in>A. later v v'"
  using later_refl by blast

lemma evolves_refl [simp]: "evolves db db"
  by (auto simp: evolves_def)

lemma evolves_trans:
  assumes "evolves a b" and "evolves b c"
  shows "evolves a c"
proof -
  have "\<exists>z\<in>set (pd_versions c). later v z" if v: "v \<in> set (pd_versions a)" for v
  proof -
    obtain y where "y \<in> set (pd_versions b)" "later v y"
      using assms(1) v unfolding evolves_def by blast
    moreover then obtain z where "z \<in> set (pd_versions c)" "later y z"
      using assms(2) unfolding evolves_def by blast
    ultimately show ?thesis
      using later_trans by blast
  qed
  then show ?thesis
    using assms unfolding evolves_def by (meson prefix_order.trans)
qed

lemma set_identity_frozen: "map set_identity (sql_update p (frozen_values now) rows) = map set_identity rows"
  by (induction rows) (auto simp: set_identity_def frozen_values_def)


lemma evolves_create_run:
  "create_run sha (default_registry est) sx now i eid svid rvid db = (res, db') \<Longrightarrow> evolves db db'"
  using create_runE by (fastforce simp: evolves_def)

lemma evolves_step: "sci_step sha est db db' \<Longrightarrow> evolves db db'"
proof (induction rule: sci_step.induct)
  case (s_freeze sx now i sid db res db')
  then show ?case
    using freezeE [OF s_freeze] by (auto simp: evolves_def set_identity_frozen)
next
  case (s_replay sx now i eid rid db res db')
  then show ?case
    using replayE [OF s_replay] evolves_create_run evolves_refl by blast
next
  case (s_approve sx now vid e cid reviewer db res db')
  then show ?case
    using approveE [OF s_approve] by (auto simp: evolves_def)
next
  case (s_deprecate sx now pid db res db')
  have "\<forall>v\<in>set vs. \<exists>v'\<in>set (sql_update p (\<lambda>v. v\<lparr>vr_status := VDeprecated\<rparr>) vs). later v v'" for p vs
    by (auto simp: set_sql_update later_def)
  then show ?case
    using deprecateE [OF s_deprecate] by (auto simp: evolves_def)
qed (auto simp: evolves_def dest!: create_setE create_recipeE publishE create_parameterE create_candidateE rejectE
     dest: evolves_create_run [unfolded evolves_def])

lemma evolves_steps: "(sci_step sha est)\<^sup>*\<^sup>* db db' \<Longrightarrow> evolves db db'"
  by (induction rule: rtranclp_induct) (auto intro: evolves_trans evolves_step)

section \<open>A short history\<close>

text \<open>
  Department 5 has the parts 6 and 7. User 1 of department 5 freezes evidence, publishes a recipe and
  runs it; user 3 of department 6 creates the parameter; user 1 proposes the result; user 2 of
  department 7, who does not see department 6, approves.
\<close>

definition sx1 :: session_ctx where
  "sx1 = \<lparr>sx_visible = [5, 6, 7], sx_dept = 5, sx_rls_dept = None, sx_actor = Some 1\<rparr>"

definition sx2 :: session_ctx where
  "sx2 = \<lparr>sx_visible = [7, 5], sx_dept = 7, sx_rls_dept = None, sx_actor = Some 2\<rparr>"

definition sx3 :: session_ctx where
  "sx3 = \<lparr>sx_visible = [6, 5], sx_dept = 6, sx_rls_dept = None, sx_actor = Some 3\<rparr>"

definition demo_frozen :: param_db where
  "demo_frozen = snd (freeze sx1 0 11 10 (snd (create_set sx1 0 10 ''e'' empty_db)))"

definition demo_recipe :: param_db where
  "demo_recipe = snd (publish_version sx1 0 13 12 ''robust-parameter-estimator'' ''0.8.0'' [] 1 []
    (snd (create_recipe sx1 0 12 ''r'' ''r'' demo_frozen)))"

definition demo_run :: "(json \<Rightarrow> string) \<Rightarrow> executor \<Rightarrow> param_db" where
  "demo_run sha est = snd (create_run sha (default_registry est) sx1 0 14 (\<lambda>i. 100 + i) 11 13 demo_recipe)"

definition demo_proposed :: "(json \<Rightarrow> string) \<Rightarrow> executor \<Rightarrow> param_db" where
  "demo_proposed sha est =
    (let f = snd (create_parameter sx3 0 15 ''v'' 7 (demo_run sha est))
     in snd (create_candidate sx1 0 16 15 14 ''0'' None None None f))"

definition demo_published :: "(json \<Rightarrow> string) \<Rightarrow> executor \<Rightarrow> param_db" where
  "demo_published sha est = snd (approve sx2 0 17 200 16 2 (demo_proposed sha est))"

definition demo_sha :: "json \<Rightarrow> string" where
  "demo_sha _ = ''digest''"

definition demo_est :: executor where
  "demo_est = robust_execute (\<lambda>_ _. \<lparr>co_variable_code = ''x'', co_value = ''1'', co_unit = None,
     co_confidence = Fin 1, co_exclusion_reasons = []\<rparr>)"

lemma reach_ops:
  assumes "sci_reach sha est db"
  shows "sci_reach sha est (snd (create_set sx now i name db))"
    and "sci_reach sha est (snd (freeze sx now i sid db))"
    and "sci_reach sha est (snd (create_recipe sx now i code name db))"
    and "sci_reach sha est (snd (publish_version sx now i rid cn cv ps seed outs db))"
    and "sci_reach sha est (snd (create_run sha (default_registry est) sx now i eid svid rvid db))"
    and "sci_reach sha est (snd (create_parameter sx now i code obj db))"
    and "sci_reach sha est (snd (create_candidate sx now i pid rid val unit conf conds db))"
    and "sci_reach sha est (snd (approve sx now vid e cid reviewer db))"
  using assms
  by (auto intro!: rtranclp.rtrancl_into_rtrancl [OF assms] intro: sci_step.intros prod.collapse [symmetric])

lemma demo_reach:
  "sci_reach sha est (demo_run sha est)" "sci_reach sha est (demo_proposed sha est)"
  "sci_reach sha est (demo_published sha est)"
  by (simp_all add: demo_frozen_def demo_recipe_def demo_run_def demo_proposed_def demo_published_def Let_def reach_ops)

lemmas demo_simps = empty_db_def sx1_def sx2_def sx3_def sees_a_def sees_b_def policy_a_def policy_b_def
  guc_dept_def tree_scope_def is_blank_def py_strip_def strip_by_def is_py_space_def insert_row_def Let_def

lemma demo_frozen_rows:
  "pv_set_versions demo_frozen = [\<lparr>sv_id = 11, sv_set_id = 10, sv_version = 1, sv_status = ''frozen'',
     sv_members = [], sv_member_count = 0, sv_created_at = 0, sv_frozen_at = 0\<rparr>]"
  "pv_recipes demo_frozen = []" "pv_recipe_versions demo_frozen = []" "pv_runs demo_frozen = []"
  "pv_edges demo_frozen = []" "pd_parameters demo_frozen = []" "pd_candidates demo_frozen = []"
  "pd_versions demo_frozen = []"
  by (simp_all add: demo_frozen_def create_set_def freeze_def set_row_def sql_find_def active_facts_def demo_simps)

lemma demo_recipe_rows:
  "pv_recipe_versions demo_recipe = [\<lparr>rv_id = 13, rv_recipe_id = 12, rv_version = 1,
     rv_component_name = ''robust-parameter-estimator'', rv_component_version = ''0.8.0'', rv_parameters = [],
     rv_random_seed = 1, rv_output_definitions = [], rv_status = ''published'', rv_created_at = 0,
     rv_published_at = 0\<rparr>]"
  "pv_set_versions demo_recipe = pv_set_versions demo_frozen" "pv_runs demo_recipe = []"
  "pv_edges demo_recipe = []" "pd_parameters demo_recipe = []" "pd_candidates demo_recipe = []"
  "pd_versions demo_recipe = []"
  by (simp_all add: demo_recipe_def create_recipe_def publish_version_def recipe_row_def sql_find_def
      versions_of_recipe_def latest_by_def demo_frozen_rows demo_simps)

lemma demo_run_rows:
  "pv_runs (demo_run sha est) =
    [\<lparr>dr_id = 14, dr_evidence_set_version_id = 11, dr_recipe_version_id = 13, dr_job_id = None,
      dr_status = ''succeeded'',
      dr_output_digest = Some (outputs_digest sha [robust_execute est [] []]),
      dr_outputs = Some [output_to_dict (robust_execute est [] [])], dr_started_at = Some 0,
      dr_completed_at = Some 0, dr_error = None, dr_created_at = 0, dr_department_id = 5\<rparr>]"
  "pv_edges (demo_run sha est) = []" "pd_parameters (demo_run sha est) = []"
  "pd_candidates (demo_run sha est) = []" "pd_versions (demo_run sha est) = []"
  by (simp_all add: demo_run_def create_run_def sql_find_def demo_recipe_rows demo_frozen_rows get_executor_def
      default_registry_def register_executor_def dict_get_def member_fact_ids_def run_outputs_def
      robust_execute_def insert_row_def sx1_def sees_b_def policy_b_def Let_def enumerate_eq_zip)

definition demo_candidate :: candidate where
  "demo_candidate = new_candidate 0 16 1 15 14 ''0'' None None None"

lemma demo_proposed_rows:
  "pv_runs (demo_proposed sha est) = pv_runs (demo_run sha est)" "pv_edges (demo_proposed sha est) = []"
  "pd_candidates (demo_proposed sha est) = [demo_candidate]" "pd_versions (demo_proposed sha est) = []"
  "param_row sx2 15 (demo_proposed sha est) = None"
  by (simp_all add: demo_proposed_def create_parameter_def create_candidate_def run_row_def demo_run_rows
      param_row_def sees_parameter_def set_param_status_def sql_find_def demo_candidate_def new_candidate_def
      status_values_pm_def demo_simps)

lemma demo_published_rows:
  "pd_versions (demo_published sha est) = [new_version 0 17 1 2 demo_candidate]"
  by (simp add: demo_published_def approve_def review_error_def candidate_row_def demo_proposed_rows sql_find_def
      demo_candidate_def new_candidate_def run_row_def demo_run_rows max_version_def versions_of_def
      demo_simps published_edge_def new_version_def)

section \<open>What the system promises\<close>



text \<open>
  C32. Nothing published is rewritten. Whatever the services do later, a parameter version keeps its
  number, value, unit, confidence, conditions, run, publisher and time; only its status may turn to
  deprecated. Frozen evidence, recipe versions, derivation runs and provenance edges keep all their
  columns and their order, and evidence sets keep their name, owner and department.
\<close>

theorem published_content_immutable:
  assumes "(sci_step sha est)\<^sup>*\<^sup>* db db'"
  shows "(\<forall>v\<in>set (pd_versions db). \<exists>v'\<in>set (pd_versions db'). v' = v \<or> v' = v\<lparr>vr_status := VDeprecated\<rparr>)
    \<and> prefix (pv_set_versions db) (pv_set_versions db') \<and> prefix (pv_recipe_versions db) (pv_recipe_versions db')
    \<and> prefix (pv_runs db) (pv_runs db') \<and> prefix (pv_edges db) (pv_edges db')
    \<and> prefix (map set_identity (pv_sets db)) (map set_identity (pv_sets db'))"
  using evolves_steps [OF assms] by (auto simp: evolves_def later_def)

lemma published_content_immutable_witness:
  "prefix (pv_runs empty_db) (pv_runs (demo_published demo_sha demo_est))"
  using published_content_immutable [OF demo_reach(3), of demo_sha demo_est] by blast

text \<open>
  Derivations never look at the evidence. \<open>create_run\<close> passes an empty list of values to its
  executor, so in every reachable state every derivation run has succeeded with the value 0 and the
  confidence 0.0 for each output of its recipe, whatever facts its evidence holds.
\<close>

definition zero_output :: "string \<Rightarrow> json" where
  "zero_output code = JObj
     [(''variable_code'', JStr code), (''value'', JStr ''0''), (''unit'', JNull),
      (''confidence'', JFloat (Fin 0)), (''exclusion_reasons'', JArr [])]"

theorem derivations_are_zero:
  assumes "sci_reach sha est db" and "r \<in> set (pv_runs db)"
  shows "dr_status r = ''succeeded'' \<and> (\<exists>rv\<in>set (pv_recipe_versions db). rv_id rv = dr_recipe_version_id r
    \<and> dr_outputs r = Some (map zero_output
        (if rv_output_definitions rv = [] then [''estimated_value''] else rv_output_definitions rv)))"
proof -
  have "run_ok sha est db r"
    using inv_reach [OF assms(1)] assms(2) by (simp add: sci_inv_def)
  then obtain rv where rv: "rv \<in> set (pv_recipe_versions db)" "rv_id rv = dr_recipe_version_id r"
      "dr_outputs r = Some (map output_to_dict (run_outputs (robust_execute est) rv))" "dr_status r = ''succeeded''"
    by (auto simp: run_ok_def)
  have "map output_to_dict (run_outputs (robust_execute est) rv) = map zero_output
      (if rv_output_definitions rv = [] then [''estimated_value''] else rv_output_definitions rv)"
    by (simp add: run_outputs_def robust_execute_def output_to_dict_def zero_output_def)
  then show ?thesis
    using rv by auto
qed

lemma derivations_are_zero_witness:
  "dr_outputs (hd (pv_runs (demo_run demo_sha demo_est))) = Some [zero_output ''estimated_value'']
    \<and> dr_status (hd (pv_runs (demo_run demo_sha demo_est))) = ''succeeded''"
proof -
  have "hd (pv_runs (demo_run demo_sha demo_est)) \<in> set (pv_runs (demo_run demo_sha demo_est))"
    by (simp add: demo_run_rows)
  then have "dr_status (hd (pv_runs (demo_run demo_sha demo_est))) = ''succeeded''"
    using derivations_are_zero [OF demo_reach(1), of _ demo_sha demo_est] by blast
  then show ?thesis
    by (simp add: demo_run_rows zero_output_def output_to_dict_def robust_execute_def)
qed

text \<open>
  No path to the raw data. \<open>approve\<close> writes the edge of a new version with the version as source and
  the run as target; \<open>get_paths_to_raw\<close> looks for edges whose target is the version. So in every
  reachable state the edge of each version exists, and yet the path search finds nothing for any
  version and any session.
\<close>

theorem paths_to_raw_empty:
  assumes "sci_reach sha est db"
  shows "get_paths_to_raw sx vid db = []
    \<and> (\<forall>v\<in>set (pd_versions db). \<exists>e\<in>set (pv_edges db). pe_source_type e = ''parameter_version''
         \<and> pe_source_id e = vr_id v \<and> pe_target_type e = ''derivation_run'' \<and> pe_target_id e = vr_derivation_run_id v)"
proof -
  have inv: "sci_inv sha est db"
    using inv_reach [OF assms] .
  then have none: "filter (\<lambda>e. pe_target_id e = vid \<and> pe_target_type e = ''parameter_version'') (seen_edges sx db) = []"
    by (auto simp: sci_inv_def seen_edges_def filter_empty_conv)
  have "get_paths_to_raw sx vid db = []"
    unfolding get_paths_to_raw_def Let_def none by simp
  moreover have "\<exists>e\<in>set (pv_edges db). version_edge v e" if "v \<in> set (pd_versions db)" for v
    using inv that by (auto simp: sci_inv_def version_ok_def)
  ultimately show ?thesis
    unfolding version_edge_def by blast
qed

lemma paths_to_raw_empty_witness: "get_paths_to_raw sx2 17 (demo_published demo_sha demo_est) = []"
  using paths_to_raw_empty [OF demo_reach(3), of sx2 17 demo_sha demo_est] by blast

text \<open>
  The review depends on who can see the parameter for one decision only. If a reviewer does not
  see the parameter of a pending candidate but sees its run, \<open>reject\<close> answers not_found and changes
  nothing, while \<open>approve\<close> publishes a version of the invisible parameter (with an empty variable code
  in its answer) and leaves the parameter row as it is.
\<close>

theorem approve_ignores_row_policy:
  assumes "sci_reach sha est db" and "c \<in> set (pd_candidates db)" and "ca_status c = CPending"
    and "ca_submitted_by c \<noteq> reviewer" and "run_row sx (ca_derivation_run_id c) db \<noteq> None"
    and "param_row sx (ca_parameter_id c) db = None" and "sees_b sx (sx_dept sx)"
    and "vid \<notin> vr_id ` set (pd_versions db)" and "e \<notin> pe_id ` set (pv_edges db)"
  shows "reject sx now (ca_id c) reviewer comment db = (Inl (candidate_not_found (ca_id c)), db)
    \<and> (\<exists>ref db'. approve sx now vid e (ca_id c) reviewer db = (Inr ref, db') \<and> vf_variable_code ref = []
         \<and> vf_parameter_id ref = ca_parameter_id c \<and> length (pd_versions db') = Suc (length (pd_versions db))
         \<and> pd_parameters db' = pd_parameters db)"
proof -
  have inv: "sci_inv sha est db"
    using inv_reach [OF assms(1)] .
  then have row: "sql_find (\<lambda>x. ca_id x = ca_id c) (pd_candidates db) = Some c"
    using assms(2) by (simp add: sci_inv_def keys_ok_def sql_find_Some_iff)
  have "\<not> (ca_id x = ca_id c \<and> param_row sx (ca_parameter_id x) db \<noteq> None)" if "x \<in> set (pd_candidates db)" for x
    using inv that assms(2,6) unique_rows_eq [of ca_id "pd_candidates db" x c] by (auto simp: sci_inv_def keys_ok_def)
  then have "joined_candidate sx (ca_id c) db = None"
    unfolding joined_candidate_def sql_find_None_iff by blast
  then have rej: "reject sx now (ca_id c) reviewer comment db = (Inl (candidate_not_found (ca_id c)), db)"
    by (simp add: reject_def)
  obtain r where r: "run_row sx (ca_derivation_run_id c) db = Some r"
    using assms(5) by blast
  then have "dr_status r = ''succeeded''"
    using inv by (auto simp: sci_inv_def run_ok_def run_row_def dest: sql_find_SomeD)
  moreover have "sql_update (sees_parameter sx (ca_parameter_id c)) f (pd_parameters db) = pd_parameters db" for f
    by (rule sql_update_id) (use assms(6) in \<open>simp add: param_row_def sql_find_None_iff sql_rowcount_0_iff\<close>)
  moreover have "review_error c reviewer = None"
    using assms(3,4) by simp
  ultimately show ?thesis
    using rej row r assms(6-9)
    by (simp add: approve_def review_error_def candidate_row_def Let_def new_version_def published_edge_def
        version_to_ref_def set_param_status_def insert_row_def)
qed

lemma approve_ignores_row_policy_witness:
  "\<exists>ref db'. approve sx2 0 17 200 16 2 (demo_proposed demo_sha demo_est) = (Inr ref, db') \<and> vf_variable_code ref = []"
proof -
  have c: "demo_candidate \<in> set (pd_candidates (demo_proposed demo_sha demo_est))" "ca_status demo_candidate = CPending"
      "ca_submitted_by demo_candidate \<noteq> 2" "ca_id demo_candidate = 16" "ca_parameter_id demo_candidate = 15"
      "ca_derivation_run_id demo_candidate = 14"
    by (simp_all add: demo_proposed_rows demo_candidate_def new_candidate_def)
  have run: "run_row sx2 (ca_derivation_run_id demo_candidate) (demo_proposed demo_sha demo_est) \<noteq> None"
    by (simp add: c run_row_def demo_proposed_rows demo_run_rows sql_find_def sx2_def sees_b_def policy_b_def)
  have "sees_b sx2 (sx_dept sx2)"
    by (simp add: sx2_def sees_b_def policy_b_def)
  then show ?thesis
    using approve_ignores_row_policy [OF demo_reach(2) c(1-3) run, of 17 200 0 undefined] c
    by (auto simp: demo_proposed_rows)
qed

lemma insert_rows_ok:
  "\<forall>r\<in>set rs. vis r \<Longrightarrow> distinct (map key rs) \<Longrightarrow> key ` set rs \<inter> key ` set rows = {} \<Longrightarrow>
    insert_rows key vis rs rows = Inr (rows @ rs)"
proof (induction rs arbitrary: rows)
  case (Cons r rs)
  then have "insert_rows key vis rs (rows @ [r]) = Inr ((rows @ [r]) @ rs)"
    by (intro Cons.IH) auto
  then show ?case
    using Cons.prems by (simp add: insert_row_def)
qed simp

lemma selected_edges_ok:
  assumes "sees_b sx (sx_dept sx)" and "inj eid" and "\<forall>k. eid k \<notin> pe_id ` set es"
  shows "insert_rows pe_id (\<lambda>e. sees_b sx (pe_department_id e))
    (map (\<lambda>(k, f). selected_edge sx now (eid k) i f) (enumerate 0 fids)) es =
    Inr (es @ map (\<lambda>(k, f). selected_edge sx now (eid k) i f) (enumerate 0 fids))"
proof (rule insert_rows_ok)
  let ?new = "map (\<lambda>(k, f). selected_edge sx now (eid k) i f) (enumerate 0 fids)"
  have ids: "map pe_id ?new = map eid [0..<length fids]"
    by (simp add: selected_edge_def case_prod_unfold comp_def)
      (metis (no_types, lifting) add_0 comp_apply map_eq_conv map_fst_enumerate map_map)
  show "distinct (map pe_id ?new)"
    unfolding ids using assms(2) by (simp add: distinct_map inj_on_subset [OF assms(2)])
  show "pe_id ` set ?new \<inter> pe_id ` set es = {}"
    using assms(3) ids by (metis (no_types, lifting) disjoint_iff ex_map_conv list.set_map)
  show "\<forall>r\<in>set ?new. sees_b sx (pe_department_id r)"
    using assms(1) by (auto simp: selected_edge_def)
qed

text \<open>
  C33. Replay reproduces. A session that sees a run and its own department can replay the run at any
  later time: the replay succeeds, has an id of its own, the digest of the original run and the same
  outputs, and leaves the original as it is.
\<close>

theorem replay_reproduces:
  assumes "sci_reach sha est db" and "run_row sx rid db = Some r" and "sees_b sx (sx_dept sx)"
    and "i \<notin> dr_id ` set (pv_runs db)" and "inj eid" and "\<forall>k. eid k \<notin> pe_id ` set (pv_edges db)"
  shows "\<exists>ref db' r'. replay sha (default_registry est) sx now i eid rid db = (Inr ref, db')
    \<and> ref_id ref = i \<and> dr_output_digest r = Some (ref_output_digest ref)
    \<and> pv_runs db' = pv_runs db @ [r'] \<and> dr_id r' = i \<and> dr_outputs r' = dr_outputs r
    \<and> dr_evidence_set_version_id r' = dr_evidence_set_version_id r"
proof -
  have inv: "sci_inv sha est db"
    using inv_reach [OF assms(1)] .
  have "r \<in> set (pv_runs db)"
    using assms(2) by (auto simp: run_row_def dest: sql_find_SomeD)
  then have "run_ok sha est db r"
    using inv by (simp add: sci_inv_def)
  then obtain sv rv fids where *: "sv \<in> set (pv_set_versions db)" "sv_id sv = dr_evidence_set_version_id r"
      "member_fact_ids (sv_members sv) = Some fids" "rv \<in> set (pv_recipe_versions db)"
      "rv_id rv = dr_recipe_version_id r" "rv_status rv = ''published''"
      "get_executor (rv_component_name rv) (rv_component_version rv) (default_registry est) = Some (robust_execute est)"
      "dr_outputs r = Some (map output_to_dict (run_outputs (robust_execute est) rv))"
      "dr_output_digest r = Some (outputs_digest sha (run_outputs (robust_execute est) rv))"
    by (auto simp: run_ok_def)
  have "sql_find (\<lambda>v. sv_id v = dr_evidence_set_version_id r) (pv_set_versions db) = Some sv"
    "sql_find (\<lambda>v. rv_id v = dr_recipe_version_id r) (pv_recipe_versions db) = Some rv"
    using inv * by (simp_all add: sci_inv_def keys_ok_def sql_find_Some_iff)
  then show ?thesis
    using * assms(2-4) selected_edges_ok [OF assms(3,5,6), of now i fids]
    by (simp add: replay_def create_run_def Let_def insert_row_def)
qed

lemma replay_reproduces_witness:
  "\<exists>ref db'. replay demo_sha (default_registry demo_est) sx1 9 20 (\<lambda>k. 300 + k) 14 (demo_published demo_sha demo_est) = (Inr ref, db')
    \<and> ref_id ref = 20"
proof -
  have runs: "pv_runs (demo_published demo_sha demo_est) = pv_runs (demo_run demo_sha demo_est)"
    "pv_edges (demo_published demo_sha demo_est) = [published_edge sx2 0 200 17 14]"
    by (simp_all add: demo_published_def approve_def review_error_def candidate_row_def demo_proposed_rows
        sql_find_def demo_candidate_def new_candidate_def run_row_def demo_run_rows demo_simps
        published_edge_def new_version_def)
  obtain r where r: "run_row sx1 14 (demo_published demo_sha demo_est) = Some r"
    by (simp add: run_row_def runs demo_run_rows sql_find_def sx1_def sees_b_def policy_b_def)
  have "sees_b sx1 (sx_dept sx1)" "20 \<notin> dr_id ` set (pv_runs (demo_published demo_sha demo_est))" "inj (\<lambda>k::nat. 300 + k)"
    "\<forall>k. 300 + k \<notin> pe_id ` set (pv_edges (demo_published demo_sha demo_est))"
    by (simp_all add: runs demo_run_rows published_edge_def sx1_def sees_b_def policy_b_def)
  then show ?thesis
    using replay_reproduces [OF demo_reach(3) r] by blast
qed

lemma member_round_trip:
  assumes "em_fact_id m < 2 ^ 128" and "em_observation_id m = None"
  shows "member_from_dict (member_to_dict m) = Some m"
  using assms json_uuid_str [OF assms(1)]
  by (simp add: member_from_dict_def member_to_dict_def dict_get_def)

lemma set_row_evolves:
  assumes "evolves db db'" and "set_row sx sid db \<noteq> None"
  shows "set_row sx sid db' \<noteq> None"
proof -
  obtain e where e: "e \<in> set (pv_sets db)" "es_id e = sid" "sees_a sx (es_scope e)"
    using assms(2) by (auto simp: set_row_def dest: sql_find_SomeD)
  have "set_identity e \<in> set_identity ` set (pv_sets db')"
    using assms(1) e(1) unfolding evolves_def by (metis image_eqI list.set_map set_mono_prefix subsetD)
  then obtain e' where "e' \<in> set (pv_sets db')" "es_id e' = sid" "es_scope e' = es_scope e"
    using e(2) by (auto simp: set_identity_def)
  then show ?thesis
    using e(3) unfolding set_row_def by (auto simp: sql_find_None_iff)
qed

lemma only_version:
  assumes "frozen_once db" and "v \<in> set (pv_set_versions db)"
  shows "versions_of_set (sv_set_id v) db = [v]"
proof -
  have u: "unique_rows sv_set_id (pv_set_versions db)"
    using assms(1) by (simp add: frozen_once_def unique_rows_def)
  then have "sql_find (\<lambda>w. sv_set_id w = sv_set_id v) (pv_set_versions db) = Some v"
    using assms(2) by (simp add: sql_find_Some_iff)
  then show ?thesis
    unfolding versions_of_set_def
    using filter_unique [OF u, of "\<lambda>w. sv_set_id w = sv_set_id v" "sv_set_id v"] by simp
qed

text \<open>
  C34. Freezing. A successful \<open>freeze\<close> records exactly the active facts that the session sees at that
  moment, oldest first, and reading the members back gives them again, at once and after anything the
  services do later (also when facts have changed or gone since); a second freeze of the set fails.
\<close>

theorem freeze_exact:
  assumes "sci_reach sha est db" and "\<forall>f\<in>set (pv_facts db). fc_id f < 2 ^ 128"
    and "freeze sx now i sid db = (Inr v, db')" and "(sci_step sha est)\<^sup>*\<^sup>* db' db''"
  shows "list_members sx sid None db'' = Inr (map auto_member (active_facts sx db))
    \<and> list_members sx sid (Some 1) db'' = Inr (map auto_member (active_facts sx db))
    \<and> sv_member_count v = length (active_facts sx db)
    \<and> (\<exists>err. freeze sx now' i' sid db'' = (Inl err, db''))"
proof -
  have v: "v \<in> set (pv_set_versions db')" "sv_set_id v = sid" "sv_version v = 1"
      "sv_members v = map (\<lambda>f. member_to_dict (auto_member f)) (active_facts sx db)"
      "sv_member_count v = length (active_facts sx db)"
    and row: "set_row sx sid db \<noteq> None"
    using freezeE [OF assms(3)] by auto
  have step: "sci_step sha est db db'"
    using assms(3) by (rule s_freeze)
  have ev: "evolves db' db''"
    using evolves_steps [OF assms(4)] .
  have "set_row sx sid db'' \<noteq> None"
    using set_row_evolves [OF ev set_row_evolves [OF evolves_step [OF step] row]] .
  then obtain e where e: "set_row sx sid db'' = Some e"
    by blast
  have vin: "v \<in> set (pv_set_versions db'')"
    using ev v(1) set_mono_prefix unfolding evolves_def by blast
  have "sci_inv sha est db''"
    using assms(1,4) step by (meson inv_reach rtranclp.rtrancl_into_rtrancl rtranclp_trans)
  then have one: "versions_of_set sid db'' = [v]"
    using only_version [OF _ vin] v(2) by (simp add: sci_inv_def)
  have "all_some (map member_from_dict (sv_members v)) = Some (map auto_member (active_facts sx db))"
    unfolding v(4) map_map comp_def
    by (rule all_some_mapI) (use assms(2) in \<open>auto simp: active_facts_def auto_member_def intro!: member_round_trip\<close>)
  then have members: "list_members sx sid None db'' = Inr (map auto_member (active_facts sx db))"
    "list_members sx sid (Some 1) db'' = Inr (map auto_member (active_facts sx db))"
    using v(3) by (simp_all add: list_members_def e one latest_by_def sql_find_def)
  have "\<exists>err. freeze sx now' i' sid db'' = (Inl err, db'')"
    using vin v(2,3) by (auto simp: freeze_def e Let_def)
  then show ?thesis
    using members v(5) by blast
qed

lemma freeze_exact_witness:
  "\<exists>(db :: param_db) v. freeze sx1 1 11 10 db = (Inr v, snd (freeze sx1 1 11 10 db)) \<and>
    list_members sx1 10 None (snd (freeze sx1 1 11 10 db)) =
      Inr [\<lparr>em_fact_id = 77, em_observation_id = None, em_decision = ''included'', em_reason = REASON_AUTO\<rparr>]"
proof -
  define f where "f = \<lparr>fc_id = 77, fc_created_at = 0, fc_status = ''active'', fc_subject_id = ''s'',
    fc_scope = tree_scope sx1 1\<rparr>"
  define db where "db = (snd (create_set sx1 0 10 ''e'' empty_db))\<lparr>pv_facts := [f]\<rparr>"
  have reach: "sci_reach sha est db" for sha est
    unfolding db_def
    by (rule rtranclp.rtrancl_into_rtrancl [OF reach_ops(1) [OF rtranclp.rtrancl_refl]]) (rule other_services)
  have active: "active_facts sx1 db = [f]"
    by (simp add: active_facts_def db_def f_def create_set_def demo_simps)
  have fz: "\<exists>v. freeze sx1 1 11 10 db = (Inr v, snd (freeze sx1 1 11 10 db))"
    by (simp add: freeze_def set_row_def sql_find_def active_facts_def db_def f_def create_set_def demo_simps)
  then obtain v where v: "freeze sx1 1 11 10 db = (Inr v, snd (freeze sx1 1 11 10 db))"
    by blast
  have "\<forall>f\<in>set (pv_facts db). fc_id f < 2 ^ 128"
    by (simp add: db_def f_def)
  from freeze_exact [OF reach this v rtranclp.rtrancl_refl]
  have "list_members sx1 10 None (snd (freeze sx1 1 11 10 db)) = Inr (map auto_member [f])"
    by (simp add: active)
  then have "list_members sx1 10 None (snd (freeze sx1 1 11 10 db)) =
      Inr [\<lparr>em_fact_id = 77, em_observation_id = None, em_decision = ''included'', em_reason = REASON_AUTO\<rparr>]"
    by (simp add: auto_member_def f_def)
  then show ?thesis
    using v by (intro exI [of _ db] exI [of _ v]) simp
qed

text \<open>
  C35. Listing parameters. Following the cursors of \<open>list_parameters\<close>, for any filters and page size,
  visits every parameter that the session sees and the filters admit exactly once, ordered by creation
  time and then id; parameters created at the same time are not lost.
\<close>

definition admitted :: "session_ctx \<Rightarrow> string option \<Rightarrow> uuid option \<Rightarrow> string option \<Rightarrow> parameter \<Rightarrow> bool" where
  "admitted sx code obj st p \<longleftrightarrow> sees_a sx (pm_scope p)
    \<and> (case code of None \<Rightarrow> True | Some c \<Rightarrow> pm_variable_code p = c)
    \<and> (case obj of None \<Rightarrow> True | Some i \<Rightarrow> pm_object_id p = i)
    \<and> (case st of None \<Rightarrow> True | Some s \<Rightarrow> parameter_status_value (pm_status p) = s)"

definition parameter_pages ::
    "session_ctx \<Rightarrow> string option \<Rightarrow> uuid option \<Rightarrow> string option \<Rightarrow> nat \<Rightarrow> param_db
      \<Rightarrow> (timestamp \<times> uuid) option \<Rightarrow> (uuid \<times> string \<times> uuid \<times> parameter_status) list \<times> (timestamp \<times> uuid) option \<times> bool" where
  "parameter_pages sx code obj st n db cursor =
    (case list_parameters sx code obj st (map_option Inr cursor) n db of
       Inl _ \<Rightarrow> ([], None, False) | Inr (page, c) \<Rightarrow> (page, c, c \<noteq> None))"

theorem list_parameters_complete:
  assumes "unique_rows pm_id (pd_parameters db)" and "0 < n"
  shows "all_pages (Suc (length (pd_parameters db))) (parameter_pages sx code obj st n db) None =
    map (\<lambda>p. (pm_id p, pm_variable_code p, pm_object_id p, pm_status p))
      (sort_key (\<lambda>p. (pm_created_at p, pm_id p)) (filter (admitted sx code obj st) (pd_parameters db)))"
proof -
  let ?key = "\<lambda>p. (pm_created_at p, pm_id p)" and ?rows = "filter (admitted sx code obj st) (pd_parameters db)"
    and ?row = "\<lambda>p. (pm_id p, pm_variable_code p, pm_object_id p, pm_status p)"
  let ?fetch = "\<lambda>c. case keyset_asc ?key n c ?rows of (p, m) \<Rightarrow> (p, m, m \<noteq> None)"
  have "distinct (map pm_id ?rows)"
    using assms(1) by (simp add: unique_rows_def distinct_map_filter)
  then have "distinct (map ?key ?rows)"
    by (auto simp: distinct_map inj_on_def)
  then have "all_pages (Suc (length (pd_parameters db))) ?fetch None = sort_key ?key ?rows"
    using assms(2) by (intro asc_pages_complete [where limit = n]) auto
  moreover have "parameter_pages sx code obj st n db c =
      (case ?fetch c of (page, m, hm) \<Rightarrow> (map ?row page, m, hm))" for c
    by (cases c) (simp_all add: parameter_pages_def list_parameters_def admitted_def [abs_def] split: prod.splits)
  ultimately show ?thesis
    using all_pages_map [where fetch' = "parameter_pages sx code obj st n db" and fetch = ?fetch and g = ?row] by simp
qed

lemma list_parameters_complete_witness:
  "length (all_pages 2 (parameter_pages sx1 None None None 1 (demo_published demo_sha demo_est)) None) = 1"
proof -
  have rows: "length (pd_parameters (demo_published demo_sha demo_est)) = 1"
      "\<forall>p\<in>set (pd_parameters (demo_published demo_sha demo_est)). sees_a sx1 (pm_scope p)"
    by (simp_all add: demo_published_def approve_def review_error_def candidate_row_def demo_proposed_rows
        sql_find_def demo_candidate_def new_candidate_def run_row_def demo_run_rows demo_simps
        published_edge_def new_version_def set_param_status_def demo_proposed_def create_parameter_def
        create_candidate_def param_row_def sees_parameter_def status_values_pm_def)
  then have u: "unique_rows pm_id (pd_parameters (demo_published demo_sha demo_est))"
    by (cases "pd_parameters (demo_published demo_sha demo_est)") (auto simp: unique_rows_def)
  have "filter (admitted sx1 None None None) (pd_parameters (demo_published demo_sha demo_est)) =
      pd_parameters (demo_published demo_sha demo_est)"
    using rows(2) by (simp add: admitted_def)
  then show ?thesis
    using list_parameters_complete [OF u, of 1 sx1 None None None] rows(1) by (simp add: numeral_2_eq_2)
qed

end
