(* ===== verification/Accounts.thy ===== *)
theory Accounts imports Sessions begin

text \<open>
  User accounts and their sessions: the rows (\<open>packages/auth/entities.py\<close>), the repository
  (\<open>repository.py\<close>), the local backend (\<open>backends.py\<close>), the tokens (\<open>tokens.py\<close>) and \<open>AuthService\<close>
  (\<open>service.py\<close>). The two tables have no row policies. Argon2, SHA-256, PyJWT and the collation of
  the e-mail column (\<open>citext\<close>) are the parameters of \<open>auth_env\<close>; a random refresh token, the new
  identifiers and the clock are arguments. Every operation is one transaction, rolled back when it
  ends with an exception.
\<close>

section \<open>Rows\<close>

record app_user =
  au_id :: uuid
  au_email :: string
  au_display_name :: string
  au_password_hash :: string
  au_status :: string
  au_created_at :: timestamp
  au_updated_at :: timestamp
  au_lock_version :: nat
  au_roles :: "string list"
  au_department_id :: uuid
  au_token_version :: int
  au_avatar_url :: "string option"

record refresh_session =
  rf_id :: uuid
  rf_family_id :: uuid
  rf_user_id :: uuid
  rf_token_digest :: string
  rf_issued_at :: timestamp
  rf_expires_at :: timestamp
  rf_revoked_at :: "timestamp option"
  rf_replaced_by :: "uuid option"
  rf_created_ip :: "string option"
  rf_user_agent :: "string option"

text \<open>The rows of \<open>audit_event\<close>, written by the administration of users.\<close>

record audit_event =
  ev_actor_user_id :: "uuid option"
  ev_department_id :: uuid
  ev_action :: string
  ev_resource_type :: "string option"
  ev_resource_id :: "uuid option"
  ev_payload :: "dict option"

text \<open>
  \<open>ad_user_refs\<close>: the users that rows of other tables refer to by a foreign key without cascade
  (\<open>fact.created_by\<close>, \<open>job.created_by\<close>, \<open>artifact.uploaded_by\<close> and more).
\<close>

record auth_db =
  ad_users :: "app_user list"
  ad_sessions :: "refresh_session list"
  ad_audit :: "audit_event list"
  ad_depts :: dept_db
  ad_user_refs :: "uuid list"

text \<open>What \<open>jwt.decode\<close> answers: the payload, or one of its two exceptions.\<close>

datatype jwt_result = JwtOk dict | JwtExpired | JwtInvalid

record auth_env =
  ae_verify :: "string \<Rightarrow> string \<Rightarrow> bool"
  ae_hash :: "string \<Rightarrow> string \<Rightarrow> string"
  ae_digest :: "string \<Rightarrow> string"
  ae_encode :: "dict \<Rightarrow> string"
  ae_decode :: "timestamp \<Rightarrow> string \<Rightarrow> jwt_result"
  ae_fold :: "string \<Rightarrow> string"

section \<open>Repository\<close>

definition find_user_by_email :: "auth_env \<Rightarrow> string \<Rightarrow> 'z auth_db_scheme \<Rightarrow> app_user option" where
  "find_user_by_email env email db = sql_find (\<lambda>u. ae_fold env (au_email u) = ae_fold env email) (ad_users db)"

definition find_user_by_id :: "uuid \<Rightarrow> 'z auth_db_scheme \<Rightarrow> app_user option" where
  "find_user_by_id uid db = sql_find (\<lambda>u. au_id u = uid) (ad_users db)"

text \<open>The primary key, the unique digest and the foreign key to the user.\<close>

definition create_refresh_session ::
    "refresh_session \<Rightarrow> 'z auth_db_scheme \<Rightarrow> data_error + 'z auth_db_scheme" where
  "create_refresh_session r db =
    (if rf_id r \<in> rf_id ` set (ad_sessions db) \<or> rf_token_digest r \<in> rf_token_digest ` set (ad_sessions db)
        \<or> rf_user_id r \<notin> au_id ` set (ad_users db)
     then Inl DDatabase
     else Inr (db\<lparr>ad_sessions := ad_sessions db @ [r]\<rparr>))"

definition find_session_by_digest :: "string \<Rightarrow> 'z auth_db_scheme \<Rightarrow> refresh_session option" where
  "find_session_by_digest d db = sql_find (\<lambda>r. rf_token_digest r = d) (ad_sessions db)"

definition rotated :: "uuid \<Rightarrow> timestamp \<Rightarrow> refresh_session \<Rightarrow> refresh_session" where
  "rotated new now r = r\<lparr>rf_replaced_by := Some new, rf_revoked_at := Some now\<rparr>"

definition rotate_session :: "uuid \<Rightarrow> uuid \<Rightarrow> timestamp \<Rightarrow> 'z auth_db_scheme \<Rightarrow> 'z auth_db_scheme" where
  "rotate_session old new now db =
    db\<lparr>ad_sessions := sql_update (\<lambda>r. rf_id r = old) (rotated new now) (ad_sessions db)\<rparr>"

definition revoked :: "timestamp \<Rightarrow> refresh_session \<Rightarrow> refresh_session" where
  "revoked now r = r\<lparr>rf_revoked_at := Some now\<rparr>"

text \<open>
  The three statements that revoke. PostgreSQL's \<open>UPDATE\<close> under \<open>READ COMMITTED\<close> works on the rows
  that existed when the statement began, waits for the transactions that hold them and tests the
  condition again on what they left: \<open>revoke_seen\<close> is such an \<open>UPDATE\<close> of the sessions \<open>seen\<close>,
  and \<open>revoke_family\<close> the case where no other transaction comes between.
\<close>

definition revoke_seen :: "uuid list \<Rightarrow> uuid \<Rightarrow> timestamp \<Rightarrow> 'z auth_db_scheme \<Rightarrow> 'z auth_db_scheme" where
  "revoke_seen seen fam now db =
    db\<lparr>ad_sessions := sql_update (\<lambda>r. rf_id r \<in> set seen \<and> rf_family_id r = fam \<and> rf_revoked_at r = None)
       (revoked now) (ad_sessions db)\<rparr>"

definition revoke_family :: "uuid \<Rightarrow> timestamp \<Rightarrow> 'z auth_db_scheme \<Rightarrow> 'z auth_db_scheme" where
  "revoke_family fam now db = revoke_seen (map rf_id (ad_sessions db)) fam now db"

definition revoke_session :: "uuid \<Rightarrow> timestamp \<Rightarrow> 'z auth_db_scheme \<Rightarrow> 'z auth_db_scheme" where
  "revoke_session sid now db =
    db\<lparr>ad_sessions := sql_update (\<lambda>r. rf_id r = sid \<and> rf_revoked_at r = None) (revoked now) (ad_sessions db)\<rparr>"

definition revoke_family_by_user ::
    "uuid \<Rightarrow> timestamp \<Rightarrow> 'z auth_db_scheme \<Rightarrow> nat \<times> 'z auth_db_scheme" where
  "revoke_family_by_user uid now db =
    (let p = (\<lambda>r. rf_user_id r = uid \<and> rf_revoked_at r = None) in
     (sql_rowcount p (ad_sessions db), db\<lparr>ad_sessions := sql_update p (revoked now) (ad_sessions db)\<rparr>))"

definition count_by_email :: "auth_env \<Rightarrow> string \<Rightarrow> 'z auth_db_scheme \<Rightarrow> nat" where
  "count_by_email env email db =
    sql_rowcount (\<lambda>u. ae_fold env (au_email u) = ae_fold env email) (ad_users db)"

text \<open>
  What the unit of work writes back for one user; the unique e-mail is the only constraint on the
  columns that change.
\<close>

definition email_free :: "auth_env \<Rightarrow> uuid \<Rightarrow> string \<Rightarrow> 'z auth_db_scheme \<Rightarrow> bool" where
  "email_free env uid email db =
    (\<forall>u\<in>set (ad_users db). au_id u \<noteq> uid \<longrightarrow> ae_fold env (au_email u) \<noteq> ae_fold env email)"

definition write_user :: "uuid \<Rightarrow> (app_user \<Rightarrow> app_user) \<Rightarrow> 'z auth_db_scheme \<Rightarrow> 'z auth_db_scheme" where
  "write_user uid f db = db\<lparr>ad_users := sql_update (\<lambda>u. au_id u = uid) f (ad_users db)\<rparr>"

section \<open>Tokens\<close>

definition ACCESS_TOKEN_TTL_SECONDS :: int where
  "ACCESS_TOKEN_TTL_SECONDS = 900"

definition REFRESH_TOKEN_TTL :: int where
  "REFRESH_TOKEN_TTL = 7 * 24 * 60 * 60"

record token_pair =
  tp_access_token :: string
  tp_refresh_token :: string
  tp_expires_in :: int

definition access_payload :: "uuid \<Rightarrow> string \<Rightarrow> string list \<Rightarrow> timestamp \<Rightarrow> int \<Rightarrow> dict" where
  "access_payload uid email roles now ver =
    [(''sub'', JStr (uuid_str uid)), (''email'', JStr email), (''roles'', JArr (map JStr roles)),
     (''token_version'', JInt ver), (''iat'', JInt now), (''exp'', JInt (now + ACCESS_TOKEN_TTL_SECONDS))]"

definition create_access_token ::
    "auth_env \<Rightarrow> uuid \<Rightarrow> string \<Rightarrow> string list \<Rightarrow> timestamp \<Rightarrow> int \<Rightarrow> string" where
  "create_access_token env uid email roles now ver = ae_encode env (access_payload uid email roles now ver)"

definition access_token_of :: "auth_env \<Rightarrow> timestamp \<Rightarrow> app_user \<Rightarrow> string" where
  "access_token_of env now u =
    create_access_token env (au_id u) (au_email u) (au_roles u) now (au_token_version u)"

definition decode_access_token :: "auth_env \<Rightarrow> timestamp \<Rightarrow> string \<Rightarrow> jwt_result" where
  "decode_access_token env now token = ae_decode env now token"

section \<open>Backend\<close>

definition authenticate ::
    "auth_env \<Rightarrow> string \<Rightarrow> string \<Rightarrow> 'z auth_db_scheme \<Rightarrow> data_error + app_user" where
  "authenticate env email password db =
    (case find_user_by_email env email db of
       None \<Rightarrow> Inl (app_fail ''invalid_credentials'' [])
     | Some u \<Rightarrow>
         if \<not> ae_verify env (au_password_hash u) password then Inl (app_fail ''invalid_credentials'' [])
         else if au_status u = ''disabled'' then Inl (app_fail ''invalid_credentials'' [])
         else Inr u)"

section \<open>Service\<close>

text \<open>Login: \<open>tok\<close> is the new refresh token, \<open>fam\<close> and \<open>sid\<close> the new identifiers.\<close>

definition login ::
    "auth_env \<Rightarrow> timestamp \<Rightarrow> string \<Rightarrow> uuid \<Rightarrow> uuid \<Rightarrow> string \<Rightarrow> string \<Rightarrow> string option \<Rightarrow> string option \<Rightarrow>
     'z auth_db_scheme \<Rightarrow> (data_error + token_pair) \<times> 'z auth_db_scheme" where
  "login env now tok fam sid email password ip agent db =
    (case authenticate env email password db of
       Inl e \<Rightarrow> (Inl e, db)
     | Inr u \<Rightarrow>
         (case create_refresh_session
             \<lparr>rf_id = sid, rf_family_id = fam, rf_user_id = au_id u, rf_token_digest = ae_digest env tok,
              rf_issued_at = now, rf_expires_at = now + REFRESH_TOKEN_TTL, rf_revoked_at = None,
              rf_replaced_by = None, rf_created_ip = ip, rf_user_agent = agent\<rparr> db of
           Inl e \<Rightarrow> (Inl e, db)
         | Inr db' \<Rightarrow>
             (Inr \<lparr>tp_access_token = access_token_of env now u, tp_refresh_token = tok,
                   tp_expires_in = ACCESS_TOKEN_TTL_SECONDS\<rparr>, db')))"

text \<open>An exception that leaves \<open>session_scope\<close> undoes what the transaction wrote.\<close>

definition rolled_back :: "'s \<Rightarrow> 's \<Rightarrow> 's" where
  "rolled_back before written = before"

definition next_session :: "auth_env \<Rightarrow> timestamp \<Rightarrow> string \<Rightarrow> uuid \<Rightarrow> refresh_session \<Rightarrow> refresh_session" where
  "next_session env now tok sid old =
    \<lparr>rf_id = sid, rf_family_id = rf_family_id old, rf_user_id = rf_user_id old,
     rf_token_digest = ae_digest env tok, rf_issued_at = now, rf_expires_at = now + REFRESH_TOKEN_TTL,
     rf_revoked_at = None, rf_replaced_by = None, rf_created_ip = rf_created_ip old,
     rf_user_agent = rf_user_agent old\<rparr>"

text \<open>The ordinary rotation of the session \<open>old\<close>.\<close>

definition rotate_branch ::
    "auth_env \<Rightarrow> timestamp \<Rightarrow> string \<Rightarrow> uuid \<Rightarrow> refresh_session \<Rightarrow> 'z auth_db_scheme \<Rightarrow>
     (data_error + token_pair) \<times> 'z auth_db_scheme" where
  "rotate_branch env now tok sid old db =
    (case create_refresh_session (next_session env now tok sid old) db of
       Inl e \<Rightarrow> (Inl e, db)
     | Inr db1 \<Rightarrow>
         (let db2 = rotate_session (rf_id old) sid now db1 in
          case find_user_by_id (rf_user_id old) db2 of
            None \<Rightarrow> (Inl (app_fail ''invalid_credentials'' []), rolled_back db db2)
          | Some u \<Rightarrow>
              if au_status u = ''disabled''
              then (Inl (app_fail ''forbidden'' []), rolled_back db (revoke_family (rf_family_id old) now db2))
              else (Inr \<lparr>tp_access_token = access_token_of env now u, tp_refresh_token = tok,
                         tp_expires_in = ACCESS_TOKEN_TTL_SECONDS\<rparr>, db2)))"

text \<open>A replayed token: the family is revoked and committed before the error is raised.\<close>

definition refresh ::
    "auth_env \<Rightarrow> timestamp \<Rightarrow> string \<Rightarrow> uuid \<Rightarrow> string \<Rightarrow> 'z auth_db_scheme \<Rightarrow>
     (data_error + token_pair) \<times> 'z auth_db_scheme" where
  "refresh env now tok sid token db =
    (case find_session_by_digest (ae_digest env token) db of
       None \<Rightarrow> (Inl (app_fail ''invalid_credentials'' []), db)
     | Some old \<Rightarrow>
         if rf_replaced_by old \<noteq> None
         then (Inl (app_fail ''refresh_replayed'' []), revoke_family (rf_family_id old) now db)
         else if rf_revoked_at old \<noteq> None then (Inl (app_fail ''invalid_credentials'' []), db)
         else if rf_expires_at old < now then (Inl (app_fail ''invalid_credentials'' []), db)
         else rotate_branch env now tok sid old db)"

definition logout :: "auth_env \<Rightarrow> timestamp \<Rightarrow> string \<Rightarrow> 'z auth_db_scheme \<Rightarrow> 'z auth_db_scheme" where
  "logout env now token db =
    (case find_session_by_digest (ae_digest env token) db of
       None \<Rightarrow> db
     | Some old \<Rightarrow> if rf_revoked_at old = None then revoke_session (rf_id old) now db else db)"

definition disabled_values :: "timestamp \<Rightarrow> app_user \<Rightarrow> app_user" where
  "disabled_values now u =
    u\<lparr>au_status := ''disabled'', au_token_version := au_token_version u + 1, au_updated_at := now\<rparr>"

definition disable_user :: "timestamp \<Rightarrow> uuid \<Rightarrow> 'z auth_db_scheme \<Rightarrow> (data_error + unit) \<times> 'z auth_db_scheme" where
  "disable_user now uid db =
    (case find_user_by_id uid db of
       None \<Rightarrow> (Inl (app_fail ''not_found'' []), db)
     | Some u \<Rightarrow> (Inr (), snd (revoke_family_by_user uid now (write_user uid (disabled_values now) db))))"

definition get_user_by_id :: "uuid \<Rightarrow> 'z auth_db_scheme \<Rightarrow> app_user option" where
  "get_user_by_id uid db = find_user_by_id uid db"

definition profile_values :: "timestamp \<Rightarrow> string option \<Rightarrow> string option \<Rightarrow> app_user \<Rightarrow> app_user" where
  "profile_values now name url u =
    (let u1 = (case name of None \<Rightarrow> u | Some n \<Rightarrow> u\<lparr>au_display_name := n\<rparr>);
         u2 = (case url of None \<Rightarrow> u1 | Some a \<Rightarrow> u1\<lparr>au_avatar_url := Some a\<rparr>)
     in u2\<lparr>au_updated_at := now\<rparr>)"

definition update_profile ::
    "timestamp \<Rightarrow> uuid \<Rightarrow> string option \<Rightarrow> string option \<Rightarrow> 'z auth_db_scheme \<Rightarrow>
     (data_error + app_user) \<times> 'z auth_db_scheme" where
  "update_profile now uid name url db =
    (case find_user_by_id uid db of
       None \<Rightarrow> (Inl (app_fail ''not_found'' []), db)
     | Some u \<Rightarrow> (Inr (profile_values now name url u), write_user uid (profile_values now name url) db))"

definition password_values :: "timestamp \<Rightarrow> string \<Rightarrow> app_user \<Rightarrow> app_user" where
  "password_values now h u =
    u\<lparr>au_password_hash := h, au_token_version := au_token_version u + 1, au_updated_at := now\<rparr>"

text \<open>\<open>salt\<close>: the random part of the new hash.\<close>

definition change_password ::
    "auth_env \<Rightarrow> timestamp \<Rightarrow> string \<Rightarrow> uuid \<Rightarrow> string \<Rightarrow> string \<Rightarrow> 'z auth_db_scheme \<Rightarrow>
     (data_error + unit) \<times> 'z auth_db_scheme" where
  "change_password env now salt uid old new db =
    (case find_user_by_id uid db of
       None \<Rightarrow> (Inl (app_fail ''not_found'' []), db)
     | Some u \<Rightarrow>
         if \<not> ae_verify env (au_password_hash u) old then (Inl (app_fail ''invalid_credentials'' []), db)
         else (Inr (), write_user uid (password_values now (ae_hash env salt new)) db))"

definition set_avatar_url :: "timestamp \<Rightarrow> uuid \<Rightarrow> string \<Rightarrow> 'z auth_db_scheme \<Rightarrow> 'z auth_db_scheme" where
  "set_avatar_url now uid url db =
    write_user uid (\<lambda>u. u\<lparr>au_avatar_url := Some url, au_updated_at := now\<rparr>) db"

text \<open>The display name of a deleted user, in UTF-8.\<close>

definition DELETED_NAME :: string where
  "DELETED_NAME = map char_of [0xE5, 0xB7, 0xB2, 0xE5, 0x88, 0xA0, 0xE9, 0x99, 0xA4, 0xE7, 0x94, 0xA8, 0xE6, 0x88, 0xB7 :: nat]"

definition deleted_email :: "uuid \<Rightarrow> string" where
  "deleted_email uid = uuid_str uid @ ''@deleted.local''"

definition deleted_values :: "timestamp \<Rightarrow> app_user \<Rightarrow> app_user" where
  "deleted_values now u =
    u\<lparr>au_status := ''deleted'', au_display_name := DELETED_NAME, au_email := deleted_email (au_id u),
      au_avatar_url := None, au_token_version := au_token_version u + 1, au_updated_at := now\<rparr>"

definition delete_account ::
    "auth_env \<Rightarrow> timestamp \<Rightarrow> uuid \<Rightarrow> 'z auth_db_scheme \<Rightarrow> (data_error + unit) \<times> 'z auth_db_scheme" where
  "delete_account env now uid db =
    (case find_user_by_id uid db of
       None \<Rightarrow> (Inr (), db)
     | Some u \<Rightarrow>
         if email_free env uid (deleted_email uid) db
         then (Inr (), write_user uid (deleted_values now) db)
         else (Inl DDatabase, db))"

end
