(* ===== verification/AccessControl.thy ===== *)
theory AccessControl imports Accounts begin

text \<open>
  Who a request comes from and what it may do: the roles and their permissions
  (\<open>packages/auth/permissions.py\<close>), the check of an access token (\<open>get_current_user\<close> of
  \<open>apps/api/dependencies/auth.py\<close>) and the check of a permission (\<open>require_permission\<close> of
  \<open>apps/api/dependencies/authorization.py\<close>).
\<close>

section \<open>Roles\<close>

definition ALL_PERMISSIONS :: "string list" where
  "ALL_PERMISSIONS = [
    ''user:manage'', ''role:assign'', ''standard:read'', ''standard:write'', ''standard:publish'',
    ''fact:read'', ''fact:write'', ''artifact:read'', ''artifact:upload'', ''artifact:download'',
    ''job:read'', ''job:submit'', ''job:cancel'', ''model:read'', ''model:manage'', ''model:write'',
    ''model:publish'', ''model:predict'', ''parameter:read'', ''parameter:write'', ''parameter:review'',
    ''parameter:approve'', ''parameter:publish'', ''department:manage'', ''department:read'',
    ''equipment:manage'', ''equipment:read'', ''ingestion:read'', ''ingestion:write'',
    ''ingestion:publish'', ''provenance:read'', ''provenance:write'', ''provenance:publish'',
    ''component:manage'', ''component:read'', ''flow:manage'', ''flow:execute'', ''flow:read'',
    ''experiment_project:manage'', ''experiment_project:read'', ''assistant:use'', ''audit:read'',
    ''system:health'', ''system:manage'', ''conversation:create'', ''conversation:invite'',
    ''conversation:remove_member'', ''conversation:delete'', ''conversation:manage'', ''account:profile'',
    ''account:password'', ''research:use'', ''research:publish'', ''research:declassify'',
    ''research:manage'']"

definition AUDITOR_PERMISSIONS :: "string list" where
  "AUDITOR_PERMISSIONS = [
    ''standard:read'', ''fact:read'', ''artifact:read'', ''job:read'', ''model:read'', ''parameter:read'',
    ''department:read'', ''equipment:read'', ''ingestion:read'', ''provenance:read'', ''component:read'',
    ''flow:read'', ''experiment_project:read'', ''audit:read'', ''system:health'']"

definition DIRECTOR_PERMISSIONS :: "string list" where
  "DIRECTOR_PERMISSIONS = [
    ''standard:read'', ''standard:write'', ''standard:publish'', ''fact:read'', ''fact:write'',
    ''artifact:read'', ''artifact:upload'', ''artifact:download'', ''job:read'', ''job:submit'',
    ''job:cancel'', ''model:read'', ''model:manage'', ''model:write'', ''model:publish'', ''model:predict'',
    ''parameter:read'', ''parameter:write'', ''parameter:review'', ''parameter:approve'',
    ''parameter:publish'', ''department:manage'', ''department:read'', ''equipment:manage'',
    ''equipment:read'', ''ingestion:read'', ''ingestion:write'', ''ingestion:publish'', ''provenance:read'',
    ''provenance:write'', ''provenance:publish'', ''component:manage'', ''component:read'', ''flow:manage'',
    ''flow:execute'', ''flow:read'', ''experiment_project:manage'', ''experiment_project:read'',
    ''assistant:use'', ''conversation:create'', ''conversation:invite'', ''conversation:remove_member'',
    ''conversation:delete'', ''conversation:manage'', ''role:assign'', ''research:use'',
    ''research:publish'', ''research:declassify'', ''research:manage'']"

definition MEMBER_PERMISSIONS :: "string list" where
  "MEMBER_PERMISSIONS = [
    ''standard:read'', ''standard:write'', ''fact:read'', ''fact:write'', ''artifact:read'',
    ''artifact:upload'', ''artifact:download'', ''job:read'', ''job:submit'', ''job:cancel'',
    ''model:read'', ''model:predict'', ''parameter:read'', ''parameter:write'', ''department:read'',
    ''equipment:read'', ''ingestion:read'', ''ingestion:write'', ''provenance:read'', ''provenance:write'',
    ''component:manage'', ''component:read'', ''flow:manage'', ''flow:execute'', ''flow:read'',
    ''experiment_project:read'', ''assistant:use'', ''conversation:create'', ''conversation:invite'',
    ''conversation:delete'', ''research:use'', ''research:publish'']"

definition VIEWER_PERMISSIONS :: "string list" where
  "VIEWER_PERMISSIONS = [
    ''standard:read'', ''fact:read'', ''artifact:read'', ''job:read'', ''model:read'', ''parameter:read'',
    ''department:read'', ''equipment:read'', ''ingestion:read'', ''provenance:read'', ''component:read'',
    ''flow:read'', ''experiment_project:read'', ''assistant:use'']"

definition BUILTIN_ROLES :: "(string \<times> string list) list" where
  "BUILTIN_ROLES = [
    (''platform_administrator'', ALL_PERMISSIONS),
    (''platform_auditor'', AUDITOR_PERMISSIONS),
    (''lab_director'', DIRECTOR_PERMISSIONS),
    (''lab_member'', MEMBER_PERMISSIONS),
    (''lab_viewer'', VIEWER_PERMISSIONS)]"

definition get_role_permissions :: "string \<Rightarrow> string list" where
  "get_role_permissions code = (case map_of BUILTIN_ROLES code of None \<Rightarrow> [] | Some ps \<Rightarrow> ps)"

definition has_role_permission :: "string \<Rightarrow> string \<Rightarrow> bool" where
  "has_role_permission code action = (action \<in> set (get_role_permissions code))"

text \<open>The dependency of an endpoint: it passes the user on or answers \<open>forbidden\<close>.\<close>

definition require_permission :: "string \<Rightarrow> 'z current_user_scheme \<Rightarrow> data_error + unit" where
  "require_permission action u =
    (if action \<in> {''account:profile'', ''account:password''}
        \<or> (\<exists>code\<in>set (cu_roles u). case map_of BUILTIN_ROLES code of None \<Rightarrow> False | Some ps \<Rightarrow> action \<in> set ps)
     then Inr () else Inl (app_fail ''forbidden'' []))"

section \<open>The current user\<close>

record api_user = current_user +
  cu_email :: string

text \<open>
  \<open>int(v)\<close> of a claim, with \<open>None\<close> for an exception. A string is not parsed: no token signed with
  the secret has one there.
\<close>

fun py_int :: "json \<Rightarrow> int option" where
  "py_int (JInt i) = Some i"
| "py_int (JBool b) = Some (if b then 1 else 0)"
| "py_int (JFloat (Fin r)) = Some (if r < 0 then \<lceil>r\<rceil> else \<lfloor>r\<rfloor>)"
| "py_int _ = None"

definition claim :: "dict \<Rightarrow> string \<Rightarrow> json \<Rightarrow> json" where
  "claim p k d = (case dict_get p k of None \<Rightarrow> d | Some v \<Rightarrow> v)"

fun claimed_roles :: "json \<Rightarrow> string list" where
  "claimed_roles (JArr vs) = List.map_filter (\<lambda>v. json_str (Some v)) vs"
| "claimed_roles _ = []"

definition get_current_user ::
    "auth_env \<Rightarrow> timestamp \<Rightarrow> string option \<Rightarrow> 'z auth_db_scheme \<Rightarrow> data_error + api_user" where
  "get_current_user env now authorization db =
    (case authorization of
       None \<Rightarrow> Inl (app_fail ''invalid_credentials'' [])
     | Some h \<Rightarrow>
     if \<not> starts_with ''Bearer '' h then Inl (app_fail ''invalid_credentials'' [])
     else case decode_access_token env now (drop (length ''Bearer '') h) of
       JwtExpired \<Rightarrow> Inl (app_fail ''token_expired'' [])
     | JwtInvalid \<Rightarrow> Inl (app_fail ''invalid_credentials'' [])
     | JwtOk p \<Rightarrow>
       (case (py_int (claim p ''token_version'' (JInt 0)), json_uuid (claim p ''sub'' (JStr []))) of
          (Some ver, Some uid) \<Rightarrow>
            (case find_user_by_id uid db of
               None \<Rightarrow> Inl (app_fail ''invalid_credentials'' [])
             | Some u \<Rightarrow>
                 if au_status u = ''disabled'' then Inl (app_fail ''forbidden'' [])
                 else if au_token_version u \<noteq> ver then Inl (app_fail ''token_expired'' [])
                 else Inr \<lparr>cu_user_id = uid, cu_department_id = Some (au_department_id u),
                           cu_roles = claimed_roles (claim p ''roles'' (JArr [])),
                           cu_is_root_member = check_is_root_member (Some (au_department_id u)) (ad_depts db),
                           cu_email = (case json_text (claim p ''email'' (JStr [])) of None \<Rightarrow> [] | Some t \<Rightarrow> t)\<rparr>)
        | _ \<Rightarrow> Inl DPython))"

section \<open>Lemmas\<close>

lemma starts_with_append [simp]: "starts_with p (p @ s)"
  by (induction p) auto

lemma claimed_roles_strings [simp]: "List.map_filter (\<lambda>v. json_str (Some v)) (map JStr rs) = rs"
  by (induction rs) (auto simp: List.map_filter_simps)

lemma require_permission_iff:
  "require_permission action u = Inr () \<longleftrightarrow> action = ''account:profile'' \<or> action = ''account:password''
     \<or> (\<exists>code\<in>set (cu_roles u). has_role_permission code action)"
  by (auto simp: require_permission_def has_role_permission_def get_role_permissions_def split: option.splits)

lemma access_payload_claims [simp]:
  "claim (access_payload uid email roles now ver) ''sub'' d = JStr (uuid_str uid)"
  "claim (access_payload uid email roles now ver) ''email'' d = JStr email"
  "claim (access_payload uid email roles now ver) ''roles'' d = JArr (map JStr roles)"
  "claim (access_payload uid email roles now ver) ''token_version'' d = JInt ver"
  "claim (access_payload uid email roles now ver) ''exp'' d = JInt (now + ACCESS_TOKEN_TTL_SECONDS)"
  by (simp_all add: claim_def access_payload_def dict_get_def)

text \<open>
  What is used of PyJWT: decoding what \<open>encode\<close> made gives the payload back or one of the two errors,
  and the payload only before the time \<open>exp\<close> in it (\<open>jwt_honest\<close>); before that time it does give the
  payload (\<open>jwt_works\<close>).
\<close>

definition jwt_honest :: "auth_env \<Rightarrow> bool" where
  "jwt_honest env \<longleftrightarrow> (\<forall>p now q. ae_decode env now (ae_encode env p) = JwtOk q \<longrightarrow>
     q = p \<and> (case claim p ''exp'' JNull of JInt e \<Rightarrow> now < e | _ \<Rightarrow> True))"

definition jwt_works :: "auth_env \<Rightarrow> bool" where
  "jwt_works env \<longleftrightarrow> (\<forall>p now. (case claim p ''exp'' JNull of JInt e \<Rightarrow> now < e | _ \<Rightarrow> False) \<longrightarrow>
     ae_decode env now (ae_encode env p) = JwtOk p)"

text \<open>What an accepted token of a user says.\<close>

lemma accepted_token:
  assumes "jwt_honest env" and "uid < 2 ^ 128"
    and "get_current_user env now (Some (''Bearer '' @ create_access_token env uid email roles t0 ver)) db = Inr cu"
  shows "now < t0 + ACCESS_TOKEN_TTL_SECONDS"
    and "\<exists>u. find_user_by_id uid db = Some u \<and> au_status u \<noteq> ''disabled'' \<and> au_token_version u = ver
      \<and> cu = \<lparr>cu_user_id = uid, cu_department_id = Some (au_department_id u), cu_roles = roles,
          cu_is_root_member = check_is_root_member (Some (au_department_id u)) (ad_depts db), cu_email = email\<rparr>"
proof -
  let ?p = "access_payload uid email roles t0 ver"
  obtain q where q: "ae_decode env now (ae_encode env ?p) = JwtOk q"
    using assms(3) by (auto simp: get_current_user_def create_access_token_def decode_access_token_def
        split: jwt_result.splits)
  then have qp: "q = ?p \<and> (case claim ?p ''exp'' JNull of JInt e \<Rightarrow> now < e | _ \<Rightarrow> True)"
    using assms(1) unfolding jwt_honest_def by blast
  then have dec: "ae_decode env now (ae_encode env ?p) = JwtOk ?p"
    and exp: "now < t0 + ACCESS_TOKEN_TTL_SECONDS"
    using q by simp_all
  show "now < t0 + ACCESS_TOKEN_TTL_SECONDS"
    by (rule exp)
  have "json_uuid (JStr (uuid_str uid)) = Some uid"
    using assms(2) by (rule json_uuid_str)
  then show "\<exists>u. find_user_by_id uid db = Some u \<and> au_status u \<noteq> ''disabled'' \<and> au_token_version u = ver
      \<and> cu = \<lparr>cu_user_id = uid, cu_department_id = Some (au_department_id u), cu_roles = roles,
          cu_is_root_member = check_is_root_member (Some (au_department_id u)) (ad_depts db), cu_email = email\<rparr>"
    using assms(3) dec
    by (auto simp: get_current_user_def create_access_token_def decode_access_token_def
        split: option.splits if_splits)
qed

lemma token_accepted:
  assumes "ae_decode env now (access_token_of env t0 u0) = JwtOk (access_payload (au_id u0) (au_email u0) (au_roles u0) t0 (au_token_version u0))"
    and "au_id u0 < 2 ^ 128" and "find_user_by_id (au_id u0) db = Some u" and "au_status u \<noteq> ''disabled''"
    and "au_token_version u = au_token_version u0"
  shows "\<exists>cu. get_current_user env now (Some (''Bearer '' @ access_token_of env t0 u0)) db = Inr cu
    \<and> cu_user_id cu = au_id u0 \<and> cu_roles cu = au_roles u0"
  using assms json_uuid_str [OF assms(2)]
  by (simp add: get_current_user_def decode_access_token_def)

text \<open>The roles form a chain below the administrator; only the administrator manages users.\<close>

lemma roles_ordered:
  "set VIEWER_PERMISSIONS \<subseteq> set MEMBER_PERMISSIONS"
  "set MEMBER_PERMISSIONS \<subseteq> set DIRECTOR_PERMISSIONS"
  "set DIRECTOR_PERMISSIONS \<subseteq> set ALL_PERMISSIONS"
  "set AUDITOR_PERMISSIONS \<subseteq> set ALL_PERMISSIONS"
  by (simp_all add: VIEWER_PERMISSIONS_def MEMBER_PERMISSIONS_def DIRECTOR_PERMISSIONS_def
      AUDITOR_PERMISSIONS_def ALL_PERMISSIONS_def)

end
