(* ===== verification/Governance.thy ===== *)
theory Governance imports AccessControl begin

text \<open>
  The administration of users: the audit trail it writes (\<open>packages/audit/\<close>), the operations of
  \<open>GovernanceService\<close> on users (\<open>packages/governance/governance_service.py\<close>), and the endpoints that
  guard them (\<open>apps/api/routers/governance.py\<close>, and the deletion of the own account in
  \<open>apps/api/routers/account.py\<close>). A session is the \<open>session_ctx\<close> of the administrator, whose visible
  departments decide whether the audit event may be inserted.
\<close>

section \<open>Audit\<close>

text \<open>
  \<open>str.lower\<close> as far as its result is ASCII, which is all that is compared: the upper-case letters
  and the Kelvin sign (bytes E2 84 AA).
\<close>

definition KELVIN :: string where
  "KELVIN = map char_of [0xE2, 0x84, 0xAA :: nat]"

definition lower_char :: "char \<Rightarrow> char" where
  "lower_char c = (if 65 \<le> (of_char c :: nat) \<and> (of_char c :: nat) \<le> 90 then char_of ((of_char c :: nat) + 32) else c)"

function py_lower :: "string \<Rightarrow> string" where
  "py_lower [] = []"
| "py_lower (c # t) =
    (if take 3 (c # t) = KELVIN then CHR ''k'' # py_lower (drop 2 t) else lower_char c # py_lower t)"
  by pat_completeness auto

termination
  by (relation "measure length") auto

definition REDACTED_FIELDS :: "string list" where
  "REDACTED_FIELDS = [''password'', ''token'', ''secret'', ''api_key'', ''refresh_token'', ''access_token'']"

fun redact :: "json \<Rightarrow> json" and redact_items :: "json list \<Rightarrow> json list" where
  "redact (JObj d) = JObj (map (\<lambda>(k, v). (k,
     if py_lower k \<in> set REDACTED_FIELDS then JStr ''[REDACTED]''
     else case v of JObj _ \<Rightarrow> redact v | JArr vs \<Rightarrow> JArr (redact_items vs) | _ \<Rightarrow> v)) d)"
| "redact v = v"
| "redact_items [] = []"
| "redact_items (v # vs) = (case v of JObj _ \<Rightarrow> redact v | _ \<Rightarrow> v) # redact_items vs"

text \<open>
  \<open>_record_audit\<close>: the policy of the table and its foreign key to the department. Without a
  department of its own the service writes the identifier of the actor there.
\<close>

definition record_audit ::
    "session_ctx \<Rightarrow> uuid option \<Rightarrow> uuid \<Rightarrow> string \<Rightarrow> string \<Rightarrow> uuid option \<Rightarrow> dict \<Rightarrow> 'z auth_db_scheme \<Rightarrow>
     data_error + 'z auth_db_scheme" where
  "record_audit sx actor_dept actor action rtype rid payload db =
    (let dept = (case actor_dept of None \<Rightarrow> actor | Some d \<Rightarrow> d);
         ev = \<lparr>ev_actor_user_id = Some actor, ev_department_id = dept, ev_action = action,
               ev_resource_type = Some rtype, ev_resource_id = rid,
               ev_payload = json_obj (redact (JObj payload))\<rparr>
     in if sees_b sx dept \<and> dept \<in> dp_id ` set (dd_departments (ad_depts db))
        then Inr (db\<lparr>ad_audit := ad_audit db @ [ev]\<rparr>) else Inl DDatabase)"

section \<open>Service\<close>

text \<open>The actor of the audit events: \<open>self._actor_id or ...\<close>.\<close>

definition actor_or :: "session_ctx \<Rightarrow> uuid \<Rightarrow> uuid" where
  "actor_or sx other = (case sx_actor sx of None \<Rightarrow> other | Some a \<Rightarrow> a)"

definition dept_ids :: "'z auth_db_scheme \<Rightarrow> uuid set" where
  "dept_ids db = dp_id ` set (dd_departments (ad_depts db))"

text \<open>
  A transaction whose last statement is the audit event: \<open>res\<close> and \<open>db'\<close> when that goes through,
  otherwise nothing of it stays.
\<close>

definition audited ::
    "session_ctx \<Rightarrow> uuid \<Rightarrow> string \<Rightarrow> string \<Rightarrow> uuid option \<Rightarrow> dict \<Rightarrow> 'a \<Rightarrow> 'z auth_db_scheme \<Rightarrow>
     'z auth_db_scheme \<Rightarrow> (data_error + 'a) \<times> 'z auth_db_scheme" where
  "audited sx actor action rtype rid payload res before written =
    (case record_audit sx (Some (sx_dept sx)) actor action rtype rid payload written of
       Inl e \<Rightarrow> (Inl e, rolled_back before written)
     | Inr db \<Rightarrow> (Inr res, db))"

definition gov_create_user ::
    "auth_env \<Rightarrow> session_ctx \<Rightarrow> timestamp \<Rightarrow> string \<Rightarrow> uuid \<Rightarrow> string \<Rightarrow> string \<Rightarrow> string \<Rightarrow> string list \<Rightarrow>
     uuid option \<Rightarrow> uuid \<Rightarrow> 'z auth_db_scheme \<Rightarrow> (data_error + app_user) \<times> 'z auth_db_scheme" where
  "gov_create_user env sx now salt uid email name password roles dept admin_dept db =
    (if find_user_by_email env email db \<noteq> None
     then (Inl (app_fail ''conflict'' [(''email'', JStr email)]), db)
     else
       (let dept_id = (case dept of Some d \<Rightarrow> if d \<in> dept_ids db then d else admin_dept | None \<Rightarrow> admin_dept);
            u = \<lparr>au_id = uid, au_email = email, au_display_name = name,
                 au_password_hash = ae_hash env salt password, au_status = ''active'', au_created_at = now,
                 au_updated_at = now, au_lock_version = 0, au_roles = roles, au_department_id = dept_id,
                 au_token_version = 0, au_avatar_url = None\<rparr>
        in if uid \<in> au_id ` set (ad_users db) \<or> dept_id \<notin> dept_ids db then (Inl DDatabase, db)
           else
             (let db1 = db\<lparr>ad_users := ad_users db @ [u]\<rparr>;
                  payload = [(''email'', JStr email), (''display_name'', JStr name), (''roles'', JArr (map JStr roles))]
              in case dept of
                   None \<Rightarrow> audited sx (actor_or sx uid) ''user.create'' ''user'' (Some uid) payload u db db1
                 | Some d \<Rightarrow>
                     if d \<notin> dept_ids db then (Inl DDatabase, rolled_back db db1)
                     else audited sx (actor_or sx uid) ''user.create'' ''user'' (Some uid) payload u db
                       (db1\<lparr>ad_depts := ad_depts db1\<lparr>dd_members := dd_members (ad_depts db1) @
                          [\<lparr>ud_user_id = uid, ud_department_id = d, ud_is_primary = True\<rparr>]\<rparr>\<rparr>))))"

text \<open>The fields of \<open>UpdateUserRequest\<close>; \<open>None\<close> leaves a column as it is.\<close>

record user_update =
  up_display_name :: "string option"
  up_password :: "string option"
  up_roles :: "string list option"
  up_department_id :: "string option"

definition update_values :: "auth_env \<Rightarrow> string \<Rightarrow> user_update \<Rightarrow> uuid option \<Rightarrow> app_user \<Rightarrow> app_user" where
  "update_values env salt b dept u =
    u\<lparr>au_display_name := case_option (au_display_name u) id (up_display_name b),
      au_password_hash := case_option (au_password_hash u) (ae_hash env salt) (up_password b),
      au_roles := case_option (au_roles u) id (up_roles b),
      au_department_id := case_option (au_department_id u) id dept\<rparr>"

definition opt_text :: "string option \<Rightarrow> json" where
  "opt_text x = (case x of None \<Rightarrow> JNull | Some s \<Rightarrow> JStr s)"

definition update_payload :: "user_update \<Rightarrow> dict" where
  "update_payload b =
    [(''display_name'', opt_text (up_display_name b)),
     (''roles'', case up_roles b of None \<Rightarrow> JNull | Some rs \<Rightarrow> JArr (map JStr rs)),
     (''department_id'', opt_text (up_department_id b)),
     (''password_changed'', JBool (up_password b \<noteq> None))]"

definition user_missing :: "uuid \<Rightarrow> data_error" where
  "user_missing uid = app_fail ''not_found'' [(''user_id'', JStr (uuid_str uid))]"

definition gov_update_user ::
    "auth_env \<Rightarrow> session_ctx \<Rightarrow> string \<Rightarrow> uuid \<Rightarrow> user_update \<Rightarrow> 'z auth_db_scheme \<Rightarrow>
     (data_error + app_user) \<times> 'z auth_db_scheme" where
  "gov_update_user env sx salt uid b db =
    (case find_user_by_id uid db of
       None \<Rightarrow> (Inl (user_missing uid), db)
     | Some u \<Rightarrow>
         (case map_option uuid_parse (up_department_id b) of
            Some None \<Rightarrow> (Inl DPython, db)
          | dept \<Rightarrow>
              (let d = Option.bind dept id;
                   u' = update_values env salt b d u;
                   db1 = write_user uid (update_values env salt b d) db
               in if (case d of None \<Rightarrow> False | Some x \<Rightarrow> x \<notin> dept_ids db) then (Inl DDatabase, rolled_back db db1)
                  else audited sx (actor_or sx uid) ''user.update'' ''user'' (Some uid) (update_payload b) u' db db1)))"

text \<open>\<open>sorted(set(...))\<close> of role codes.\<close>

definition merged_roles :: "string list \<Rightarrow> string list \<Rightarrow> string list" where
  "merged_roles old new = sort (remdups (old @ new))"

definition roles_values :: "timestamp \<Rightarrow> (string list \<Rightarrow> string list) \<Rightarrow> app_user \<Rightarrow> app_user" where
  "roles_values now f u =
    u\<lparr>au_roles := f (au_roles u), au_updated_at := now, au_lock_version := au_lock_version u + 1\<rparr>"

definition gov_assign_roles ::
    "session_ctx \<Rightarrow> timestamp \<Rightarrow> uuid \<Rightarrow> string list \<Rightarrow> 'z auth_db_scheme \<Rightarrow>
     (data_error + app_user) \<times> 'z auth_db_scheme" where
  "gov_assign_roles sx now uid roles db =
    (case find_user_by_id uid db of
       None \<Rightarrow> (Inl (user_missing uid), db)
     | Some u \<Rightarrow>
         (let f = (\<lambda>old. merged_roles old roles) in
          audited sx (actor_or sx uid) ''governance.user.assign_roles'' ''app_user'' (Some uid)
            [(''roles_added'', JArr (map JStr roles)), (''roles_after'', JArr (map JStr (f (au_roles u))))]
            (roles_values now f u) db (write_user uid (roles_values now f) db)))"

definition gov_remove_role ::
    "session_ctx \<Rightarrow> timestamp \<Rightarrow> uuid \<Rightarrow> string \<Rightarrow> 'z auth_db_scheme \<Rightarrow>
     (data_error + app_user) \<times> 'z auth_db_scheme" where
  "gov_remove_role sx now uid role db =
    (case find_user_by_id uid db of
       None \<Rightarrow> (Inl (user_missing uid), db)
     | Some u \<Rightarrow>
         (let f = filter (\<lambda>r. r \<noteq> role) in
          audited sx (actor_or sx uid) ''governance.user.remove_role'' ''app_user'' (Some uid)
            [(''role_removed'', JStr role), (''roles_after'', JArr (map JStr (f (au_roles u))))]
            (roles_values now f u) db (write_user uid (roles_values now f) db)))"

definition user_status_values :: "timestamp \<Rightarrow> string \<Rightarrow> app_user \<Rightarrow> app_user" where
  "user_status_values now st u =
    u\<lparr>au_status := st, au_updated_at := now, au_lock_version := au_lock_version u + 1\<rparr>"

definition gov_update_user_status ::
    "session_ctx \<Rightarrow> timestamp \<Rightarrow> uuid \<Rightarrow> string \<Rightarrow> 'z auth_db_scheme \<Rightarrow>
     (data_error + app_user) \<times> 'z auth_db_scheme" where
  "gov_update_user_status sx now uid st db =
    (case find_user_by_id uid db of
       None \<Rightarrow> (Inl (user_missing uid), db)
     | Some u \<Rightarrow>
         audited sx (actor_or sx uid) ''governance.user.update_status'' ''app_user'' (Some uid)
           [(''status'', JStr st)] (user_status_values now st u) db (write_user uid (user_status_values now st) db))"

text \<open>
  Deleting a user for good: first the event, then the sessions, then the row, which the foreign keys
  of other tables may hold back; the memberships go with it.
\<close>

definition without_user :: "uuid \<Rightarrow> 'z auth_db_scheme \<Rightarrow> 'z auth_db_scheme" where
  "without_user uid db =
    db\<lparr>ad_sessions := filter (\<lambda>r. rf_user_id r \<noteq> uid) (ad_sessions db),
       ad_users := filter (\<lambda>u. au_id u \<noteq> uid) (ad_users db),
       ad_depts := ad_depts db\<lparr>dd_members := filter (\<lambda>m. ud_user_id m \<noteq> uid) (dd_members (ad_depts db))\<rparr>\<rparr>"

definition gov_delete_user ::
    "session_ctx \<Rightarrow> uuid \<Rightarrow> 'z auth_db_scheme \<Rightarrow> (data_error + unit) \<times> 'z auth_db_scheme" where
  "gov_delete_user sx uid db =
    (case find_user_by_id uid db of
       None \<Rightarrow> (Inl (user_missing uid), db)
     | Some u \<Rightarrow>
         (case record_audit sx (Some (sx_dept sx)) (actor_or sx uid) ''user.delete'' ''app_user'' (Some uid)
             [(''email'', JStr (au_email u)), (''display_name'', JStr (au_display_name u))] db of
            Inl e \<Rightarrow> (Inl e, db)
          | Inr db1 \<Rightarrow>
              if uid \<in> set (ad_user_refs db) then (Inl DDatabase, rolled_back db db1)
              else (Inr (), without_user uid db1)))"

text \<open>The list of users, newest first; the rows are filtered again after the page is read.\<close>

definition PLATFORM_ROLES :: "string list" where
  "PLATFORM_ROLES = [''platform_administrator'', ''platform_auditor'']"

definition gov_list_users ::
    "string option \<Rightarrow> timestamp option \<Rightarrow> nat \<Rightarrow> uuid list option \<Rightarrow> bool \<Rightarrow> 'z auth_db_scheme \<Rightarrow>
     app_user list \<times> bool \<times> timestamp option" where
  "gov_list_users status cursor limit visible filter_platform db =
    (let matching = filter (\<lambda>u.
           (case visible of None \<Rightarrow> True | Some ds \<Rightarrow> ds = [] \<or> au_department_id u \<in> set ds)
           \<and> (case status of None \<Rightarrow> True | Some st \<Rightarrow> au_status u = st)
           \<and> (case cursor of None \<Rightarrow> True | Some c \<Rightarrow> au_created_at u < c))
           (sort_key (\<lambda>u. - au_created_at u) (ad_users db));
         rows = take (if visible = None then limit + 1 else limit * 10 + 1) matching;
         rows = (if filter_platform then filter (\<lambda>u. \<forall>r\<in>set (au_roles u). r \<notin> set PLATFORM_ROLES) rows else rows);
         page = take limit rows
     in (page, limit < length rows,
         if limit < length rows \<and> page \<noteq> [] then Some (au_created_at (last page)) else None))"

section \<open>Endpoints\<close>

text \<open>The first error of a sequence of checks.\<close>

fun checks :: "(data_error + unit) list \<Rightarrow> data_error + unit" where
  "checks [] = Inr ()"
| "checks (Inl e # cs) = Inl e"
| "checks (Inr _ # cs) = checks cs"

definition ensure :: "bool \<Rightarrow> data_error \<Rightarrow> data_error + unit" where
  "ensure b e = (if b then Inr () else Inl e)"

definition is_platform_admin :: "'z current_user_scheme \<Rightarrow> bool" where
  "is_platform_admin cu = (''platform_administrator'' \<in> set (cu_roles cu))"

definition is_lab_director :: "'z current_user_scheme \<Rightarrow> bool" where
  "is_lab_director cu = (''lab_director'' \<in> set (cu_roles cu))"

definition validate_role_codes :: "string list \<Rightarrow> data_error + unit" where
  "validate_role_codes roles =
    (case find (\<lambda>r. r \<notin> set (map fst BUILTIN_ROLES)) roles of
       None \<Rightarrow> Inr () | Some r \<Rightarrow> Inl (app_fail ''validation_failed'' [(''roles'', JStr r)]))"

definition get_assignable_roles :: "'z current_user_scheme \<Rightarrow> string list" where
  "get_assignable_roles cu =
    (if is_platform_admin cu then map fst BUILTIN_ROLES else [''lab_member'', ''lab_viewer''])"

definition validate_assignable_roles :: "'z current_user_scheme \<Rightarrow> string list \<Rightarrow> data_error + unit" where
  "validate_assignable_roles cu roles =
    (case find (\<lambda>r. r \<notin> set (get_assignable_roles cu)) roles of
       None \<Rightarrow> Inr () | Some r \<Rightarrow> Inl (app_fail ''forbidden'' [(''roles'', JStr r)]))"

definition assert_not_self_modifying_roles :: "uuid \<Rightarrow> 'z current_user_scheme \<Rightarrow> data_error + unit" where
  "assert_not_self_modifying_roles uid cu = ensure (uid \<noteq> cu_user_id cu) (app_fail ''forbidden'' [])"

text \<open>The service that an endpoint builds; \<open>vis\<close>: what \<open>current_visible_dept_ids()\<close> returns.\<close>

definition make_service :: "uuid list \<Rightarrow> 'z current_user_scheme \<Rightarrow> session_ctx" where
  "make_service vis cu =
    \<lparr>sx_visible = vis, sx_dept = (case cu_department_id cu of None \<Rightarrow> 0 | Some d \<Rightarrow> d), sx_rls_dept = None,
     sx_actor = Some (cu_user_id cu)\<rparr>"

text \<open>An administrator who is not of the platform manages the users of the own department only.\<close>

definition same_department :: "uuid \<Rightarrow> 'y current_user_scheme \<Rightarrow> 'z auth_db_scheme \<Rightarrow> data_error + unit" where
  "same_department uid cu db =
    (if is_platform_admin cu then Inr ()
     else case find_user_by_id uid db of
       None \<Rightarrow> Inr ()
     | Some t \<Rightarrow> ensure (cu_department_id cu = Some (au_department_id t)) (app_fail ''forbidden'' []))"

definition list_users_endpoint ::
    "'y current_user_scheme \<Rightarrow> string option \<Rightarrow> timestamp option \<Rightarrow> nat \<Rightarrow> 'z auth_db_scheme \<Rightarrow>
     (data_error + (app_user list \<times> bool \<times> timestamp option)) option" where
  "list_users_endpoint cu status cursor limit db =
    (case require_permission ''role:assign'' cu of
       Inl e \<Rightarrow> Some (Inl e)
     | Inr _ \<Rightarrow>
         if is_lab_director cu \<and> \<not> is_platform_admin cu
         then if cu_department_id cu = None then Some (Inr ([], False, None))
              else map_option (\<lambda>ds. Inr (gov_list_users status cursor limit (Some ds) True db))
                (get_visible_department_ids (current_user.truncate cu) (ad_depts db))
         else Some (Inr (gov_list_users status cursor limit None False db)))"

definition create_user_endpoint ::
    "auth_env \<Rightarrow> timestamp \<Rightarrow> string \<Rightarrow> uuid \<Rightarrow> uuid list \<Rightarrow> 'y current_user_scheme \<Rightarrow> string \<Rightarrow> string \<Rightarrow> string \<Rightarrow>
     string list \<Rightarrow> string option \<Rightarrow> uuid \<Rightarrow> 'z auth_db_scheme \<Rightarrow> (data_error + app_user) \<times> 'z auth_db_scheme" where
  "create_user_endpoint env now salt uid vis cu email name password roles dept admin_dept db =
    (case checks [require_permission ''user:manage'' cu, validate_role_codes roles,
        ensure (map_option uuid_parse dept \<noteq> Some None)
          (app_fail ''validation_failed'' [(''department_id'', opt_text dept)])] of
       Inl e \<Rightarrow> (Inl e, db)
     | Inr _ \<Rightarrow> gov_create_user env (make_service vis cu) now salt uid email name password roles
         (Option.bind (map_option uuid_parse dept) id) admin_dept db)"

definition update_user_endpoint ::
    "auth_env \<Rightarrow> string \<Rightarrow> uuid list \<Rightarrow> 'y current_user_scheme \<Rightarrow> uuid \<Rightarrow> user_update \<Rightarrow> 'z auth_db_scheme \<Rightarrow>
     (data_error + app_user) \<times> 'z auth_db_scheme" where
  "update_user_endpoint env salt vis cu uid b db =
    (case checks [require_permission ''role:assign'' cu,
        (case up_roles b of None \<Rightarrow> Inr () | Some rs \<Rightarrow>
           checks [validate_role_codes rs, if is_platform_admin cu then Inr () else validate_assignable_roles cu rs]),
        ensure (\<not> (uid = cu_user_id cu \<and> (up_department_id b \<noteq> None \<or> up_roles b \<noteq> None))) (app_fail ''forbidden'' []),
        same_department uid cu db] of
       Inl e \<Rightarrow> (Inl e, db)
     | Inr _ \<Rightarrow> gov_update_user env (make_service vis cu) salt uid b db)"

definition assign_roles_endpoint ::
    "timestamp \<Rightarrow> uuid list \<Rightarrow> 'y current_user_scheme \<Rightarrow> uuid \<Rightarrow> string list \<Rightarrow> 'z auth_db_scheme \<Rightarrow>
     (data_error + app_user) \<times> 'z auth_db_scheme" where
  "assign_roles_endpoint now vis cu uid roles db =
    (case checks [require_permission ''role:assign'' cu, validate_role_codes roles,
        if is_platform_admin cu then Inr () else validate_assignable_roles cu roles,
        assert_not_self_modifying_roles uid cu, same_department uid cu db] of
       Inl e \<Rightarrow> (Inl e, db)
     | Inr _ \<Rightarrow> gov_assign_roles (make_service vis cu) now uid roles db)"

definition remove_role_endpoint ::
    "timestamp \<Rightarrow> uuid list \<Rightarrow> 'y current_user_scheme \<Rightarrow> uuid \<Rightarrow> string \<Rightarrow> 'z auth_db_scheme \<Rightarrow>
     (data_error + app_user) \<times> 'z auth_db_scheme" where
  "remove_role_endpoint now vis cu uid role db =
    (case checks [require_permission ''role:assign'' cu,
        if is_platform_admin cu then Inr () else validate_assignable_roles cu [role],
        assert_not_self_modifying_roles uid cu, same_department uid cu db] of
       Inl e \<Rightarrow> (Inl e, db)
     | Inr _ \<Rightarrow> gov_remove_role (make_service vis cu) now uid role db)"

definition update_user_status_endpoint ::
    "timestamp \<Rightarrow> uuid list \<Rightarrow> 'y current_user_scheme \<Rightarrow> uuid \<Rightarrow> string \<Rightarrow> 'z auth_db_scheme \<Rightarrow>
     (data_error + app_user) \<times> 'z auth_db_scheme" where
  "update_user_status_endpoint now vis cu uid st db =
    (case checks [require_permission ''user:manage'' cu,
        ensure (st \<in> {''active'', ''disabled''}) (app_fail ''validation_failed'' [(''status'', JStr st)])] of
       Inl e \<Rightarrow> (Inl e, db)
     | Inr _ \<Rightarrow> gov_update_user_status (make_service vis cu) now uid st db)"

definition delete_user_endpoint ::
    "uuid list \<Rightarrow> 'y current_user_scheme \<Rightarrow> uuid \<Rightarrow> 'z auth_db_scheme \<Rightarrow> (data_error + unit) \<times> 'z auth_db_scheme" where
  "delete_user_endpoint vis cu uid db =
    (case checks [require_permission ''user:manage'' cu,
        ensure (uid \<noteq> cu_user_id cu) (app_fail ''forbidden'' [])] of
       Inl e \<Rightarrow> (Inl e, db)
     | Inr _ \<Rightarrow> gov_delete_user (make_service vis cu) uid db)"

text \<open>
  Deleting the own account, confirmed by the e-mail and the password. The Chinese texts in the fields
  of the errors are left out.
\<close>

definition delete_account_endpoint ::
    "auth_env \<Rightarrow> timestamp \<Rightarrow> 'y current_user_scheme \<Rightarrow> string \<Rightarrow> string \<Rightarrow> 'z auth_db_scheme \<Rightarrow>
     (data_error + unit) \<times> 'z auth_db_scheme" where
  "delete_account_endpoint env now cu email password db =
    (case get_user_by_id (cu_user_id cu) db of
       None \<Rightarrow> (Inl (app_fail ''not_found'' []), db)
     | Some u \<Rightarrow>
         if email \<noteq> au_email u then (Inl (app_fail ''validation_failed'' [(''confirm_email'', JStr [])]), db)
         else if \<not> ae_verify env (au_password_hash u) password
         then (Inl (app_fail ''invalid_credentials'' [(''password'', JStr [])]), db)
         else delete_account env now (cu_user_id cu) db)"

end
