(* ===== verification/AuthSystem.thy ===== *)
theory AuthSystem imports Governance begin

text \<open>
  Accounts as one system: any sequence of logins, refreshes, logouts, changes of an account and
  administration, with the replay of a refresh token split into its two statements so that other
  transactions may come between. Three histories are kept beside the tables: every identifier and
  every token digest ever given out, and the replays under way.
\<close>

section \<open>Steps\<close>

record auth_sys = auth_db +
  as_used :: "uuid list"
  as_digests :: "string list"
  as_replays :: "(uuid list \<times> uuid) list"

text \<open>
  \<open>new_id()\<close> never repeats an identifier and \<open>secrets.token_urlsafe\<close> never a token: the new ones are
  fresh with respect to the histories.
\<close>

inductive auth_step :: "auth_env \<Rightarrow> auth_sys \<Rightarrow> auth_sys \<Rightarrow> bool" for env :: auth_env where
  login_step:
    "fam \<notin> set (as_used s) \<Longrightarrow> sid \<notin> set (as_used s) \<Longrightarrow> ae_digest env tok \<notin> set (as_digests s) \<Longrightarrow>
     s' = snd (login env now tok fam sid email password ip agent s) \<Longrightarrow>
     auth_step env s (s'\<lparr>as_used := fam # sid # as_used s, as_digests := ae_digest env tok # as_digests s\<rparr>)"
| refresh_step:
    "sid \<notin> set (as_used s) \<Longrightarrow> ae_digest env tok \<notin> set (as_digests s) \<Longrightarrow>
     s' = snd (refresh env now tok sid token s) \<Longrightarrow>
     auth_step env s (s'\<lparr>as_used := sid # as_used s, as_digests := ae_digest env tok # as_digests s\<rparr>)"
| replay_begins:
    "find_session_by_digest (ae_digest env token) s = Some old \<Longrightarrow> rf_replaced_by old \<noteq> None \<Longrightarrow>
     auth_step env s (s\<lparr>as_replays := (map rf_id (ad_sessions s), rf_family_id old) # as_replays s\<rparr>)"
| replay_ends:
    "(seen, fam) \<in> set (as_replays s) \<Longrightarrow> auth_step env s (revoke_seen seen fam now s)"
| logout_step: "auth_step env s (logout env now token s)"
| disable_step: "auth_step env s (snd (disable_user now uid s))"
| profile_step: "auth_step env s (snd (update_profile now uid name url s))"
| password_step: "auth_step env s (snd (change_password env now salt uid old new s))"
| avatar_step: "auth_step env s (set_avatar_url now uid url s)"
| delete_account_step: "auth_step env s (snd (delete_account_endpoint env now (cu :: api_user) email password s))"
| create_user_step:
    "uid \<notin> set (as_used s) \<Longrightarrow>
     s' = snd (create_user_endpoint env now salt uid vis (cu :: api_user) email name password roles dept admin_dept s) \<Longrightarrow>
     auth_step env s (s'\<lparr>as_used := uid # as_used s\<rparr>)"
| update_user_step: "auth_step env s (snd (update_user_endpoint env salt vis (cu :: api_user) uid b s))"
| assign_step: "auth_step env s (snd (assign_roles_endpoint now vis (cu :: api_user) uid roles s))"
| remove_step: "auth_step env s (snd (remove_role_endpoint now vis (cu :: api_user) uid role s))"
| status_step: "auth_step env s (snd (update_user_status_endpoint now vis (cu :: api_user) uid st s))"
| delete_user_step: "auth_step env s (snd (delete_user_endpoint vis (cu :: api_user) uid s))"

definition auth_init :: "auth_env \<Rightarrow> auth_sys \<Rightarrow> bool" where
  "auth_init env s \<longleftrightarrow> ad_sessions s = [] \<and> as_replays s = [] \<and> unique_rows au_id (ad_users s) \<and>
     unique_rows (\<lambda>u. ae_fold env (au_email u)) (ad_users s) \<and> au_id ` set (ad_users s) \<subseteq> set (as_used s)"

inductive auth_reach :: "auth_env \<Rightarrow> auth_sys \<Rightarrow> bool" for env :: auth_env where
  init: "auth_init env s \<Longrightarrow> auth_reach env s"
| step: "auth_reach env s \<Longrightarrow> auth_step env s s' \<Longrightarrow> auth_reach env s'"

abbreviation auth_steps :: "auth_env \<Rightarrow> auth_sys \<Rightarrow> auth_sys \<Rightarrow> bool" where
  "auth_steps env \<equiv> (auth_step env)\<^sup>*\<^sup>*"

section \<open>Invariant\<close>

definition live :: "refresh_session \<Rightarrow> bool" where
  "live r \<longleftrightarrow> rf_revoked_at r = None"

text \<open>
  A family of sessions is a chain that belongs to one user: a session that was replaced is revoked and
  names its successor, and at most one session of the chain is live.
\<close>

definition family_inv :: "refresh_session list \<Rightarrow> bool" where
  "family_inv rs \<longleftrightarrow>
     (\<forall>r\<in>set rs. \<forall>r'\<in>set rs. rf_family_id r = rf_family_id r' \<longrightarrow>
        rf_user_id r = rf_user_id r' \<and> (live r \<and> live r' \<longrightarrow> r = r')) \<and>
     (\<forall>r\<in>set rs. \<forall>n. rf_replaced_by r = Some n \<longrightarrow> \<not> live r \<and>
        (\<exists>r'\<in>set rs. rf_id r' = n \<and> rf_family_id r' = rf_family_id r))"

definition auth_inv :: "auth_env \<Rightarrow> auth_sys \<Rightarrow> bool" where
  "auth_inv env s \<longleftrightarrow> unique_rows au_id (ad_users s) \<and>
     unique_rows (\<lambda>u. ae_fold env (au_email u)) (ad_users s) \<and>
     unique_rows rf_id (ad_sessions s) \<and> unique_rows rf_token_digest (ad_sessions s) \<and>
     au_id ` set (ad_users s) \<subseteq> set (as_used s) \<and> rf_id ` set (ad_sessions s) \<subseteq> set (as_used s) \<and>
     rf_family_id ` set (ad_sessions s) \<subseteq> set (as_used s) \<and>
     rf_token_digest ` set (ad_sessions s) \<subseteq> set (as_digests s) \<and>
     rf_user_id ` set (ad_sessions s) \<subseteq> au_id ` set (ad_users s) \<and> family_inv (ad_sessions s)"

text \<open>What no step takes back.\<close>

definition auth_evolves :: "auth_sys \<Rightarrow> auth_sys \<Rightarrow> bool" where
  "auth_evolves s s' \<longleftrightarrow> set (as_used s) \<subseteq> set (as_used s') \<and> set (as_digests s) \<subseteq> set (as_digests s') \<and>
     (\<forall>u'\<in>set (ad_users s'). au_id u' \<in> set (as_used s) \<longrightarrow>
        (\<exists>u\<in>set (ad_users s). au_id u = au_id u' \<and> au_token_version u \<le> au_token_version u')) \<and>
     (\<forall>r'\<in>set (ad_sessions s'). live r' \<longrightarrow> rf_family_id r' \<in> set (as_used s) \<longrightarrow>
        (\<exists>r\<in>set (ad_sessions s). live r \<and> rf_family_id r = rf_family_id r')) \<and>
     (\<forall>r'\<in>set (ad_sessions s'). live r' \<longrightarrow> rf_token_digest r' \<in> set (as_digests s) \<longrightarrow>
        (\<exists>r\<in>set (ad_sessions s). live r \<and> rf_token_digest r = rf_token_digest r'))"

lemma auth_evolves_refl: "auth_evolves s s"
  by (auto simp: auth_evolves_def)

lemma auth_evolvesD:
  assumes "auth_evolves s s'"
  shows "set (as_used s) \<subseteq> set (as_used s')" "set (as_digests s) \<subseteq> set (as_digests s')"
    and "u' \<in> set (ad_users s') \<Longrightarrow> au_id u' \<in> set (as_used s) \<Longrightarrow>
      \<exists>u\<in>set (ad_users s). au_id u = au_id u' \<and> au_token_version u \<le> au_token_version u'"
    and "r' \<in> set (ad_sessions s') \<Longrightarrow> live r' \<Longrightarrow> rf_family_id r' \<in> set (as_used s) \<Longrightarrow>
      \<exists>r\<in>set (ad_sessions s). live r \<and> rf_family_id r = rf_family_id r'"
    and "r' \<in> set (ad_sessions s') \<Longrightarrow> live r' \<Longrightarrow> rf_token_digest r' \<in> set (as_digests s) \<Longrightarrow>
      \<exists>r\<in>set (ad_sessions s). live r \<and> rf_token_digest r = rf_token_digest r'"
  using assms unfolding auth_evolves_def by simp_all

lemma auth_evolves_trans:
  assumes st: "auth_evolves s t" and tu: "auth_evolves t u"
  shows "auth_evolves s u"
  unfolding auth_evolves_def
proof (intro conjI ballI impI)
  show "set (as_used s) \<subseteq> set (as_used u)" and "set (as_digests s) \<subseteq> set (as_digests u)"
    using auth_evolvesD(1,2) [OF st] auth_evolvesD(1,2) [OF tu] by auto
next
  fix u' assume u: "u' \<in> set (ad_users u)" "au_id u' \<in> set (as_used s)"
  then obtain v where v: "v \<in> set (ad_users t)" "au_id v = au_id u'" "au_token_version v \<le> au_token_version u'"
    using auth_evolvesD(3) [OF tu u(1)] auth_evolvesD(1) [OF st] by blast
  then obtain w where "w \<in> set (ad_users s)" "au_id w = au_id v" "au_token_version w \<le> au_token_version v"
    using auth_evolvesD(3) [OF st v(1)] u(2) by auto
  then show "\<exists>w\<in>set (ad_users s). au_id w = au_id u' \<and> au_token_version w \<le> au_token_version u'"
    using v by force
next
  fix r assume r: "r \<in> set (ad_sessions u)" "live r" "rf_family_id r \<in> set (as_used s)"
  then obtain q where q: "q \<in> set (ad_sessions t)" "live q" "rf_family_id q = rf_family_id r"
    using auth_evolvesD(4) [OF tu r(1,2)] auth_evolvesD(1) [OF st] by blast
  then show "\<exists>p\<in>set (ad_sessions s). live p \<and> rf_family_id p = rf_family_id r"
    using auth_evolvesD(4) [OF st q(1,2)] r(3) by simp
next
  fix r assume r: "r \<in> set (ad_sessions u)" "live r" "rf_token_digest r \<in> set (as_digests s)"
  then obtain q where q: "q \<in> set (ad_sessions t)" "live q" "rf_token_digest q = rf_token_digest r"
    using auth_evolvesD(5) [OF tu r(1,2)] auth_evolvesD(2) [OF st] by blast
  then show "\<exists>p\<in>set (ad_sessions s). live p \<and> rf_token_digest p = rf_token_digest r"
    using auth_evolvesD(5) [OF st q(1,2)] r(3) by simp
qed

section \<open>Kinds of change\<close>

text \<open>
  Most operations rewrite rows in place: users keep their identifier and never lower their token
  version, sessions are revoked.
\<close>

definition soft_change :: "auth_env \<Rightarrow> auth_sys \<Rightarrow> auth_sys \<Rightarrow> bool" where
  "soft_change env s s' \<longleftrightarrow>
     (\<exists>p now. ad_sessions s' = sql_update p (revoked now) (ad_sessions s)) \<and>
     (\<exists>f. ad_users s' = map f (ad_users s) \<and>
        (\<forall>u. au_id (f u) = au_id u \<and> au_token_version u \<le> au_token_version (f u))) \<and>
     (unique_rows (\<lambda>u. ae_fold env (au_email u)) (ad_users s) \<longrightarrow> unique_rows au_id (ad_users s) \<longrightarrow>
        unique_rows (\<lambda>u. ae_fold env (au_email u)) (ad_users s')) \<and>
     as_used s' = as_used s \<and> as_digests s' = as_digests s"

lemma revoked_simps [simp]:
  "rf_id (revoked now r) = rf_id r" "rf_family_id (revoked now r) = rf_family_id r"
  "rf_user_id (revoked now r) = rf_user_id r" "rf_token_digest (revoked now r) = rf_token_digest r"
  "rf_replaced_by (revoked now r) = rf_replaced_by r" "rf_expires_at (revoked now r) = rf_expires_at r"
  "\<not> live (revoked now r)" "rf_revoked_at (revoked now r) = Some now"
  by (simp_all add: revoked_def live_def)

lemma rotated_simps [simp]:
  "rf_id (rotated n now r) = rf_id r" "rf_family_id (rotated n now r) = rf_family_id r"
  "rf_user_id (rotated n now r) = rf_user_id r" "rf_token_digest (rotated n now r) = rf_token_digest r"
  "rf_replaced_by (rotated n now r) = Some n" "\<not> live (rotated n now r)"
  "rf_revoked_at (rotated n now r) = Some now" "rf_expires_at (rotated n now r) = rf_expires_at r"
  by (simp_all add: rotated_def live_def)

interpretation revoke: row_update rf_id "revoked now" for now
  by unfold_locales simp

interpretation rotate: row_update rf_id "rotated n now" for n now
  by unfold_locales simp

lemma update_map: "(\<And>r. k (f r) = k r) \<Longrightarrow> map k (sql_update p f rows) = map k rows"
  by (induction rows) auto

lemma update_keys:
  assumes "\<And>r. k (f r) = k r"
  shows "k ` set (sql_update p f rows) = k ` set rows"
    and "unique_rows k (sql_update p f rows) \<longleftrightarrow> unique_rows k rows"
  using update_map [of k f p rows, OF assms] unfolding unique_rows_def by (metis list.set_map, simp)

lemma in_revoked:
  "r \<in> set (sql_update p (revoked now) rs) \<Longrightarrow>
    \<exists>q\<in>set rs. rf_id q = rf_id r \<and> rf_family_id q = rf_family_id r \<and> rf_user_id q = rf_user_id r \<and>
      rf_token_digest q = rf_token_digest r \<and> rf_replaced_by q = rf_replaced_by r \<and> (live r \<longrightarrow> q = r)"
  by (erule in_sql_updateE) (auto split: if_splits intro: bexI)

lemma family_invD:
  assumes "family_inv rs" and "r \<in> set rs"
  shows "r' \<in> set rs \<Longrightarrow> rf_family_id r = rf_family_id r' \<Longrightarrow> rf_user_id r = rf_user_id r'"
    and "r' \<in> set rs \<Longrightarrow> rf_family_id r = rf_family_id r' \<Longrightarrow> live r \<Longrightarrow> live r' \<Longrightarrow> r = r'"
    and "rf_replaced_by r = Some n \<Longrightarrow> \<not> live r"
    and "rf_replaced_by r = Some n \<Longrightarrow> \<exists>r'\<in>set rs. rf_id r' = n \<and> rf_family_id r' = rf_family_id r"
  using assms unfolding family_inv_def by blast+

lemma family_inv_revoked:
  assumes "family_inv rs"
  shows "family_inv (sql_update p (revoked now) rs)"
  unfolding family_inv_def
proof (intro conjI ballI allI impI)
  fix r r' assume r: "r \<in> set (sql_update p (revoked now) rs)" "r' \<in> set (sql_update p (revoked now) rs)"
    and fam: "rf_family_id r = rf_family_id r'"
  obtain q q' where q: "q \<in> set rs" "rf_family_id q = rf_family_id r" "rf_user_id q = rf_user_id r" "live r \<longrightarrow> q = r"
    and q': "q' \<in> set rs" "rf_family_id q' = rf_family_id r'" "rf_user_id q' = rf_user_id r'" "live r' \<longrightarrow> q' = r'"
    using in_revoked [OF r(1)] in_revoked [OF r(2)] by blast
  have qq: "rf_family_id q = rf_family_id q'"
    using q(2) q'(2) fam by simp
  show "rf_user_id r = rf_user_id r'"
    using family_invD(1) [OF assms q(1) q'(1) qq] q(3) q'(3) by simp
  show "r = r'" if "live r \<and> live r'"
    using family_invD(2) [OF assms q(1) q'(1) qq] q(4) q'(4) that by simp
next
  fix r n assume r: "r \<in> set (sql_update p (revoked now) rs)" and n: "rf_replaced_by r = Some n"
  obtain q where q: "q \<in> set rs" "rf_family_id q = rf_family_id r" "rf_replaced_by q = rf_replaced_by r" "live r \<longrightarrow> q = r"
    using in_revoked [OF r] by blast
  show "\<not> live r"
    using family_invD(3) [OF assms q(1), of n] q n by auto
  obtain q' where q': "q' \<in> set rs" "rf_id q' = n" "rf_family_id q' = rf_family_id r"
    using family_invD(4) [OF assms q(1), of n] q n by auto
  then show "\<exists>r'\<in>set (sql_update p (revoked now) rs). rf_id r' = n \<and> rf_family_id r' = rf_family_id r"
    by (intro bexI [of _ "if p q' then revoked now q' else q'"]) (auto simp: set_sql_update)
qed

lemma soft_change_inv:
  assumes "soft_change env s s'" and "auth_inv env s"
  shows "auth_inv env s' \<and> auth_evolves s s'"
proof -
  obtain p now f where ss: "ad_sessions s' = sql_update p (revoked now) (ad_sessions s)"
    and us: "ad_users s' = map f (ad_users s)"
    and f: "\<And>u. au_id (f u) = au_id u" "\<And>u. au_token_version u \<le> au_token_version (f u)"
    and hist: "as_used s' = as_used s" "as_digests s' = as_digests s"
    using assms(1) unfolding soft_change_def by blast
  have mail: "unique_rows (\<lambda>u. ae_fold env (au_email u)) (ad_users s')"
    using assms by (simp add: soft_change_def auth_inv_def)
  have ids: "map au_id (ad_users s') = map au_id (ad_users s)"
    using f(1) by (simp add: us)
  have fam: "family_inv (ad_sessions s')"
    using assms(2) by (simp add: family_inv_revoked auth_inv_def ss)
  have uids: "au_id ` set (ad_users s') = au_id ` set (ad_users s)"
    using ids by (metis list.set_map)
  have uid: "unique_rows au_id (ad_users s') \<longleftrightarrow> unique_rows au_id (ad_users s)"
    unfolding unique_rows_def ids ..
  have keys: "rf_id ` set (ad_sessions s') = rf_id ` set (ad_sessions s)"
      "rf_family_id ` set (ad_sessions s') = rf_family_id ` set (ad_sessions s)"
      "rf_user_id ` set (ad_sessions s') = rf_user_id ` set (ad_sessions s)"
      "rf_token_digest ` set (ad_sessions s') = rf_token_digest ` set (ad_sessions s)"
      "unique_rows rf_id (ad_sessions s') \<longleftrightarrow> unique_rows rf_id (ad_sessions s)"
      "unique_rows rf_token_digest (ad_sessions s') \<longleftrightarrow> unique_rows rf_token_digest (ad_sessions s)"
    unfolding ss by (rule update_keys, simp)+
  have inv: "auth_inv env s'"
    using assms(2) mail fam unfolding auth_inv_def uids uid keys hist by (elim conjE) (intro conjI; assumption)
  have live: "r' \<in> set (ad_sessions s)" if "r' \<in> set (ad_sessions s')" "live r'" for r'
    using in_revoked [of r' p now "ad_sessions s"] that unfolding ss by auto
  have "auth_evolves s s'"
    unfolding auth_evolves_def hist
  proof (intro conjI ballI impI)
    fix u' assume "u' \<in> set (ad_users s')"
    then obtain u where "u \<in> set (ad_users s)" "u' = f u"
      by (auto simp: us)
    then show "\<exists>u\<in>set (ad_users s). au_id u = au_id u' \<and> au_token_version u \<le> au_token_version u'"
      using f by auto
  qed (use live in blast)+
  then show ?thesis
    using inv by blast
qed

subsection \<open>New sessions\<close>

lemma family_inv_login:
  assumes "family_inv rs" and "rf_family_id r \<notin> rf_family_id ` set rs" and "rf_replaced_by r = None"
  shows "family_inv (rs @ [r])"
proof -
  have other: "rf_family_id q \<noteq> rf_family_id r" if "q \<in> set rs" for q
    using assms(2) that by (metis imageI)
  show ?thesis
    unfolding family_inv_def
  proof (intro conjI ballI allI impI)
    fix a b assume ab: "a \<in> set (rs @ [r])" "b \<in> set (rs @ [r])" and fam: "rf_family_id a = rf_family_id b"
    consider "a \<in> set rs" "b \<in> set rs" | "a = b"
      using ab fam other by force
    then show "rf_user_id a = rf_user_id b"
      by cases (use family_invD(1) [OF assms(1)] fam in blast)+
    show "a = b" if "live a \<and> live b"
      using ab fam other family_invD(2) [OF assms(1), of a b] that by force
  next
    fix a n assume a: "a \<in> set (rs @ [r])" and n: "rf_replaced_by a = Some n"
    then have "a \<in> set rs"
      using assms(3) by auto
    then show "\<not> live a" and "\<exists>r'\<in>set (rs @ [r]). rf_id r' = n \<and> rf_family_id r' = rf_family_id a"
      using family_invD(3,4) [OF assms(1)] n by auto
  qed
qed

lemma in_rotated:
  assumes "unique_rows rf_id rs" and "old \<in> set rs"
  shows "x \<in> set (sql_update (\<lambda>q. rf_id q = rf_id old) (rotated n now) rs) \<longleftrightarrow>
    x = rotated n now old \<or> (x \<in> set rs \<and> x \<noteq> old)"
proof -
  have "rf_id q = rf_id old \<longleftrightarrow> q = old" if "q \<in> set rs" for q
    using unique_rows_eq [OF assms(1)] assms(2) that by blast
  then show ?thesis
    using assms(2) by (auto simp: set_sql_update image_iff)
qed

lemma family_inv_rotate:
  assumes inv: "family_inv rs" and uniq: "unique_rows rf_id rs" and old: "old \<in> set rs" "live old"
    and r: "rf_family_id r = rf_family_id old" "rf_user_id r = rf_user_id old" "rf_replaced_by r = None"
    and n: "n = rf_id r"
  shows "family_inv (sql_update (\<lambda>q. rf_id q = rf_id old) (rotated n now) rs @ [r])"
proof -
  let ?rs = "sql_update (\<lambda>q. rf_id q = rf_id old) (rotated n now) rs @ [r]"
  have mem: "x \<in> set ?rs \<longleftrightarrow> x = r \<or> x = rotated n now old \<or> (x \<in> set rs \<and> x \<noteq> old)" for x
    using in_rotated [OF uniq old(1)] by auto
  have rep: "\<exists>q\<in>set rs. rf_family_id q = rf_family_id x \<and> rf_user_id q = rf_user_id x"
    if "x \<in> set ?rs" for x
    using that old(1) r unfolding mem by auto
  have only: "x = r" if "x \<in> set ?rs" "live x" "rf_family_id x = rf_family_id r" for x
    using that family_invD(2) [OF inv old(1), of x] old(2) r(1) unfolding mem by auto
  show ?thesis
    unfolding family_inv_def
  proof (intro conjI ballI allI impI)
    fix a b assume ab: "a \<in> set ?rs" "b \<in> set ?rs" and fam: "rf_family_id a = rf_family_id b"
    obtain p q where p: "p \<in> set rs" "rf_family_id p = rf_family_id a" "rf_user_id p = rf_user_id a"
      and q: "q \<in> set rs" "rf_family_id q = rf_family_id b" "rf_user_id q = rf_user_id b"
      using rep [OF ab(1)] rep [OF ab(2)] by blast
    show "rf_user_id a = rf_user_id b"
      using family_invD(1) [OF inv p(1) q(1)] p q fam by simp
    assume live: "live a \<and> live b"
    show "a = b"
    proof (cases "rf_family_id a = rf_family_id r")
      case True
      then show ?thesis
        using only [OF ab(1)] only [OF ab(2)] live fam by simp
    next
      case False
      then have "a \<in> set rs" "b \<in> set rs"
        using ab fam r(1) unfolding mem by auto
      then show ?thesis
        using family_invD(2) [OF inv] live fam by blast
    qed
  next
    fix a m assume a: "a \<in> set ?rs" and m: "rf_replaced_by a = Some m"
    consider "a = rotated n now old" | "a \<in> set rs"
      using a m r(3) unfolding mem by auto
    then have "\<not> live a \<and> (\<exists>r'\<in>set ?rs. rf_id r' = m \<and> rf_family_id r' = rf_family_id a)"
    proof cases
      case 1
      then show ?thesis
        using m n r(1) by auto
    next
      case 2
      then obtain q where q: "q \<in> set rs" "rf_id q = m" "rf_family_id q = rf_family_id a"
        using family_invD(4) [OF inv _ m] by blast
      have "(if q = old then rotated n now old else q) \<in> set ?rs"
        using q(1) unfolding mem by auto
      then show ?thesis
        using family_invD(3) [OF inv 2 m] q
        by (intro conjI bexI [of _ "if q = old then rotated n now old else q"]) auto
    qed
    then show "\<not> live a" and "\<exists>r'\<in>set ?rs. rf_id r' = m \<and> rf_family_id r' = rf_family_id a"
      by blast+
  qed
qed

lemma auth_invD:
  assumes "auth_inv env s"
  shows "unique_rows au_id (ad_users s)" "unique_rows (\<lambda>u. ae_fold env (au_email u)) (ad_users s)"
    "unique_rows rf_id (ad_sessions s)" "unique_rows rf_token_digest (ad_sessions s)"
    "au_id ` set (ad_users s) \<subseteq> set (as_used s)" "rf_id ` set (ad_sessions s) \<subseteq> set (as_used s)"
    "rf_family_id ` set (ad_sessions s) \<subseteq> set (as_used s)"
    "rf_token_digest ` set (ad_sessions s) \<subseteq> set (as_digests s)"
    "rf_user_id ` set (ad_sessions s) \<subseteq> au_id ` set (ad_users s)" "family_inv (ad_sessions s)"
  using assms unfolding auth_inv_def by simp_all

text \<open>Writing down that identifiers and digests have been given out changes nothing else.\<close>

lemma history_inv:
  assumes "auth_inv env s" and "auth_evolves t s" and "set (as_used s) \<subseteq> set us" and "set (as_digests s) \<subseteq> set ds"
  shows "auth_inv env (s\<lparr>as_used := us, as_digests := ds\<rparr>) \<and> auth_evolves t (s\<lparr>as_used := us, as_digests := ds\<rparr>)"
proof
  have more: "A \<subseteq> set us" if "A \<subseteq> set (as_used s)" for A
    using that assms(3) by auto
  have more': "A \<subseteq> set ds" if "A \<subseteq> set (as_digests s)" for A
    using that assms(4) by auto
  show "auth_inv env (s\<lparr>as_used := us, as_digests := ds\<rparr>)"
    using assms(1) more more' unfolding auth_inv_def by simp
  show "auth_evolves t (s\<lparr>as_used := us, as_digests := ds\<rparr>)"
    using assms(2) more more' unfolding auth_evolves_def by simp
qed

lemma login_inv:
  assumes inv: "auth_inv env s" and fresh: "rf_id r \<notin> set (as_used s)" "rf_family_id r \<notin> set (as_used s)"
      "rf_token_digest r \<notin> set (as_digests s)"
    and r: "rf_replaced_by r = None" "rf_user_id r \<in> au_id ` set (ad_users s)"
    and s': "s' = s\<lparr>ad_sessions := ad_sessions s @ [r], as_used := rf_family_id r # rf_id r # as_used s,
        as_digests := rf_token_digest r # as_digests s\<rparr>"
  shows "auth_inv env s' \<and> auth_evolves s s'"
proof -
  note D = auth_invD [OF inv]
  have new: "rf_id r \<notin> rf_id ` set (ad_sessions s)" "rf_family_id r \<notin> rf_family_id ` set (ad_sessions s)"
      "rf_token_digest r \<notin> rf_token_digest ` set (ad_sessions s)"
    using D(6-8) fresh by blast+
  have fam: "family_inv (ad_sessions s @ [r])"
    using family_inv_login [OF D(10) new(2) r(1)] .
  have inv': "auth_inv env s'"
    using D fam new r(2) unfolding auth_inv_def s' by (simp add: unique_rows_snoc subset_insertI2)
  have "auth_evolves s s'"
    using fresh unfolding auth_evolves_def s' by auto
  then show ?thesis
    using inv' by blast
qed

lemma rotate_inv:
  assumes inv: "auth_inv env s" and fresh: "rf_id r \<notin> set (as_used s)" "rf_token_digest r \<notin> set (as_digests s)"
    and old: "old \<in> set (ad_sessions s)" "live old"
    and r: "rf_family_id r = rf_family_id old" "rf_user_id r = rf_user_id old" "rf_replaced_by r = None"
    and s': "s' = s\<lparr>ad_sessions := sql_update (\<lambda>q. rf_id q = rf_id old) (rotated (rf_id r) now) (ad_sessions s @ [r]),
        as_used := rf_id r # as_used s, as_digests := rf_token_digest r # as_digests s\<rparr>"
  shows "auth_inv env s' \<and> auth_evolves s s'"
proof -
  note D = auth_invD [OF inv]
  let ?upd = "sql_update (\<lambda>q. rf_id q = rf_id old) (rotated (rf_id r) now) (ad_sessions s)"
  have new: "rf_id r \<notin> rf_id ` set (ad_sessions s)" "rf_token_digest r \<notin> rf_token_digest ` set (ad_sessions s)"
    using D(6,8) fresh by blast+
  have "rf_id r \<noteq> rf_id old"
    using new(1) old(1) by (metis imageI)
  then have ss: "ad_sessions s' = ?upd @ [r]"
    by (simp add: s' sql_update_def)
  have fam: "family_inv (ad_sessions s')"
    unfolding ss using family_inv_rotate [OF D(10,3) old r refl] .
  have keys: "rf_id ` set ?upd = rf_id ` set (ad_sessions s)"
      "rf_family_id ` set ?upd = rf_family_id ` set (ad_sessions s)"
      "rf_user_id ` set ?upd = rf_user_id ` set (ad_sessions s)"
      "rf_token_digest ` set ?upd = rf_token_digest ` set (ad_sessions s)"
      "unique_rows rf_id ?upd \<longleftrightarrow> unique_rows rf_id (ad_sessions s)"
      "unique_rows rf_token_digest ?upd \<longleftrightarrow> unique_rows rf_token_digest (ad_sessions s)"
    by (rule update_keys, simp)+
  have img: "rf_family_id old \<in> set (as_used s)" "rf_user_id old \<in> au_id ` set (ad_users s)"
    using D(7,9) old(1) by auto
  have us: "ad_users s' = ad_users s" "as_used s' = rf_id r # as_used s" "as_digests s' = rf_token_digest r # as_digests s"
    by (simp_all add: s')
  have inv': "auth_inv env s'"
    using D fam new img r unfolding auth_inv_def us ss
    by (simp add: unique_rows_snoc subset_insertI2 keys)
  have rows: "x = r \<or> x \<in> set (ad_sessions s)" if "x \<in> set (ad_sessions s')" "live x" for x
    using that in_rotated [OF D(3) old(1), of x "rf_id r" now] unfolding ss by auto
  have "auth_evolves s s'"
    unfolding auth_evolves_def us
  proof (intro conjI ballI impI)
    fix x assume x: "x \<in> set (ad_sessions s')" "live x"
    show "\<exists>q\<in>set (ad_sessions s). live q \<and> rf_family_id q = rf_family_id x"
      using rows [OF x] x(2) old r(1) by auto
    show "\<exists>q\<in>set (ad_sessions s). live q \<and> rf_token_digest q = rf_token_digest x"
      if "rf_token_digest x \<in> set (as_digests s)"
      using rows [OF x] x(2) that fresh(2) by auto
  qed auto
  then show ?thesis
    using inv' by blast
qed

lemma create_user_inv:
  assumes inv: "auth_inv env s" and fresh: "au_id u \<notin> set (as_used s)"
    and mail: "ae_fold env (au_email u) \<notin> (\<lambda>x. ae_fold env (au_email x)) ` set (ad_users s)"
    and us: "ad_users s' = ad_users s @ [u]"
    and same: "ad_sessions s' = ad_sessions s" "as_used s' = au_id u # as_used s" "as_digests s' = as_digests s"
  shows "auth_inv env s' \<and> auth_evolves s s'"
proof
  note D = auth_invD [OF inv]
  have new: "au_id u \<notin> au_id ` set (ad_users s)"
    using D(5) fresh by blast
  show "auth_inv env s'"
    using D mail new unfolding auth_inv_def us same by (simp add: unique_rows_snoc subset_insertI2)
  show "auth_evolves s s'"
    using fresh unfolding auth_evolves_def us same by auto
qed

lemma family_inv_filter:
  assumes "family_inv rs"
  shows "family_inv (filter (\<lambda>r. rf_user_id r \<noteq> uid) rs)"
  unfolding family_inv_def
proof (intro conjI ballI allI impI)
  fix a b assume "a \<in> set (filter (\<lambda>r. rf_user_id r \<noteq> uid) rs)" "b \<in> set (filter (\<lambda>r. rf_user_id r \<noteq> uid) rs)"
    and fam: "rf_family_id a = rf_family_id b"
  then show "rf_user_id a = rf_user_id b" and "live a \<and> live b \<Longrightarrow> a = b"
    using family_invD(1,2) [OF assms, of a b] by auto
next
  fix a n assume a: "a \<in> set (filter (\<lambda>r. rf_user_id r \<noteq> uid) rs)" and n: "rf_replaced_by a = Some n"
  then show "\<not> live a"
    using family_invD(3) [OF assms] by auto
  obtain q where q: "q \<in> set rs" "rf_id q = n" "rf_family_id q = rf_family_id a"
    using family_invD(4) [OF assms _ n] a by auto
  then have "rf_user_id q = rf_user_id a"
    using family_invD(1) [OF assms q(1), of a] a by auto
  then show "\<exists>r'\<in>set (filter (\<lambda>r. rf_user_id r \<noteq> uid) rs). rf_id r' = n \<and> rf_family_id r' = rf_family_id a"
    using q a by auto
qed

lemma unique_rows_filter: "unique_rows k rows \<Longrightarrow> unique_rows k (filter p rows)"
  by (simp add: unique_rows_def distinct_map_filter)

lemma delete_user_inv:
  assumes inv: "auth_inv env s"
    and s': "ad_users s' = filter (\<lambda>u. au_id u \<noteq> uid) (ad_users s)"
      "ad_sessions s' = filter (\<lambda>r. rf_user_id r \<noteq> uid) (ad_sessions s)"
      "as_used s' = as_used s" "as_digests s' = as_digests s"
  shows "auth_inv env s' \<and> auth_evolves s s'"
proof
  note D = auth_invD [OF inv]
  show "auth_inv env s'"
    using D(5-9) family_inv_filter [OF D(10)] unfolding auth_inv_def s'
    by (intro conjI unique_rows_filter D(1-4)) (auto simp: subset_iff image_iff)
  show "auth_evolves s s'"
    unfolding auth_evolves_def s' by auto
qed

subsection \<open>Every operation is one of these changes\<close>

lemma no_update [simp]: "sql_update (\<lambda>_. False) f rows = rows"
  by (induction rows) auto

lemma update_id [simp]: "sql_update p id rows = rows"
  by (induction rows) auto

lemma soft_change_cong:
  "soft_change env s t \<Longrightarrow> ad_sessions s' = ad_sessions t \<Longrightarrow> ad_users s' = ad_users t \<Longrightarrow>
    as_used s' = as_used t \<Longrightarrow> as_digests s' = as_digests t \<Longrightarrow> soft_change env s s'"
  by (simp add: soft_change_def)

lemma soft_changeI:
  assumes "ad_sessions s' = sql_update p (revoked now) (ad_sessions s)"
    and us: "ad_users s' = sql_update (\<lambda>u. au_id u = uid) f (ad_users s)"
    and f: "\<And>u. au_id (f u) = au_id u" "\<And>u. au_token_version u \<le> au_token_version (f u)"
    and mail: "(\<forall>u. au_email (f u) = au_email u) \<or>
      (\<exists>e. (\<forall>u. au_id u = uid \<longrightarrow> au_email (f u) = e) \<and> email_free env uid e s)"
    and "as_used s' = as_used s" and "as_digests s' = as_digests s"
  shows "soft_change env s s'"
proof -
  let ?g = "\<lambda>u. if au_id u = uid then f u else u"
  have uniq: "unique_rows (\<lambda>u. ae_fold env (au_email u)) (ad_users s')"
    if m: "unique_rows (\<lambda>u. ae_fold env (au_email u)) (ad_users s)" and i: "unique_rows au_id (ad_users s)"
    using mail
  proof
    assume "\<forall>u. au_email (f u) = au_email u"
    then show ?thesis
      unfolding us using m by (subst update_keys(2)) auto
  next
    assume "\<exists>e. (\<forall>u. au_id u = uid \<longrightarrow> au_email (f u) = e) \<and> email_free env uid e s"
    then obtain e where e: "\<And>u. au_id u = uid \<Longrightarrow> au_email (f u) = e"
      and free: "\<And>u. u \<in> set (ad_users s) \<Longrightarrow> au_id u \<noteq> uid \<Longrightarrow> ae_fold env (au_email u) \<noteq> ae_fold env e"
      by (auto simp: email_free_def)
    have "inj_on (\<lambda>u. ae_fold env (au_email (?g u))) (set (ad_users s))"
      using m i e free unfolding unique_rows_def distinct_map inj_on_def by (smt (verit))
    then show ?thesis
      using m unfolding us sql_update_def unique_rows_def by (simp add: distinct_map comp_def)
  qed
  have "ad_users s' = map ?g (ad_users s)"
    by (simp add: us sql_update_def)
  then show ?thesis
    using assms uniq unfolding soft_change_def
    by (intro conjI exI [of _ p] exI [of _ now] exI [of _ ?g]) auto
qed

lemma soft_same:
  "ad_sessions s' = ad_sessions s \<Longrightarrow> ad_users s' = ad_users s \<Longrightarrow> as_used s' = as_used s \<Longrightarrow>
    as_digests s' = as_digests s \<Longrightarrow> soft_change env s s'"
  by (rule soft_changeI [where p = "\<lambda>_. False" and f = id and uid = 0]) simp_all

lemma soft_write:
  assumes "\<And>u. au_id (f u) = au_id u" and "\<And>u. au_token_version u \<le> au_token_version (f u)"
    and "\<And>u. au_email (f u) = au_email u"
  shows "soft_change env s (write_user uid f s)"
  using assms by (intro soft_changeI [where p = "\<lambda>_. False" and f = f and uid = uid]) (simp_all add: write_user_def)

lemma soft_revoke: "soft_change env s (s\<lparr>ad_sessions := sql_update p (revoked now) (ad_sessions s)\<rparr>)"
  by (rule soft_changeI [where p = p and now = now and f = id and uid = 0]) simp_all

lemma record_audit_cases:
  obtains (refused) "record_audit sx d actor action rtype rid payload t = Inl DDatabase"
  | (written) es where "record_audit sx d actor action rtype rid payload t = Inr (t\<lparr>ad_audit := es\<rparr>)"
proof (cases "record_audit sx d actor action rtype rid payload t")
  case (Inl e)
  then show ?thesis
    using refused by (auto simp: record_audit_def Let_def split: if_splits)
next
  case (Inr u)
  then have "\<exists>es. u = t\<lparr>ad_audit := es\<rparr>"
    by (auto simp: record_audit_def Let_def split: if_splits)
  then show ?thesis
    using written Inr by blast
qed

lemma audited_cases:
  obtains (refused) "audited sx actor action rtype rid payload res s t = (Inl DDatabase, s)"
  | (written) es where "audited sx actor action rtype rid payload res s t = (Inr res, t\<lparr>ad_audit := es\<rparr>)"
  by (cases rule: record_audit_cases [of sx "Some (sx_dept sx)" actor action rtype rid payload t])
    (simp_all add: audited_def rolled_back_def)

lemma soft_audited:
  assumes "soft_change env s t"
  shows "soft_change env s (snd (audited sx actor action rtype rid payload res s t))"
  by (cases rule: audited_cases [of sx actor action rtype rid payload res s t])
    (simp_all add: soft_same soft_change_cong [OF assms])

lemma values_simps [simp]:
  "au_id (disabled_values now u) = au_id u" "au_email (disabled_values now u) = au_email u"
  "au_token_version (disabled_values now u) = au_token_version u + 1"
  "au_id (profile_values now n a u) = au_id u" "au_email (profile_values now n a u) = au_email u"
  "au_token_version (profile_values now n a u) = au_token_version u"
  "au_id (password_values now h u) = au_id u" "au_email (password_values now h u) = au_email u"
  "au_token_version (password_values now h u) = au_token_version u + 1"
  "au_status (password_values now h u) = au_status u" "au_roles (password_values now h u) = au_roles u"
  "au_id (deleted_values now u) = au_id u" "au_email (deleted_values now u) = deleted_email (au_id u)"
  "au_token_version (deleted_values now u) = au_token_version u + 1"
  "au_status (deleted_values now u) = ''deleted''" "au_roles (deleted_values now u) = au_roles u"
  "au_password_hash (deleted_values now u) = au_password_hash u"
  "au_id (update_values env salt b d u) = au_id u" "au_email (update_values env salt b d u) = au_email u"
  "au_token_version (update_values env salt b d u) = au_token_version u"
  "au_status (update_values env salt b d u) = au_status u"
  "au_id (roles_values now g u) = au_id u" "au_email (roles_values now g u) = au_email u"
  "au_token_version (roles_values now g u) = au_token_version u" "au_roles (roles_values now g u) = g (au_roles u)"
  "au_status (roles_values now g u) = au_status u" "au_department_id (roles_values now g u) = au_department_id u"
  "au_id (user_status_values now st u) = au_id u" "au_email (user_status_values now st u) = au_email u"
  "au_token_version (user_status_values now st u) = au_token_version u" "au_status (user_status_values now st u) = st"
  "au_roles (user_status_values now st u) = au_roles u" "au_department_id (user_status_values now st u) = au_department_id u"
  by (simp_all add: disabled_values_def profile_values_def password_values_def deleted_values_def
      update_values_def roles_values_def user_status_values_def Let_def split: option.split)

lemma soft_logout: "soft_change env s (logout env now token s)"
  by (simp add: logout_def revoke_session_def soft_same soft_revoke split: option.split)

lemma soft_disable: "soft_change env s (snd (disable_user now uid s))"
proof (cases "find_user_by_id uid s")
  case (Some u)
  then show ?thesis
    by (auto simp: disable_user_def revoke_family_by_user_def write_user_def Let_def
        intro!: soft_changeI [where p = "\<lambda>r. rf_user_id r = uid \<and> rf_revoked_at r = None" and now = now
          and f = "disabled_values now" and uid = uid])
qed (simp add: disable_user_def soft_same)

lemma soft_profile: "soft_change env s (snd (update_profile now uid n a s))"
  by (simp add: update_profile_def soft_same soft_write split: option.split)

lemma soft_password: "soft_change env s (snd (change_password env now salt uid old new s))"
  by (simp add: change_password_def soft_same soft_write split: option.split)

lemma soft_avatar: "soft_change env s (set_avatar_url now uid url s)"
  unfolding set_avatar_url_def by (rule soft_write) simp_all

lemma soft_delete_account: "soft_change env s (snd (delete_account env now uid s))"
proof (cases "find_user_by_id uid s \<noteq> None \<and> email_free env uid (deleted_email uid) s")
  case True
  then have "snd (delete_account env now uid s) = write_user uid (deleted_values now) s"
    by (auto simp: delete_account_def)
  moreover have "soft_change env s (write_user uid (deleted_values now) s)"
  proof (rule soft_changeI [where p = "\<lambda>_. False" and f = "deleted_values now" and uid = uid])
    show "(\<forall>u. au_email (deleted_values now u) = au_email u) \<or>
        (\<exists>e. (\<forall>u. au_id u = uid \<longrightarrow> au_email (deleted_values now u) = e) \<and> email_free env uid e s)"
      using True by (intro disjI2 exI [of _ "deleted_email uid"]) simp
  qed (simp_all add: write_user_def)
  ultimately show ?thesis
    by simp
qed (auto simp: delete_account_def soft_same split: option.split)

lemma soft_delete_endpoint: "soft_change env s (snd (delete_account_endpoint env now cu email password s))"
  by (simp add: delete_account_endpoint_def soft_same soft_delete_account split: option.split)

lemma soft_gov:
  "soft_change env s (snd (gov_update_user env sx salt uid b s))"
  "soft_change env s (snd (gov_assign_roles sx now uid roles s))"
  "soft_change env s (snd (gov_remove_role sx now uid role s))"
  "soft_change env s (snd (gov_update_user_status sx now uid st s))"
  by (auto simp: gov_update_user_def gov_assign_roles_def gov_remove_role_def gov_update_user_status_def
      Let_def rolled_back_def intro!: soft_audited soft_same soft_write split: option.split)

lemma soft_endpoints:
  "soft_change env s (snd (update_user_endpoint env salt vis cu uid b s))"
  "soft_change env s (snd (assign_roles_endpoint now vis cu uid roles s))"
  "soft_change env s (snd (remove_role_endpoint now vis cu uid role s))"
  "soft_change env s (snd (update_user_status_endpoint now vis cu uid st s))"
  unfolding update_user_endpoint_def assign_roles_endpoint_def remove_role_endpoint_def update_user_status_endpoint_def
  by (auto simp: soft_same soft_gov split: sum.split)

lemma soft_history:
  assumes "soft_change env s t" and "auth_inv env s" and "set (as_used s) \<subseteq> set us"
    and "set (as_digests s) \<subseteq> set ds"
  shows "auth_inv env (t\<lparr>as_used := us, as_digests := ds\<rparr>) \<and> auth_evolves s (t\<lparr>as_used := us, as_digests := ds\<rparr>)"
  using soft_change_inv [OF assms(1,2)] assms(1,3,4) by (intro history_inv) (auto simp: soft_change_def)

lemma authenticate_user:
  "authenticate env email password db = Inr u \<Longrightarrow> u \<in> set (ad_users db) \<and> au_status u \<noteq> ''disabled''"
  by (auto simp: authenticate_def find_user_by_email_def split: option.splits if_splits dest: sql_find_SomeD)

lemma login_step_inv:
  assumes "auth_inv env s" and "fam \<notin> set (as_used s)" and "sid \<notin> set (as_used s)"
    and "ae_digest env tok \<notin> set (as_digests s)"
    and s': "s' = (snd (login env now tok fam sid email password ip agent s))
      \<lparr>as_used := fam # sid # as_used s, as_digests := ae_digest env tok # as_digests s\<rparr>"
  shows "auth_inv env s' \<and> auth_evolves s s'"
proof (cases "snd (login env now tok fam sid email password ip agent s) = s")
  case True
  then show ?thesis
    unfolding s' True by (intro soft_history [OF soft_same assms(1)]) auto
next
  case False
  then obtain u where u: "authenticate env email password s = Inr u"
    by (auto simp: login_def split: sum.splits)
  let ?r = "\<lparr>rf_id = sid, rf_family_id = fam, rf_user_id = au_id u, rf_token_digest = ae_digest env tok,
              rf_issued_at = now, rf_expires_at = now + REFRESH_TOKEN_TTL, rf_revoked_at = None,
              rf_replaced_by = None, rf_created_ip = ip, rf_user_agent = agent\<rparr>"
  have "snd (login env now tok fam sid email password ip agent s) = s\<lparr>ad_sessions := ad_sessions s @ [?r]\<rparr>"
    using False u by (auto simp: login_def create_refresh_session_def split: if_splits)
  then show ?thesis
    using assms(2-4) authenticate_user [OF u] unfolding s'
    by (intro login_inv [OF assms(1), of ?r]) auto
qed

lemma next_session_simps [simp]:
  "rf_id (next_session env now tok sid old) = sid"
  "rf_family_id (next_session env now tok sid old) = rf_family_id old"
  "rf_user_id (next_session env now tok sid old) = rf_user_id old"
  "rf_token_digest (next_session env now tok sid old) = ae_digest env tok"
  "rf_replaced_by (next_session env now tok sid old) = None"
  "rf_expires_at (next_session env now tok sid old) = now + REFRESH_TOKEN_TTL"
  "rf_revoked_at (next_session env now tok sid old) = None" "live (next_session env now tok sid old)"
  by (simp_all add: next_session_def live_def)

text \<open>What \<open>refresh\<close> does to the tables.\<close>

lemma refresh_cases:
  obtains (soft) "soft_change env s (snd (refresh env now tok sid token s))"
      "\<And>p. fst (refresh env now tok sid token s) \<noteq> Inr p"
  | (rotated) old u where "find_session_by_digest (ae_digest env token) s = Some old" "live old"
      "rf_replaced_by old = None" "\<not> rf_expires_at old < now" "find_user_by_id (rf_user_id old) s = Some u"
      "au_status u \<noteq> ''disabled''"
      "fst (refresh env now tok sid token s) = Inr \<lparr>tp_access_token = access_token_of env now u,
         tp_refresh_token = tok, tp_expires_in = ACCESS_TOKEN_TTL_SECONDS\<rparr>"
      "snd (refresh env now tok sid token s) = s\<lparr>ad_sessions := sql_update (\<lambda>q. rf_id q = rf_id old)
         (rotated sid now) (ad_sessions s @ [next_session env now tok sid old])\<rparr>"
proof (cases "find_session_by_digest (ae_digest env token) s")
  case None
  then show ?thesis
    by (intro soft) (simp_all add: refresh_def soft_same)
next
  case (Some old)
  consider "rf_replaced_by old \<noteq> None" | "rf_replaced_by old = None" "\<not> live old \<or> rf_expires_at old < now"
    | "rf_replaced_by old = None" "live old" "\<not> rf_expires_at old < now"
    by blast
  then show ?thesis
  proof cases
    case 1
    then show ?thesis
      using Some by (intro soft) (auto simp: refresh_def revoke_family_def revoke_seen_def soft_revoke)
  next
    case 2
    then show ?thesis
      using Some by (intro soft) (auto simp: refresh_def live_def soft_same)
  next
    case 3
    let ?b = "rotate_branch env now tok sid old s"
    have r: "refresh env now tok sid token s = ?b"
      using 3 Some by (simp add: refresh_def live_def)
    show ?thesis
    proof (cases "\<exists>u p. find_user_by_id (rf_user_id old) s = Some u \<and> au_status u \<noteq> ''disabled'' \<and> fst ?b = Inr p")
      case True
      then obtain u p where u: "find_user_by_id (rf_user_id old) s = Some u" "au_status u \<noteq> ''disabled''"
        and "fst ?b = Inr p"
        by blast
      then have c: "create_refresh_session (next_session env now tok sid old) s
          = Inr (s\<lparr>ad_sessions := ad_sessions s @ [next_session env now tok sid old]\<rparr>)"
        by (auto simp: rotate_branch_def create_refresh_session_def split: if_splits)
      show ?thesis
        using 3 Some u by (intro rotated [of old u])
          (simp_all add: r rotate_branch_def c find_user_by_id_def rotate_session_def)
    next
      case False
      then have "snd ?b = s" and "\<And>p. fst ?b \<noteq> Inr p"
        by (auto simp: rotate_branch_def create_refresh_session_def find_user_by_id_def rotate_session_def
            rolled_back_def Let_def split: option.splits if_splits)
      then show ?thesis
        by (intro soft) (simp_all add: r soft_same)
    qed
  qed
qed

lemma refresh_step_inv:
  assumes "auth_inv env s" and "sid \<notin> set (as_used s)" and "ae_digest env tok \<notin> set (as_digests s)"
    and s': "s' = (snd (refresh env now tok sid token s))
      \<lparr>as_used := sid # as_used s, as_digests := ae_digest env tok # as_digests s\<rparr>"
  shows "auth_inv env s' \<and> auth_evolves s s'"
proof (cases rule: refresh_cases [of env s now tok sid token])
  case soft
  then show ?thesis
    unfolding s' by (intro soft_history [OF soft(1) assms(1)]) auto
next
  case (rotated old u)
  have "old \<in> set (ad_sessions s)"
    using rotated(1) by (auto simp: find_session_by_digest_def dest: sql_find_SomeD)
  then show ?thesis
    using rotated(2,8) assms(2,3) unfolding s'
    by (intro rotate_inv [OF assms(1), of "next_session env now tok sid old" old, where now = now]) auto
qed

lemma gov_create_user_cases:
  obtains (unchanged) "snd (gov_create_user env sx now salt uid email name password roles dept admin_dept s) = s"
  | (created) u ds es where "find_user_by_email env email s = None" "au_id u = uid" "au_email u = email"
      "au_roles u = roles" "au_status u = ''active''" "au_password_hash u = ae_hash env salt password"
      "snd (gov_create_user env sx now salt uid email name password roles dept admin_dept s) =
         s\<lparr>ad_users := ad_users s @ [u], ad_depts := ds, ad_audit := es\<rparr>"
proof -
  let ?d = "case dept of Some d \<Rightarrow> if d \<in> dept_ids s then d else admin_dept | None \<Rightarrow> admin_dept"
  let ?u = "\<lparr>au_id = uid, au_email = email, au_display_name = name,
      au_password_hash = ae_hash env salt password, au_status = ''active'', au_created_at = now,
      au_updated_at = now, au_lock_version = 0, au_roles = roles, au_department_id = ?d,
      au_token_version = 0, au_avatar_url = None\<rparr>"
  let ?g = "gov_create_user env sx now salt uid email name password roles dept admin_dept s"
  let ?p = "[(''email'', JStr email), (''display_name'', JStr name), (''roles'', JArr (map JStr roles))]"
  let ?t = "s\<lparr>ad_users := ad_users s @ [?u]\<rparr>"
  consider "snd ?g = s"
    | ds where "find_user_by_email env email s = None"
        "?g = audited sx (actor_or sx uid) ''user.create'' ''user'' (Some uid) ?p ?u s (?t\<lparr>ad_depts := ds\<rparr>)"
  proof (cases "find_user_by_email env email s \<noteq> None \<or> uid \<in> au_id ` set (ad_users s) \<or> ?d \<notin> dept_ids s")
    case True
    then have "snd ?g = s"
      by (auto simp: gov_create_user_def Let_def simp del: split_paired_Ex)
    then show ?thesis
      by (rule that(1))
  next
    case False
    show ?thesis
    proof (cases dept)
      case None
      then have "?g = audited sx (actor_or sx uid) ''user.create'' ''user'' (Some uid) ?p ?u s (?t\<lparr>ad_depts := ad_depts s\<rparr>)"
        using False by (simp add: gov_create_user_def Let_def)
      then show ?thesis
        using False that(2) by blast
    next
      case (Some d)
      show ?thesis
      proof (cases "d \<in> dept_ids s")
        case True
        then show ?thesis
          using False Some by (intro that(2)) (simp_all add: gov_create_user_def Let_def)
      next
        case nd: False
        then have "snd ?g = s"
          using False Some by (simp add: gov_create_user_def Let_def rolled_back_def)
        then show ?thesis
          by (rule that(1))
      qed
    qed
  qed
  then show ?thesis
  proof cases
    case 1
    then show ?thesis
      by (rule unchanged)
  next
    case (2 ds)
    then show ?thesis
    proof (cases rule: audited_cases [of sx "actor_or sx uid" "''user.create''" "''user''" "Some uid" ?p ?u s "?t\<lparr>ad_depts := ds\<rparr>"])
      case refused
      show ?thesis
        by (rule unchanged) (simp add: 2(2) refused)
    next
      case (written es)
      show ?thesis
        by (rule created [where u = ?u and ds = ds and es = es]) (simp_all add: 2 written)
    qed
  qed
qed

lemma create_endpoint_inv:
  assumes "auth_inv env s" and "uid \<notin> set (as_used s)"
    and s': "s' = (snd (create_user_endpoint env now salt uid vis cu email name password roles dept admin_dept s))
      \<lparr>as_used := uid # as_used s\<rparr>"
  shows "auth_inv env s' \<and> auth_evolves s s'"
proof -
  let ?dp = "Option.bind (map_option uuid_parse dept) id"
  have same: "s\<lparr>as_used := uid # as_used s, as_digests := as_digests s\<rparr> = s\<lparr>as_used := uid # as_used s\<rparr>"
    by (rule auth_sys.equality) simp_all
  have idle: "auth_inv env (s\<lparr>as_used := uid # as_used s\<rparr>) \<and> auth_evolves s (s\<lparr>as_used := uid # as_used s\<rparr>)"
    by (rule soft_history [OF soft_same assms(1), of s "uid # as_used s" "as_digests s", unfolded same]) auto
  consider "snd (create_user_endpoint env now salt uid vis cu email name password roles dept admin_dept s) = s"
    | "create_user_endpoint env now salt uid vis cu email name password roles dept admin_dept s =
        gov_create_user env (make_service vis cu) now salt uid email name password roles ?dp admin_dept s"
    by (cases "checks [require_permission ''user:manage'' cu, validate_role_codes roles,
        ensure (map_option uuid_parse dept \<noteq> Some None)
          (app_fail ''validation_failed'' [(''department_id'', opt_text dept)])]")
      (simp_all only: create_user_endpoint_def sum.case snd_conv simp_thms)
  then show ?thesis
  proof cases
    case 1
    show ?thesis
      unfolding s' 1 using idle .
  next
    case 2
    show ?thesis
    proof (cases rule: gov_create_user_cases
        [of env "make_service vis cu" now salt uid email name password roles ?dp admin_dept s])
      case unchanged
      show ?thesis
        unfolding s' 2 unchanged using idle .
    next
      case (created u ds es)
      then have mail: "ae_fold env (au_email u) \<notin> (\<lambda>x. ae_fold env (au_email x)) ` set (ad_users s)"
        by (auto simp: find_user_by_email_def sql_find_None_iff)
      show ?thesis
        using assms(2) created mail by (intro create_user_inv [OF assms(1), of u]) (simp_all add: s' 2)
    qed
  qed
qed

lemma delete_endpoint_inv:
  assumes "auth_inv env s"
  shows "auth_inv env (snd (delete_user_endpoint vis cu uid s)) \<and> auth_evolves s (snd (delete_user_endpoint vis cu uid s))"
proof -
  consider "snd (delete_user_endpoint vis cu uid s) = s"
    | es where "snd (delete_user_endpoint vis cu uid s) = without_user uid (s\<lparr>ad_audit := es\<rparr>)"
  proof (cases "find_user_by_id uid s")
    case None
    then show ?thesis
      by (intro that(1)) (simp add: delete_user_endpoint_def gov_delete_user_def split: sum.split)
  next
    case (Some u)
    let ?p = "[(''email'', JStr (au_email u)), (''display_name'', JStr (au_display_name u))]"
    show ?thesis
      by (cases rule: record_audit_cases [of "make_service vis cu" "Some (sx_dept (make_service vis cu))"
            "actor_or (make_service vis cu) uid" "''user.delete''" "''app_user''" "Some uid" ?p s];
          cases "checks [require_permission ''user:manage'' cu, ensure (uid \<noteq> cu_user_id cu) (app_fail ''forbidden'' [])]";
          cases "uid \<in> set (ad_user_refs s)")
        (use Some that in \<open>auto simp: delete_user_endpoint_def gov_delete_user_def rolled_back_def\<close>)
  qed
  then show ?thesis
  proof cases
    case 1
    then show ?thesis
      using assms auth_evolves_refl by simp
  next
    case (2 es)
    then show ?thesis
      by (intro delete_user_inv [OF assms, where uid = uid]) (simp_all add: without_user_def)
  qed
qed

lemma step_inv: "auth_step env s s' \<Longrightarrow> auth_inv env s \<Longrightarrow> auth_inv env s' \<and> auth_evolves s s'"
proof (induction rule: auth_step.induct)
  case (login_step fam s sid tok s' now email password ip agent)
  then show ?case
    using login_step_inv by blast
next
  case (refresh_step sid s tok s' now token)
  then show ?case
    using refresh_step_inv by blast
next
  case (replay_begins token s old)
  then show ?case
    by (intro soft_change_inv soft_same) simp_all
next
  case (replay_ends seen fam s now)
  then show ?case
    unfolding revoke_seen_def by (intro soft_change_inv soft_revoke)
next
  case (create_user_step uid s s')
  then show ?case
    using create_endpoint_inv by blast
next
  case (delete_user_step vis cu uid s)
  then show ?case
    by (rule delete_endpoint_inv)
qed (rule soft_change_inv, rule soft_logout soft_disable soft_profile soft_password soft_avatar
      soft_delete_endpoint soft_endpoints, assumption)+

lemma reach_inv: "auth_reach env s \<Longrightarrow> auth_inv env s"
proof (induction rule: auth_reach.induct)
  case (init s)
  then show ?case
    by (simp add: auth_init_def auth_inv_def family_inv_def)
next
  case (step s s')
  then show ?case
    using step_inv by blast
qed

lemma steps_reach: "auth_steps env s t \<Longrightarrow> auth_reach env s \<Longrightarrow> auth_reach env t"
  by (induction rule: rtranclp_induct) (auto intro: auth_reach.step)

lemma auth_steps_evolve: "auth_steps env s t \<Longrightarrow> auth_reach env s \<Longrightarrow> auth_evolves s t"
proof (induction rule: rtranclp_induct)
  case base
  then show ?case
    by (simp add: auth_evolves_refl)
next
  case (step t u)
  then show ?case
    using step_inv [OF step.hyps(2)] reach_inv steps_reach auth_evolves_trans by blast
qed

end
