(* ===== verification/AuthTheorems.thy ===== *)
theory AuthTheorems imports AuthSystem begin

text \<open>
  What holds of accounts in every reachable state: refresh tokens are used once, a replay ends its
  family, access tokens die with the version of the account, and nobody gives away more than the own
  rights. And what does not hold: a replay that races with a rotation leaves a session alive,
  disabling is undone by enabling, a deleted account keeps working, and the password of an
  administrator is in the hands of the director of the same department.
\<close>

section \<open>Refresh tokens\<close>

lemma find_session:
  assumes "auth_inv env s"
  shows "find_session_by_digest d s = Some r \<longleftrightarrow> r \<in> set (ad_sessions s) \<and> rf_token_digest r = d"
  unfolding find_session_by_digest_def by (rule sql_find_Some_iff) (rule auth_invD(4) [OF assms])

lemma find_user:
  assumes "auth_inv env s"
  shows "find_user_by_id uid s = Some u \<longleftrightarrow> u \<in> set (ad_users s) \<and> au_id u = uid"
  unfolding find_user_by_id_def by (rule sql_find_Some_iff) (rule auth_invD(1) [OF assms])

lemma refresh_needs_live:
  fixes s :: auth_sys
  assumes "\<And>r. find_session_by_digest (ae_digest env token) s = Some r \<Longrightarrow> \<not> live r"
  shows "\<exists>e. fst (refresh env now tok sid token s) = Inl e"
proof (cases rule: refresh_cases [of env s now tok sid token])
  case soft
  then show ?thesis
    by (cases "fst (refresh env now tok sid token s)") auto
next
  case (rotated old u)
  then show ?thesis
    using assms by blast
qed

text \<open>The state after a refresh, with its histories.\<close>

definition refreshed :: "auth_env \<Rightarrow> timestamp \<Rightarrow> string \<Rightarrow> uuid \<Rightarrow> string \<Rightarrow> auth_sys \<Rightarrow> auth_sys" where
  "refreshed env now tok sid token s = (snd (refresh env now tok sid token s))
     \<lparr>as_used := sid # as_used s, as_digests := ae_digest env tok # as_digests s\<rparr>"

lemma refreshed_step:
  "sid \<notin> set (as_used s) \<Longrightarrow> ae_digest env tok \<notin> set (as_digests s) \<Longrightarrow>
    auth_step env s (refreshed env now tok sid token s)"
  unfolding refreshed_def by (rule refresh_step) auto

text \<open>
  C12. In every reachable state the sessions of a family belong to one user, at most one of them is not
  revoked, and a session that was rotated is revoked and names another session of its family.
\<close>

theorem refresh_families_sound:
  assumes "auth_reach env s"
  shows "(\<forall>r\<in>set (ad_sessions s). \<forall>r'\<in>set (ad_sessions s). rf_family_id r = rf_family_id r' \<longrightarrow>
        rf_user_id r = rf_user_id r' \<and> (rf_revoked_at r = None \<and> rf_revoked_at r' = None \<longrightarrow> r = r'))
    \<and> (\<forall>r\<in>set (ad_sessions s). \<forall>n. rf_replaced_by r = Some n \<longrightarrow> rf_revoked_at r \<noteq> None \<and>
        (\<exists>r'\<in>set (ad_sessions s). rf_id r' = n \<and> rf_family_id r' = rf_family_id r))"
  using auth_invD(10) [OF reach_inv [OF assms]] unfolding family_inv_def live_def by blast

text \<open>
  C13. A refresh token is good for one refresh: once it was answered with a token pair, it is refused in
  every later state.
\<close>

theorem refresh_token_single_use:
  assumes "auth_reach env s" and "fst (refresh env now tok sid token s) = Inr p"
    and "sid \<notin> set (as_used s)" and "ae_digest env tok \<notin> set (as_digests s)"
    and "auth_steps env (refreshed env now tok sid token s) t"
  shows "\<exists>e. fst (refresh env now' tok' sid' token t) = Inl e"
proof (rule refresh_needs_live)
  fix r assume r: "find_session_by_digest (ae_digest env token) t = Some r"
  let ?t = "refreshed env now tok sid token s"
  note inv = reach_inv [OF assms(1)]
  have reach: "auth_reach env ?t"
    using auth_reach.step [OF assms(1)] refreshed_step [OF assms(3,4)] by blast
  have rt: "r \<in> set (ad_sessions t)" "rf_token_digest r = ae_digest env token"
    using r find_session [OF reach_inv [OF steps_reach [OF assms(5) reach]]] by auto
  show "\<not> live r"
  proof (cases rule: refresh_cases [of env s now tok sid token])
    case soft
    then show ?thesis
      using assms(2) by blast
  next
    case (rotated old u)
    have old: "old \<in> set (ad_sessions s)" "rf_token_digest old = ae_digest env token"
      using rotated(1) find_session [OF inv] by auto
    have used: "ae_digest env token \<in> set (as_digests s)"
      using auth_invD(8) [OF inv] old by auto
    have dead: "\<not> live q" if q: "q \<in> set (ad_sessions ?t)" "rf_token_digest q = ae_digest env token" for q
    proof -
      obtain q0 where q0: "q0 \<in> set (ad_sessions s @ [next_session env now tok sid old])"
        "q = (if rf_id q0 = rf_id old then rotated sid now q0 else q0)"
        using q(1) rotated(8) unfolding refreshed_def by (auto elim: in_sql_updateE)
      then have "rf_token_digest q0 = ae_digest env token"
        using q(2) by (auto split: if_splits)
      then have "q0 = old"
        using q0(1) used assms(4) unique_rows_eq [OF auth_invD(4) [OF inv], of q0 old] old by auto
      then show ?thesis
        using q0(2) by simp
    qed
    have "ae_digest env token \<in> set (as_digests ?t)"
      using used by (simp add: refreshed_def)
    then show ?thesis
      using auth_evolvesD(5) [OF auth_steps_evolve [OF assms(5) reach] rt(1)] rt(2) dead by metis
  qed
qed


text \<open>A refresh that goes through.\<close>

lemma refresh_ok:
  assumes "auth_inv env s" and "r \<in> set (ad_sessions s)" and "rf_token_digest r = ae_digest env token"
    and "live r" and "now \<le> rf_expires_at r"
    and "u \<in> set (ad_users s)" and "au_id u = rf_user_id r" and "au_status u \<noteq> ''disabled''"
    and "sid \<notin> set (as_used s)" and "ae_digest env tok \<notin> set (as_digests s)"
  shows "refresh env now tok sid token s = (Inr \<lparr>tp_access_token = access_token_of env now u,
      tp_refresh_token = tok, tp_expires_in = ACCESS_TOKEN_TTL_SECONDS\<rparr>,
      s\<lparr>ad_sessions := sql_update (\<lambda>q. rf_id q = rf_id r) (rotated sid now)
        (ad_sessions s @ [next_session env now tok sid r])\<rparr>)"
proof -
  note D = auth_invD [OF assms(1)]
  have f: "find_session_by_digest (ae_digest env token) s = Some r"
    using assms(2,3) by (simp add: find_session [OF assms(1)])
  have rep: "rf_replaced_by r = None"
    using family_invD(3) [OF D(10) assms(2)] assms(4) by (cases "rf_replaced_by r") auto
  have u: "find_user_by_id (rf_user_id r) s = Some u"
    using assms(6,7) by (simp add: find_user [OF assms(1)])
  have "sid \<notin> rf_id ` set (ad_sessions s)" "ae_digest env tok \<notin> rf_token_digest ` set (ad_sessions s)"
    using D(6,8) assms(9,10) by blast+
  moreover have "rf_user_id r \<in> au_id ` set (ad_users s)"
    using assms(6,7) by (metis imageI)
  ultimately have c: "create_refresh_session (next_session env now tok sid r) s
      = Inr (s\<lparr>ad_sessions := ad_sessions s @ [next_session env now tok sid r]\<rparr>)"
    by (simp add: create_refresh_session_def)
  show ?thesis
    using f rep u assms(4,5,8) c
    by (simp add: refresh_def rotate_branch_def live_def find_user_by_id_def rotate_session_def)
qed

text \<open>
  C27. When a replay races with a rotation the family survives: the statement that revokes the family
  began before the rotation inserted its session, so that session stays live and can be refreshed.
\<close>

theorem replay_race_leaves_session:
  assumes "auth_reach env s"
    and "find_session_by_digest (ae_digest env ta) s = Some a" and "rf_replaced_by a \<noteq> None"
    and "find_session_by_digest (ae_digest env tb) s = Some b" and "rf_family_id b = rf_family_id a"
    and "rf_revoked_at b = None" and "now \<le> rf_expires_at b"
    and "find_user_by_id (rf_user_id b) s = Some u" and "au_status u \<noteq> ''disabled''"
    and "sid \<notin> set (as_used s)" and "ae_digest env tc \<notin> set (as_digests s)"
    and "sid' \<notin> insert sid (set (as_used s))" and "ae_digest env td \<notin> insert (ae_digest env tc) (set (as_digests s))"
    and s1: "s1 = s\<lparr>as_replays := (map rf_id (ad_sessions s), rf_family_id a) # as_replays s\<rparr>"
    and s2: "s2 = refreshed env now tc sid tb s1"
    and s3: "s3 = revoke_seen (map rf_id (ad_sessions s)) (rf_family_id a) now s2"
  shows "auth_step env s s1 \<and> auth_step env s1 s2 \<and> auth_step env s2 s3
    \<and> (\<exists>c. find_session_by_digest (ae_digest env tc) s3 = Some c \<and> rf_family_id c = rf_family_id a \<and> rf_revoked_at c = None)
    \<and> (\<exists>p. fst (refresh env now td sid' tc s3) = Inr p)"
proof -
  have st1: "auth_step env s s1"
    unfolding s1 using assms(2,3) by (rule replay_begins)
  have r1: "auth_reach env s1"
    using assms(1) st1 by (rule auth_reach.step)
  have st2: "auth_step env s1 s2"
    using assms(10,11) unfolding s2 by (intro refreshed_step) (simp_all add: s1)
  have st3: "auth_step env s2 s3"
    unfolding s3 by (rule replay_ends) (simp add: s2 refreshed_def s1 refresh_def rotate_branch_def Let_def
        create_refresh_session_def rotate_session_def rolled_back_def revoke_family_def revoke_seen_def
        split: option.splits if_splits)
  have r3: "auth_reach env s3"
    using st2 st3 r1 by (blast intro: auth_reach.step)
  note inv = reach_inv [OF assms(1)] and inv1 = reach_inv [OF r1] and inv3 = reach_inv [OF r3]
  have b: "b \<in> set (ad_sessions s1)" "rf_token_digest b = ae_digest env tb"
    using assms(4) find_session [OF inv] by (simp_all add: s1)
  have u: "u \<in> set (ad_users s1)" "au_id u = rf_user_id b"
    using assms(8) find_user [OF inv] by (simp_all add: s1)
  let ?c = "next_session env now tc sid b"
  have ref: "refresh env now tc sid tb s1 = (Inr \<lparr>tp_access_token = access_token_of env now u,
      tp_refresh_token = tc, tp_expires_in = ACCESS_TOKEN_TTL_SECONDS\<rparr>,
      s1\<lparr>ad_sessions := sql_update (\<lambda>q. rf_id q = rf_id b) (rotated sid now) (ad_sessions s1 @ [?c])\<rparr>)"
    using assms(6,7,9,10,11) by (intro refresh_ok [OF inv1 b _ _ u]) (simp_all add: live_def s1)
  have ids: "sid \<notin> rf_id ` set (ad_sessions s)" "rf_id b \<noteq> sid"
    using auth_invD(6) [OF inv] assms(10) b(1) by (auto simp: s1)
  have s2': "ad_sessions s2 = sql_update (\<lambda>q. rf_id q = rf_id b) (rotated sid now) (ad_sessions s) @ [?c]"
      "ad_users s2 = ad_users s" "as_used s2 = sid # as_used s" "as_digests s2 = ae_digest env tc # as_digests s"
    unfolding s2 refreshed_def ref using ids(2) by (simp_all add: s1 sql_update_def)
  have c: "?c \<in> set (ad_sessions s3)"
    using ids(1) by (simp add: s3 revoke_seen_def s2' sql_update_def)
  have u3: "u \<in> set (ad_users s3)" "as_used s3 = sid # as_used s" "as_digests s3 = ae_digest env tc # as_digests s"
    using u(1) by (simp_all add: s3 revoke_seen_def s2' s1)
  have "\<exists>p. fst (refresh env now td sid' tc s3) = Inr p"
    using assms(9,12,13) u3 u(2)
    by (subst refresh_ok [OF inv3 c, where u = u]) (simp_all add: REFRESH_TOKEN_TTL_def)
  moreover have "find_session_by_digest (ae_digest env tc) s3 = Some ?c"
    using c by (simp add: find_session [OF inv3])
  ultimately show ?thesis
    using st1 st2 st3 assms(5) by auto
qed

section \<open>Access tokens\<close>

text \<open>The user rows after an operation on one user.\<close>

lemma find_write:
  assumes "\<And>u. au_id (f u) = au_id u" and "ad_users t = ad_users (write_user uid f s)"
  shows "find_user_by_id k t = map_option (\<lambda>u. if au_id u = uid then f u else u) (find_user_by_id k s)"
proof -
  have keeps: "row_update au_id f"
    by unfold_locales (rule assms(1))
  show ?thesis
    unfolding find_user_by_id_def assms(2) by (simp add: write_user_def row_update.find_update [OF keeps])
qed

lemma audited_ok:
  fixes s t :: auth_sys
  assumes "fst (audited sx actor action rtype rid payload res s t) = Inr x"
  shows "x = res \<and> (\<exists>es. snd (audited sx actor action rtype rid payload res s t) = t\<lparr>ad_audit := es\<rparr>)"
  by (cases rule: audited_cases [of sx actor action rtype rid payload res s t]) (use assms in auto)

lemma status_endpoint:
  fixes s :: auth_sys
  assumes "fst (update_user_status_endpoint now vis cu uid st s) = Inr x"
  shows "ad_users (snd (update_user_status_endpoint now vis cu uid st s)) = ad_users (write_user uid (user_status_values now st) s)
    \<and> ad_sessions (snd (update_user_status_endpoint now vis cu uid st s)) = ad_sessions s"
proof -
  let ?sx = "make_service vis cu"
  have ok: "update_user_status_endpoint now vis cu uid st s = gov_update_user_status ?sx now uid st s"
    using assms by (auto simp: update_user_status_endpoint_def split: sum.splits)
  then obtain u where u: "find_user_by_id uid s = Some u"
    using assms by (auto simp: gov_update_user_status_def split: option.splits)
  then show ?thesis
    using assms audited_ok [of ?sx "actor_or ?sx uid" "''governance.user.update_status''" "''app_user''" "Some uid"
        "[(''status'', JStr st)]" "user_status_values now st u" s "write_user uid (user_status_values now st) s" x]
    by (auto simp: ok gov_update_user_status_def write_user_def)
qed

text \<open>
  Disabling an account takes nothing away for good: the refresh that is refused meanwhile rolls back
  its own revocation of the family, and once the account is enabled again the old refresh token and
  the old access token work as before.
\<close>

theorem disabling_is_undone:
  fixes cu :: api_user
  assumes "auth_reach env s" and "jwt_works env"
    and "find_user_by_id uid s = Some u" and "uid < 2 ^ 128"
    and "find_session_by_digest (ae_digest env token) s = Some r" and "rf_user_id r = uid"
    and "rf_revoked_at r = None" and "now \<le> rf_expires_at r" and "now < t0 + ACCESS_TOKEN_TTL_SECONDS"
    and "sid \<notin> set (as_used s)" and "ae_digest env tok \<notin> set (as_digests s)"
    and "update_user_status_endpoint now vis cu uid ''disabled'' s = (Inr x, s1)"
    and "update_user_status_endpoint now vis cu uid ''active'' s1 = (Inr y, s2)"
  shows "refresh env now tok sid token s1 = (Inl (app_fail ''forbidden'' []), s1)
    \<and> (\<exists>p. fst (refresh env now tok sid token s2) = Inr p)
    \<and> (\<exists>me. get_current_user env now (Some (''Bearer '' @ access_token_of env t0 u)) s2 = Inr me \<and> cu_user_id me = uid)"
proof -
  have st1: "auth_step env s s1" and st2: "auth_step env s1 s2"
    using status_step [of env s now vis cu uid "''disabled''"] status_step [of env s1 now vis cu uid "''active''"] assms(12,13)
    by simp_all
  have r1: "auth_reach env s1" and r2: "auth_reach env s2"
    using assms(1) st1 st2 by (blast intro: auth_reach.step)+
  note inv = reach_inv [OF assms(1)] and inv1 = reach_inv [OF r1] and inv2 = reach_inv [OF r2]
  have e1: "ad_users s1 = ad_users (write_user uid (user_status_values now ''disabled'') s)" "ad_sessions s1 = ad_sessions s"
    using status_endpoint [of now vis cu uid "''disabled''" s] assms(12) by simp_all
  have e2: "ad_users s2 = ad_users (write_user uid (user_status_values now ''active'') s1)" "ad_sessions s2 = ad_sessions s1"
    using status_endpoint [of now vis cu uid "''active''" s1] assms(13) by simp_all
  have hist: "as_used s1 = as_used s" "as_digests s1 = as_digests s" "as_used s2 = as_used s" "as_digests s2 = as_digests s"
    using soft_endpoints(4) [of env s now vis cu uid "''disabled''"] soft_endpoints(4) [of env s1 now vis cu uid "''active''"]
      assms(12,13) by (auto simp: soft_change_def)
  have id: "au_id u = uid"
    using assms(3) find_user [OF inv] by blast
  have u1: "find_user_by_id uid s1 = Some (user_status_values now ''disabled'' u)"
    using find_write [OF _ e1(1), of uid] assms(3) id by simp
  then have u2: "find_user_by_id uid s2 = Some (user_status_values now ''active'' (user_status_values now ''disabled'' u))"
    using find_write [OF _ e2(1), of uid] id by simp
  have rs: "r \<in> set (ad_sessions s)" "rf_token_digest r = ae_digest env token"
    using assms(5) find_session [OF inv] by blast+
  have rep: "rf_replaced_by r = None"
    using family_invD(3) [OF auth_invD(10) [OF inv] rs(1)] assms(7) by (cases "rf_replaced_by r") (auto simp: live_def)
  have "find_session_by_digest (ae_digest env token) s1 = Some r"
    using rs by (simp add: find_session [OF inv1] e1(2))
  moreover have "sid \<notin> rf_id ` set (ad_sessions s1)" "ae_digest env tok \<notin> rf_token_digest ` set (ad_sessions s1)"
    using auth_invD(6,8) [OF inv] assms(10,11) e1(2) by auto
  moreover have "rf_user_id r \<in> au_id ` set (ad_users s1)"
    using u1 find_user [OF inv1] assms(6) by force
  ultimately have forb: "refresh env now tok sid token s1 = (Inl (app_fail ''forbidden'' []), s1)"
    using rep assms(6-8) u1
    by (simp add: refresh_def rotate_branch_def create_refresh_session_def find_user_by_id_def rotate_session_def rolled_back_def)
  have "\<exists>p. fst (refresh env now tok sid token s2) = Inr p"
    using rs assms(6-8,10,11) u2 find_user [OF inv2, of uid]
    by (subst refresh_ok [OF inv2, of r _ _ "user_status_values now ''active'' (user_status_values now ''disabled'' u)"])
      (auto simp: e1(2) e2(2) hist live_def)
  moreover have "\<exists>me. get_current_user env now (Some (''Bearer '' @ access_token_of env t0 u)) s2 = Inr me
      \<and> cu_user_id me = au_id u \<and> cu_roles me = au_roles u"
    using assms(2,4,9) id u2
    by (intro token_accepted [where u = "user_status_values now ''active'' (user_status_values now ''disabled'' u)"])
      (simp_all add: jwt_works_def access_token_of_def create_access_token_def)
  ultimately show ?thesis
    using forb id by auto
qed

text \<open>The three operations that raise the version of an account.\<close>

definition ends_tokens :: "auth_env \<Rightarrow> uuid \<Rightarrow> auth_sys \<Rightarrow> auth_sys \<Rightarrow> bool" where
  "ends_tokens env uid s t \<longleftrightarrow>
     (\<exists>now salt old new. change_password env now salt uid old new s = (Inr (), t)) \<or>
     (\<exists>now. disable_user now uid s = (Inr (), t)) \<or>
     (\<exists>now (cu :: api_user) email password. cu_user_id cu = uid \<and>
        delete_account_endpoint env now cu email password s = (Inr (), t))"

lemma ends_tokens_version:
  assumes "auth_reach env s" and "ends_tokens env uid s t" and "find_user_by_id uid s = Some u"
  shows "auth_step env s t \<and> (\<exists>u'. find_user_by_id uid t = Some u' \<and> au_token_version u' = au_token_version u + 1)"
proof -
  have id: "au_id u = uid"
    using assms(3) find_user [OF reach_inv [OF assms(1)]] by blast
  from assms(2) consider
      (pw) now salt old new where "change_password env now salt uid old new s = (Inr (), t)"
    | (dis) now where "disable_user now uid s = (Inr (), t)"
    | (del) now and cu :: api_user and email password where "cu_user_id cu = uid"
        "delete_account_endpoint env now cu email password s = (Inr (), t)"
    unfolding ends_tokens_def by blast
  then show ?thesis
  proof cases
    case pw
    then have "ad_users t = ad_users (write_user uid (password_values now (ae_hash env salt new)) s)"
      using assms(3) by (auto simp: change_password_def split: if_splits)
    then have "find_user_by_id uid t = Some (password_values now (ae_hash env salt new) u)"
      using find_write [of "password_values now (ae_hash env salt new)" t uid s uid] assms(3) id by simp
    then show ?thesis
      using password_step [of env s now salt uid old new] pw by simp
  next
    case dis
    then have "ad_users t = ad_users (write_user uid (disabled_values now) s)"
      using assms(3) by (auto simp: disable_user_def revoke_family_by_user_def Let_def write_user_def)
    then have "find_user_by_id uid t = Some (disabled_values now u)"
      using find_write [of "disabled_values now" t uid s uid] assms(3) id by simp
    then show ?thesis
      using disable_step [of env s now uid] dis by simp
  next
    case del
    then have "ad_users t = ad_users (write_user uid (deleted_values now) s)"
      using assms(3) by (auto simp: delete_account_endpoint_def get_user_by_id_def delete_account_def split: if_splits)
    then have "find_user_by_id uid t = Some (deleted_values now u)"
      using find_write [of "deleted_values now" t uid s uid] assms(3) id by simp
    then show ?thesis
      using delete_account_step [of env s now cu email password] del by simp
  qed
qed


text \<open>
  A change of the password or the deletion of the account does not end the sessions: the refresh
  token still gives a new access token, which is accepted.
\<close>

theorem refresh_outlives_account:
  assumes "auth_reach env s" and "jwt_works env" and "find_user_by_id uid s = Some u" and "uid < 2 ^ 128"
    and "au_status u \<noteq> ''disabled''"
    and "find_session_by_digest (ae_digest env token) s = Some r" and "rf_user_id r = uid"
    and "rf_revoked_at r = None" and "now \<le> rf_expires_at r"
    and "change_password env t0 salt uid old new s = (Inr (), t)
      \<or> (cu_user_id cu = uid \<and> delete_account_endpoint env t0 (cu :: api_user) email password s = (Inr (), t))"
    and "sid \<notin> set (as_used s)" and "ae_digest env tok \<notin> set (as_digests s)"
  shows "\<exists>p me. fst (refresh env now tok sid token t) = Inr p \<and>
    get_current_user env now (Some (''Bearer '' @ tp_access_token p)) (refreshed env now tok sid token t) = Inr me
    \<and> cu_user_id me = uid \<and> cu_roles me = au_roles u"
proof -
  note inv = reach_inv [OF assms(1)]
  have id: "au_id u = uid"
    using assms(3) find_user [OF inv] by blast
  have "\<exists>f. ad_users t = ad_users (write_user uid f s) \<and> ad_sessions t = ad_sessions s \<and> as_used t = as_used s
      \<and> as_digests t = as_digests s \<and> (\<forall>u. au_id (f u) = au_id u) \<and> au_status (f u) \<noteq> ''disabled'' \<and> au_roles (f u) = au_roles u"
    using assms(10)
  proof
    assume "change_password env t0 salt uid old new s = (Inr (), t)"
    then have "t = write_user uid (password_values t0 (ae_hash env salt new)) s"
      using assms(3) by (auto simp: change_password_def split: if_splits)
    then show ?thesis
      using assms(5) by (intro exI [of _ "password_values t0 (ae_hash env salt new)"]) (simp add: write_user_def)
  next
    assume "cu_user_id cu = uid \<and> delete_account_endpoint env t0 cu email password s = (Inr (), t)"
    then have "t = write_user uid (deleted_values t0) s"
      using assms(3) by (auto simp: delete_account_endpoint_def get_user_by_id_def delete_account_def split: if_splits)
    then show ?thesis
      by (intro exI [of _ "deleted_values t0"]) (simp add: write_user_def)
  qed
  then obtain f where f: "ad_users t = ad_users (write_user uid f s)" "ad_sessions t = ad_sessions s"
      "as_used t = as_used s" "as_digests t = as_digests s" "\<And>u. au_id (f u) = au_id u"
      "au_status (f u) \<noteq> ''disabled''" "au_roles (f u) = au_roles u"
    by blast
  have "ends_tokens env uid s t"
    using assms(10) unfolding ends_tokens_def by blast
  then have "auth_step env s t"
    using ends_tokens_version [OF assms(1) _ assms(3)] by blast
  then have invt: "auth_inv env t"
    using reach_inv auth_reach.step [OF assms(1)] by blast
  have ut: "find_user_by_id uid t = Some (f u)"
    using find_write [OF f(5,1), of uid] assms(3) id by simp
  have r: "r \<in> set (ad_sessions t)" "rf_token_digest r = ae_digest env token"
    using assms(6) find_session [OF inv] by (simp_all add: f(2))
  have ok: "refresh env now tok sid token t = (Inr \<lparr>tp_access_token = access_token_of env now (f u),
      tp_refresh_token = tok, tp_expires_in = ACCESS_TOKEN_TTL_SECONDS\<rparr>,
      t\<lparr>ad_sessions := sql_update (\<lambda>q. rf_id q = rf_id r) (rotated sid now)
        (ad_sessions t @ [next_session env now tok sid r])\<rparr>)"
    using r assms(7-9,11,12) f(6) ut find_user [OF invt, of uid]
    by (intro refresh_ok [OF invt, of r]) (auto simp: f(3,4) live_def)
  have "\<exists>me. get_current_user env now (Some (''Bearer '' @ access_token_of env now (f u))) (refreshed env now tok sid token t) = Inr me
      \<and> cu_user_id me = au_id (f u) \<and> cu_roles me = au_roles (f u)"
    using assms(2,4) ut f(6) id f(5) [of u]
    by (intro token_accepted [where u = "f u"])
      (simp_all add: jwt_works_def access_token_of_def create_access_token_def refreshed_def ok find_user_by_id_def
        ACCESS_TOKEN_TTL_SECONDS_def)
  then show ?thesis
    using ok id f(5) [of u] f(7) by auto
qed

lemma remove_endpoint:
  fixes s :: auth_sys
  assumes "remove_role_endpoint now vis cu uid role s = (Inr x, t)"
  shows "ad_users t = ad_users (write_user uid (roles_values now (filter (\<lambda>r. r \<noteq> role))) s)"
proof -
  let ?sx = "make_service vis cu" and ?f = "filter (\<lambda>r. r \<noteq> role)"
  have ok: "gov_remove_role ?sx now uid role s = (Inr x, t)"
    using assms by (auto simp: remove_role_endpoint_def split: sum.splits)
  then obtain u where u: "find_user_by_id uid s = Some u"
    by (auto simp: gov_remove_role_def split: option.splits)
  then show ?thesis
    using ok audited_ok [of ?sx "actor_or ?sx uid" "''governance.user.remove_role''" "''app_user''" "Some uid"
        "[(''role_removed'', JStr role), (''roles_after'', JArr (map JStr (?f (au_roles u))))]"
        "roles_values now ?f u" s "write_user uid (roles_values now ?f) s" x]
    by (auto simp: gov_remove_role_def write_user_def Let_def)
qed


section \<open>Administration\<close>

lemma checks_Inr: "checks (c # cs) = Inr x \<longleftrightarrow> c = Inr () \<and> checks cs = Inr x"
  by (cases c) auto

lemma ensure_Inr [simp]: "ensure b e = Inr x \<longleftrightarrow> b"
  by (simp add: ensure_def)

lemma assignable_Inr:
  "\<not> is_platform_admin cu \<Longrightarrow> validate_assignable_roles cu roles = Inr x \<Longrightarrow> set roles \<subseteq> {''lab_member'', ''lab_viewer''}"
  by (auto simp: validate_assignable_roles_def get_assignable_roles_def find_None_iff split: option.splits)

text \<open>What an operation on one user leaves of the rows.\<close>

lemma written_rows:
  assumes "auth_inv env s" and "find_user_by_id uid s = Some u0"
    and "u' \<in> set (ad_users (write_user uid f s))"
  shows "u' = f u0 \<or> (u' \<in> set (ad_users s) \<and> au_id u' \<noteq> uid)"
proof -
  obtain u where u: "u \<in> set (ad_users s)" "u' = (if au_id u = uid then f u else u)"
    using assms(3) by (auto simp: write_user_def elim: in_sql_updateE)
  show ?thesis
  proof (cases "au_id u = uid")
    case True
    then have "u = u0"
      using assms(2) u(1) unique_rows_eq [OF auth_invD(1) [OF assms(1)], of u u0]
      unfolding find_user [OF assms(1)] by simp
    then show ?thesis
      using True u(2) by simp
  qed (use u in simp)
qed

lemma audited_users:
  fixes s t :: auth_sys
  shows "ad_users (snd (audited sx actor action rtype rid payload res s t)) \<in> {ad_users s, ad_users t}"
  by (cases rule: audited_cases [of sx actor action rtype rid payload res s t]) auto

lemma update_endpoint_users:
  fixes s :: auth_sys
  assumes "\<not> is_platform_admin cu"
    and "ad_users (snd (update_user_endpoint env salt vis cu uid b s)) \<noteq> ad_users s"
  shows "\<exists>u0 d. find_user_by_id uid s = Some u0 \<and> cu_department_id cu = Some (au_department_id u0)
    \<and> ad_users (snd (update_user_endpoint env salt vis cu uid b s)) = ad_users (write_user uid (update_values env salt b d) s)
    \<and> (case up_roles b of None \<Rightarrow> True | Some rs \<Rightarrow> set rs \<subseteq> {''lab_member'', ''lab_viewer''})
    \<and> (uid = cu_user_id cu \<longrightarrow> up_roles b = None \<and> d = None)"
proof -
  let ?sx = "make_service vis cu"
  let ?cs = "checks [require_permission ''role:assign'' cu,
        (case up_roles b of None \<Rightarrow> Inr () | Some rs \<Rightarrow>
           checks [validate_role_codes rs, if is_platform_admin cu then Inr () else validate_assignable_roles cu rs]),
        ensure (\<not> (uid = cu_user_id cu \<and> (up_department_id b \<noteq> None \<or> up_roles b \<noteq> None))) (app_fail ''forbidden'' []),
        same_department uid cu s]"
  obtain x where x: "?cs = Inr x"
    using assms(2) by (auto simp: update_user_endpoint_def split: sum.splits)
  then have e: "update_user_endpoint env salt vis cu uid b s = gov_update_user env ?sx salt uid b s"
    by (simp add: update_user_endpoint_def)
  have self: "uid = cu_user_id cu \<longrightarrow> up_department_id b = None \<and> up_roles b = None"
    and same: "same_department uid cu s = Inr ()"
    and roles: "case up_roles b of None \<Rightarrow> True | Some rs \<Rightarrow> validate_assignable_roles cu rs = Inr ()"
    using x assms(1) by (auto simp: checks_Inr split: option.splits)
  obtain u0 where u0: "find_user_by_id uid s = Some u0"
    using assms(2) unfolding e by (auto simp: gov_update_user_def split: option.splits)
  let ?m = "map_option uuid_parse (up_department_id b)"
  let ?d = "Option.bind ?m id"
  have m: "?m \<noteq> Some None"
  proof
    assume "?m = Some None"
    then have "snd (gov_update_user env ?sx salt uid b s) = s"
      unfolding gov_update_user_def u0 by (cases "up_department_id b") auto
    then show False
      using assms(2) e by simp
  qed
  have "gov_update_user env ?sx salt uid b s =
      (if (case ?d of None \<Rightarrow> False | Some x \<Rightarrow> x \<notin> dept_ids s) then (Inl DDatabase, rolled_back s (write_user uid (update_values env salt b ?d) s))
       else audited ?sx (actor_or ?sx uid) ''user.update'' ''user'' (Some uid) (update_payload b)
         (update_values env salt b ?d u0) s (write_user uid (update_values env salt b ?d) s))"
    using m unfolding gov_update_user_def u0 by (cases ?m) (auto simp: Let_def split: option.split)
  then have us: "ad_users (snd (update_user_endpoint env salt vis cu uid b s)) = ad_users (write_user uid (update_values env salt b ?d) s)"
    using assms(2) audited_users [of ?sx "actor_or ?sx uid" "''user.update''" "''user''" "Some uid" "update_payload b"
        "update_values env salt b ?d u0" s "write_user uid (update_values env salt b ?d) s"]
    unfolding e by (auto simp: rolled_back_def split: if_splits)
  have "case up_roles b of None \<Rightarrow> True | Some rs \<Rightarrow> set rs \<subseteq> {''lab_member'', ''lab_viewer''}"
    using roles assignable_Inr [OF assms(1)] by (auto split: option.splits)
  moreover have "cu_department_id cu = Some (au_department_id u0)"
    using same assms(1) u0 by (simp add: same_department_def)
  moreover have "uid = cu_user_id cu \<longrightarrow> up_roles b = None \<and> ?d = None"
    using self by auto
  ultimately show ?thesis
    using u0 us by blast
qed

lemma roles_endpoint_users:
  fixes s :: auth_sys
  assumes "\<not> is_platform_admin cu"
    and t: "t = snd (assign_roles_endpoint now vis cu uid roles s) \<or> t = snd (remove_role_endpoint now vis cu uid role s)"
    and "ad_users t \<noteq> ad_users s"
  shows "\<exists>u0 f. find_user_by_id uid s = Some u0 \<and> cu_department_id cu = Some (au_department_id u0)
    \<and> ad_users t = ad_users (write_user uid (roles_values now f) s) \<and> uid \<noteq> cu_user_id cu
    \<and> (\<forall>old. set (f old) \<subseteq> set old \<union> {''lab_member'', ''lab_viewer''})"
proof -
  let ?sx = "make_service vis cu"
  obtain u0 where u0: "find_user_by_id uid s = Some u0"
    using t assms(3)
    by (cases "find_user_by_id uid s") (auto simp: assign_roles_endpoint_def remove_role_endpoint_def gov_assign_roles_def
        gov_remove_role_def split: sum.splits)
  from t show ?thesis
  proof
    assume ta: "t = snd (assign_roles_endpoint now vis cu uid roles s)"
    then obtain x where x: "checks [require_permission ''role:assign'' cu, validate_role_codes roles,
        if is_platform_admin cu then Inr () else validate_assignable_roles cu roles,
        assert_not_self_modifying_roles uid cu, same_department uid cu s] = Inr x"
      using assms(3) by (auto simp: assign_roles_endpoint_def split: sum.splits)
    then have g: "t = snd (gov_assign_roles ?sx now uid roles s)"
      using ta by (simp add: assign_roles_endpoint_def)
    let ?f = "\<lambda>old. merged_roles old roles"
    have "ad_users t = ad_users (write_user uid (roles_values now ?f) s)"
      using assms(3) u0 audited_users [of ?sx "actor_or ?sx uid" "''governance.user.assign_roles''" "''app_user''" "Some uid"
          "[(''roles_added'', JArr (map JStr roles)), (''roles_after'', JArr (map JStr (?f (au_roles u0))))]"
          "roles_values now ?f u0" s "write_user uid (roles_values now ?f) s"]
      by (auto simp: g gov_assign_roles_def Let_def)
    moreover have "set roles \<subseteq> {''lab_member'', ''lab_viewer''}" "uid \<noteq> cu_user_id cu" "same_department uid cu s = Inr ()"
      using x assms(1) assignable_Inr [OF assms(1), of roles "()"]
      by (auto simp: checks_Inr assert_not_self_modifying_roles_def)
    ultimately show ?thesis
      using u0 assms(1) by (intro exI [of _ u0] exI [of _ ?f]) (auto simp: same_department_def merged_roles_def)
  next
    assume ta: "t = snd (remove_role_endpoint now vis cu uid role s)"
    then obtain x where x: "checks [require_permission ''role:assign'' cu,
        if is_platform_admin cu then Inr () else validate_assignable_roles cu [role],
        assert_not_self_modifying_roles uid cu, same_department uid cu s] = Inr x"
      using assms(3) by (auto simp: remove_role_endpoint_def split: sum.splits)
    then have g: "t = snd (gov_remove_role ?sx now uid role s)"
      using ta by (simp add: remove_role_endpoint_def)
    let ?f = "filter (\<lambda>r. r \<noteq> role)"
    have "ad_users t = ad_users (write_user uid (roles_values now ?f) s)"
      using assms(3) u0 audited_users [of ?sx "actor_or ?sx uid" "''governance.user.remove_role''" "''app_user''" "Some uid"
          "[(''role_removed'', JStr role), (''roles_after'', JArr (map JStr (?f (au_roles u0))))]"
          "roles_values now ?f u0" s "write_user uid (roles_values now ?f) s"]
      by (auto simp: g gov_remove_role_def Let_def)
    moreover have "uid \<noteq> cu_user_id cu" "same_department uid cu s = Inr ()"
      using x by (auto simp: checks_Inr assert_not_self_modifying_roles_def)
    ultimately show ?thesis
      using u0 assms(1) by (intro exI [of _ u0] exI [of _ ?f]) (auto simp: same_department_def)
  qed
qed


text \<open>A login that goes through.\<close>

lemma login_ok:
  assumes "auth_inv env s" and "u \<in> set (ad_users s)" and "ae_verify env (au_password_hash u) password"
    and "au_status u \<noteq> ''disabled''" and "sid \<notin> set (as_used s)" and "ae_digest env tok \<notin> set (as_digests s)"
  shows "\<exists>rs. login env now tok fam sid (au_email u) password ip agent s =
    (Inr \<lparr>tp_access_token = access_token_of env now u, tp_refresh_token = tok,
        tp_expires_in = ACCESS_TOKEN_TTL_SECONDS\<rparr>, s\<lparr>ad_sessions := rs\<rparr>)"
proof -
  have "find_user_by_email env (au_email u) s = Some u"
    unfolding find_user_by_email_def sql_find_Some_iff [OF auth_invD(2) [OF assms(1)]] using assms(2) by simp
  then have "authenticate env (au_email u) password s = Inr u"
    using assms(3,4) by (simp add: authenticate_def)
  moreover have "sid \<notin> rf_id ` set (ad_sessions s)" "ae_digest env tok \<notin> rf_token_digest ` set (ad_sessions s)"
    using auth_invD(6,8) [OF assms(1)] assms(5,6) by blast+
  ultimately show ?thesis
    using assms(2) by (auto simp: login_def create_refresh_session_def)
qed

text \<open>
  The director of a department can set the password of an administrator of the platform who belongs
  to the same department, log in as that administrator and manage users: the endpoint checks the
  department of the other account, not its roles.
\<close>

theorem director_takes_over_admin:
  fixes cu :: api_user
  assumes "auth_reach env s" and "jwt_works env" and "\<forall>salt p. ae_verify env (ae_hash env salt p) p"
    and "cu_roles cu = [''lab_director'']" and "cu_department_id cu = Some (au_department_id u)"
    and "find_user_by_id uid s = Some u" and "''platform_administrator'' \<in> set (au_roles u)"
    and "au_status u \<noteq> ''disabled''" and "uid < 2 ^ 128"
    and "au_department_id u \<in> set vis" and "au_department_id u \<in> dept_ids s"
    and "sid \<notin> set (as_used s)" and "ae_digest env tok \<notin> set (as_digests s)"
    and b: "b = \<lparr>up_display_name = None, up_password = Some pw, up_roles = None, up_department_id = None\<rparr>"
  shows "\<exists>x t p w me. update_user_endpoint env salt vis cu uid b s = (Inr x, t)
    \<and> login env now tok fam sid (au_email u) pw None None t = (Inr p, w)
    \<and> get_current_user env now (Some (''Bearer '' @ tp_access_token p)) w = Inr me
    \<and> cu_user_id me = uid \<and> require_permission ''user:manage'' me = Inr ()"
proof -
  note inv = reach_inv [OF assms(1)]
  let ?sx = "make_service vis cu" and ?u = "update_values env salt b None u"
  let ?w = "write_user uid (update_values env salt b None) s"
  have u: "u \<in> set (ad_users s)" "au_id u = uid"
    using assms(6) unfolding find_user [OF inv] by auto
  have perm: "require_permission ''role:assign'' cu = Inr ()"
    unfolding require_permission_iff assms(4)
    by (simp add: has_role_permission_def get_role_permissions_def BUILTIN_ROLES_def DIRECTOR_PERMISSIONS_def)
  have na: "\<not> is_platform_admin cu"
    by (simp add: is_platform_admin_def assms(4))
  have aud: "\<exists>es. record_audit ?sx (Some (sx_dept ?sx)) (actor_or ?sx uid) ''user.update'' ''user'' (Some uid)
      (update_payload b) ?w = Inr (?w\<lparr>ad_audit := es\<rparr>)"
    using assms(5,10,11) by (auto simp: record_audit_def make_service_def sees_b_def policy_b_def dept_ids_def write_user_def Let_def)
  then obtain es where "audited ?sx (actor_or ?sx uid) ''user.update'' ''user'' (Some uid) (update_payload b) ?u s ?w
      = (Inr ?u, ?w\<lparr>ad_audit := es\<rparr>)"
    by (auto simp: audited_def)
  then have up: "update_user_endpoint env salt vis cu uid b s = (Inr ?u, ?w\<lparr>ad_audit := es\<rparr>)"
    using perm na assms(5,6) by (simp add: update_user_endpoint_def b same_department_def gov_update_user_def Let_def ensure_def)
  let ?t = "?w\<lparr>ad_audit := es\<rparr>"
  have "auth_step env s ?t"
    using update_user_step [of env s salt vis cu uid b] up by simp
  then have rt: "auth_inv env ?t"
    using reach_inv auth_reach.step [OF assms(1)] by blast
  have ut: "find_user_by_id uid ?t = Some ?u"
    using find_write [of "update_values env salt b None" ?t uid s uid] assms(6) u(2) by simp
  then have mem: "?u \<in> set (ad_users ?t)"
    unfolding find_user [OF rt] by blast
  obtain rs where lg: "login env now tok fam sid (au_email u) pw None None ?t =
      (Inr \<lparr>tp_access_token = access_token_of env now ?u, tp_refresh_token = tok,
        tp_expires_in = ACCESS_TOKEN_TTL_SECONDS\<rparr>, ?t\<lparr>ad_sessions := rs\<rparr>)"
    using login_ok [OF rt mem, of pw sid tok now fam None None] assms(3,8,12,13)
    by (auto simp: update_values_def b write_user_def)
  have "\<exists>me. get_current_user env now (Some (''Bearer '' @ access_token_of env now ?u)) (?t\<lparr>ad_sessions := rs\<rparr>) = Inr me
      \<and> cu_user_id me = au_id ?u \<and> cu_roles me = au_roles ?u"
    using assms(2,8,9) ut u(2)
    by (intro token_accepted [where u = ?u])
      (simp_all add: jwt_works_def access_token_of_def create_access_token_def ACCESS_TOKEN_TTL_SECONDS_def find_user_by_id_def)
  then obtain me where me: "get_current_user env now (Some (''Bearer '' @ access_token_of env now ?u)) (?t\<lparr>ad_sessions := rs\<rparr>) = Inr me"
      "cu_user_id me = uid" "cu_roles me = au_roles u"
    using u(2) by (auto simp: update_values_def b)
  have "has_role_permission ''platform_administrator'' ''user:manage''"
    by (simp add: has_role_permission_def get_role_permissions_def BUILTIN_ROLES_def ALL_PERMISSIONS_def)
  then have "require_permission ''user:manage'' me = Inr ()"
    unfolding require_permission_iff me(3) using assms(7) by blast
  then show ?thesis
    using up lg me(1,2) by auto
qed

text \<open>
  A director created without a department has no membership, so no department is visible to them and
  the list of users, which treats the empty list as no restriction, shows the users of every department.
\<close>

theorem unplaced_director_lists_everyone:
  fixes cu :: api_user and s :: auth_sys
  assumes "create_user_endpoint env now salt uid vis adm email name pw [''lab_director''] None admin_dept s = (Inr u, t)"
    and "uid \<notin> ud_user_id ` set (dd_members (ad_depts s))"
    and "cu_user_id cu = uid" and "cu_roles cu = au_roles u" and "cu_department_id cu = Some (au_department_id u)"
    and "length (ad_users t) \<le> limit"
  shows "\<exists>page. list_users_endpoint cu None None limit t = Some (Inr (page, False, None))
    \<and> set page = {v \<in> set (ad_users t). set (au_roles v) \<inter> set PLATFORM_ROLES = {}}"
proof -
  let ?sx = "make_service vis adm"
  let ?g = "gov_create_user env ?sx now salt uid email name pw [''lab_director''] None admin_dept s"
  have g: "?g = (Inr u, t)"
    using assms(1) by (auto simp: create_user_endpoint_def split: sum.splits)
  let ?p = "[(''email'', JStr email), (''display_name'', JStr name), (''roles'', JArr (map JStr [''lab_director'']))]"
  let ?w = "\<lparr>au_id = uid, au_email = email, au_display_name = name, au_password_hash = ae_hash env salt pw,
      au_status = ''active'', au_created_at = now, au_updated_at = now, au_lock_version = 0,
      au_roles = [''lab_director''], au_department_id = admin_dept, au_token_version = 0, au_avatar_url = None\<rparr>"
  have "?g = (if find_user_by_email env email s \<noteq> None then (Inl (app_fail ''conflict'' [(''email'', JStr email)]), s)
      else if uid \<in> au_id ` set (ad_users s) \<or> admin_dept \<notin> dept_ids s then (Inl DDatabase, s)
      else audited ?sx (actor_or ?sx uid) ''user.create'' ''user'' (Some uid) ?p ?w s (s\<lparr>ad_users := ad_users s @ [?w]\<rparr>))"
    by (simp add: gov_create_user_def Let_def)
  then have "audited ?sx (actor_or ?sx uid) ''user.create'' ''user'' (Some uid) ?p ?w s (s\<lparr>ad_users := ad_users s @ [?w]\<rparr>) = (Inr u, t)"
    using g by (auto split: if_splits)
  then have t: "dd_members (ad_depts t) = dd_members (ad_depts s) \<and> au_roles u = [''lab_director'']"
    using audited_ok [of ?sx "actor_or ?sx uid" "''user.create''" "''user''" "Some uid" ?p ?w s "s\<lparr>ad_users := ad_users s @ [?w]\<rparr>" u]
    by auto
  have "user_depts uid (ad_depts t) = []"
    using assms(2) t by (force simp: user_depts_def filter_empty_conv)
  then have vis: "get_visible_department_ids (current_user.truncate cu) (ad_depts t) = Some []"
    using assms(3-5) t
    by (simp add: get_visible_department_ids_def current_user.truncate_def should_filter_by_department_def
        current_visible_dept_ids_def with_recursive.simps [of _ "[]"] Let_def List.map_filter_def)
  have perm: "require_permission ''role:assign'' cu = Inr ()"
    using t assms(4) unfolding require_permission_iff
    by (simp add: has_role_permission_def get_role_permissions_def BUILTIN_ROLES_def DIRECTOR_PERMISSIONS_def)
  have ep: "list_users_endpoint cu None None limit t = Some (Inr (gov_list_users None None limit (Some []) True t))"
    using perm vis t assms(4,5) by (simp add: list_users_endpoint_def is_lab_director_def is_platform_admin_def)
  let ?rows = "filter (\<lambda>v. \<forall>r\<in>set (au_roles v). r \<notin> set PLATFORM_ROLES) (sort_key (\<lambda>u. - au_created_at u) (ad_users t))"
  have len: "length ?rows \<le> limit"
    by (rule le_trans [OF length_filter_le]) (simp add: assms(6))
  have "gov_list_users None None limit (Some []) True t = (?rows, False, None)"
    using assms(6) len by (simp add: gov_list_users_def Let_def)
  moreover have "set ?rows = {v \<in> set (ad_users t). set (au_roles v) \<inter> set PLATFORM_ROLES = {}}"
    by auto
  ultimately show ?thesis
    using ep by simp
qed

end
