(* ===== verification/AuthDemo.thy ===== *)
theory AuthDemo imports AuthTheorems "HOL-Library.Countable" begin

text \<open>
  A small organisation on which the theorems about accounts are applied: an administrator of the
  platform, a director and a member of one department. The member has logged in and refreshed once, so
  there is a replaced session with token \<open>a\<close> and a live one with token \<open>b\<close>. Tokens are coded by
  numbering the payloads.
\<close>

section \<open>An environment\<close>

instance pyfloat :: countable
  by countable_datatype

instance json :: countable
  by countable_datatype

definition demo_env :: auth_env where
  "demo_env = \<lparr>ae_verify = (\<lambda>h p. h = p), ae_hash = (\<lambda>salt p. p), ae_digest = (\<lambda>t. t),
     ae_encode = (\<lambda>p. replicate (to_nat p) (CHR ''.'')),
     ae_decode = (\<lambda>now t. let p = from_nat (length t) in
       if (case claim p ''exp'' JNull of JInt e \<Rightarrow> now < e | _ \<Rightarrow> True) then JwtOk p else JwtExpired),
     ae_fold = (\<lambda>e. e)\<rparr>"

lemma demo_env_simps [simp]:
  "ae_verify demo_env h p \<longleftrightarrow> h = p" "ae_hash demo_env salt p = p" "ae_digest demo_env t = t"
  "ae_fold demo_env e = e"
  by (simp_all add: demo_env_def)

lemma demo_honest: "jwt_honest demo_env"
  by (auto simp: jwt_honest_def demo_env_def Let_def)

lemma demo_works: "jwt_works demo_env"
  by (auto simp: jwt_works_def demo_env_def Let_def split: json.splits)

section \<open>States\<close>

definition demo_user :: "uuid \<Rightarrow> string \<Rightarrow> string list \<Rightarrow> app_user" where
  "demo_user uid email roles = \<lparr>au_id = uid, au_email = email, au_display_name = email, au_password_hash = ''pw'',
     au_status = ''active'', au_created_at = 0, au_updated_at = 0, au_lock_version = 0, au_roles = roles,
     au_department_id = 10, au_token_version = 0, au_avatar_url = None\<rparr>"

definition demo_users :: "app_user list" where
  "demo_users = [demo_user 4 ''admin@x'' [''platform_administrator''], demo_user 2 ''boss@x'' [''lab_director''],
     demo_user 3 ''member@x'' [''lab_member'']]"

definition demo_depts :: dept_db where
  "demo_depts = \<lparr>dd_departments = [\<lparr>dp_id = 10, dp_code = ''lab'', dp_display_name = ''lab'', dp_description = None,
       dp_status = ''active'', dp_sort_order = 0, dp_created_at = 0, dp_updated_at = 0, dp_lock_version = 0,
       dp_parent_id = None\<rparr>],
     dd_members = [\<lparr>ud_user_id = 2, ud_department_id = 10, ud_is_primary = True\<rparr>],
     dd_equipment = [], dd_referenced = []\<rparr>"

definition d0 :: auth_sys where
  "d0 = \<lparr>ad_users = demo_users, ad_sessions = [], ad_audit = [], ad_depts = demo_depts, ad_user_refs = [],
     as_used = [2, 3, 4], as_digests = [], as_replays = []\<rparr>"

definition sess_a :: refresh_session where
  "sess_a = \<lparr>rf_id = 101, rf_family_id = 100, rf_user_id = 3, rf_token_digest = ''a'', rf_issued_at = 0,
     rf_expires_at = REFRESH_TOKEN_TTL, rf_revoked_at = None, rf_replaced_by = None, rf_created_ip = None,
     rf_user_agent = None\<rparr>"

definition d1 :: auth_sys where
  "d1 = d0\<lparr>ad_sessions := [sess_a], as_used := [100, 101, 2, 3, 4], as_digests := [''a'']\<rparr>"

definition sess_b :: refresh_session where
  "sess_b = next_session demo_env 10 ''b'' 102 sess_a"

definition d2 :: auth_sys where
  "d2 = d1\<lparr>ad_sessions := [rotated 102 10 sess_a, sess_b], as_used := [102, 100, 101, 2, 3, 4],
     as_digests := [''b'', ''a'']\<rparr>"

definition demo_cu :: "uuid \<Rightarrow> string list \<Rightarrow> api_user" where
  "demo_cu uid roles = \<lparr>cu_user_id = uid, cu_department_id = Some 10, cu_roles = roles, cu_is_root_member = False,
     cu_email = []\<rparr>"

lemma demo_user_simps [simp]:
  "au_id (demo_user i e r) = i" "au_email (demo_user i e r) = e" "au_roles (demo_user i e r) = r"
  "au_status (demo_user i e r) = ''active''" "au_department_id (demo_user i e r) = 10"
  "au_password_hash (demo_user i e r) = ''pw''" "au_token_version (demo_user i e r) = 0"
  by (simp_all add: demo_user_def)

lemma demo_cu_simps [simp]:
  "cu_user_id (demo_cu i r) = i" "cu_roles (demo_cu i r) = r" "cu_department_id (demo_cu i r) = Some 10"
  by (simp_all add: demo_cu_def)

lemma sess_simps [simp]:
  "rf_id sess_a = 101" "rf_family_id sess_a = 100" "rf_user_id sess_a = 3" "rf_token_digest sess_a = ''a''"
  "rf_revoked_at sess_a = None" "rf_replaced_by sess_a = None" "rf_expires_at sess_a = REFRESH_TOKEN_TTL"
  "rf_id sess_b = 102" "rf_family_id sess_b = 100" "rf_user_id sess_b = 3" "rf_token_digest sess_b = ''b''"
  "rf_revoked_at sess_b = None" "rf_replaced_by sess_b = None" "rf_expires_at sess_b = 10 + REFRESH_TOKEN_TTL"
  by (simp_all add: sess_a_def sess_b_def)

lemma d_simps [simp]:
  "ad_users d0 = demo_users" "ad_users d1 = demo_users" "ad_users d2 = demo_users"
  "ad_depts d0 = demo_depts" "ad_depts d1 = demo_depts" "ad_depts d2 = demo_depts"
  "ad_sessions d0 = []" "ad_sessions d1 = [sess_a]" "ad_sessions d2 = [rotated 102 10 sess_a, sess_b]"
  "as_used d0 = [2, 3, 4]" "as_used d1 = [100, 101, 2, 3, 4]" "as_used d2 = [102, 100, 101, 2, 3, 4]"
  "as_digests d0 = []" "as_digests d1 = [''a'']" "as_digests d2 = [''b'', ''a'']" "as_replays d2 = []"
  by (simp_all add: d0_def d1_def d2_def)

lemma reach_d0: "auth_reach demo_env d0"
  by (rule auth_reach.init) (simp add: auth_init_def d0_def demo_users_def unique_rows_def)

lemma step_d1: "auth_step demo_env d0 d1"
proof -
  have l: "snd (login demo_env 0 ''a'' 100 101 ''member@x'' ''pw'' None None d0) = d0\<lparr>ad_sessions := [sess_a]\<rparr>"
    by (simp add: login_def authenticate_def find_user_by_email_def sql_find_def demo_users_def
        create_refresh_session_def sess_a_def)
  show ?thesis
    using login_step [of 100 d0 101 demo_env "''a''" _ 0 "''member@x''" "''pw''" None None, OF _ _ _ refl]
    unfolding l by (simp add: d1_def)
qed

lemma refresh_d1:
  "refresh demo_env 10 ''b'' 102 ''a'' d1 =
    (Inr \<lparr>tp_access_token = access_token_of demo_env 10 (demo_user 3 ''member@x'' [''lab_member'']),
        tp_refresh_token = ''b'', tp_expires_in = ACCESS_TOKEN_TTL_SECONDS\<rparr>,
     d1\<lparr>ad_sessions := [rotated 102 10 sess_a, sess_b]\<rparr>)"
  by (simp add: refresh_def find_session_by_digest_def sql_find_def REFRESH_TOKEN_TTL_def rotate_branch_def
      create_refresh_session_def demo_users_def rotate_session_def find_user_by_id_def sess_b_def [symmetric])

lemma d2_refreshed: "d2 = refreshed demo_env 10 ''b'' 102 ''a'' d1"
  by (simp add: refreshed_def refresh_d1 d2_def)

lemma reach_d1: "auth_reach demo_env d1"
  using reach_d0 step_d1 by (rule auth_reach.step)

lemma reach_d2: "auth_reach demo_env d2"
  unfolding d2_refreshed by (rule auth_reach.step [OF reach_d1 refreshed_step]) simp_all

lemma d2_finds:
  "find_session_by_digest ''a'' d2 = Some (rotated 102 10 sess_a)" "find_session_by_digest ''b'' d2 = Some sess_b"
  "find_user_by_id 3 d2 = Some (demo_user 3 ''member@x'' [''lab_member''])"
  "find_user_by_id 4 d2 = Some (demo_user 4 ''admin@x'' [''platform_administrator''])"
  by (simp_all add: find_session_by_digest_def find_user_by_id_def sql_find_def demo_users_def)

section \<open>The theorems applied\<close>

abbreviation "demo_member \<equiv> demo_user 3 ''member@x'' [''lab_member'']"
abbreviation "demo_admin \<equiv> demo_cu 4 [''platform_administrator'']"
abbreviation "demo_director \<equiv> demo_cu 2 [''lab_director'']"

lemma demo_perms:
  "require_permission ''user:manage'' demo_admin = Inr ()" "require_permission ''role:assign'' demo_director = Inr ()"
  by (simp_all add: require_permission_iff has_role_permission_def get_role_permissions_def BUILTIN_ROLES_def
      ALL_PERMISSIONS_def DIRECTOR_PERMISSIONS_def)

text \<open>An audit event of somebody who sees department 10 is written.\<close>

lemma demo_audited:
  assumes "sx_visible sx = [10]" and "sx_dept sx = 10" and "ad_depts t = demo_depts"
  shows "audited sx actor action rtype rid payload res s t =
    (Inr res, snd (audited sx actor action rtype rid payload res s t))"
  using assms by (simp add: audited_def record_audit_def sees_b_def policy_b_def demo_depts_def Let_def)

lemma demo_service [simp]:
  "sx_visible (make_service [10] (demo_cu i r)) = [10]" "sx_dept (make_service [10] (demo_cu i r)) = 10"
  by (simp_all add: make_service_def)

lemma demo_status:
  assumes "find_user_by_id 3 s = Some u" and "ad_depts s = demo_depts" and "st = ''active'' \<or> st = ''disabled''"
  shows "update_user_status_endpoint now [10] demo_admin 3 st s =
    (Inr (user_status_values now st u), snd (update_user_status_endpoint now [10] demo_admin 3 st s))"
  using assms
  by (subst (1 2) update_user_status_endpoint_def)
    (auto simp: demo_perms ensure_def gov_update_user_status_def write_user_def intro!: demo_audited)

theorem refresh_families_sound_witness:
  "auth_reach demo_env d2 \<and> rf_family_id (rotated 102 10 sess_a) = rf_family_id sess_b \<and>
    rf_user_id (rotated 102 10 sess_a) = rf_user_id sess_b \<and>
    (\<exists>r'\<in>set (ad_sessions d2). rf_id r' = 102 \<and> rf_family_id r' = 100)"
proof -
  note fam = refresh_families_sound [OF reach_d2]
  have "rf_user_id (rotated 102 10 sess_a) = rf_user_id sess_b"
    using fam by simp
  moreover have "\<exists>r'\<in>set (ad_sessions d2). rf_id r' = 102 \<and> rf_family_id r' = rf_family_id (rotated 102 10 sess_a)"
    by (rule fam [THEN conjunct2, rule_format, of "rotated 102 10 sess_a" 102, THEN conjunct2]) (simp_all add: rotated_def)
  ultimately show ?thesis
    using reach_d2 by simp
qed

theorem refresh_token_single_use_witness: "\<exists>e. fst (refresh demo_env 20 ''z'' 109 ''a'' d2) = Inl e"
  by (rule refresh_token_single_use [OF reach_d1, where now = 10 and tok = "''b''" and sid = 102 and token = "''a''"])
    (simp_all add: refresh_d1 d2_refreshed)


theorem replay_race_leaves_session_witness:
  "\<exists>s1 s2 s3 p. auth_step demo_env d2 s1 \<and> auth_step demo_env s1 s2 \<and> auth_step demo_env s2 s3
    \<and> fst (refresh demo_env 20 ''d'' 104 ''c'' s3) = Inr p"
  using replay_race_leaves_session [OF reach_d2, of "''a''" "rotated 102 10 sess_a" "''b''" sess_b 20 demo_member
      103 "''c''" 104 "''d''", OF _ _ _ _ _ _ _ _ _ _ _ _ refl refl refl]
  by (simp add: d2_finds REFRESH_TOKEN_TTL_def) blast

theorem disabling_is_undone_witness:
  "\<exists>s1 s2 p. s1 = snd (update_user_status_endpoint 20 [10] demo_admin 3 ''disabled'' d2)
    \<and> s2 = snd (update_user_status_endpoint 20 [10] demo_admin 3 ''active'' s1)
    \<and> refresh demo_env 20 ''c'' 103 ''b'' s1 = (Inl (app_fail ''forbidden'' []), s1)
    \<and> fst (refresh demo_env 20 ''c'' 103 ''b'' s2) = Inr p"
proof -
  let ?s1 = "snd (update_user_status_endpoint 20 [10] demo_admin 3 ''disabled'' d2)"
  have e1: "update_user_status_endpoint 20 [10] demo_admin 3 ''disabled'' d2
      = (Inr (user_status_values 20 ''disabled'' demo_member), ?s1)"
    by (rule demo_status) (simp_all add: d2_finds)
  have us: "ad_users ?s1 = ad_users (write_user 3 (user_status_values 20 ''disabled'') d2)"
    by (rule status_endpoint [THEN conjunct1]) (rule arg_cong [OF e1, of fst, unfolded fst_conv])
  have u1: "find_user_by_id 3 ?s1 = Some (user_status_values 20 ''disabled'' demo_member)"
    using find_write [OF _ us, of 3] by (simp add: d2_finds)
  have dep: "ad_depts ?s1 = demo_depts"
    by (simp add: update_user_status_endpoint_def demo_perms ensure_def gov_update_user_status_def d2_finds audited_def
        record_audit_def sees_b_def policy_b_def write_user_def Let_def rolled_back_def demo_depts_def [symmetric] split: sum.split)
  let ?s2 = "snd (update_user_status_endpoint 20 [10] demo_admin 3 ''active'' ?s1)"
  have "refresh demo_env 20 ''c'' 103 ''b'' ?s1 = (Inl (app_fail ''forbidden'' []), ?s1)
      \<and> (\<exists>p. fst (refresh demo_env 20 ''c'' 103 ''b'' ?s2) = Inr p)
      \<and> (\<exists>me. get_current_user demo_env 20 (Some (''Bearer '' @ access_token_of demo_env 0 demo_member)) ?s2 = Inr me \<and> cu_user_id me = 3)"
    by (rule disabling_is_undone [OF reach_d2 demo_works d2_finds(3), where r = sess_b, OF _ _ _ _ _ _ _ _ e1 demo_status [OF u1 dep]])
      (simp_all add: d2_finds REFRESH_TOKEN_TTL_def ACCESS_TOKEN_TTL_SECONDS_def)
  then show ?thesis
    by blast
qed

abbreviation "demo_changed \<equiv> snd (change_password demo_env 15 ''s'' 3 ''pw'' ''new'' d2)"

lemma demo_change: "change_password demo_env 15 ''s'' 3 ''pw'' ''new'' d2 = (Inr (), demo_changed)"
  by (simp add: change_password_def d2_finds)


theorem refresh_outlives_account_witness:
  "\<exists>p me. fst (refresh demo_env 20 ''c'' 103 ''b'' demo_changed) = Inr p \<and>
    get_current_user demo_env 20 (Some (''Bearer '' @ tp_access_token p)) (refreshed demo_env 20 ''c'' 103 ''b'' demo_changed) = Inr me
    \<and> cu_user_id me = 3 \<and> cu_roles me = [''lab_member'']"
proof -
  have "\<exists>p me. fst (refresh demo_env 20 ''c'' 103 ''b'' demo_changed) = Inr p \<and>
    get_current_user demo_env 20 (Some (''Bearer '' @ tp_access_token p)) (refreshed demo_env 20 ''c'' 103 ''b'' demo_changed) = Inr me
    \<and> cu_user_id me = 3 \<and> cu_roles me = au_roles demo_member"
    by (rule refresh_outlives_account [OF reach_d2 demo_works d2_finds(3), where r = sess_b and cu = demo_director
          and email = "''x''" and password = "''pw''", OF _ _ _ _ _ _ disjI1 [OF demo_change]])
      (simp_all add: d2_finds REFRESH_TOKEN_TTL_def)
  then show ?thesis
    by simp
qed

lemma demo_remove:
  "remove_role_endpoint 15 [10] demo_director 3 ''lab_member'' d2 =
    (Inr (roles_values 15 (filter (\<lambda>r. r \<noteq> ''lab_member'')) demo_member),
     snd (remove_role_endpoint 15 [10] demo_director 3 ''lab_member'' d2))"
  by (subst (1 2) remove_role_endpoint_def)
    (auto simp: demo_perms ensure_def is_platform_admin_def validate_assignable_roles_def get_assignable_roles_def
      assert_not_self_modifying_roles_def same_department_def d2_finds gov_remove_role_def write_user_def Let_def
      intro!: demo_audited)


lemma demo_assign_users:
  "\<exists>u'\<in>set (ad_users (snd (assign_roles_endpoint 15 [10] demo_director 3 [''lab_viewer''] d2))).
    au_id u' = 3 \<and> au_roles u' = [''lab_member'', ''lab_viewer'']"
  by (simp add: assign_roles_endpoint_def demo_perms validate_role_codes_def BUILTIN_ROLES_def is_platform_admin_def
      validate_assignable_roles_def get_assignable_roles_def assert_not_self_modifying_roles_def ensure_def same_department_def
      d2_finds gov_assign_roles_def audited_def record_audit_def sees_b_def policy_b_def demo_depts_def Let_def write_user_def
      demo_users_def roles_values_def merged_roles_def)


theorem director_takes_over_admin_witness:
  "\<exists>x t p w me. update_user_endpoint demo_env ''s'' [10] demo_director 4
      \<lparr>up_display_name = None, up_password = Some ''mine'', up_roles = None, up_department_id = None\<rparr> d2 = (Inr x, t)
    \<and> login demo_env 20 ''c'' 105 106 ''admin@x'' ''mine'' None None t = (Inr p, w)
    \<and> get_current_user demo_env 20 (Some (''Bearer '' @ tp_access_token p)) w = Inr me
    \<and> cu_user_id me = 4 \<and> require_permission ''user:manage'' me = Inr ()"
proof -
  have "(4::uuid) < 2 ^ 128" "(10::uuid) \<in> dept_ids d2"
    by (simp_all add: dept_ids_def demo_depts_def)
  then show ?thesis
    using director_takes_over_admin [OF reach_d2 demo_works _ _ _ d2_finds(4), where cu = demo_director and vis = "[10]"
        and sid = 106 and tok = "''c''" and fam = 105 and pw = "''mine''" and salt = "''s''" and now = 20, OF _ _ _ _ _ _ _ _ _ _ refl]
    by simp
qed

theorem unplaced_director_lists_everyone_witness:
  "\<exists>page. list_users_endpoint (demo_cu 7 [''lab_director'']) None None 20
      (snd (create_user_endpoint demo_env 20 ''s'' 7 [10] demo_admin ''new@x'' ''new'' ''secret'' [''lab_director''] None 10 d2))
      = Some (Inr (page, False, None))
    \<and> demo_member \<in> set page"
proof -
  let ?c = "create_user_endpoint demo_env 20 ''s'' 7 [10] demo_admin ''new@x'' ''new'' ''secret'' [''lab_director''] None 10 d2"
  have m: "\<exists>u t. ?c = (Inr u, t) \<and> au_roles u = [''lab_director''] \<and> au_department_id u = 10
      \<and> length (ad_users t) \<le> 20 \<and> demo_member \<in> set (ad_users t)"
    by (simp add: create_user_endpoint_def demo_perms validate_role_codes_def BUILTIN_ROLES_def ensure_def gov_create_user_def
        find_user_by_email_def sql_find_def demo_users_def Let_def dept_ids_def audited_def record_audit_def sees_b_def
        policy_b_def demo_depts_def)
  then obtain u t where c: "?c = (Inr u, t)" "au_roles u = [''lab_director'']" "au_department_id u = 10"
      "length (ad_users t) \<le> 20" "demo_member \<in> set (ad_users t)"
    by blast
  obtain page where "list_users_endpoint (demo_cu 7 [''lab_director'']) None None 20 t = Some (Inr (page, False, None))"
      "set page = {v \<in> set (ad_users t). set (au_roles v) \<inter> set PLATFORM_ROLES = {}}"
    using unplaced_director_lists_everyone [OF c(1), of "demo_cu 7 [''lab_director'']" 20] c(2-4)
    by (auto simp: demo_depts_def)
  then show ?thesis
    using c(1,5) by (auto simp: PLATFORM_ROLES_def)
qed

end
