(* ===== verification/ResearchTimeline.thy ===== *)
theory ResearchTimeline imports Sessions JobOutbox begin

text \<open>
  The research timeline (\<open>packages/research\<close>): workspaces, evidence snapshots, turns, plan versions
  and analysis runs, with the services of the API, the worker tasks of
  \<open>apps/worker/research_timeline_tasks.py\<close> and the reconciler. Row policies are those of migration
  0088: a row belongs to the owner of its workspace. What a model provider answers, the data profile
  and the texts cut to 500 characters for display are left out; the steps and artifacts of a run too.
\<close>

section \<open>Transactions that can fail\<close>

definition and_then :: "'e + 'a \<Rightarrow> ('a \<Rightarrow> 'e + 'b) \<Rightarrow> 'e + 'b" where
  "and_then m f = (case m of Inl e \<Rightarrow> Inl e | Inr x \<Rightarrow> f x)"

definition require :: "bool \<Rightarrow> 'e \<Rightarrow> 'e + unit" where
  "require p e = (if p then Inr () else Inl e)"

definition found :: "'a option \<Rightarrow> 'e \<Rightarrow> 'e + 'a" where
  "found r e = (case r of None \<Rightarrow> Inl e | Some x \<Rightarrow> Inr x)"

lemma and_then_Inr [simp]: "and_then m f = Inr y \<longleftrightarrow> (\<exists>x. m = Inr x \<and> f x = Inr y)"
  by (cases m) (simp_all add: and_then_def)

lemma and_then_simps [simp]: "and_then (Inl e) f = Inl e" "and_then (Inr x) f = f x"
  by (simp_all add: and_then_def)

lemma require_Inr [simp]: "require p e = Inr x \<longleftrightarrow> p" "require p e = Inl e' \<longleftrightarrow> \<not> p \<and> e' = e"
  by (auto simp: require_def)

lemma require_simps [simp]: "require True e = Inr ()" "require False e = Inl e"
  by (simp_all add: require_def)

lemma found_Inr [simp]: "found r e = Inr x \<longleftrightarrow> r = Some x" "found r e = Inl e' \<longleftrightarrow> r = None \<and> e' = e"
  by (auto simp: found_def split: option.splits)

lemma found_simps [simp]: "found None e = Inl e" "found (Some x) e = Inr x"
  by (simp_all add: found_def)

section \<open>State machines\<close>

datatype turn_status =
    QuestionDraft | Planning | PlanningFailed | PlanReview | PlanConfirmed | TurnQueued | TurnRunning
  | TurnRunFailed | TurnSucceeded | ConclusionReviewed | SucceededUnsaved | TurnCancelled

fun turn_targets :: "turn_status \<Rightarrow> turn_status list" where
  "turn_targets QuestionDraft = [Planning, PlanningFailed, TurnCancelled]"
| "turn_targets Planning = [PlanReview, PlanningFailed, TurnCancelled]"
| "turn_targets PlanningFailed = [Planning, TurnCancelled]"
| "turn_targets PlanReview = [PlanConfirmed, PlanningFailed, TurnCancelled]"
| "turn_targets PlanConfirmed = [TurnQueued, TurnCancelled]"
| "turn_targets TurnQueued = [TurnRunning, TurnCancelled]"
| "turn_targets TurnRunning = [TurnSucceeded, TurnRunFailed, TurnCancelled]"
| "turn_targets TurnRunFailed = [TurnQueued, TurnCancelled]"
| "turn_targets TurnSucceeded = [ConclusionReviewed, SucceededUnsaved]"
| "turn_targets ConclusionReviewed = []"
| "turn_targets SucceededUnsaved = []"
| "turn_targets TurnCancelled = []"

fun turn_status_value :: "turn_status \<Rightarrow> string" where
  "turn_status_value QuestionDraft = ''question_draft''"
| "turn_status_value Planning = ''planning''"
| "turn_status_value PlanningFailed = ''planning_failed''"
| "turn_status_value PlanReview = ''plan_review''"
| "turn_status_value PlanConfirmed = ''plan_confirmed''"
| "turn_status_value TurnQueued = ''queued''"
| "turn_status_value TurnRunning = ''running''"
| "turn_status_value TurnRunFailed = ''run_failed''"
| "turn_status_value TurnSucceeded = ''succeeded''"
| "turn_status_value ConclusionReviewed = ''conclusion_reviewed''"
| "turn_status_value SucceededUnsaved = ''succeeded_without_saved_conclusion''"
| "turn_status_value TurnCancelled = ''cancelled''"

text \<open>\<open>None\<close>: \<open>InvalidTurnTransition\<close>.\<close>

definition turn_transition :: "turn_status \<Rightarrow> turn_status \<Rightarrow> turn_status option" where
  "turn_transition current target =
    (if current = target \<or> target \<in> set (turn_targets current) then Some target else None)"

definition can_plan :: "turn_status \<Rightarrow> bool" where
  "can_plan st \<longleftrightarrow> st \<in> {QuestionDraft, PlanningFailed}"

definition can_run :: "turn_status \<Rightarrow> bool" where
  "can_run st \<longleftrightarrow> st \<in> {PlanConfirmed, TurnRunFailed}"

definition turn_is_terminal :: "turn_status \<Rightarrow> bool" where
  "turn_is_terminal st \<longleftrightarrow> turn_targets st = []"

datatype extraction_status = XQueued | XRunning | XSucceeded | XFailed | XTaskLost | XCancelled

fun extraction_targets :: "extraction_status \<Rightarrow> extraction_status list" where
  "extraction_targets XQueued = [XRunning, XCancelled]"
| "extraction_targets XRunning = [XSucceeded, XFailed, XTaskLost]"
| "extraction_targets XSucceeded = []"
| "extraction_targets XFailed = [XQueued]"
| "extraction_targets XTaskLost = [XQueued]"
| "extraction_targets XCancelled = []"

definition extraction_transition :: "extraction_status \<Rightarrow> extraction_status \<Rightarrow> extraction_status option" where
  "extraction_transition current target =
    (if current = target \<or> target \<in> set (extraction_targets current) then Some target else None)"

datatype plan_status = PlanDraft | PlanIsConfirmed | PlanSuperseded

datatype analysis_status = AQueued | APlanning | ARunning | ASucceeded | APartial | AFailed | ACancelled

definition active_status :: "analysis_status \<Rightarrow> bool" where
  "active_status st \<longleftrightarrow> st \<in> {AQueued, APlanning, ARunning}"

section \<open>Rows\<close>

record research_workspace =
  ws_id :: uuid
  ws_owner :: uuid
  ws_dept :: uuid
  ws_name :: string
  ws_status :: string
  ws_latest_snapshot :: "uuid option"
  ws_next_turn :: nat

record evidence_snapshot =
  sn_id :: uuid
  sn_workspace :: uuid
  sn_number :: nat
  sn_refs :: json

record research_turn =
  tu_id :: uuid
  tu_workspace :: uuid
  tu_number :: nat
  tu_kind :: string
  tu_status :: turn_status
  tu_question :: string
  tu_origin :: string
  tu_item :: "uuid option"
  tu_snapshot :: uuid
  tu_versions :: "(string \<times> string) option"
  tu_key :: string

record recommendation_batch =
  ba_id :: uuid
  ba_workspace :: uuid
  ba_snapshot :: uuid
  ba_mode :: string
  ba_status :: string
  ba_key :: string

record turn_context =
  cx_turn :: uuid
  cx_revision :: uuid
  cx_position :: nat

record plan_version =
  pv_id :: uuid
  pv_workspace :: uuid
  pv_turn :: "uuid option"
  pv_number :: nat
  pv_dag :: json
  pv_coverage :: json
  pv_status :: plan_status
  pv_confirmed :: "(timestamp \<times> uuid) option"
  pv_created_by :: uuid

record analysis_run =
  ar_id :: uuid
  ar_workspace :: uuid
  ar_plan :: uuid
  ar_snapshot :: uuid
  ar_number :: nat
  ar_status :: analysis_status
  ar_submitted_at :: timestamp
  ar_started_at :: "timestamp option"
  ar_cancelled :: "(timestamp \<times> uuid) option"
  ar_created_by :: uuid
  ar_turn :: "uuid option"
  ar_attempt :: nat

record turn_result =
  re_id :: uuid
  re_turn :: uuid
  re_run :: uuid
  re_kind :: string
  re_output :: json

record extraction_job =
  xj_id :: uuid
  xj_workspace :: uuid
  xj_turn :: uuid
  xj_run :: uuid
  xj_status :: extraction_status
  xj_attempt :: nat
  xj_created_at :: timestamp

record conclusion =
  co_id :: uuid
  co_workspace :: uuid
  co_current :: "uuid option"
  co_source_turn :: "uuid option"
  co_source_type :: string
  co_evidence :: string
  co_status :: string
  co_created_by :: uuid
  co_lock_version :: nat

record conclusion_revision =
  cr_id :: uuid
  cr_conclusion :: uuid
  cr_number :: nat
  cr_statement :: string
  cr_scope :: "string option"
  cr_refs :: json
  cr_limitations :: "string option"
  cr_editor :: uuid

record research_db =
  rd_workspaces :: "research_workspace list"
  rd_snapshots :: "evidence_snapshot list"
  rd_batches :: "recommendation_batch list"
  rd_turns :: "research_turn list"
  rd_contexts :: "turn_context list"
  rd_plans :: "plan_version list"
  rd_runs :: "analysis_run list"
  rd_results :: "turn_result list"
  rd_extractions :: "extraction_job list"
  rd_conclusions :: "conclusion list"
  rd_revisions :: "conclusion_revision list"
  rd_outbox :: "outbox_event list"
  rd_audit :: "(string \<times> uuid) list"

text \<open>
  The columns \<open>turn_id\<close> of plans and runs: \<open>NOT NULL\<close> in the migrated database (migration 0084),
  nullable in the entities, so also in a database created from them.
\<close>

datatype research_schema = Migrated | FromEntities

section \<open>Sessions and row policies\<close>

definition sees_ws :: "session_ctx \<Rightarrow> research_workspace \<Rightarrow> bool" where
  "sees_ws sx w \<longleftrightarrow> sx_actor sx = Some (ws_owner w) \<and> ws_dept w \<in> set (sx_visible sx)"

text \<open>The policy of the tables with a \<open>workspace_id\<close>, and of those that refer to a turn.\<close>

definition in_ws :: "session_ctx \<Rightarrow> research_db \<Rightarrow> uuid \<Rightarrow> bool" where
  "in_ws sx db wid \<longleftrightarrow> list_ex (\<lambda>w. ws_id w = wid \<and> sees_ws sx w) (rd_workspaces db)"

definition of_turn :: "session_ctx \<Rightarrow> research_db \<Rightarrow> uuid \<Rightarrow> bool" where
  "of_turn sx db tid \<longleftrightarrow> list_ex (\<lambda>t. tu_id t = tid \<and> in_ws sx db (tu_workspace t)) (rd_turns db)"

definition of_conclusion :: "session_ctx \<Rightarrow> research_db \<Rightarrow> uuid \<Rightarrow> bool" where
  "of_conclusion sx db cid \<longleftrightarrow> list_ex (\<lambda>c. co_id c = cid \<and> in_ws sx db (co_workspace c)) (rd_conclusions db)"

definition find_turn :: "session_ctx \<Rightarrow> uuid \<Rightarrow> research_db \<Rightarrow> research_turn option" where
  "find_turn sx tid db = sql_find (\<lambda>t. tu_id t = tid \<and> in_ws sx db (tu_workspace t)) (rd_turns db)"

definition find_plan_version :: "session_ctx \<Rightarrow> uuid \<Rightarrow> research_db \<Rightarrow> plan_version option" where
  "find_plan_version sx pid db = sql_find (\<lambda>p. pv_id p = pid \<and> in_ws sx db (pv_workspace p)) (rd_plans db)"

definition find_analysis :: "session_ctx \<Rightarrow> uuid \<Rightarrow> research_db \<Rightarrow> analysis_run option" where
  "find_analysis sx rid db = sql_find (\<lambda>r. ar_id r = rid \<and> in_ws sx db (ar_workspace r)) (rd_runs db)"

definition missing_row :: "string \<Rightarrow> uuid \<Rightarrow> data_error" where
  "missing_row field i = app_fail ''not_found'' [(field, JStr (uuid_str i))]"

definition state_conflict :: "(string \<times> json) list \<Rightarrow> data_error" where
  "state_conflict fs = DApp (mk_error ''state_conflict'' True fs)"

definition require_actor :: "session_ctx \<Rightarrow> data_error + uuid" where
  "require_actor sx = found (sx_actor sx) (app_fail ''forbidden'' [])"

definition require_owned_workspace :: "session_ctx \<Rightarrow> uuid \<Rightarrow> research_db \<Rightarrow> data_error + research_workspace" where
  "require_owned_workspace sx wid db =
    found (sql_find (\<lambda>w. ws_id w = wid \<and> sees_ws sx w \<and> Some (ws_owner w) = sx_actor sx) (rd_workspaces db))
      (missing_row ''workspace_id'' wid)"

definition require_owned_turn :: "session_ctx \<Rightarrow> uuid \<Rightarrow> uuid \<Rightarrow> research_db \<Rightarrow> data_error + research_turn" where
  "require_owned_turn sx wid tid db =
    and_then (require_owned_workspace sx wid db) (\<lambda>_.
    found (sql_find (\<lambda>t. tu_id t = tid \<and> tu_workspace t = wid \<and> in_ws sx db (tu_workspace t)) (rd_turns db))
      (missing_row ''turn_id'' tid))"

text \<open>The audit event at the end of a transaction, and the events that carry the identity of the caller.\<close>

definition research_audit :: "session_ctx \<Rightarrow> string \<Rightarrow> uuid \<Rightarrow> research_db \<Rightarrow> data_error + research_db" where
  "research_audit sx action i db =
    (if sees_b sx (sx_dept sx) then Inr (db\<lparr>rd_audit := rd_audit db @ [(action, i)]\<rparr>) else Inl DDatabase)"

definition principal_payload :: "string \<Rightarrow> string \<Rightarrow> uuid \<Rightarrow> json" where
  "principal_payload actor dept wid =
    JObj [(''actor_id'', JStr actor), (''department_id'', JStr dept), (''workspace_id'', JStr (uuid_str wid))]"

definition enqueue_research ::
    "uuid \<Rightarrow> timestamp \<Rightarrow> string \<Rightarrow> uuid \<Rightarrow> string \<Rightarrow> json \<Rightarrow> research_db \<Rightarrow> research_db" where
  "enqueue_research eid now agg i typ content db =
    db\<lparr>rd_outbox := rd_outbox db @
      [\<lparr>ev_id = eid, aggregate_type = agg, aggregate_id = i, event_type = typ, ev_payload = Some content,
        occurred_at = now, delivered_at = None\<rparr>]\<rparr>"

section \<open>Workspaces and snapshots\<close>

definition create_workspace ::
    "session_ctx \<Rightarrow> uuid \<Rightarrow> string \<Rightarrow> research_db \<Rightarrow> data_error + research_workspace \<times> research_db" where
  "create_workspace sx wid name db =
    and_then (require_actor sx) (\<lambda>actor.
    let w = \<lparr>ws_id = wid, ws_owner = actor, ws_dept = sx_dept sx, ws_name = name, ws_status = ''draft'',
             ws_latest_snapshot = None, ws_next_turn = 1\<rparr>
    in and_then (insert_row ws_id (sees_ws sx) w (rd_workspaces db)) (\<lambda>rows.
       and_then (research_audit sx ''research.workspace.create'' wid (db\<lparr>rd_workspaces := rows\<rparr>)) (\<lambda>db'.
       Inr (w, db'))))"

definition update_workspaces ::
    "session_ctx \<Rightarrow> uuid \<Rightarrow> (research_workspace \<Rightarrow> research_workspace) \<Rightarrow> research_db \<Rightarrow> research_db" where
  "update_workspaces sx wid f db =
    db\<lparr>rd_workspaces := sql_update (\<lambda>w. ws_id w = wid \<and> sees_ws sx w) f (rd_workspaces db)\<rparr>"

definition set_workspace ::
    "session_ctx \<Rightarrow> uuid \<Rightarrow> (research_workspace \<Rightarrow> research_workspace) \<Rightarrow> string \<Rightarrow> research_db
      \<Rightarrow> data_error + research_db" where
  "set_workspace sx wid f action db =
    and_then (require_actor sx) (\<lambda>_.
    and_then (require_owned_workspace sx wid db) (\<lambda>_.
    research_audit sx action wid (update_workspaces sx wid f db)))"

definition update_workspace_name :: "session_ctx \<Rightarrow> uuid \<Rightarrow> string \<Rightarrow> research_db \<Rightarrow> data_error + research_db" where
  "update_workspace_name sx wid name db =
    set_workspace sx wid (\<lambda>w. w\<lparr>ws_name := name\<rparr>) ''research.workspace.update'' db"

definition archive_workspace :: "session_ctx \<Rightarrow> uuid \<Rightarrow> research_db \<Rightarrow> data_error + research_db" where
  "archive_workspace sx wid db =
    set_workspace sx wid (\<lambda>w. w\<lparr>ws_status := ''archived''\<rparr>) ''research.workspace.archive'' db"

definition restore_workspace :: "session_ctx \<Rightarrow> uuid \<Rightarrow> research_db \<Rightarrow> data_error + research_db" where
  "restore_workspace sx wid db =
    set_workspace sx wid (\<lambda>w. w\<lparr>ws_status := ''draft''\<rparr>) ''research.workspace.restore'' db"

text \<open>
  \<open>freeze_snapshot\<close>, given the active references of the workspace: the row with the next number, the
  pointer of the workspace, and the first batch of recommendations with its event.
\<close>

definition workspace_snapshots :: "session_ctx \<Rightarrow> uuid \<Rightarrow> research_db \<Rightarrow> evidence_snapshot list" where
  "workspace_snapshots sx wid db =
    filter (\<lambda>s. sn_workspace s = wid \<and> in_ws sx db (sn_workspace s)) (rd_snapshots db)"

definition initial_batch ::
    "session_ctx \<Rightarrow> uuid \<Rightarrow> timestamp \<Rightarrow> uuid \<Rightarrow> uuid \<Rightarrow> uuid \<Rightarrow> uuid \<Rightarrow> research_db \<Rightarrow> data_error + research_db" where
  "initial_batch sx actor now wid sid bid eid db =
    (let key = ''initial:'' @ uuid_str sid
     in if list_ex (\<lambda>b. ba_workspace b = wid \<and> ba_key b = key) (rd_batches db) then Inr db
        else and_then (insert_row ba_id (\<lambda>b. in_ws sx db (ba_workspace b))
               \<lparr>ba_id = bid, ba_workspace = wid, ba_snapshot = sid, ba_mode = ''initial'', ba_status = ''queued'',
                ba_key = key\<rparr> (rd_batches db)) (\<lambda>rows.
             Inr (enqueue_research eid now ''research_recommendation_batch'' bid ''research.recommendation.requested''
               (JObj [(''batch_id'', JStr (uuid_str bid)), (''mode'', JStr ''initial''),
                      (''actor_id'', JStr (uuid_str actor)), (''department_id'', JStr (uuid_str (sx_dept sx))),
                      (''workspace_id'', JStr (uuid_str wid))]) (db\<lparr>rd_batches := rows\<rparr>))))"

definition freeze_snapshot ::
    "session_ctx \<Rightarrow> timestamp \<Rightarrow> uuid \<Rightarrow> json list \<Rightarrow> uuid \<Rightarrow> uuid \<Rightarrow> uuid \<Rightarrow> research_db
      \<Rightarrow> data_error + evidence_snapshot \<times> research_db" where
  "freeze_snapshot sx now wid refs sid bid eid db =
    and_then (require_actor sx) (\<lambda>actor.
    and_then (require_owned_workspace sx wid db) (\<lambda>_.
    and_then (require (refs \<noteq> []) (app_fail ''validation_failed'' [(''workspace_id'', JStr (uuid_str wid))])) (\<lambda>_.
    let n = (case latest_by sn_number (workspace_snapshots sx wid db) of None \<Rightarrow> 1 | Some s \<Rightarrow> sn_number s + 1);
        s = \<lparr>sn_id = sid, sn_workspace = wid, sn_number = n, sn_refs = JArr refs\<rparr>
    in and_then (require (\<not> list_ex (\<lambda>x. sn_workspace x = wid \<and> sn_number x = n) (rd_snapshots db)) DDatabase) (\<lambda>_.
       and_then (insert_row sn_id (\<lambda>x. in_ws sx db (sn_workspace x)) s (rd_snapshots db)) (\<lambda>rows.
       and_then (initial_batch sx actor now wid sid bid eid
                  (update_workspaces sx wid (\<lambda>w. w\<lparr>ws_latest_snapshot := Some sid\<rparr>) (db\<lparr>rd_snapshots := rows\<rparr>))) (\<lambda>db1.
       and_then (research_audit sx ''research.snapshot.freeze'' sid db1) (\<lambda>db2. Inr (s, db2))))))))"

section \<open>Turns\<close>

record turn_command =
  tc_workspace :: uuid
  tc_question :: string
  tc_snapshot :: uuid
  tc_revisions :: "uuid list"
  tc_item :: "uuid option"
  tc_key :: string

text \<open>\<open>len\<close> of a text counts code points, here the bytes that start one.\<close>

definition code_points :: "string \<Rightarrow> nat" where
  "code_points s = length (filter (\<lambda>c. (of_char c :: nat) < 128 \<or> 192 \<le> (of_char c :: nat)) s)"

definition MAX_CONCLUSION_REVISIONS :: nat where
  "MAX_CONCLUSION_REVISIONS = 20"

definition MIN_SYNTHESIS_REVISIONS :: nat where
  "MIN_SYNTHESIS_REVISIONS = 2"

definition key_ok :: "string \<Rightarrow> bool" where
  "key_ok k \<longleftrightarrow> k \<noteq> [] \<and> code_points k \<le> 128"

text \<open>The question arrives stripped and normalised; an invalid command raises \<open>ValueError\<close>.\<close>

definition analysis_command_ok :: "turn_command \<Rightarrow> bool" where
  "analysis_command_ok c \<longleftrightarrow> tc_question c \<noteq> [] \<and> length (tc_revisions c) \<le> MAX_CONCLUSION_REVISIONS
    \<and> distinct (tc_revisions c) \<and> key_ok (tc_key c)"

definition synthesis_command_ok :: "turn_command \<Rightarrow> bool" where
  "synthesis_command_ok c \<longleftrightarrow> MIN_SYNTHESIS_REVISIONS \<le> length (tc_revisions c)
    \<and> length (tc_revisions c) \<le> MAX_CONCLUSION_REVISIONS \<and> distinct (tc_revisions c) \<and> key_ok (tc_key c)"

fun check_revisions :: "session_ctx \<Rightarrow> uuid \<Rightarrow> research_db \<Rightarrow> uuid list \<Rightarrow> data_error + unit" where
  "check_revisions sx wid db [] = Inr ()"
| "check_revisions sx wid db (i # is) =
    and_then (found (sql_find (\<lambda>r. cr_id r = i \<and> of_conclusion sx db (cr_conclusion r)) (rd_revisions db))
               (missing_row ''revision_id'' i)) (\<lambda>r.
    and_then (found (sql_find (\<lambda>c. co_id c = cr_conclusion r \<and> co_workspace c = wid \<and> in_ws sx db (co_workspace c))
                      (rd_conclusions db)) (missing_row ''revision_id'' i)) (\<lambda>_.
    check_revisions sx wid db is))"

text \<open>What \<open>create_analysis_turn\<close> and \<open>create_synthesis_turn\<close> read before they write.\<close>

definition check_turn :: "session_ctx \<Rightarrow> turn_command \<Rightarrow> research_db \<Rightarrow> data_error + research_turn option" where
  "check_turn sx c db =
    (let wid = tc_workspace c in
     and_then (require_actor sx) (\<lambda>_.
     and_then (require_owned_workspace sx wid db) (\<lambda>_.
     and_then (require (list_ex (\<lambda>s. sn_id s = tc_snapshot c \<and> sn_workspace s = wid \<and> in_ws sx db (sn_workspace s))
                 (rd_snapshots db)) (missing_row ''snapshot_id'' (tc_snapshot c))) (\<lambda>_.
     and_then (check_revisions sx wid db (tc_revisions c)) (\<lambda>_.
     Inr (sql_find (\<lambda>t. tu_workspace t = wid \<and> tu_key t = tc_key c \<and> in_ws sx db (tu_workspace t)) (rd_turns db)))))))"

definition allocate_turn_number :: "session_ctx \<Rightarrow> uuid \<Rightarrow> research_db \<Rightarrow> data_error + nat \<times> research_db" where
  "allocate_turn_number sx wid db =
    and_then (found (sql_find (\<lambda>w. ws_id w = wid \<and> sees_ws sx w) (rd_workspaces db)) DPython) (\<lambda>w.
    Inr (ws_next_turn w, update_workspaces sx wid (\<lambda>x. x\<lparr>ws_next_turn := ws_next_turn w + 1\<rparr>) db))"

definition derive_origin :: "uuid option \<Rightarrow> string" where
  "derive_origin item = (if item \<noteq> None then ''initial_ai'' else ''manual'')"

text \<open>The constraints of \<open>research_turn\<close>: key, number and idempotency key, the snapshot, the row policy.\<close>

definition turn_admissible :: "session_ctx \<Rightarrow> research_turn \<Rightarrow> research_db \<Rightarrow> bool" where
  "turn_admissible sx t db \<longleftrightarrow>
    \<not> list_ex (\<lambda>x. tu_id x = tu_id t \<or> tu_workspace x = tu_workspace t
      \<and> (tu_number x = tu_number t \<or> tu_key x = tu_key t)) (rd_turns db)
    \<and> tu_snapshot t \<in> set (map sn_id (rd_snapshots db)) \<and> in_ws sx db (tu_workspace t)"

definition context_rows :: "uuid \<Rightarrow> uuid list \<Rightarrow> turn_context list" where
  "context_rows tid is = map (\<lambda>(i, n). \<lparr>cx_turn = tid, cx_revision = i, cx_position = n\<rparr>) (zip is [0..<length is])"

definition write_turn ::
    "session_ctx \<Rightarrow> string \<Rightarrow> string \<Rightarrow> string \<Rightarrow> uuid option \<Rightarrow> string \<Rightarrow> turn_command \<Rightarrow> uuid \<Rightarrow> research_db
      \<Rightarrow> data_error + research_turn \<times> research_db" where
  "write_turn sx what question origin item action c tid db =
    and_then (allocate_turn_number sx (tc_workspace c) db) (\<lambda>(n, db1).
    let t = \<lparr>tu_id = tid, tu_workspace = tc_workspace c, tu_number = n, tu_kind = what, tu_status = QuestionDraft,
             tu_question = question, tu_origin = origin, tu_item = item, tu_snapshot = tc_snapshot c,
             tu_versions = None, tu_key = tc_key c\<rparr>
    in and_then (require (turn_admissible sx t db1) DDatabase) (\<lambda>_.
       and_then (require (distinct (tc_revisions c) \<and> set (tc_revisions c) \<subseteq> cr_id ` set (rd_revisions db)) DDatabase) (\<lambda>_.
       and_then (research_audit sx action tid
          (db1\<lparr>rd_turns := rd_turns db1 @ [t], rd_contexts := rd_contexts db1 @ context_rows tid (tc_revisions c)\<rparr>)) (\<lambda>db2.
       Inr (t, db2)))))"

definition write_analysis_turn ::
    "session_ctx \<Rightarrow> turn_command \<Rightarrow> uuid \<Rightarrow> research_db \<Rightarrow> data_error + research_turn \<times> research_db" where
  "write_analysis_turn sx c tid db =
    write_turn sx ''analysis'' (tc_question c) (derive_origin (tc_item c)) (tc_item c) ''research.turn.create'' c tid db"

definition create_analysis_turn ::
    "session_ctx \<Rightarrow> turn_command \<Rightarrow> uuid \<Rightarrow> research_db \<Rightarrow> data_error + research_turn \<times> research_db" where
  "create_analysis_turn sx c tid db =
    and_then (require (analysis_command_ok c) DPython) (\<lambda>_.
    and_then (check_turn sx c db) (\<lambda>known.
    case known of Some t \<Rightarrow> Inr (t, db) | None \<Rightarrow> write_analysis_turn sx c tid db))"

text \<open>A synthesis asks a fixed question about the number of conclusions, here \<open>ask n\<close>.\<close>

definition write_synthesis_turn ::
    "(nat \<Rightarrow> string) \<Rightarrow> session_ctx \<Rightarrow> turn_command \<Rightarrow> uuid \<Rightarrow> research_db \<Rightarrow> data_error + research_turn \<times> research_db" where
  "write_synthesis_turn ask sx c tid db =
    write_turn sx ''synthesis'' (ask (length (tc_revisions c))) ''synthesis'' None ''research.turn.create_synthesis'' c tid db"

definition create_synthesis_turn ::
    "(nat \<Rightarrow> string) \<Rightarrow> session_ctx \<Rightarrow> turn_command \<Rightarrow> uuid \<Rightarrow> research_db \<Rightarrow> data_error + research_turn \<times> research_db" where
  "create_synthesis_turn ask sx c tid db =
    and_then (require (synthesis_command_ok c) DPython) (\<lambda>_.
    and_then (check_turn sx c db) (\<lambda>known.
    case known of Some t \<Rightarrow> Inr (t, db) | None \<Rightarrow> write_synthesis_turn ask sx c tid db))"

text \<open>Compare-and-set of the status.\<close>

definition turn_where :: "session_ctx \<Rightarrow> research_db \<Rightarrow> uuid \<Rightarrow> turn_status list \<Rightarrow> research_turn \<Rightarrow> bool" where
  "turn_where sx db tid expected t \<longleftrightarrow>
    tu_id t = tid \<and> tu_status t \<in> set expected \<and> in_ws sx db (tu_workspace t)"

definition update_turn_status ::
    "session_ctx \<Rightarrow> uuid \<Rightarrow> turn_status \<Rightarrow> turn_status \<Rightarrow> research_db \<Rightarrow> data_error + research_db" where
  "update_turn_status sx tid expected new db =
    (if sql_rowcount (turn_where sx db tid [expected]) (rd_turns db) = 0
     then Inl (state_conflict [(''turn_id'', JStr (uuid_str tid)), (''expected'', JStr (turn_status_value expected))])
     else Inr (db\<lparr>rd_turns := sql_update (turn_where sx db tid [expected]) (\<lambda>t. t\<lparr>tu_status := new\<rparr>) (rd_turns db)\<rparr>))"

definition lock_turn_inputs ::
    "session_ctx \<Rightarrow> uuid \<Rightarrow> string \<Rightarrow> string \<Rightarrow> research_db \<Rightarrow> data_error + research_db" where
  "lock_turn_inputs sx tid prompt schema db =
    (if sql_rowcount (turn_where sx db tid [QuestionDraft, PlanningFailed]) (rd_turns db) = 0
     then Inl (state_conflict [(''turn_id'', JStr (uuid_str tid))])
     else Inr (db\<lparr>rd_turns := sql_update (turn_where sx db tid [QuestionDraft, PlanningFailed])
                 (\<lambda>t. t\<lparr>tu_status := Planning, tu_versions := Some (prompt, schema)\<rparr>) (rd_turns db)\<rparr>))"

definition RECOMMENDATION_PROMPT_VERSION :: string where
  "RECOMMENDATION_PROMPT_VERSION = ''research-recommendation-v1''"

definition start_planning ::
    "session_ctx \<Rightarrow> timestamp \<Rightarrow> uuid \<Rightarrow> uuid \<Rightarrow> uuid \<Rightarrow> research_db \<Rightarrow> data_error + research_db" where
  "start_planning sx now wid tid eid db =
    and_then (require_actor sx) (\<lambda>actor.
    and_then (require_owned_turn sx wid tid db) (\<lambda>t.
    and_then (require (can_plan (tu_status t))
       (state_conflict [(''turn_id'', JStr (uuid_str tid)), (''status'', JStr (turn_status_value (tu_status t)))])) (\<lambda>_.
    and_then (lock_turn_inputs sx tid RECOMMENDATION_PROMPT_VERSION ''plan-output-v1'' db) (\<lambda>db1.
    and_then (research_audit sx ''research.turn.start_planning'' tid db1) (\<lambda>db2.
    Inr (enqueue_research eid now ''research_turn'' tid ''research.plan.requested''
           (principal_payload (uuid_str actor) (uuid_str (sx_dept sx)) wid) db2))))))"

definition plan_where :: "session_ctx \<Rightarrow> research_db \<Rightarrow> uuid \<Rightarrow> plan_version \<Rightarrow> bool" where
  "plan_where sx db pid p \<longleftrightarrow> pv_id p = pid \<and> in_ws sx db (pv_workspace p)"

definition update_plans ::
    "(plan_version \<Rightarrow> bool) \<Rightarrow> (plan_version \<Rightarrow> plan_version) \<Rightarrow> research_db \<Rightarrow> research_db" where
  "update_plans p f db = db\<lparr>rd_plans := sql_update p f (rd_plans db)\<rparr>"

fun plan_status_value :: "plan_status \<Rightarrow> string" where
  "plan_status_value PlanDraft = ''draft''"
| "plan_status_value PlanIsConfirmed = ''confirmed''"
| "plan_status_value PlanSuperseded = ''superseded''"

definition confirm_turn_plan ::
    "session_ctx \<Rightarrow> timestamp \<Rightarrow> uuid \<Rightarrow> uuid \<Rightarrow> uuid \<Rightarrow> research_db \<Rightarrow> data_error + research_db" where
  "confirm_turn_plan sx now wid tid pid db =
    and_then (require_actor sx) (\<lambda>actor.
    and_then (require_owned_turn sx wid tid db) (\<lambda>_.
    let missing = app_fail ''not_found'' [(''plan_id'', JStr (uuid_str pid)), (''turn_id'', JStr (uuid_str tid))]
    in and_then (found (find_plan_version sx pid db) missing) (\<lambda>p.
       and_then (require (pv_turn p = Some tid) missing) (\<lambda>_.
       and_then (require (pv_status p = PlanDraft)
          (state_conflict [(''plan_id'', JStr (uuid_str pid)), (''status'', JStr (plan_status_value (pv_status p)))])) (\<lambda>_.
       and_then (update_turn_status sx tid PlanReview PlanConfirmed
          (update_plans (plan_where sx db pid) (\<lambda>x. x\<lparr>pv_status := PlanIsConfirmed, pv_confirmed := Some (now, actor)\<rparr>) db)) (\<lambda>db1.
       research_audit sx ''research.turn.confirm_plan'' tid db1))))))"

text \<open>Deleting a turn: what refers to it by a foreign key goes with it or loses the reference.\<close>

definition delete_turn :: "session_ctx \<Rightarrow> uuid \<Rightarrow> uuid \<Rightarrow> research_db \<Rightarrow> data_error + research_db" where
  "delete_turn sx wid tid db =
    and_then (require_owned_turn sx wid tid db) (\<lambda>_.
    Inr (db\<lparr>rd_turns := filter (\<lambda>t. tu_id t \<noteq> tid) (rd_turns db),
            rd_contexts := filter (\<lambda>x. cx_turn x \<noteq> tid) (rd_contexts db),
            rd_results := filter (\<lambda>r. re_turn r \<noteq> tid) (rd_results db),
            rd_extractions := filter (\<lambda>x. xj_turn x \<noteq> tid) (rd_extractions db),
            rd_conclusions := sql_update (\<lambda>c. co_source_turn c = Some tid) (\<lambda>c. c\<lparr>co_source_turn := None\<rparr>)
              (rd_conclusions db)\<rparr>))"

end
