(* ===== verification/ResearchRuns.thy ===== *)
theory ResearchRuns imports ResearchTimeline begin

text \<open>
  Plans and runs of the research timeline: the plan service (\<open>packages/research/planning\<close>), the run
  services (\<open>timeline/analysis_service.py\<close>, \<open>execution/run_service.py\<close>), the finalizer, and the worker
  tasks with the reconciler (\<open>apps/worker/research_timeline_tasks.py\<close>). What the model provider answers
  is a parameter: \<open>None\<close> where the call raises.
\<close>

section \<open>Plan versions\<close>

text \<open>The turn whose question is put to the model, and the conclusions chosen for it.\<close>

definition asked_turn :: "session_ctx \<Rightarrow> uuid \<Rightarrow> research_db \<Rightarrow> research_turn option" where
  "asked_turn sx sid db =
    latest_by tu_number (filter (\<lambda>t. tu_snapshot t = sid \<and> in_ws sx db (tu_workspace t)) (rd_turns db))"

definition conclusion_inputs :: "session_ctx \<Rightarrow> uuid \<Rightarrow> research_db \<Rightarrow> string list" where
  "conclusion_inputs sx tid db =
    List.map_filter
      (\<lambda>x. map_option cr_statement
        (sql_find (\<lambda>r. cr_id r = cx_revision x \<and> of_conclusion sx db (cr_conclusion r)) (rd_revisions db)))
      (sort_key cx_position (filter (\<lambda>x. cx_turn x = tid \<and> of_turn sx db (cx_turn x)) (rd_contexts db)))"

type_synonym plan_advisor = "string \<Rightarrow> string list \<Rightarrow> (json \<times> json) option"

text \<open>
  The constraints of \<open>research_analysis_plan_version\<close>: \<open>turn_id\<close> as the schema has it, the number
  unique within the workspace (migration 0075) and within the turn (0084), the row policy.
\<close>

definition plan_admissible :: "research_schema \<Rightarrow> plan_version \<Rightarrow> research_db \<Rightarrow> bool" where
  "plan_admissible schema p db \<longleftrightarrow>
    (schema = Migrated \<longrightarrow> pv_turn p \<noteq> None)
    \<and> \<not> list_ex (\<lambda>x. pv_number x = pv_number p \<and>
         (pv_workspace x = pv_workspace p \<or> pv_turn p \<noteq> None \<and> pv_turn x = pv_turn p)) (rd_plans db)"

definition insert_plan_version ::
    "research_schema \<Rightarrow> session_ctx \<Rightarrow> plan_version \<Rightarrow> research_db \<Rightarrow> data_error + research_db" where
  "insert_plan_version schema sx p db =
    and_then (require (plan_admissible schema p db) DDatabase) (\<lambda>_.
    and_then (insert_row pv_id (\<lambda>x. in_ws sx db (pv_workspace x)) p (rd_plans db)) (\<lambda>rows.
    Inr (db\<lparr>rd_plans := rows\<rparr>)))"

definition workspace_plans :: "session_ctx \<Rightarrow> uuid \<Rightarrow> research_db \<Rightarrow> plan_version list" where
  "workspace_plans sx wid db =
    filter (\<lambda>p. pv_workspace p = wid \<and> in_ws sx db (pv_workspace p)) (rd_plans db)"

definition supersede_old_plans :: "session_ctx \<Rightarrow> uuid \<Rightarrow> uuid \<Rightarrow> research_db \<Rightarrow> research_db" where
  "supersede_old_plans sx wid keep db =
    update_plans (\<lambda>p. pv_workspace p = wid \<and> in_ws sx db (pv_workspace p) \<and> pv_id p \<noteq> keep
                    \<and> pv_status p = PlanIsConfirmed) (\<lambda>p. p\<lparr>pv_status := PlanSuperseded\<rparr>) db"

definition generate_plan ::
    "research_schema \<Rightarrow> session_ctx \<Rightarrow> plan_advisor \<Rightarrow> uuid \<Rightarrow> uuid \<Rightarrow> uuid \<Rightarrow> research_db
      \<Rightarrow> data_error + plan_version \<times> research_db" where
  "generate_plan schema sx advise wid sid pid db =
    and_then (require_actor sx) (\<lambda>actor.
    and_then (require_owned_workspace sx wid db) (\<lambda>_.
    and_then (require (sid \<in> set (map sn_id (workspace_snapshots sx wid db))) (missing_row ''snapshot_id'' sid)) (\<lambda>_.
    and_then (found (case asked_turn sx sid db of
                       None \<Rightarrow> advise [] []
                     | Some t \<Rightarrow> advise (tu_question t) (conclusion_inputs sx (tu_id t) db)) DPython) (\<lambda>(dag, coverage).
    let latest = latest_by pv_number (workspace_plans sx wid db);
        p = \<lparr>pv_id = pid, pv_workspace = wid, pv_turn = None,
             pv_number = (case latest of None \<Rightarrow> 1 | Some l \<Rightarrow> pv_number l + 1), pv_dag = dag, pv_coverage = coverage,
             pv_status = PlanDraft, pv_confirmed = None, pv_created_by = actor\<rparr>
    in and_then (insert_plan_version schema sx p db) (\<lambda>db1.
       and_then (research_audit sx ''research.plan.generate'' pid
                  (if latest = None then db1 else supersede_old_plans sx wid pid db1)) (\<lambda>db2.
       Inr (p, db2)))))))"

text \<open>Confirming and revising a plan of a workspace, without its turn.\<close>

definition plan_of_workspace :: "session_ctx \<Rightarrow> uuid \<Rightarrow> uuid \<Rightarrow> research_db \<Rightarrow> data_error + plan_version" where
  "plan_of_workspace sx wid pid db =
    and_then (found (find_plan_version sx pid db) (missing_row ''plan_id'' pid)) (\<lambda>p.
    and_then (require (pv_workspace p = wid) (missing_row ''plan_id'' pid)) (\<lambda>_. Inr p))"

definition plan_invalid :: "plan_version \<Rightarrow> data_error" where
  "plan_invalid p = app_fail ''validation_failed''
     [(''plan_id'', JStr (uuid_str (pv_id p))), (''status'', JStr (plan_status_value (pv_status p)))]"

definition confirm_plan ::
    "session_ctx \<Rightarrow> timestamp \<Rightarrow> uuid \<Rightarrow> uuid \<Rightarrow> research_db \<Rightarrow> data_error + research_db" where
  "confirm_plan sx now wid pid db =
    and_then (require_actor sx) (\<lambda>actor.
    and_then (plan_of_workspace sx wid pid db) (\<lambda>p.
    and_then (require (pv_status p = PlanDraft) (plan_invalid p)) (\<lambda>_.
    research_audit sx ''research.plan.confirm'' pid
      (update_plans (plan_where sx db pid) (\<lambda>x. x\<lparr>pv_status := PlanIsConfirmed, pv_confirmed := Some (now, actor)\<rparr>) db))))"

text \<open>\<open>old_plan.dag_structure.get('coverage_declaration', {})\<close>.\<close>

definition revised_dag :: "json list \<Rightarrow> json \<Rightarrow> json option" where
  "revised_dag steps old =
    map_option (\<lambda>d. JObj [(''steps'', JArr steps),
      (''coverage_declaration'', case dict_get d ''coverage_declaration'' of None \<Rightarrow> JObj [] | Some c \<Rightarrow> c)]) (json_obj old)"

definition revise_plan ::
    "research_schema \<Rightarrow> session_ctx \<Rightarrow> uuid \<Rightarrow> uuid \<Rightarrow> json list \<Rightarrow> uuid \<Rightarrow> research_db
      \<Rightarrow> data_error + plan_version \<times> research_db" where
  "revise_plan schema sx wid pid steps nid db =
    and_then (require_actor sx) (\<lambda>actor.
    and_then (plan_of_workspace sx wid pid db) (\<lambda>old.
    and_then (found (revised_dag steps (pv_dag old)) DPython) (\<lambda>dag.
    let p = \<lparr>pv_id = nid, pv_workspace = wid, pv_turn = None, pv_number = pv_number old + 1, pv_dag = dag,
             pv_coverage = pv_coverage old, pv_status = PlanDraft, pv_confirmed = None, pv_created_by = actor\<rparr>
    in and_then (insert_plan_version schema sx p
          (update_plans (plan_where sx db pid) (\<lambda>x. x\<lparr>pv_status := PlanSuperseded\<rparr>) db)) (\<lambda>db1.
       and_then (research_audit sx ''research.plan.revise'' nid db1) (\<lambda>db2. Inr (p, db2))))))"

section \<open>The task that generates the plan of a turn\<close>

text \<open>
  \<open>research.plans.generate\<close>: the turn is read (a plan that exists already only moves it forward), the
  plan service runs in a transaction of its own, the plan is bound to the turn in a third one. A failure
  of the second is recorded on the turn, a failed compare-and-set is ignored.
\<close>

definition try_turn_status :: "session_ctx \<Rightarrow> uuid \<Rightarrow> turn_status \<Rightarrow> turn_status \<Rightarrow> research_db \<Rightarrow> research_db" where
  "try_turn_status sx tid expected new db =
    (case update_turn_status sx tid expected new db of Inl _ \<Rightarrow> db | Inr db' \<Rightarrow> db')"

datatype plan_task = PlanTurnMissing | PlanTurnIs turn_status "uuid option" | PlanNeeded uuid uuid

definition load_planning :: "session_ctx \<Rightarrow> uuid \<Rightarrow> uuid \<Rightarrow> research_db \<Rightarrow> plan_task \<times> research_db" where
  "load_planning sx wid tid db =
    (case find_turn sx tid db of
       None \<Rightarrow> (PlanTurnMissing, db)
     | Some t \<Rightarrow>
         if tu_workspace t \<noteq> wid then (PlanTurnMissing, db)
         else (case latest_by pv_number (filter (\<lambda>p. pv_turn p = Some tid \<and> in_ws sx db (pv_workspace p)) (rd_plans db)) of
             Some p \<Rightarrow>
               (if tu_status t = Planning
                then (PlanTurnIs PlanReview (Some (pv_id p)), try_turn_status sx tid Planning PlanReview db)
                else (PlanTurnIs (tu_status t) (Some (pv_id p)), db))
           | None \<Rightarrow>
               (if tu_status t \<noteq> Planning then (PlanTurnIs (tu_status t) None, db)
                else (PlanNeeded (tu_workspace t) (tu_snapshot t), db))))"

definition bind_plan :: "session_ctx \<Rightarrow> uuid \<Rightarrow> uuid \<Rightarrow> research_db \<Rightarrow> data_error + research_db" where
  "bind_plan sx tid pid db =
    (let db1 = update_plans (plan_where sx db pid) (\<lambda>p. p\<lparr>pv_turn := Some tid\<rparr>) db
     in if list_ex (\<lambda>p. plan_where sx db pid p
             \<and> list_ex (\<lambda>x. pv_id x \<noteq> pid \<and> pv_turn x = Some tid \<and> pv_number x = pv_number p) (rd_plans db)) (rd_plans db)
        then Inl DDatabase
        else Inr (try_turn_status sx tid Planning PlanReview db1))"

text \<open>\<open>configured\<close>: the configuration of the model is there.\<close>

definition generate_plan_task ::
    "research_schema \<Rightarrow> session_ctx \<Rightarrow> bool \<Rightarrow> plan_advisor \<Rightarrow> uuid \<Rightarrow> uuid \<Rightarrow> uuid \<Rightarrow> research_db
      \<Rightarrow> (data_error + plan_task) \<times> research_db" where
  "generate_plan_task schema sx configured advise wid tid pid db =
    (case load_planning sx wid tid db of
       (PlanNeeded w sid, db1) \<Rightarrow>
         (let failed = (Inr (PlanTurnIs PlanningFailed None), try_turn_status sx tid Planning PlanningFailed db1)
          in if \<not> configured then failed
             else (case generate_plan schema sx advise w sid pid db1 of
                     Inl _ \<Rightarrow> failed
                   | Inr (p, db2) \<Rightarrow>
                       (case bind_plan sx tid pid db2 of
                          Inl e \<Rightarrow> (Inl e, db2)
                        | Inr db3 \<Rightarrow>
                            (Inr (PlanTurnIs (case find_turn sx tid db3 of None \<Rightarrow> PlanReview | Some t \<Rightarrow> tu_status t)
                               (Some pid)), db3))))
     | (answer, db1) \<Rightarrow> (Inr answer, db1))"

section \<open>Submitting and cancelling runs\<close>

definition active_run :: "session_ctx \<Rightarrow> uuid \<Rightarrow> research_db \<Rightarrow> analysis_run option" where
  "active_run sx wid db =
    sql_find (\<lambda>r. ar_workspace r = wid \<and> active_status (ar_status r) \<and> in_ws sx db (ar_workspace r)) (rd_runs db)"

definition next_run_number :: "session_ctx \<Rightarrow> uuid \<Rightarrow> research_db \<Rightarrow> nat" where
  "next_run_number sx wid db =
    max_number ar_workspace ar_number wid (filter (\<lambda>r. in_ws sx db (ar_workspace r)) (rd_runs db)) + 1"

definition next_attempt :: "session_ctx \<Rightarrow> uuid \<Rightarrow> research_db \<Rightarrow> nat" where
  "next_attempt sx tid db =
    length (filter (\<lambda>r. ar_turn r = Some tid \<and> in_ws sx db (ar_workspace r)) (rd_runs db)) + 1"

text \<open>
  The constraints of \<open>research_analysis_run\<close>: one active run of a workspace, the number unique within
  the workspace, the attempt within the turn, the plan and the snapshot, the row policy.
\<close>

definition run_admissible :: "research_schema \<Rightarrow> session_ctx \<Rightarrow> analysis_run \<Rightarrow> research_db \<Rightarrow> bool" where
  "run_admissible schema sx r db \<longleftrightarrow>
    (schema = Migrated \<longrightarrow> ar_turn r \<noteq> None)
    \<and> \<not> list_ex (\<lambda>x. ar_id x = ar_id r
         \<or> ar_workspace x = ar_workspace r \<and> (ar_number x = ar_number r \<or> active_status (ar_status x))
         \<or> ar_turn r \<noteq> None \<and> ar_turn x = ar_turn r \<and> ar_attempt x = ar_attempt r) (rd_runs db)
    \<and> ar_plan r \<in> set (map pv_id (rd_plans db)) \<and> ar_snapshot r \<in> set (map sn_id (rd_snapshots db))
    \<and> in_ws sx db (ar_workspace r)"

definition queue_run ::
    "research_schema \<Rightarrow> session_ctx \<Rightarrow> timestamp \<Rightarrow> uuid \<Rightarrow> uuid \<Rightarrow> uuid option \<Rightarrow> nat \<Rightarrow> uuid \<Rightarrow> uuid \<Rightarrow> uuid \<Rightarrow> uuid
      \<Rightarrow> research_db \<Rightarrow> data_error + analysis_run \<times> research_db" where
  "queue_run schema sx now actor wid turn n pid sid rid eid db =
    (let r = \<lparr>ar_id = rid, ar_workspace = wid, ar_plan = pid, ar_snapshot = sid, ar_number = next_run_number sx wid db,
              ar_status = AQueued, ar_submitted_at = now, ar_started_at = None, ar_cancelled = None,
              ar_created_by = actor, ar_turn = turn, ar_attempt = n\<rparr>
     in and_then (require (run_admissible schema sx r db) DDatabase) (\<lambda>_.
        Inr (r, enqueue_research eid now ''research_analysis_run'' rid ''research.run.requested''
                  (principal_payload (uuid_str actor) (uuid_str (sx_dept sx)) wid)
                  (db\<lparr>rd_runs := rd_runs db @ [r]\<rparr>))))"

text \<open>\<open>AnalysisService.submit_run\<close>: what it reads, and what it writes.\<close>

definition check_run ::
    "session_ctx \<Rightarrow> uuid \<Rightarrow> uuid \<Rightarrow> research_db \<Rightarrow> data_error + uuid \<times> research_turn \<times> plan_version" where
  "check_run sx wid tid db =
    and_then (require_actor sx) (\<lambda>actor.
    and_then (require_owned_turn sx wid tid db) (\<lambda>t.
    and_then (require (can_run (tu_status t))
       (state_conflict [(''turn_id'', JStr (uuid_str tid)), (''status'', JStr (turn_status_value (tu_status t)))])) (\<lambda>_.
    and_then (found (latest_by pv_number
         (filter (\<lambda>p. pv_turn p = Some tid \<and> pv_status p = PlanIsConfirmed \<and> in_ws sx db (pv_workspace p)) (rd_plans db)))
       (state_conflict [(''turn_id'', JStr (uuid_str tid))])) (\<lambda>p.
    case active_run sx wid db of
      Some r \<Rightarrow> Inl (DApp (mk_error ''analysis_busy'' True
        [(''workspace_id'', JStr (uuid_str wid)), (''active_run_id'', JStr (uuid_str (ar_id r)))]))
    | None \<Rightarrow> Inr (actor, t, p)))))"

definition set_turn_status :: "session_ctx \<Rightarrow> uuid \<Rightarrow> turn_status \<Rightarrow> research_db \<Rightarrow> research_db" where
  "set_turn_status sx tid st db =
    db\<lparr>rd_turns := sql_update (\<lambda>t. tu_id t = tid \<and> in_ws sx db (tu_workspace t)) (\<lambda>t. t\<lparr>tu_status := st\<rparr>) (rd_turns db)\<rparr>"

definition write_run ::
    "research_schema \<Rightarrow> session_ctx \<Rightarrow> timestamp \<Rightarrow> uuid \<Rightarrow> uuid \<Rightarrow> uuid \<Rightarrow> uuid \<Rightarrow> uuid \<Rightarrow> uuid \<Rightarrow> uuid \<Rightarrow> research_db
      \<Rightarrow> data_error + analysis_run \<times> research_db" where
  "write_run schema sx now actor wid tid pid sid rid eid db =
    and_then (queue_run schema sx now actor wid (Some tid) (next_attempt sx tid db) pid sid rid eid db) (\<lambda>(r, db1).
    and_then (require (find_turn sx tid db \<noteq> None) DPython) (\<lambda>_.
    Inr (r, set_turn_status sx tid TurnQueued db1)))"

definition submit_turn_run ::
    "research_schema \<Rightarrow> session_ctx \<Rightarrow> timestamp \<Rightarrow> uuid \<Rightarrow> uuid \<Rightarrow> uuid \<Rightarrow> uuid \<Rightarrow> research_db
      \<Rightarrow> data_error + analysis_run \<times> research_db" where
  "submit_turn_run schema sx now wid tid rid eid db =
    and_then (check_run sx wid tid db) (\<lambda>(actor, t, p).
    write_run schema sx now actor wid tid (pv_id p) (tu_snapshot t) rid eid db)"

text \<open>\<open>AnalysisRunService.submit_run\<close>, which its endpoint calls without a turn.\<close>

definition submit_run ::
    "research_schema \<Rightarrow> session_ctx \<Rightarrow> timestamp \<Rightarrow> uuid \<Rightarrow> uuid \<Rightarrow> uuid \<Rightarrow> uuid option \<Rightarrow> uuid \<Rightarrow> uuid \<Rightarrow> research_db
      \<Rightarrow> data_error + analysis_run \<times> research_db" where
  "submit_run schema sx now wid pid sid turn rid eid db =
    and_then (require_actor sx) (\<lambda>actor.
    and_then (plan_of_workspace sx wid pid db) (\<lambda>p.
    and_then (require (pv_status p = PlanIsConfirmed) (plan_invalid p)) (\<lambda>_.
    case active_run sx wid db of
      Some r \<Rightarrow> Inl (app_fail ''validation_failed''
        [(''workspace_id'', JStr (uuid_str wid)), (''active_run_id'', JStr (uuid_str (ar_id r)))])
    | None \<Rightarrow>
        and_then (queue_run schema sx now actor wid turn
                    (case turn of None \<Rightarrow> 1 | Some tid \<Rightarrow> next_attempt sx tid db) pid sid rid eid db) (\<lambda>(r, db1).
        and_then (research_audit sx ''research.run.submit'' rid db1) (\<lambda>db2. Inr (r, db2))))))"

definition analysis_status_value :: "analysis_status \<Rightarrow> string" where
  "analysis_status_value st = (case st of
     AQueued \<Rightarrow> ''queued'' | APlanning \<Rightarrow> ''planning'' | ARunning \<Rightarrow> ''running'' | ASucceeded \<Rightarrow> ''succeeded''
   | APartial \<Rightarrow> ''partially_succeeded'' | AFailed \<Rightarrow> ''failed'' | ACancelled \<Rightarrow> ''cancelled'')"

definition run_row :: "session_ctx \<Rightarrow> research_db \<Rightarrow> uuid \<Rightarrow> analysis_run \<Rightarrow> bool" where
  "run_row sx db rid r \<longleftrightarrow> ar_id r = rid \<and> in_ws sx db (ar_workspace r)"

definition update_runs :: "(analysis_run \<Rightarrow> bool) \<Rightarrow> (analysis_run \<Rightarrow> analysis_run) \<Rightarrow> research_db \<Rightarrow> research_db" where
  "update_runs p f db = db\<lparr>rd_runs := sql_update p f (rd_runs db)\<rparr>"

definition cancel_run :: "session_ctx \<Rightarrow> timestamp \<Rightarrow> uuid \<Rightarrow> research_db \<Rightarrow> data_error + research_db" where
  "cancel_run sx now rid db =
    and_then (require_actor sx) (\<lambda>actor.
    and_then (found (find_analysis sx rid db) (missing_row ''run_id'' rid)) (\<lambda>r.
    and_then (require (active_status (ar_status r)) (app_fail ''validation_failed''
       [(''run_id'', JStr (uuid_str rid)), (''status'', JStr (analysis_status_value (ar_status r)))])) (\<lambda>_.
    research_audit sx ''research.run.cancel'' rid
      (update_runs (run_row sx db rid) (\<lambda>r. r\<lparr>ar_status := ACancelled, ar_cancelled := Some (now, actor)\<rparr>) db))))"

section \<open>Executing a run\<close>

text \<open>\<open>research.run.execute\<close>: the claim, and what the task does with the answer of the model.\<close>

record run_claim =
  rc_run :: uuid
  rc_turn :: "uuid option"
  rc_workspace :: uuid
  rc_plan :: uuid
  rc_snapshot :: uuid

datatype claim_answer = Claimed run_claim | NotClaimed "analysis_status option"

definition claim_where :: "session_ctx \<Rightarrow> research_db \<Rightarrow> uuid \<Rightarrow> analysis_run \<Rightarrow> bool" where
  "claim_where sx db rid r \<longleftrightarrow> run_row sx db rid r \<and> ar_status r = AQueued"

definition claim_run :: "session_ctx \<Rightarrow> timestamp \<Rightarrow> uuid \<Rightarrow> research_db \<Rightarrow> claim_answer \<times> research_db" where
  "claim_run sx now rid db =
    (case sql_find (claim_where sx db rid) (rd_runs db) of
       None \<Rightarrow> (NotClaimed (map_option ar_status (find_analysis sx rid db)), db)
     | Some r \<Rightarrow>
         (Claimed \<lparr>rc_run = rid, rc_turn = ar_turn r, rc_workspace = ar_workspace r, rc_plan = ar_plan r,
                    rc_snapshot = ar_snapshot r\<rparr>,
          update_runs (claim_where sx db rid) (\<lambda>r. r\<lparr>ar_status := ARunning, ar_started_at := Some now\<rparr>) db))"

text \<open>\<open>TimelineRunFinalizer.complete\<close> and \<open>fail\<close>. The constraints of the result: one of a turn, one of a run.\<close>

definition write_result ::
    "session_ctx \<Rightarrow> uuid option \<Rightarrow> uuid \<Rightarrow> json \<Rightarrow> uuid \<Rightarrow> research_db \<Rightarrow> data_error + research_db" where
  "write_result sx turn rid output reid db =
    (if list_ex (\<lambda>x. re_run x = rid \<and> of_turn sx db (re_turn x)) (rd_results db) then Inr db
     else and_then (found turn DDatabase) (\<lambda>tid.
          and_then (require (of_turn sx db tid \<and>
              \<not> list_ex (\<lambda>x. re_id x = reid \<or> re_turn x = tid \<or> re_run x = rid) (rd_results db)) DDatabase) (\<lambda>_.
          Inr (db\<lparr>rd_results := rd_results db @
            [\<lparr>re_id = reid, re_turn = tid, re_run = rid, re_kind = ''analysis'', re_output = output\<rparr>]\<rparr>))))"

definition ensure_extraction ::
    "session_ctx \<Rightarrow> timestamp \<Rightarrow> uuid \<Rightarrow> uuid option \<Rightarrow> uuid \<Rightarrow> uuid \<Rightarrow> research_db
      \<Rightarrow> data_error + extraction_job \<times> research_db" where
  "ensure_extraction sx now wid turn rid xid db =
    (case sql_find (\<lambda>x. xj_run x = rid \<and> in_ws sx db (xj_workspace x)) (rd_extractions db) of
       Some x \<Rightarrow> Inr (x, db)
     | None \<Rightarrow>
         and_then (found turn DDatabase) (\<lambda>tid.
         let x = \<lparr>xj_id = xid, xj_workspace = wid, xj_turn = tid, xj_run = rid, xj_status = XQueued, xj_attempt = 1,
                  xj_created_at = now\<rparr>
         in and_then (require (tid \<in> set (map tu_id (rd_turns db)) \<and> in_ws sx db wid
               \<and> \<not> list_ex (\<lambda>y. xj_id y = xid \<or> xj_run y = rid) (rd_extractions db)) DDatabase) (\<lambda>_.
            Inr (x, db\<lparr>rd_extractions := rd_extractions db @ [x]\<rparr>))))"

definition settle_turn :: "session_ctx \<Rightarrow> uuid option \<Rightarrow> turn_status \<Rightarrow> research_db \<Rightarrow> research_db" where
  "settle_turn sx turn st db =
    (case turn of
       None \<Rightarrow> db
     | Some tid \<Rightarrow>
         (case find_turn sx tid db of
            None \<Rightarrow> db
          | Some t \<Rightarrow> if tu_status t \<in> {TurnSucceeded, TurnRunFailed} then db else set_turn_status sx tid st db))"

definition analysis_output :: "string \<Rightarrow> json" where
  "analysis_output text_md = JObj [(''analysis_markdown'', JStr text_md)]"

definition complete_run ::
    "session_ctx \<Rightarrow> timestamp \<Rightarrow> uuid \<Rightarrow> uuid \<Rightarrow> uuid option \<Rightarrow> string \<Rightarrow> uuid \<Rightarrow> uuid \<Rightarrow> uuid \<Rightarrow> research_db
      \<Rightarrow> data_error + research_db" where
  "complete_run sx now rid wid turn answer reid xid eid db =
    and_then (found (find_analysis sx rid db) DPython) (\<lambda>r.
    if ar_status r = ASucceeded then Inr db
    else and_then (require (ar_status r \<in> {AQueued, ARunning}) DPython) (\<lambda>_.
         and_then (write_result sx turn rid (analysis_output answer) reid
            (update_runs (run_row sx db rid) (\<lambda>r. r\<lparr>ar_status := ASucceeded\<rparr>) db)) (\<lambda>db1.
         and_then (ensure_extraction sx now wid turn rid xid (settle_turn sx turn TurnSucceeded db1)) (\<lambda>(x, db2).
         Inr (enqueue_research eid now ''research_candidate_extraction'' (xj_id x)
                ''research.candidate_extraction.requested''
                (principal_payload (case sx_actor sx of None \<Rightarrow> '''' | Some a \<Rightarrow> uuid_str a) (uuid_str (sx_dept sx)) wid)
                db2)))))"

definition fail_run :: "session_ctx \<Rightarrow> uuid \<Rightarrow> uuid option \<Rightarrow> research_db \<Rightarrow> research_db" where
  "fail_run sx rid turn db =
    settle_turn sx turn TurnRunFailed
      (update_runs (\<lambda>r. run_row sx db rid r \<and> ar_status r \<notin> {ASucceeded, AFailed}) (\<lambda>r. r\<lparr>ar_status := AFailed\<rparr>) db)"

text \<open>
  After the claim: \<open>answer\<close> is the text of the analysis, \<open>None\<close> where the configuration is missing or
  the analysis raises. An exception while completing rolls back and fails the run.
\<close>

definition finish_run ::
    "session_ctx \<Rightarrow> timestamp \<Rightarrow> run_claim \<Rightarrow> string option \<Rightarrow> uuid \<Rightarrow> uuid \<Rightarrow> uuid \<Rightarrow> research_db \<Rightarrow> bool \<times> research_db" where
  "finish_run sx now c answer reid xid eid db =
    (let failed = (False, fail_run sx (rc_run c) (rc_turn c) db)
     in case answer of
          None \<Rightarrow> failed
        | Some a \<Rightarrow>
            (case complete_run sx now (rc_run c) (rc_workspace c) (rc_turn c) a reid xid eid db of
               Inl _ \<Rightarrow> failed
             | Inr db' \<Rightarrow> (True, db')))"

section \<open>Extracting candidates\<close>

definition extraction_where :: "session_ctx \<Rightarrow> research_db \<Rightarrow> uuid \<Rightarrow> extraction_status \<Rightarrow> extraction_job \<Rightarrow> bool" where
  "extraction_where sx db xid st x \<longleftrightarrow> xj_id x = xid \<and> xj_status x = st \<and> in_ws sx db (xj_workspace x)"

definition update_extraction_status ::
    "session_ctx \<Rightarrow> uuid \<Rightarrow> extraction_status \<Rightarrow> extraction_status \<Rightarrow> research_db \<Rightarrow> data_error + extraction_job \<times> research_db" where
  "update_extraction_status sx xid expected new db =
    (case sql_find (extraction_where sx db xid expected) (rd_extractions db) of
       None \<Rightarrow> Inl (state_conflict [(''extraction_id'', JStr (uuid_str xid))])
     | Some x \<Rightarrow> Inr (x\<lparr>xj_status := new\<rparr>,
         db\<lparr>rd_extractions := sql_update (extraction_where sx db xid expected) (\<lambda>x. x\<lparr>xj_status := new\<rparr>) (rd_extractions db)\<rparr>))"

definition try_extraction_status ::
    "session_ctx \<Rightarrow> uuid \<Rightarrow> extraction_status \<Rightarrow> extraction_status \<Rightarrow> research_db \<Rightarrow> research_db" where
  "try_extraction_status sx xid expected new db =
    (case update_extraction_status sx xid expected new db of Inl _ \<Rightarrow> db | Inr (x, db') \<Rightarrow> db')"

text \<open>The claim of \<open>research.candidates.extract\<close>: the turn and its newest plan, or nothing to do.\<close>

definition claim_extraction ::
    "session_ctx \<Rightarrow> uuid \<Rightarrow> research_db \<Rightarrow> (extraction_job \<times> research_turn \<times> plan_version) option \<times> research_db" where
  "claim_extraction sx xid db =
    (case update_extraction_status sx xid XQueued XRunning db of
       Inl _ \<Rightarrow> (None, db)
     | Inr (x, db1) \<Rightarrow>
         (let failed = (None, try_extraction_status sx xid XRunning XFailed db1)
          in case find_turn sx (xj_turn x) db1 of
               None \<Rightarrow> failed
             | Some t \<Rightarrow>
                 (case latest_by pv_number
                     (filter (\<lambda>p. pv_turn p = Some (xj_turn x) \<and> in_ws sx db1 (pv_workspace p)) (rd_plans db1)) of
                    None \<Rightarrow> failed
                  | Some p \<Rightarrow> (Some (x, t, p), db1))))"

definition finish_extraction :: "session_ctx \<Rightarrow> uuid \<Rightarrow> bool \<Rightarrow> research_db \<Rightarrow> research_db" where
  "finish_extraction sx xid extracted db =
    try_extraction_status sx xid XRunning (if extracted then XSucceeded else XFailed) db"

section \<open>The reconciler\<close>

text \<open>
  \<open>research.timeline.reconcile\<close> works on the rows its session sees and that no other transaction holds
  (\<open>locked\<close>), at most 100 of each table. \<open>fresh\<close> gives the new events their identifiers.
\<close>

definition RECONCILE_SECONDS :: int where
  "RECONCILE_SECONDS = 600"

definition stale_run :: "session_ctx \<Rightarrow> (uuid \<Rightarrow> bool) \<Rightarrow> timestamp \<Rightarrow> research_db \<Rightarrow> analysis_run \<Rightarrow> bool" where
  "stale_run sx locked now db r \<longleftrightarrow> ar_status r \<in> {AQueued, ARunning} \<and> ar_submitted_at r < now - RECONCILE_SECONDS
    \<and> in_ws sx db (ar_workspace r) \<and> \<not> locked (ar_id r)"

definition reconcile_run :: "session_ctx \<Rightarrow> timestamp \<Rightarrow> (uuid \<Rightarrow> uuid) \<Rightarrow> analysis_run \<Rightarrow> research_db \<Rightarrow> research_db" where
  "reconcile_run sx now fresh r db =
    (if ar_status r = AQueued
     then enqueue_research (fresh (ar_id r)) now ''research_analysis_run'' (ar_id r) ''research.run.requested''
            (principal_payload (uuid_str (ar_created_by r)) '''' (ar_workspace r)) db
     else update_runs (run_row sx db (ar_id r)) (\<lambda>r. r\<lparr>ar_status := AFailed\<rparr>) db)"

definition stale_extraction :: "session_ctx \<Rightarrow> (uuid \<Rightarrow> bool) \<Rightarrow> timestamp \<Rightarrow> research_db \<Rightarrow> extraction_job \<Rightarrow> bool" where
  "stale_extraction sx locked now db x \<longleftrightarrow> xj_status x \<in> {XQueued, XRunning} \<and> xj_created_at x < now - RECONCILE_SECONDS
    \<and> in_ws sx db (xj_workspace x) \<and> \<not> locked (xj_id x)"

definition reconcile_extraction ::
    "session_ctx \<Rightarrow> timestamp \<Rightarrow> (uuid \<Rightarrow> uuid) \<Rightarrow> extraction_job \<Rightarrow> research_db \<Rightarrow> research_db" where
  "reconcile_extraction sx now fresh x db =
    (if xj_status x = XQueued
     then enqueue_research (fresh (xj_id x)) now ''research_candidate_extraction'' (xj_id x)
            ''research.candidate_extraction.requested'' (principal_payload '''' '''' (xj_workspace x)) db
     else db\<lparr>rd_extractions := sql_update (\<lambda>y. xj_id y = xj_id x \<and> in_ws sx db (xj_workspace y))
            (\<lambda>y. y\<lparr>xj_status := XFailed\<rparr>) (rd_extractions db)\<rparr>)"

definition reconcile_timeline ::
    "session_ctx \<Rightarrow> (uuid \<Rightarrow> bool) \<Rightarrow> timestamp \<Rightarrow> (uuid \<Rightarrow> uuid) \<Rightarrow> research_db \<Rightarrow> research_db" where
  "reconcile_timeline sx locked now fresh db =
    (let db1 = foldl (\<lambda>d r. reconcile_run sx now fresh r d) db (take 100 (filter (stale_run sx locked now db) (rd_runs db)))
     in foldl (\<lambda>d x. reconcile_extraction sx now fresh x d) db1
          (take 100 (filter (stale_extraction sx locked now db1) (rd_extractions db1))))"

end
