(* ===== verification/Conclusions.thy ===== *)
theory Conclusions imports ResearchTimeline PyText begin

text \<open>
  Conclusions and their revisions (\<open>timeline/conclusion_service.py\<close>, \<open>conclusion_repository.py\<close>). Of
  the service only what the API or a test reaches; the saving of extracted candidates is wired to nothing
  that fills their table. Times of creation and update are left out.
\<close>

section \<open>Repository\<close>

definition insert_conclusion ::
    "session_ctx \<Rightarrow> uuid \<Rightarrow> uuid \<Rightarrow> uuid option \<Rightarrow> string \<Rightarrow> string \<Rightarrow> uuid \<Rightarrow> research_db \<Rightarrow> data_error + research_db" where
  "insert_conclusion sx cid wid turn source evidence creator db =
    and_then (insert_row co_id (\<lambda>c. in_ws sx db (co_workspace c))
      \<lparr>co_id = cid, co_workspace = wid, co_current = None, co_source_turn = turn, co_source_type = source,
       co_evidence = evidence, co_status = ''active'', co_created_by = creator, co_lock_version = 0\<rparr>
      (rd_conclusions db)) (\<lambda>rows. Inr (db\<lparr>rd_conclusions := rows\<rparr>))"

definition insert_revision ::
    "session_ctx \<Rightarrow> uuid \<Rightarrow> uuid \<Rightarrow> nat \<Rightarrow> string \<Rightarrow> string option \<Rightarrow> json \<Rightarrow> string option \<Rightarrow> uuid \<Rightarrow> research_db
      \<Rightarrow> data_error + research_db" where
  "insert_revision sx rid cid n statement scope refs limitations editor db =
    and_then (require (\<not> list_ex (\<lambda>r. cr_conclusion r = cid \<and> cr_number r = n) (rd_revisions db)) DDatabase) (\<lambda>_.
    and_then (insert_row cr_id (\<lambda>r. of_conclusion sx db (cr_conclusion r))
      \<lparr>cr_id = rid, cr_conclusion = cid, cr_number = n, cr_statement = statement, cr_scope = scope, cr_refs = refs,
       cr_limitations = limitations, cr_editor = editor\<rparr>
      (rd_revisions db)) (\<lambda>rows. Inr (db\<lparr>rd_revisions := rows\<rparr>)))"

definition conclusion_row :: "session_ctx \<Rightarrow> research_db \<Rightarrow> uuid \<Rightarrow> conclusion \<Rightarrow> bool" where
  "conclusion_row sx db cid c \<longleftrightarrow> co_id c = cid \<and> in_ws sx db (co_workspace c)"

definition set_current_revision :: "session_ctx \<Rightarrow> uuid \<Rightarrow> uuid \<Rightarrow> research_db \<Rightarrow> research_db" where
  "set_current_revision sx cid rid db =
    db\<lparr>rd_conclusions := sql_update (conclusion_row sx db cid) (\<lambda>c. c\<lparr>co_current := Some rid\<rparr>) (rd_conclusions db)\<rparr>"

definition get_conclusion :: "session_ctx \<Rightarrow> uuid \<Rightarrow> research_db \<Rightarrow> conclusion option" where
  "get_conclusion sx cid db = sql_find (conclusion_row sx db cid) (rd_conclusions db)"

definition get_latest_revision :: "session_ctx \<Rightarrow> uuid \<Rightarrow> research_db \<Rightarrow> conclusion_revision option" where
  "get_latest_revision sx cid db =
    latest_by cr_number (filter (\<lambda>r. cr_conclusion r = cid \<and> of_conclusion sx db (cr_conclusion r)) (rd_revisions db))"

definition lock_conflict :: "uuid \<Rightarrow> int \<Rightarrow> data_error" where
  "lock_conflict cid expected =
    state_conflict [(''conclusion_id'', JStr (uuid_str cid)), (''expected_lock'', JInt expected)]"

text \<open>The optimistic lock: the row with the expected version gets the next one.\<close>

definition lock_where :: "session_ctx \<Rightarrow> research_db \<Rightarrow> uuid \<Rightarrow> int \<Rightarrow> conclusion \<Rightarrow> bool" where
  "lock_where sx db cid expected c \<longleftrightarrow> conclusion_row sx db cid c \<and> int (co_lock_version c) = expected"

definition locked_update ::
    "session_ctx \<Rightarrow> uuid \<Rightarrow> int \<Rightarrow> (conclusion \<Rightarrow> conclusion) \<Rightarrow> research_db \<Rightarrow> data_error + research_db" where
  "locked_update sx cid expected f db =
    (if sql_rowcount (lock_where sx db cid expected) (rd_conclusions db) = 0 then Inl (lock_conflict cid expected)
     else Inr (db\<lparr>rd_conclusions := sql_update (lock_where sx db cid expected) f (rd_conclusions db)\<rparr>))"

definition update_conclusion_lock :: "session_ctx \<Rightarrow> uuid \<Rightarrow> int \<Rightarrow> research_db \<Rightarrow> data_error + research_db" where
  "update_conclusion_lock sx cid expected db =
    locked_update sx cid expected (\<lambda>c. c\<lparr>co_lock_version := nat (expected + 1)\<rparr>) db"

definition archive_conclusion :: "session_ctx \<Rightarrow> uuid \<Rightarrow> int \<Rightarrow> research_db \<Rightarrow> data_error + research_db" where
  "archive_conclusion sx cid expected db =
    locked_update sx cid expected (\<lambda>c. c\<lparr>co_status := ''archived'', co_lock_version := nat (expected + 1)\<rparr>) db"

section \<open>Service\<close>

definition missing_conclusion :: "uuid \<Rightarrow> data_error" where
  "missing_conclusion cid = missing_row ''conclusion_id'' cid"

text \<open>The commands refuse a blank statement and a key that is empty or longer than 128 characters.\<close>

definition create_manual ::
    "session_ctx \<Rightarrow> uuid \<Rightarrow> string \<Rightarrow> string \<Rightarrow> string option \<Rightarrow> string option \<Rightarrow> uuid \<Rightarrow> uuid \<Rightarrow> research_db
      \<Rightarrow> data_error + research_db" where
  "create_manual sx wid statement key scope limitations cid rid db =
    and_then (require (\<not> is_blank statement \<and> key_ok key) DPython) (\<lambda>_.
    and_then (require_actor sx) (\<lambda>actor.
    and_then (insert_conclusion sx cid wid None ''manual'' ''manual_unverified'' actor db) (\<lambda>db1.
    and_then (insert_revision sx rid cid 1 statement scope (JArr []) limitations actor db1) (\<lambda>db2.
    research_audit sx ''research.conclusion.create_manual'' cid (set_current_revision sx cid rid db2)))))"

definition revise ::
    "session_ctx \<Rightarrow> uuid \<Rightarrow> uuid \<Rightarrow> string \<Rightarrow> int \<Rightarrow> string option \<Rightarrow> string option \<Rightarrow> uuid \<Rightarrow> research_db
      \<Rightarrow> data_error + research_db" where
  "revise sx wid cid statement expected scope limitations rid db =
    and_then (require (\<not> is_blank statement) DPython) (\<lambda>_.
    and_then (require_actor sx) (\<lambda>actor.
    and_then (found (get_conclusion sx cid db) (missing_conclusion cid)) (\<lambda>c.
    and_then (require (co_workspace c = wid) (missing_conclusion cid)) (\<lambda>_.
    and_then (update_conclusion_lock sx cid expected db) (\<lambda>db1.
    let latest = get_latest_revision sx cid db1
    in and_then (insert_revision sx rid cid (case latest of None \<Rightarrow> 1 | Some r \<Rightarrow> cr_number r + 1) statement scope
                   (case latest of None \<Rightarrow> JArr [] | Some r \<Rightarrow> cr_refs r) limitations actor db1) (\<lambda>db2.
       research_audit sx ''research.conclusion.revise'' rid (set_current_revision sx cid rid db2)))))))"

definition archive :: "session_ctx \<Rightarrow> uuid \<Rightarrow> uuid \<Rightarrow> int \<Rightarrow> research_db \<Rightarrow> data_error + research_db" where
  "archive sx wid cid expected db =
    and_then (require_actor sx) (\<lambda>_.
    and_then (found (get_conclusion sx cid db) (missing_conclusion cid)) (\<lambda>c.
    and_then (require (co_workspace c = wid) (missing_conclusion cid)) (\<lambda>_.
    and_then (archive_conclusion sx cid expected db) (\<lambda>db1.
    research_audit sx ''research.conclusion.archive'' cid db1))))"

text \<open>A block of a turn saved as a conclusion; there is no audit event.\<close>

definition save_from_block ::
    "session_ctx \<Rightarrow> uuid \<Rightarrow> uuid \<Rightarrow> string \<Rightarrow> uuid \<Rightarrow> uuid \<Rightarrow> research_db \<Rightarrow> data_error + research_db" where
  "save_from_block sx wid tid statement cid rid db =
    and_then (require (\<not> is_blank statement) (app_fail ''validation_failed'' [])) (\<lambda>_.
    and_then (require_actor sx) (\<lambda>actor.
    and_then (found (find_turn sx tid db) (app_fail ''not_found'' [])) (\<lambda>t.
    and_then (require (tu_workspace t = wid) (app_fail ''not_found'' [])) (\<lambda>_.
    and_then (insert_conclusion sx cid wid (Some tid) ''ai_original'' ''data_supported'' actor db) (\<lambda>db1.
    and_then (insert_revision sx rid cid 1 statement None (JArr []) None actor db1) (\<lambda>db2.
    Inr (set_current_revision sx cid rid db2)))))))"

text \<open>
  The other two open a session without the settings that the row policies read: no user, no department.
\<close>

definition bare_session :: session_ctx where
  "bare_session = \<lparr>sx_visible = [], sx_dept = 0, sx_rls_dept = None, sx_actor = None\<rparr>"

definition list_conclusions :: "uuid \<Rightarrow> research_db \<Rightarrow> (conclusion \<times> nat \<times> string) list" where
  "list_conclusions wid db =
    map (\<lambda>c. (c, case Option.bind (co_current c) (\<lambda>i. sql_find (\<lambda>r. cr_id r = i \<and> of_conclusion bare_session db (cr_conclusion r))
                                                     (rd_revisions db)) of
                   None \<Rightarrow> (0, []) | Some r \<Rightarrow> (cr_number r, cr_statement r)))
      (filter (\<lambda>c. co_workspace c = wid \<and> co_status c = ''active'' \<and> in_ws bare_session db (co_workspace c)) (rd_conclusions db))"

definition delete_conclusion :: "uuid \<Rightarrow> uuid \<Rightarrow> research_db \<Rightarrow> data_error + research_db" where
  "delete_conclusion wid cid db =
    and_then (found (sql_find (\<lambda>c. conclusion_row bare_session db cid c \<and> co_workspace c = wid) (rd_conclusions db))
       (app_fail ''not_found'' [])) (\<lambda>_.
    Inr (db\<lparr>rd_conclusions := sql_update (\<lambda>c. conclusion_row bare_session db cid c \<and> co_workspace c = wid)
      (\<lambda>c. c\<lparr>co_status := ''archived''\<rparr>) (rd_conclusions db)\<rparr>))"

inductive conclusion_step :: "session_ctx \<Rightarrow> research_db \<Rightarrow> research_db \<Rightarrow> bool" for sx where
  creates_manual: "create_manual sx wid statement key scope limitations cid rid db = Inr db' \<Longrightarrow> conclusion_step sx db db'"
| revises: "revise sx wid cid statement expected scope limitations rid db = Inr db' \<Longrightarrow> conclusion_step sx db db'"
| archives: "archive sx wid cid expected db = Inr db' \<Longrightarrow> conclusion_step sx db db'"
| saves_block: "save_from_block sx wid tid statement cid rid db = Inr db' \<Longrightarrow> conclusion_step sx db db'"
| deletes_conclusion: "delete_conclusion wid cid db = Inr db' \<Longrightarrow> conclusion_step sx db db'"

section \<open>What a session without identity can do\<close>

lemma bare_sees [simp]: "\<not> sees_ws bare_session w" "\<not> in_ws bare_session db wid"
  by (simp_all add: bare_session_def sees_ws_def in_ws_def list_ex_iff)

lemma bare_row [simp]: "\<not> conclusion_row bare_session db cid c"
  by (simp add: conclusion_row_def)

lemma bare_deletes_nothing: "delete_conclusion wid cid db = Inl (app_fail ''not_found'' [])"
proof -
  have "sql_find (\<lambda>c. False) (rd_conclusions db) = None"
    by (simp add: sql_simps)
  then show ?thesis
    by (simp add: delete_conclusion_def)
qed

text \<open>
  The list of the conclusions of a workspace is always empty and deleting a conclusion always fails
  with \<open>not_found\<close>, whatever is stored and whoever asks: both open a session without a user, in which the
  row policies hide every conclusion.
\<close>

theorem conclusions_never_listed:
  shows "list_conclusions wid db = []" and "delete_conclusion wid cid db = Inl (app_fail ''not_found'' [])"
  by (simp_all add: list_conclusions_def bare_deletes_nothing)

end
