(* ===== verification/ResearchSystem.thy ===== *)
theory ResearchSystem imports ResearchRuns Conclusions begin

text \<open>
  Any interleaving of the users, the plan task, the workers and the reconciler of the research timeline.
  The operations are shown to be sequences of a few kinds of change to the tables, and the invariants
  are proved for these: who sees what, how turns move, that a run is executed once.
\<close>

section \<open>Steps\<close>

text \<open>
  One transaction of a session. The check of a turn or of a run and what is then written are one step;
  with \<open>late\<close> also the writing alone, after a check that another transaction has outdated. The
  identifier of a new turn is new: no run refers to it. A plan is bound after it has been inserted.
\<close>

definition unused_turn :: "uuid \<Rightarrow> research_db \<Rightarrow> bool" where
  "unused_turn tid db \<longleftrightarrow> (\<forall>r\<in>set (rd_runs db). ar_turn r \<noteq> Some tid)"

inductive db_step :: "research_schema \<Rightarrow> bool \<Rightarrow> session_ctx \<Rightarrow> research_db \<Rightarrow> research_db \<Rightarrow> bool"
  for schema late sx where
  creates_workspace: "create_workspace sx wid name db = Inr (w, db') \<Longrightarrow> db_step schema late sx db db'"
| renames_workspace: "update_workspace_name sx wid name db = Inr db' \<Longrightarrow> db_step schema late sx db db'"
| archives_workspace: "archive_workspace sx wid db = Inr db' \<Longrightarrow> db_step schema late sx db db'"
| restores_workspace: "restore_workspace sx wid db = Inr db' \<Longrightarrow> db_step schema late sx db db'"
| freezes_snapshot: "freeze_snapshot sx now wid refs sid bid eid db = Inr (s, db') \<Longrightarrow> db_step schema late sx db db'"
| creates_turn: "create_analysis_turn sx c tid db = Inr (t, db') \<Longrightarrow> unused_turn tid db \<Longrightarrow> db_step schema late sx db db'"
| creates_synthesis: "create_synthesis_turn ask sx c tid db = Inr (t, db') \<Longrightarrow> unused_turn tid db \<Longrightarrow>
    db_step schema late sx db db'"
| writes_turn_late: "late \<Longrightarrow> write_turn sx what question origin item action c tid db = Inr (t, db') \<Longrightarrow>
    unused_turn tid db \<Longrightarrow> db_step schema late sx db db'"
| starts_planning: "start_planning sx now wid tid eid db = Inr db' \<Longrightarrow> db_step schema late sx db db'"
| confirms_turn_plan: "confirm_turn_plan sx now wid tid pid db = Inr db' \<Longrightarrow> db_step schema late sx db db'"
| deletes_turn: "delete_turn sx wid tid db = Inr db' \<Longrightarrow> db_step schema late sx db db'"
| loads_planning: "load_planning sx wid tid db = (answer, db') \<Longrightarrow> db_step schema late sx db db'"
| fails_planning: "db_step schema late sx db (try_turn_status sx tid Planning PlanningFailed db)"
| generates_plan: "generate_plan schema sx advise wid sid pid db = Inr (p, db') \<Longrightarrow> db_step schema late sx db db'"
| binds_plan: "bind_plan sx tid pid db = Inr db' \<Longrightarrow> pid \<in> pv_id ` set (rd_plans db) \<Longrightarrow> db_step schema late sx db db'"
| confirms_plan: "confirm_plan sx now wid pid db = Inr db' \<Longrightarrow> db_step schema late sx db db'"
| revises_plan: "revise_plan schema sx wid pid items nid db = Inr (p, db') \<Longrightarrow> db_step schema late sx db db'"
| submits_turn_run: "submit_turn_run schema sx now wid tid rid eid db = Inr (r, db') \<Longrightarrow> db_step schema late sx db db'"
| writes_run_late: "late \<Longrightarrow> write_run schema sx now actor wid tid pid sid rid eid db = Inr (r, db') \<Longrightarrow>
    (\<And>t. t \<in> set (rd_turns db) \<Longrightarrow> tu_id t = tid \<Longrightarrow> tu_workspace t = wid) \<Longrightarrow> db_step schema late sx db db'"
| submits_run: "submit_run schema sx now wid pid sid None rid eid db = Inr (r, db') \<Longrightarrow> db_step schema late sx db db'"
| cancels_run: "cancel_run sx now rid db = Inr db' \<Longrightarrow> db_step schema late sx db db'"
| claims_extraction: "claim_extraction sx xid db = (answer, db') \<Longrightarrow> db_step schema late sx db db'"
| finishes_extraction: "db_step schema late sx db (finish_extraction sx xid extracted db)"
| concludes: "conclusion_step sx db db' \<Longrightarrow> db_step schema late sx db db'"
| reconciles: "db_step schema late sx db (reconcile_timeline sx locked now fresh db)"
| dispatches: "db_step schema late sx db (db\<lparr>rd_outbox := ob\<rparr>)"

text \<open>
  The executions in progress: a worker that has claimed a run finishes it some time later, in a session
  that may see other departments by then, or dies.
\<close>

record research_sys =
  ry_db :: research_db
  ry_claims :: "run_claim list"

inductive research_step :: "research_schema \<Rightarrow> bool \<Rightarrow> session_ctx \<Rightarrow> research_sys \<Rightarrow> research_sys \<Rightarrow> bool"
  for schema late sx where
  acts: "db_step schema late sx (ry_db y) db' \<Longrightarrow> research_step schema late sx y (y\<lparr>ry_db := db'\<rparr>)"
| claims: "claim_run sx now rid (ry_db y) = (Claimed c, db') \<Longrightarrow>
    research_step schema late sx y \<lparr>ry_db = db', ry_claims = c # ry_claims y\<rparr>"
| finishes: "c \<in> set (ry_claims y) \<Longrightarrow> finish_run sx now c answer reid xid eid (ry_db y) = (ok, db') \<Longrightarrow>
    research_step schema late sx y \<lparr>ry_db = db', ry_claims = filter (\<lambda>x. rc_run x \<noteq> rc_run c) (ry_claims y)\<rparr>"
| dies: "research_step schema late sx y (y\<lparr>ry_claims := filter (\<lambda>x. rc_run x \<noteq> rid) (ry_claims y)\<rparr>)"

definition empty_research :: research_sys where
  "empty_research =
    \<lparr>ry_db = \<lparr>rd_workspaces = [], rd_snapshots = [], rd_batches = [], rd_turns = [], rd_contexts = [], rd_plans = [],
              rd_runs = [], rd_results = [], rd_extractions = [], rd_conclusions = [], rd_revisions = [],
              rd_outbox = [], rd_audit = []\<rparr>,
     ry_claims = []\<rparr>"

definition research_steps :: "research_schema \<Rightarrow> bool \<Rightarrow> research_sys \<Rightarrow> research_sys \<Rightarrow> bool" where
  "research_steps schema late = (\<lambda>y y'. \<exists>sx. research_step schema late sx y y')\<^sup>*\<^sup>*"

definition reachable_research :: "research_schema \<Rightarrow> bool \<Rightarrow> research_sys \<Rightarrow> bool" where
  "reachable_research schema late y \<longleftrightarrow> research_steps schema late empty_research y"

section \<open>Kinds of change\<close>

definition plan_moves :: "(turn_status \<times> turn_status) set" where
  "plan_moves = {(QuestionDraft, Planning), (PlanningFailed, Planning), (Planning, PlanReview),
     (Planning, PlanningFailed), (PlanReview, PlanConfirmed)}"

definition core_same :: "research_db \<Rightarrow> research_db \<Rightarrow> bool" where
  "core_same db db' \<longleftrightarrow> rd_workspaces db' = rd_workspaces db \<and> rd_snapshots db' = rd_snapshots db
    \<and> rd_turns db' = rd_turns db \<and> rd_plans db' = rd_plans db \<and> rd_runs db' = rd_runs db
    \<and> rd_results db' = rd_results db \<and> rd_extractions db' = rd_extractions db"

definition notes_same :: "research_db \<Rightarrow> research_db \<Rightarrow> bool" where
  "notes_same db db' \<longleftrightarrow> rd_conclusions db' = rd_conclusions db \<and> rd_revisions db' = rd_revisions db"

definition same_tables :: "research_db \<Rightarrow> research_db \<Rightarrow> bool" where
  "same_tables db db' \<longleftrightarrow> core_same db db' \<and> notes_same db db'"

lemmas same_defs = same_tables_def core_same_def notes_same_def

inductive change :: "research_schema \<Rightarrow> bool \<Rightarrow> session_ctx \<Rightarrow> research_db \<Rightarrow> research_db \<Rightarrow> bool" for schema late sx where
  other_tables: "same_tables db db' \<Longrightarrow> change schema late sx db db'"
| concluded: "conclusion_step sx db db' \<Longrightarrow> change schema late sx db db'"
| new_workspace: "sees_ws sx w \<Longrightarrow> ws_id w \<notin> ws_id ` set (rd_workspaces db) \<Longrightarrow>
    change schema late sx db (db\<lparr>rd_workspaces := rd_workspaces db @ [w]\<rparr>)"
| workspace_fields: "(\<And>w. ws_id w = wid \<Longrightarrow> w \<in> set (rd_workspaces db) \<Longrightarrow> sees_ws sx w \<Longrightarrow>
      ws_id (f w) = ws_id w \<and> ws_owner (f w) = ws_owner w \<and> ws_dept (f w) = ws_dept w \<and> ws_next_turn w \<le> ws_next_turn (f w)) \<Longrightarrow>
    change schema late sx db (update_workspaces sx wid f db)"
| new_snapshot: "in_ws sx db (sn_workspace s) \<Longrightarrow> change schema late sx db (db\<lparr>rd_snapshots := rd_snapshots db @ [s]\<rparr>)"
| new_turn: "turn_admissible sx t db \<Longrightarrow> tu_status t = QuestionDraft \<Longrightarrow> unused_turn (tu_id t) db \<Longrightarrow>
    \<exists>w\<in>set (rd_workspaces db). ws_id w = tu_workspace t \<and> tu_number t < ws_next_turn w \<Longrightarrow>
    change schema late sx db (db\<lparr>rd_turns := rd_turns db @ [t], rd_contexts := cs\<rparr>)"
| turn_moves: "\<forall>a\<in>set as. (a, b) \<in> plan_moves \<Longrightarrow> b \<in> {PlanReview, PlanConfirmed} \<Longrightarrow> rd_plans db \<noteq> [] \<Longrightarrow>
    change schema late sx db (db\<lparr>rd_turns := sql_update (turn_where sx db tid as) (\<lambda>t. t\<lparr>tu_status := b\<rparr>) (rd_turns db)\<rparr>)"
| turn_plans: "\<forall>a\<in>set as. (a, b) \<in> plan_moves \<Longrightarrow> b \<in> {Planning, PlanningFailed} \<Longrightarrow>
    change schema late sx db (db\<lparr>rd_turns := sql_update (turn_where sx db tid as)
      (\<lambda>t. t\<lparr>tu_status := b, tu_versions := v t\<rparr>) (rd_turns db)\<rparr>)"
| new_plan: "insert_plan_version schema sx p db = Inr db' \<Longrightarrow> pv_turn p = None \<Longrightarrow> change schema late sx db db'"
| plan_fields: "(\<And>p. q p \<Longrightarrow> in_ws sx db (pv_workspace p)) \<Longrightarrow>
    (\<And>p. pv_id (f p) = pv_id p \<and> pv_workspace (f p) = pv_workspace p) \<Longrightarrow> change schema late sx db (update_plans q f db)"
| new_run: "queue_run schema sx now actor wid None n pid sid rid eid db = Inr (r, db') \<Longrightarrow> change schema late sx db db'"
| new_turn_run: "write_run schema sx now actor wid tid pid sid rid eid db = Inr (r, db') \<Longrightarrow>
    (\<And>t. t \<in> set (rd_turns db) \<Longrightarrow> tu_id t = tid \<Longrightarrow> tu_workspace t = wid) \<Longrightarrow>
    late \<or> (\<exists>t\<in>set (rd_turns db). tu_id t = tid \<and> can_run (tu_status t)) \<Longrightarrow> change schema late sx db db'"
| run_fields: "(\<And>r. q r \<Longrightarrow> in_ws sx db (ar_workspace r)) \<Longrightarrow>
    (\<And>r. q r \<Longrightarrow> \<not> active_status (ar_status (f r))) \<Longrightarrow>
    (\<And>r. ar_id (f r) = ar_id r \<and> ar_workspace (f r) = ar_workspace r \<and> ar_number (f r) = ar_number r
      \<and> ar_turn (f r) = ar_turn r \<and> ar_attempt (f r) = ar_attempt r) \<Longrightarrow> change schema late sx db (update_runs q f db)"
| extraction_fields: "(\<And>x. q x \<Longrightarrow> in_ws sx db (xj_workspace x)) \<Longrightarrow>
    change schema late sx db (db\<lparr>rd_extractions := sql_update q (\<lambda>x. x\<lparr>xj_status := st\<rparr>) (rd_extractions db)\<rparr>)"

abbreviation changes :: "research_schema \<Rightarrow> bool \<Rightarrow> session_ctx \<Rightarrow> research_db \<Rightarrow> research_db \<Rightarrow> bool" where
  "changes schema late sx \<equiv> (change schema late sx)\<^sup>*\<^sup>*"

subsection \<open>Every operation is a sequence of changes\<close>

lemma same_tables_changes: "same_tables db db' \<Longrightarrow> changes schema late sx db db'"
  by (rule r_into_rtranclp) (rule other_tables)

lemma conclusion_step_core: "conclusion_step sx db db' \<Longrightarrow> core_same db db'"
  by (induction rule: conclusion_step.induct)
    (auto simp: core_same_def create_manual_def insert_conclusion_def insert_revision_def set_current_revision_def revise_def
      update_conclusion_lock_def locked_update_def Let_def archive_def archive_conclusion_def save_from_block_def
      delete_conclusion_def research_audit_def split: if_splits)

lemma audit_changes: "research_audit sx a i db = Inr db' \<Longrightarrow> changes schema late sx db db'"
  by (rule same_tables_changes) (auto simp: research_audit_def same_defs split: if_splits)

lemma enqueue_changes: "changes schema late sx db (enqueue_research eid now agg i typ content db)"
  by (rule same_tables_changes) (simp add: enqueue_research_def same_defs)

lemma changes_snoc: "changes schema late sx db db1 \<Longrightarrow> change schema late sx db1 db2 \<Longrightarrow> changes schema late sx db db2"
  by (rule rtranclp.rtrancl_into_rtrancl)

lemma changes_trans: "changes schema late sx db db1 \<Longrightarrow> changes schema late sx db1 db2 \<Longrightarrow> changes schema late sx db db2"
  by (rule rtranclp_trans)

lemma change_changes: "change schema late sx db db' \<Longrightarrow> changes schema late sx db db'"
  by (rule r_into_rtranclp)

lemma in_ws_same [simp]:
  "in_ws sx (db\<lparr>rd_snapshots := a\<rparr>) wid = in_ws sx db wid" "in_ws sx (db\<lparr>rd_turns := b\<rparr>) wid = in_ws sx db wid"
  "in_ws sx (db\<lparr>rd_plans := c\<rparr>) wid = in_ws sx db wid" "in_ws sx (db\<lparr>rd_runs := d\<rparr>) wid = in_ws sx db wid"
  "in_ws sx (db\<lparr>rd_extractions := e\<rparr>) wid = in_ws sx db wid" "in_ws sx (db\<lparr>rd_results := f\<rparr>) wid = in_ws sx db wid"
  "in_ws sx (db\<lparr>rd_outbox := g\<rparr>) wid = in_ws sx db wid" "in_ws sx (db\<lparr>rd_audit := h\<rparr>) wid = in_ws sx db wid"
  "in_ws sx (db\<lparr>rd_contexts := k\<rparr>) wid = in_ws sx db wid" "in_ws sx (db\<lparr>rd_batches := l\<rparr>) wid = in_ws sx db wid"
  by (simp_all add: in_ws_def)

lemma update_tables [simp]:
  "in_ws sx (update_plans p f db) wid = in_ws sx db wid" "in_ws sx (update_runs q g db) wid = in_ws sx db wid"
  "rd_plans (update_plans p f db) = sql_update p f (rd_plans db)" "rd_runs (update_plans p f db) = rd_runs db"
  "rd_turns (update_plans p f db) = rd_turns db" "rd_runs (update_runs q g db) = sql_update q g (rd_runs db)"
  "rd_turns (update_runs q g db) = rd_turns db" "rd_plans (update_runs q g db) = rd_plans db"
  "rd_results (update_runs q g db) = rd_results db" "rd_extractions (update_runs q g db) = rd_extractions db"
  "rd_workspaces (update_runs q g db) = rd_workspaces db" "rd_snapshots (update_runs q g db) = rd_snapshots db"
  by (simp_all add: in_ws_def update_plans_def update_runs_def)

lemma create_workspace_changes:
  "create_workspace sx wid name db = Inr (w, db') \<Longrightarrow> changes schema late sx db db'"
  unfolding create_workspace_def Let_def insert_row_def
  by (auto split: if_splits intro!: changes_trans [OF change_changes [OF new_workspace] audit_changes])

lemma set_workspace_changes:
  assumes "set_workspace sx wid f a db = Inr db'"
    and "\<And>w. ws_id (f w) = ws_id w \<and> ws_owner (f w) = ws_owner w \<and> ws_dept (f w) = ws_dept w \<and> ws_next_turn w \<le> ws_next_turn (f w)"
  shows "changes schema late sx db db'"
proof -
  have "research_audit sx a wid (update_workspaces sx wid f db) = Inr db'"
    using assms(1) by (simp add: set_workspace_def)
  moreover have "changes schema late sx db (update_workspaces sx wid f db)"
    by (rule change_changes [OF workspace_fields]) (simp add: assms(2))
  ultimately show ?thesis
    using audit_changes changes_trans by blast
qed

lemma freeze_snapshot_changes:
  assumes "freeze_snapshot sx now wid refs sid bid eid db = Inr (s, db')"
  shows "changes schema late sx db db'"
proof -
  obtain actor db1 where vis: "in_ws sx db (sn_workspace s)"
    and batch: "initial_batch sx actor now wid sid bid eid (update_workspaces sx wid (\<lambda>w. w\<lparr>ws_latest_snapshot := Some sid\<rparr>)
        (db\<lparr>rd_snapshots := rd_snapshots db @ [s]\<rparr>)) = Inr db1"
    and audit: "research_audit sx ''research.snapshot.freeze'' sid db1 = Inr db'"
    using assms by (auto simp: freeze_snapshot_def Let_def insert_row_def split: if_splits)
  have "changes schema late sx db (db\<lparr>rd_snapshots := rd_snapshots db @ [s]\<rparr>)"
    by (rule change_changes [OF new_snapshot [OF vis]])
  moreover have "changes schema late sx (db\<lparr>rd_snapshots := rd_snapshots db @ [s]\<rparr>) (update_workspaces sx wid
      (\<lambda>w. w\<lparr>ws_latest_snapshot := Some sid\<rparr>) (db\<lparr>rd_snapshots := rd_snapshots db @ [s]\<rparr>))"
    by (rule change_changes [OF workspace_fields]) simp
  moreover have "changes schema late sx (update_workspaces sx wid
      (\<lambda>w. w\<lparr>ws_latest_snapshot := Some sid\<rparr>) (db\<lparr>rd_snapshots := rd_snapshots db @ [s]\<rparr>)) db1"
    using batch by (intro same_tables_changes)
      (auto simp: initial_batch_def Let_def insert_row_def enqueue_research_def same_defs split: if_splits)
  ultimately show ?thesis
    using audit_changes [OF audit] by (meson changes_trans)
qed

lemma write_turn_changes:
  assumes "write_turn sx what question origin item action c tid db = Inr (t, db')" and "unused_turn tid db"
    and "unique_rows ws_id (rd_workspaces db)"
  shows "changes schema late sx db db'"
proof -
  obtain w n where w: "sql_find (\<lambda>w. ws_id w = tc_workspace c \<and> sees_ws sx w) (rd_workspaces db) = Some w"
    and n: "n = ws_next_turn w"
    and t: "tu_id t = tid" "tu_workspace t = tc_workspace c" "tu_number t = n" "tu_status t = QuestionDraft"
    and adm: "turn_admissible sx t (update_workspaces sx (tc_workspace c) (\<lambda>x. x\<lparr>ws_next_turn := n + 1\<rparr>) db)"
    and audit: "research_audit sx action tid ((update_workspaces sx (tc_workspace c) (\<lambda>x. x\<lparr>ws_next_turn := n + 1\<rparr>) db)
          \<lparr>rd_turns := rd_turns (update_workspaces sx (tc_workspace c) (\<lambda>x. x\<lparr>ws_next_turn := n + 1\<rparr>) db) @ [t],
            rd_contexts := rd_contexts db @ context_rows tid (tc_revisions c)\<rparr>) = Inr db'"
    using assms(1) by (auto simp: write_turn_def allocate_turn_number_def Let_def update_workspaces_def)
  let ?f = "\<lambda>x. x\<lparr>ws_next_turn := n + 1\<rparr>"
  let ?db1 = "update_workspaces sx (tc_workspace c) ?f db"
  have seen: "w \<in> set (rd_workspaces db)" "ws_id w = tc_workspace c" "sees_ws sx w"
    using sql_find_SomeD [OF w] by auto
  have only: "x = w" if "ws_id x = tc_workspace c" "x \<in> set (rd_workspaces db)" for x
    using unique_rows_eq [OF assms(3) that(2) seen(1)] seen(2) that(1) by simp
  have 1: "changes schema late sx db ?db1"
    by (rule change_changes [OF workspace_fields]) (use only n in auto)
  have "?f w \<in> set (rd_workspaces ?db1)"
    using seen by (force simp: update_workspaces_def set_sql_update image_iff)
  then have "\<exists>x\<in>set (rd_workspaces ?db1). ws_id x = tu_workspace t \<and> tu_number t < ws_next_turn x"
    using seen(2) t by (intro bexI [of _ "?f w"]) auto
  moreover have "unused_turn (tu_id t) ?db1"
    using assms(2) t by (simp add: unused_turn_def update_workspaces_def)
  ultimately have 2: "changes schema late sx ?db1 (?db1\<lparr>rd_turns := rd_turns ?db1 @ [t],
      rd_contexts := rd_contexts db @ context_rows tid (tc_revisions c)\<rparr>)"
    using adm t(4) by (intro change_changes [OF new_turn])
  show ?thesis
    by (rule changes_trans [OF 1 changes_trans [OF 2 audit_changes [OF audit]]])
qed

lemma create_turn_changes:
  assumes "create_analysis_turn sx c tid db = Inr (t, db') \<or> create_synthesis_turn ask sx c tid db = Inr (t, db')"
    and "unused_turn tid db" and "unique_rows ws_id (rd_workspaces db)"
  shows "changes schema late sx db db'"
  using assms(1) write_turn_changes [OF _ assms(2,3)]
  by (auto simp: create_analysis_turn_def create_synthesis_turn_def write_analysis_turn_def write_synthesis_turn_def
      split: option.splits)

lemma update_turn_status_changes:
  assumes "update_turn_status sx tid a b db = Inr db'" and "(a, b) \<in> plan_moves"
    and "b \<in> {PlanReview, PlanConfirmed} \<Longrightarrow> rd_plans db \<noteq> []"
  shows "changes schema late sx db db'"
proof -
  have db': "db' = db\<lparr>rd_turns := sql_update (turn_where sx db tid [a]) (\<lambda>t. t\<lparr>tu_status := b\<rparr>) (rd_turns db)\<rparr>"
    using assms(1) by (simp add: update_turn_status_def split: if_splits)
  show ?thesis
  proof (cases "b \<in> {PlanReview, PlanConfirmed}")
    case True
    then show ?thesis
      using assms unfolding db' by (intro change_changes [OF turn_moves]) auto
  next
    case False
    then have b: "b \<in> {Planning, PlanningFailed}"
      using assms(2) by (auto simp: plan_moves_def)
    have "change schema late sx db (db\<lparr>rd_turns := sql_update (turn_where sx db tid [a])
        (\<lambda>t. t\<lparr>tu_status := b, tu_versions := tu_versions t\<rparr>) (rd_turns db)\<rparr>)"
      using assms(2) b by (intro turn_plans) auto
    then show ?thesis
      unfolding db' by (intro change_changes) simp
  qed
qed

lemma try_turn_status_changes:
  assumes "(a, b) \<in> plan_moves" and "b \<in> {PlanReview, PlanConfirmed} \<Longrightarrow> rd_plans db \<noteq> []"
  shows "changes schema late sx db (try_turn_status sx tid a b db)"
  using update_turn_status_changes [OF _ assms] by (auto simp: try_turn_status_def split: sum.splits)

lemma start_planning_changes:
  assumes "start_planning sx now wid tid eid db = Inr db'"
  shows "changes schema late sx db db'"
proof -
  obtain db1 db2 v where db1: "db1 = db\<lparr>rd_turns := sql_update (turn_where sx db tid [QuestionDraft, PlanningFailed])
        (\<lambda>t. t\<lparr>tu_status := Planning, tu_versions := v\<rparr>) (rd_turns db)\<rparr>"
    and audit: "research_audit sx ''research.turn.start_planning'' tid db1 = Inr db2"
    and db': "changes schema late sx db2 db'"
    using assms enqueue_changes by (auto simp: start_planning_def lock_turn_inputs_def split: if_splits)
  have "changes schema late sx db db1"
    unfolding db1 by (rule change_changes [OF turn_plans]) (simp_all add: plan_moves_def)
  then show ?thesis
    using audit_changes [OF audit] db' by (meson changes_trans)
qed

lemma find_plan_versionD: "find_plan_version sx pid db = Some p \<Longrightarrow> p \<in> set (rd_plans db) \<and> pv_id p = pid \<and> in_ws sx db (pv_workspace p)"
  by (auto simp: find_plan_version_def dest!: sql_find_SomeD)

lemma update_plans_changes:
  assumes "\<And>p. q p \<Longrightarrow> in_ws sx db (pv_workspace p)" and "\<And>p. pv_id (f p) = pv_id p \<and> pv_workspace (f p) = pv_workspace p"
  shows "changes schema late sx db (update_plans q f db)"
  by (rule change_changes [OF plan_fields]) (simp_all add: assms)

lemma confirm_turn_plan_changes:
  assumes "confirm_turn_plan sx now wid tid pid db = Inr db'"
  shows "changes schema late sx db db'"
proof -
  obtain actor p db1 where p: "find_plan_version sx pid db = Some p"
    and st: "update_turn_status sx tid PlanReview PlanConfirmed
          (update_plans (plan_where sx db pid) (\<lambda>x. x\<lparr>pv_status := PlanIsConfirmed, pv_confirmed := Some (now, actor)\<rparr>) db) = Inr db1"
    and audit: "research_audit sx ''research.turn.confirm_plan'' tid db1 = Inr db'"
    using assms by (auto simp: confirm_turn_plan_def Let_def)
  have "rd_plans db \<noteq> []"
    using find_plan_versionD [OF p] by auto
  then have "rd_plans (update_plans q f db) \<noteq> []" for q f
    by (simp add: sql_update_def)
  then have "changes schema late sx (update_plans (plan_where sx db pid)
      (\<lambda>x. x\<lparr>pv_status := PlanIsConfirmed, pv_confirmed := Some (now, actor)\<rparr>) db) db1"
    by (intro update_turn_status_changes [OF st]) (simp_all add: plan_moves_def)
  moreover have "changes schema late sx db (update_plans (plan_where sx db pid)
      (\<lambda>x. x\<lparr>pv_status := PlanIsConfirmed, pv_confirmed := Some (now, actor)\<rparr>) db)"
    by (rule update_plans_changes) (simp_all add: plan_where_def)
  ultimately show ?thesis
    using audit_changes [OF audit] by (meson changes_trans)
qed

lemma latest_by_SomeD: "latest_by n rows = Some r \<Longrightarrow> r \<in> set rows"
proof -
  assume "latest_by n rows = Some r"
  then obtain rs where "sort_key (\<lambda>r. - int (n r)) rows = r # rs"
    by (auto simp: latest_by_def split: list.splits)
  then show ?thesis
    by (metis list.set_intros(1) set_sort)
qed

lemma load_planning_changes:
  assumes "load_planning sx wid tid db = (answer, db')"
  shows "changes schema late sx db db'"
proof -
  have "db' = db \<or> rd_plans db \<noteq> [] \<and> db' = try_turn_status sx tid Planning PlanReview db"
    using assms latest_by_SomeD [of pv_number "filter (\<lambda>p. pv_turn p = Some tid \<and> in_ws sx db (pv_workspace p)) (rd_plans db)"]
    by (force simp: load_planning_def split: option.splits if_splits)
  then show ?thesis
    using try_turn_status_changes [of Planning PlanReview db] by (auto simp: plan_moves_def)
qed

lemma insert_plan_changes:
  "insert_plan_version schema sx p db = Inr db' \<Longrightarrow> pv_turn p = None \<Longrightarrow> changes schema late sx db db'"
  by (rule change_changes [OF new_plan])

lemma generate_plan_changes:
  assumes "generate_plan schema sx advise wid sid pid db = Inr (p, db')"
  shows "changes schema late sx db db'"
proof -
  obtain db1 latest where ins: "insert_plan_version schema sx p db = Inr db1" and turn: "pv_turn p = None"
    and audit: "research_audit sx ''research.plan.generate'' pid
        (if latest = (None :: plan_version option) then db1 else supersede_old_plans sx wid pid db1) = Inr db'"
    using assms by (auto simp: generate_plan_def Let_def split: prod.splits)
  have "changes schema late sx db1 (supersede_old_plans sx wid pid db1)"
    unfolding supersede_old_plans_def by (rule update_plans_changes) auto
  then have "changes schema late sx db1 (if latest = None then db1 else supersede_old_plans sx wid pid db1)"
    by simp
  then show ?thesis
    using insert_plan_changes [OF ins turn] audit_changes [OF audit] by (meson changes_trans)
qed

lemma bind_plan_changes:
  assumes "bind_plan sx tid pid db = Inr db'" and "pid \<in> pv_id ` set (rd_plans db)"
  shows "changes schema late sx db db'"
proof -
  let ?db1 = "update_plans (plan_where sx db pid) (\<lambda>p. p\<lparr>pv_turn := Some tid\<rparr>) db"
  have db': "db' = try_turn_status sx tid Planning PlanReview ?db1"
    using assms(1) by (auto simp: bind_plan_def Let_def split: if_splits)
  have 1: "changes schema late sx db ?db1"
    by (rule update_plans_changes) (simp_all add: plan_where_def)
  have "rd_plans ?db1 \<noteq> []"
    using assms(2) by (auto simp: sql_update_def)
  then show ?thesis
    unfolding db' using try_turn_status_changes [of Planning PlanReview ?db1]
    by (intro changes_trans [OF 1]) (simp add: plan_moves_def)
qed

lemma confirm_plan_changes:
  assumes "confirm_plan sx now wid pid db = Inr db'"
  shows "changes schema late sx db db'"
proof -
  obtain actor where audit: "research_audit sx ''research.plan.confirm'' pid (update_plans (plan_where sx db pid)
      (\<lambda>x. x\<lparr>pv_status := PlanIsConfirmed, pv_confirmed := Some (now, actor)\<rparr>) db) = Inr db'"
    using assms by (auto simp: confirm_plan_def)
  show ?thesis
    by (rule changes_trans [OF update_plans_changes audit_changes [OF audit]]) (simp_all add: plan_where_def)
qed

lemma revise_plan_changes:
  assumes "revise_plan schema sx wid pid items nid db = Inr (p, db')"
  shows "changes schema late sx db db'"
proof -
  let ?db1 = "update_plans (plan_where sx db pid) (\<lambda>x. x\<lparr>pv_status := PlanSuperseded\<rparr>) db"
  obtain db2 where ins: "insert_plan_version schema sx p ?db1 = Inr db2" and turn: "pv_turn p = None"
    and audit: "research_audit sx ''research.plan.revise'' nid db2 = Inr db'"
    using assms by (auto simp: revise_plan_def Let_def)
  have "changes schema late sx db ?db1"
    by (rule update_plans_changes) (simp_all add: plan_where_def)
  then show ?thesis
    using insert_plan_changes [OF ins turn] audit_changes [OF audit] by (meson changes_trans)
qed

lemma queue_run_changes:
  "queue_run schema sx now actor wid None n pid sid rid eid db = Inr (r, db') \<Longrightarrow> changes schema late sx db db'"
  by (rule change_changes [OF new_run])

lemma check_runD:
  assumes "check_run sx wid tid db = Inr (actor, t, p)"
  shows "t \<in> set (rd_turns db)" "tu_id t = tid" "tu_workspace t = wid" "can_run (tu_status t)" "in_ws sx db wid"
  using assms unfolding check_run_def require_owned_turn_def by (auto dest!: sql_find_SomeD split: option.splits)

lemma submit_turn_run_changes:
  assumes "submit_turn_run schema sx now wid tid rid eid db = Inr (r, db')" and "unique_rows tu_id (rd_turns db)"
  shows "changes schema late sx db db'"
proof -
  obtain actor t p where c: "check_run sx wid tid db = Inr (actor, t, p)"
    and w: "write_run schema sx now actor wid tid (pv_id p) (tu_snapshot t) rid eid db = Inr (r, db')"
    using assms(1) by (auto simp: submit_turn_run_def)
  note t = check_runD [OF c]
  show ?thesis
  proof (rule change_changes, rule new_turn_run [OF w])
    show "tu_workspace x = wid" if "x \<in> set (rd_turns db)" "tu_id x = tid" for x
      using unique_rows_eq [OF assms(2) that(1) t(1)] t(2,3) that(2) by simp
    show "late \<or> (\<exists>t\<in>set (rd_turns db). tu_id t = tid \<and> can_run (tu_status t))"
      using t by blast
  qed
qed

lemma submit_run_changes:
  assumes "submit_run schema sx now wid pid sid None rid eid db = Inr (r, db')"
  shows "changes schema late sx db db'"
proof -
  obtain actor db1 where q: "queue_run schema sx now actor wid None 1 pid sid rid eid db = Inr (r, db1)"
    and audit: "research_audit sx ''research.run.submit'' rid db1 = Inr db'"
    using assms by (auto simp: submit_run_def split: option.splits)
  show ?thesis
    by (rule changes_trans [OF queue_run_changes [OF q] audit_changes [OF audit]])
qed

lemma cancel_run_changes:
  assumes "cancel_run sx now rid db = Inr db'"
  shows "changes schema late sx db db'"
proof -
  obtain actor where audit: "research_audit sx ''research.run.cancel'' rid (update_runs (run_row sx db rid)
      (\<lambda>r. r\<lparr>ar_status := ACancelled, ar_cancelled := Some (now, actor)\<rparr>) db) = Inr db'"
    using assms by (auto simp: cancel_run_def)
  show ?thesis
    by (rule changes_trans [OF change_changes [OF run_fields] audit_changes [OF audit]])
      (simp_all add: run_row_def active_status_def)
qed

lemma try_extraction_changes: "changes schema late sx db (try_extraction_status sx xid a b db)"
proof -
  have "changes schema late sx db (db\<lparr>rd_extractions := sql_update (extraction_where sx db xid a)
      (\<lambda>x. x\<lparr>xj_status := b\<rparr>) (rd_extractions db)\<rparr>)"
    by (rule change_changes [OF extraction_fields]) (simp add: extraction_where_def)
  then show ?thesis
    by (simp add: try_extraction_status_def update_extraction_status_def split: option.split)
qed

lemma claim_extraction_changes:
  assumes "claim_extraction sx xid db = (answer, db')"
  shows "changes schema late sx db db'"
proof -
  have "db' = db \<or> db' = try_extraction_status sx xid XQueued XRunning db
      \<or> db' = try_extraction_status sx xid XRunning XFailed (try_extraction_status sx xid XQueued XRunning db)"
    using assms by (auto simp: claim_extraction_def try_extraction_status_def Let_def
        split: sum.splits option.splits prod.splits)
  then show ?thesis
    using try_extraction_changes changes_trans by blast
qed

lemma reconcile_run_changes: "changes schema late sx db (reconcile_run sx now fresh r db)"
proof -
  have "changes schema late sx db (update_runs (run_row sx db (ar_id r)) (\<lambda>r. r\<lparr>ar_status := AFailed\<rparr>) db)"
    by (rule change_changes [OF run_fields]) (simp_all add: run_row_def active_status_def)
  then show ?thesis
    using enqueue_changes by (simp add: reconcile_run_def)
qed

lemma reconcile_extraction_changes: "changes schema late sx db (reconcile_extraction sx now fresh x db)"
proof -
  have "changes schema late sx db (db\<lparr>rd_extractions := sql_update (\<lambda>y. xj_id y = xj_id x \<and> in_ws sx db (xj_workspace y))
      (\<lambda>y. y\<lparr>xj_status := XFailed\<rparr>) (rd_extractions db)\<rparr>)"
    by (rule change_changes [OF extraction_fields]) simp
  then show ?thesis
    using enqueue_changes by (simp add: reconcile_extraction_def)
qed

lemma foldl_changes:
  "(\<And>d x. changes schema late sx d (g d x)) \<Longrightarrow> changes schema late sx db (foldl g db xs)"
  by (induction xs arbitrary: db) (auto intro: changes_trans)

lemma reconcile_changes: "changes schema late sx db (reconcile_timeline sx locked now fresh db)"
  unfolding reconcile_timeline_def Let_def
  by (rule changes_trans [OF foldl_changes foldl_changes]) (rule reconcile_run_changes reconcile_extraction_changes)+

lemma db_step_changes:
  assumes "db_step schema late sx db db'" and "unique_rows ws_id (rd_workspaces db)" and "unique_rows tu_id (rd_turns db)"
  shows "changes schema late sx db db' \<or> (\<exists>wid tid. delete_turn sx wid tid db = Inr db')"
  using assms(1)
proof (cases rule: db_step.cases)
  case (creates_turn c tid t)
  then show ?thesis using create_turn_changes assms(2) by blast
next
  case (creates_synthesis ask c tid t)
  then show ?thesis using create_turn_changes assms(2) by blast
next
  case (writes_turn_late what question origin item action c tid t)
  then show ?thesis using write_turn_changes assms(2) by blast
next
  case (writes_run_late now actor wid tid pid sid rid eid r)
  then have "changes schema late sx db db'" by (intro change_changes new_turn_run) auto
  then show ?thesis ..
next
  case (submits_turn_run now wid tid rid eid r)
  then show ?thesis using submit_turn_run_changes assms(3) by blast
next
  case (dispatches ob)
  then have "changes schema late sx db db'" by (intro same_tables_changes) (simp add: same_defs)
  then show ?thesis ..
next
  case (fails_planning tid)
  then show ?thesis using try_turn_status_changes [of Planning PlanningFailed db] by (simp add: plan_moves_def)
next
  case (finishes_extraction xid extracted)
  then show ?thesis by (simp add: finish_extraction_def try_extraction_changes)
next
  case (renames_workspace wid name)
  then have "changes schema late sx db db'" unfolding update_workspace_name_def by (elim set_workspace_changes) simp
  then show ?thesis ..
next
  case (archives_workspace wid)
  then have "changes schema late sx db db'" unfolding archive_workspace_def by (elim set_workspace_changes) simp
  then show ?thesis ..
next
  case (restores_workspace wid)
  then have "changes schema late sx db db'" unfolding restore_workspace_def by (elim set_workspace_changes) simp
  then show ?thesis ..
next
  case concludes
  then have "changes schema late sx db db'" by (intro change_changes concluded)
  then show ?thesis ..
next
  case (deletes_turn wid tid)
  then show ?thesis by blast
qed (blast intro: create_workspace_changes freeze_snapshot_changes start_planning_changes confirm_turn_plan_changes
    load_planning_changes generate_plan_changes bind_plan_changes confirm_plan_changes
    revise_plan_changes submit_run_changes cancel_run_changes claim_extraction_changes reconcile_changes)+

section \<open>The invariant of the tables\<close>

definition turn_inv :: "research_workspace list \<Rightarrow> research_turn list \<Rightarrow> bool" where
  "turn_inv W T \<longleftrightarrow> unique_rows ws_id W \<and> unique_rows tu_id T \<and> unique_rows (\<lambda>t. (tu_workspace t, tu_number t)) T
    \<and> unique_rows (\<lambda>t. (tu_workspace t, tu_key t)) T
    \<and> (\<forall>t\<in>set T. \<exists>w\<in>set W. ws_id w = tu_workspace t \<and> tu_number t < ws_next_turn w)"

definition run_inv :: "research_turn list \<Rightarrow> analysis_run list \<Rightarrow> bool" where
  "run_inv T R \<longleftrightarrow> unique_rows ar_id R \<and> unique_rows (\<lambda>r. (ar_workspace r, ar_number r)) R
    \<and> unique_rows ar_workspace (filter (\<lambda>r. active_status (ar_status r)) R)
    \<and> (\<forall>r\<in>set R. \<forall>t\<in>set T. ar_turn r = Some (tu_id t) \<longrightarrow> ar_workspace r = tu_workspace t)"

definition job_inv :: "research_turn list \<Rightarrow> extraction_job list \<Rightarrow> turn_result list \<Rightarrow> bool" where
  "job_inv T X E \<longleftrightarrow> unique_rows xj_run X \<and> unique_rows re_run E \<and> unique_rows re_turn E
    \<and> (\<forall>x\<in>set X. \<exists>t\<in>set T. tu_id t = xj_turn x \<and> tu_workspace t = xj_workspace x)"

definition research_inv :: "research_db \<Rightarrow> bool" where
  "research_inv db \<longleftrightarrow> turn_inv (rd_workspaces db) (rd_turns db) \<and> run_inv (rd_turns db) (rd_runs db)
    \<and> job_inv (rd_turns db) (rd_extractions db) (rd_results db)"

lemma unique_sql_update: "(\<And>r. key (f r) = key r) \<Longrightarrow> unique_rows key (sql_update p f rows) \<longleftrightarrow> unique_rows key rows"
  by (rule row_update.unique_update) unfold_locales

lemma ball_sql_update: "(\<And>r. P (f r) \<longleftrightarrow> P r) \<Longrightarrow> (\<forall>r\<in>set (sql_update p f rows). P r) \<longleftrightarrow> (\<forall>r\<in>set rows. P r)"
  by (induction rows) auto

lemma bex_sql_update: "(\<And>r. P (f r) \<longleftrightarrow> P r) \<Longrightarrow> (\<exists>r\<in>set (sql_update p f rows). P r) \<longleftrightarrow> (\<exists>r\<in>set rows. P r)"
  by (induction rows) auto

lemma sql_update_ids: "(\<And>r. key (f r) = key r) \<Longrightarrow> key ` set (sql_update p f rows) = key ` set rows"
  by (induction rows) auto

lemma in_sql_updateI: "r \<in> set rows \<Longrightarrow> (if p r then f r else r) \<in> set (sql_update p f rows)"
  by (induction rows) auto

lemma unique_filter: "unique_rows key rows \<Longrightarrow> unique_rows key (filter p rows)"
  by (simp add: unique_rows_def distinct_map_filter)

definition keeps_turn :: "(research_turn \<Rightarrow> research_turn) \<Rightarrow> bool" where
  "keeps_turn f \<longleftrightarrow> (\<forall>t. tu_id (f t) = tu_id t \<and> tu_workspace (f t) = tu_workspace t \<and> tu_number (f t) = tu_number t
    \<and> tu_key (f t) = tu_key t)"

lemma turn_inv_update: "keeps_turn f \<Longrightarrow> turn_inv W (sql_update p f T) \<longleftrightarrow> turn_inv W T"
  by (simp add: turn_inv_def keeps_turn_def unique_sql_update ball_sql_update)

lemma run_inv_update: "keeps_turn f \<Longrightarrow> run_inv (sql_update p f T) R \<longleftrightarrow> run_inv T R"
  by (simp add: run_inv_def keeps_turn_def ball_sql_update)

lemma job_inv_update: "keeps_turn f \<Longrightarrow> job_inv (sql_update p f T) X E \<longleftrightarrow> job_inv T X E"
  by (simp add: job_inv_def keeps_turn_def bex_sql_update)

lemmas turn_update_inv = turn_inv_update run_inv_update job_inv_update

lemma turn_inv_workspaces:
  assumes "turn_inv W T" and "unique_rows ws_id W'"
    and "\<And>w. w \<in> set W \<Longrightarrow> \<exists>w'\<in>set W'. ws_id w' = ws_id w \<and> ws_next_turn w \<le> ws_next_turn w'"
  shows "turn_inv W' T"
proof -
  have "\<exists>w'\<in>set W'. ws_id w' = tu_workspace t \<and> tu_number t < ws_next_turn w'" if t: "t \<in> set T" for t
  proof -
    obtain w where w: "w \<in> set W" "ws_id w = tu_workspace t" "tu_number t < ws_next_turn w"
      using assms(1) t unfolding turn_inv_def by blast
    obtain w' where "w' \<in> set W'" "ws_id w' = ws_id w" "ws_next_turn w \<le> ws_next_turn w'"
      using assms(3) [OF w(1)] by blast
    then show ?thesis
      using w(2,3) by (intro bexI [of _ w']) auto
  qed
  then show ?thesis
    using assms(1,2) unfolding turn_inv_def by blast
qed

lemma turn_inv_fields:
  assumes "turn_inv W T"
    and "\<And>w. ws_id w = wid \<Longrightarrow> w \<in> set W \<Longrightarrow> sees_ws sx w \<Longrightarrow> ws_id (f w) = ws_id w \<and> ws_next_turn w \<le> ws_next_turn (f w)"
  shows "turn_inv (sql_update (\<lambda>w. ws_id w = wid \<and> sees_ws sx w) f W) T"
proof (rule turn_inv_workspaces [OF assms(1)])
  have "map ws_id (sql_update (\<lambda>w. ws_id w = wid \<and> sees_ws sx w) f W) = map ws_id W"
    using assms(2) by (auto simp: sql_update_def)
  then show "unique_rows ws_id (sql_update (\<lambda>w. ws_id w = wid \<and> sees_ws sx w) f W)"
    using assms(1) by (simp add: turn_inv_def unique_rows_def)
  show "\<exists>w'\<in>set (sql_update (\<lambda>w. ws_id w = wid \<and> sees_ws sx w) f W). ws_id w' = ws_id w \<and> ws_next_turn w \<le> ws_next_turn w'"
    if "w \<in> set W" for w
    using in_sql_updateI [OF that, of "\<lambda>w. ws_id w = wid \<and> sees_ws sx w" f] assms(2) [OF _ that] that
    by (auto split: if_splits)
qed

lemma turn_inv_insert:
  assumes "turn_inv W T" and "turn_admissible sx t db" and "rd_turns db = T"
    and "\<exists>w\<in>set W. ws_id w = tu_workspace t \<and> tu_number t < ws_next_turn w"
  shows "turn_inv W (T @ [t])"
  using assms by (auto simp: turn_inv_def turn_admissible_def list_ex_iff unique_rows_snoc image_iff)

lemma run_inv_insert:
  assumes "run_inv T R" and "run_admissible schema sx r db" and "rd_runs db = R"
    and "\<And>t. t \<in> set T \<Longrightarrow> ar_turn r = Some (tu_id t) \<Longrightarrow> ar_workspace r = tu_workspace t"
  shows "run_inv T (R @ [r])"
  using assms by (auto simp: run_inv_def run_admissible_def list_ex_iff unique_rows_snoc image_iff)

lemma run_inv_fields:
  assumes "run_inv T R"
    and "\<And>r. ar_id (f r) = ar_id r \<and> ar_workspace (f r) = ar_workspace r \<and> ar_number (f r) = ar_number r \<and> ar_turn (f r) = ar_turn r"
    and "\<And>r. q r \<Longrightarrow> active_status (ar_status (f r)) \<Longrightarrow> active_status (ar_status r)"
  shows "run_inv T (sql_update q f R)"
proof -
  have "unique_rows ar_workspace (filter (\<lambda>r. active_status (ar_status r)) (sql_update q f R))"
  proof -
    have "map ar_workspace (filter (\<lambda>r. active_status (ar_status r)) (sql_update q f R)) =
        map ar_workspace (filter (\<lambda>r. active_status (ar_status (if q r then f r else r))) R)"
      by (induction R) (simp_all add: assms(2))
    also have "\<dots> = map ar_workspace (filter (\<lambda>r. active_status (ar_status (if q r then f r else r)))
        (filter (\<lambda>r. active_status (ar_status r)) R))"
      unfolding filter_filter by (rule arg_cong [of _ _ "map ar_workspace"], rule filter_cong) (use assms(3) in auto)
    finally show ?thesis
      using assms(1) unique_filter unfolding run_inv_def unique_rows_def by (metis (no_types, lifting))
  qed
  then show ?thesis
    using assms(1,2) by (simp add: run_inv_def unique_sql_update ball_sql_update)
qed

lemma delete_turnD:
  assumes "delete_turn sx wid tid db = Inr db'"
  shows "rd_workspaces db' = rd_workspaces db" "rd_runs db' = rd_runs db" "rd_plans db' = rd_plans db"
    "rd_snapshots db' = rd_snapshots db"
    "rd_turns db' = filter (\<lambda>t. tu_id t \<noteq> tid) (rd_turns db)"
    "rd_extractions db' = filter (\<lambda>x. xj_turn x \<noteq> tid) (rd_extractions db)"
    "rd_results db' = filter (\<lambda>r. re_turn r \<noteq> tid) (rd_results db)"
    "\<exists>t\<in>set (rd_turns db). tu_id t = tid \<and> tu_workspace t = wid \<and> in_ws sx db wid"
  using assms by (auto simp: delete_turn_def require_owned_turn_def dest!: sql_find_SomeD)

lemma delete_turn_inv:
  assumes "delete_turn sx wid tid db = Inr db'" and "research_inv db"
  shows "research_inv db'"
proof -
  have "\<exists>t\<in>set (filter (\<lambda>t. tu_id t \<noteq> tid) (rd_turns db)). tu_id t = xj_turn x \<and> tu_workspace t = xj_workspace x"
    if x: "x \<in> set (rd_extractions db)" "xj_turn x \<noteq> tid" for x
  proof -
    obtain t where "t \<in> set (rd_turns db)" "tu_id t = xj_turn x" "tu_workspace t = xj_workspace x"
      using assms(2) x(1) unfolding research_inv_def job_inv_def by blast
    then show ?thesis
      using x(2) by (intro bexI [of _ t]) auto
  qed
  then show ?thesis
    using assms(2) delete_turnD [OF assms(1)]
    by (simp add: research_inv_def turn_inv_def run_inv_def job_inv_def unique_filter)
qed

lemma change_inv:
  assumes "change schema late sx db db'" and "research_inv db"
  shows "research_inv db'"
  using assms(1)
proof cases
  case other_tables
  then show ?thesis
    using assms(2) by (simp add: research_inv_def same_defs)
next
  case concluded
  then show ?thesis
    using assms(2) conclusion_step_core [OF concluded] by (simp add: research_inv_def core_same_def)
next
  case (new_workspace w)
  then show ?thesis
    using assms(2) turn_inv_workspaces [of "rd_workspaces db" "rd_turns db" "rd_workspaces db @ [w]"]
    by (auto simp: research_inv_def unique_rows_snoc turn_inv_def)
next
  case (workspace_fields wid f)
  then show ?thesis
    using assms(2) turn_inv_fields [of "rd_workspaces db" "rd_turns db" wid sx f]
    by (auto simp: research_inv_def update_workspaces_def)
next
  case (new_snapshot s)
  then show ?thesis
    using assms(2) by (simp add: research_inv_def)
next
  case (new_turn t cs)
  have "turn_inv (rd_workspaces db) (rd_turns db @ [t])"
    using assms(2) new_turn by (intro turn_inv_insert [where db = db]) (auto simp: research_inv_def)
  then show ?thesis
    using assms(2) new_turn by (auto simp: research_inv_def run_inv_def job_inv_def unused_turn_def)
next
  case (turn_moves as b tid)
  then show ?thesis
    using assms(2) by (simp add: research_inv_def turn_update_inv keeps_turn_def)
next
  case (turn_plans as b tid v)
  then show ?thesis
    using assms(2) by (simp add: research_inv_def turn_update_inv keeps_turn_def)
next
  case (new_plan p)
  then show ?thesis
    using assms(2) by (auto simp: research_inv_def insert_plan_version_def insert_row_def split: if_splits)
next
  case (plan_fields q f)
  then show ?thesis
    using assms(2) by (simp add: research_inv_def update_plans_def)
next
  case (new_run now actor wid n pid sid rid eid r)
  then have r: "run_admissible schema sx r db" "ar_turn r = None" and
    db': "rd_runs db' = rd_runs db @ [r]" "rd_turns db' = rd_turns db" "rd_workspaces db' = rd_workspaces db"
      "rd_extractions db' = rd_extractions db" "rd_results db' = rd_results db"
    by (auto simp: queue_run_def Let_def enqueue_research_def)
  have "run_inv (rd_turns db) (rd_runs db @ [r])"
    using assms(2) r by (intro run_inv_insert [where db = db]) (auto simp: research_inv_def)
  then show ?thesis
    using assms(2) by (simp add: research_inv_def db')
next
  case (new_turn_run now actor wid tid pid sid rid eid r)
  then have r: "run_admissible schema sx r db" "ar_turn r = Some tid" "ar_workspace r = wid" and
    db': "rd_runs db' = rd_runs db @ [r]" "rd_workspaces db' = rd_workspaces db"
      "rd_turns db' = sql_update (\<lambda>t. tu_id t = tid \<and> in_ws sx db (tu_workspace t)) (\<lambda>t. t\<lparr>tu_status := TurnQueued\<rparr>) (rd_turns db)"
      "rd_extractions db' = rd_extractions db" "rd_results db' = rd_results db"
    by (auto simp: write_run_def queue_run_def Let_def enqueue_research_def set_turn_status_def in_ws_def)
  have "run_inv (rd_turns db) (rd_runs db @ [r])"
    using assms(2) r new_turn_run(2) by (intro run_inv_insert [where db = db]) (auto simp: research_inv_def)
  then show ?thesis
    using assms(2) by (simp add: research_inv_def db' turn_update_inv keeps_turn_def)
next
  case (run_fields q f)
  then have "run_inv (rd_turns db) (sql_update q f (rd_runs db))"
    using assms(2) by (intro run_inv_fields) (auto simp: research_inv_def)
  then show ?thesis
    using assms(2) run_fields by (simp add: research_inv_def)
next
  case (extraction_fields q st)
  then show ?thesis
    using assms(2) by (simp add: research_inv_def job_inv_def unique_sql_update ball_sql_update)
qed

lemma changes_inv: "changes schema late sx db db' \<Longrightarrow> research_inv db \<Longrightarrow> research_inv db'"
  by (induction rule: rtranclp_induct) (auto intro: change_inv)

lemma research_inv_unique:
  "research_inv db \<Longrightarrow> unique_rows ws_id (rd_workspaces db)" "research_inv db \<Longrightarrow> unique_rows tu_id (rd_turns db)"
  "research_inv db \<Longrightarrow> unique_rows ar_id (rd_runs db)"
  by (simp_all add: research_inv_def turn_inv_def run_inv_def)

lemma db_step_inv: "db_step schema late sx db db' \<Longrightarrow> research_inv db \<Longrightarrow> research_inv db'"
  using db_step_changes changes_inv delete_turn_inv research_inv_unique by metis

subsection \<open>Finishing a run\<close>

lemma settle_turn_tables [simp]:
  "rd_runs (settle_turn sx turn st db) = rd_runs db" "rd_workspaces (settle_turn sx turn st db) = rd_workspaces db"
  "rd_results (settle_turn sx turn st db) = rd_results db" "rd_extractions (settle_turn sx turn st db) = rd_extractions db"
  "rd_snapshots (settle_turn sx turn st db) = rd_snapshots db" "rd_plans (settle_turn sx turn st db) = rd_plans db"
  "rd_outbox (settle_turn sx turn st db) = rd_outbox db"
  by (simp_all add: settle_turn_def set_turn_status_def split: option.split)

lemma settle_turn_turns:
  "\<exists>p. rd_turns (settle_turn sx turn st db) = sql_update p (\<lambda>t. t\<lparr>tu_status := st\<rparr>) (rd_turns db)"
proof -
  have "rd_turns db = sql_update (\<lambda>_. False) (\<lambda>t. t\<lparr>tu_status := st\<rparr>) (rd_turns db)"
    by (simp add: sql_update_def)
  then show ?thesis
    unfolding settle_turn_def set_turn_status_def by (auto split: option.split simp: Let_def)
qed

lemma settle_turn_inv: "research_inv (settle_turn sx turn st db) \<longleftrightarrow> research_inv db"
proof -
  obtain p where "rd_turns (settle_turn sx turn st db) = sql_update p (\<lambda>t. t\<lparr>tu_status := st\<rparr>) (rd_turns db)"
    using settle_turn_turns by blast
  then show ?thesis
    by (simp add: research_inv_def turn_update_inv keeps_turn_def)
qed

lemma write_resultD:
  assumes "write_result sx turn rid output reid db = Inr db'"
  shows "rd_runs db' = rd_runs db" "rd_turns db' = rd_turns db" "rd_workspaces db' = rd_workspaces db"
    "rd_extractions db' = rd_extractions db" "rd_plans db' = rd_plans db" "rd_snapshots db' = rd_snapshots db"
    "research_inv db \<Longrightarrow> research_inv db'"
  using assms by (auto simp: write_result_def research_inv_def job_inv_def unique_rows_snoc list_ex_iff split: if_splits)

lemma ensure_extractionD:
  assumes "ensure_extraction sx now wid turn rid xid db = Inr (x, db')"
  shows "rd_runs db' = rd_runs db" "rd_turns db' = rd_turns db" "rd_workspaces db' = rd_workspaces db"
    "rd_plans db' = rd_plans db" "rd_snapshots db' = rd_snapshots db"
    "rd_extractions db' = rd_extractions db \<or> in_ws sx db wid \<and> xj_workspace x = wid \<and> rd_extractions db' = rd_extractions db @ [x]"
    "research_inv db \<Longrightarrow> (\<And>t. t \<in> set (rd_turns db) \<Longrightarrow> turn = Some (tu_id t) \<Longrightarrow> tu_workspace t = wid) \<Longrightarrow> research_inv db'"
  using assms
  by (auto simp: ensure_extraction_def research_inv_def job_inv_def unique_rows_snoc list_ex_iff Let_def split: option.splits)
    blast

text \<open>What \<open>complete_run\<close> leaves, when it does not find the run completed already.\<close>

lemma complete_runE:
  assumes "complete_run sx now rid wid turn answer reid xid eid db = Inr db'"
  obtains (known) r where "find_analysis sx rid db = Some r" and "ar_status r = ASucceeded" and "db' = db"
  | (completed) r db1 x db2 where "find_analysis sx rid db = Some r" and "ar_status r \<in> {AQueued, ARunning}"
    and "write_result sx turn rid (analysis_output answer) reid
           (update_runs (run_row sx db rid) (\<lambda>r. r\<lparr>ar_status := ASucceeded\<rparr>) db) = Inr db1"
    and "ensure_extraction sx now wid turn rid xid (settle_turn sx turn TurnSucceeded db1) = Inr (x, db2)"
    and "same_tables db2 db'"
  using assms by (auto simp: complete_run_def enqueue_research_def same_defs split: if_splits)

lemma complete_run_inv:
  assumes "complete_run sx now rid wid turn answer reid xid eid db = Inr db'" and "research_inv db"
    and "\<And>t. t \<in> set (rd_turns db) \<Longrightarrow> turn = Some (tu_id t) \<Longrightarrow> tu_workspace t = wid"
  shows "research_inv db'"
  using assms(1)
proof (cases rule: complete_runE)
  case (completed r db1 x db2)
  let ?db0 = "update_runs (run_row sx db rid) (\<lambda>r. r\<lparr>ar_status := ASucceeded\<rparr>) db"
  have "research_inv ?db0"
    using assms(2) by (intro change_inv [OF run_fields [where sx = sx]]) (simp_all add: run_row_def active_status_def)
  then have 1: "research_inv (settle_turn sx turn TurnSucceeded db1)"
    using write_resultD(7) [OF completed(3)] by (simp add: settle_turn_inv)
  have "tu_workspace t = wid" if t: "t \<in> set (rd_turns (settle_turn sx turn TurnSucceeded db1))" "turn = Some (tu_id t)" for t
  proof -
    obtain p where p: "rd_turns (settle_turn sx turn TurnSucceeded db1) = sql_update p (\<lambda>t. t\<lparr>tu_status := TurnSucceeded\<rparr>) (rd_turns db)"
      using settle_turn_turns [of sx turn TurnSucceeded db1] write_resultD(2) [OF completed(3)] by auto
    then obtain t0 where "t0 \<in> set (rd_turns db)" "tu_id t = tu_id t0" "tu_workspace t = tu_workspace t0"
      using t(1) by (auto elim!: in_sql_updateE split: if_splits)
    then show ?thesis
      using assms(3) t(2) by simp
  qed
  then have "research_inv db2"
    by (rule ensure_extractionD(7) [OF completed(4) 1])
  then show ?thesis
    using completed(5) by (simp add: research_inv_def same_defs)
qed (use assms(2) in simp)

lemma fail_run_inv: "research_inv db \<Longrightarrow> research_inv (fail_run sx rid turn db)"
  unfolding fail_run_def settle_turn_inv
  by (rule change_inv [OF run_fields [where sx = sx]]) (simp_all add: run_row_def active_status_def)

lemma finish_run_cases:
  assumes "finish_run sx now c answer reid xid eid db = (ok, db')"
  obtains (completes) a where "ok" and "complete_run sx now (rc_run c) (rc_workspace c) (rc_turn c) a reid xid eid db = Inr db'"
  | (fails) "\<not> ok" and "db' = fail_run sx (rc_run c) (rc_turn c) db"
  using assms by (auto simp: finish_run_def Let_def split: option.splits sum.splits)

section \<open>The invariant of the system\<close>

definition run_kept :: "analysis_run \<Rightarrow> analysis_run \<Rightarrow> bool" where
  "run_kept r r' \<longleftrightarrow> ar_id r' = ar_id r \<and> ar_turn r' = ar_turn r \<and> ar_workspace r' = ar_workspace r
    \<and> ar_number r' = ar_number r \<and> (ar_status r' = AQueued \<longrightarrow> ar_status r = AQueued)"

definition claim_of :: "run_claim \<Rightarrow> analysis_run \<Rightarrow> bool" where
  "claim_of c r \<longleftrightarrow> ar_id r = rc_run c \<and> ar_turn r = rc_turn c \<and> ar_workspace r = rc_workspace c \<and> ar_status r \<noteq> AQueued"

definition claims_inv :: "research_sys \<Rightarrow> bool" where
  "claims_inv y \<longleftrightarrow> distinct (map rc_run (ry_claims y))
    \<and> (\<forall>c\<in>set (ry_claims y). \<exists>r\<in>set (rd_runs (ry_db y)). claim_of c r)"

definition runs_kept :: "research_db \<Rightarrow> research_db \<Rightarrow> bool" where
  "runs_kept db db' \<longleftrightarrow> (\<forall>r\<in>set (rd_runs db). \<exists>r'\<in>set (rd_runs db'). run_kept r r')"

lemma runs_kept_refl [simp]: "rd_runs db' = rd_runs db \<Longrightarrow> runs_kept db db'"
  by (auto simp: runs_kept_def run_kept_def)

lemma runs_kept_trans: "runs_kept db db1 \<Longrightarrow> runs_kept db1 db2 \<Longrightarrow> runs_kept db db2"
  unfolding runs_kept_def run_kept_def by metis

lemma runs_kept_append: "rd_runs db' = rd_runs db @ rs \<Longrightarrow> runs_kept db db'"
  by (auto simp: runs_kept_def run_kept_def)

lemma runs_kept_update:
  assumes "rd_runs db' = sql_update q f (rd_runs db)" and "\<And>r. q r \<Longrightarrow> run_kept r (f r)"
  shows "runs_kept db db'"
  unfolding runs_kept_def
proof
  fix r assume "r \<in> set (rd_runs db)"
  then have "(if q r then f r else r) \<in> set (rd_runs db')"
    unfolding assms(1) by (rule in_sql_updateI)
  moreover have "run_kept r (if q r then f r else r)"
    using assms(2) by (simp add: run_kept_def)
  ultimately show "\<exists>r'\<in>set (rd_runs db'). run_kept r r'"
    by blast
qed

lemma change_runs_kept: "change schema late sx db db' \<Longrightarrow> runs_kept db db'"
proof (induction rule: change.induct)
  case (run_fields q db f)
  then show ?case
    by (intro runs_kept_update [where q = q and f = f]) (auto simp: run_kept_def active_status_def)
next
  case (new_run now actor wid n pid sid rid eid db r db')
  then show ?case
    by (intro runs_kept_append) (auto simp: queue_run_def Let_def enqueue_research_def)
next
  case (new_turn_run now actor wid tid pid sid rid eid db r db')
  then show ?case
    by (intro runs_kept_append) (auto simp: write_run_def queue_run_def Let_def enqueue_research_def set_turn_status_def)
next
  case (concluded db db')
  then show ?case
    using conclusion_step_core [OF concluded] by (simp add: core_same_def)
qed (auto simp: same_defs update_workspaces_def delete_turn_def insert_plan_version_def)

lemma changes_runs_kept: "changes schema late sx db db' \<Longrightarrow> runs_kept db db'"
  by (induction rule: rtranclp_induct) (auto intro: runs_kept_trans change_runs_kept)

lemma complete_run_runs:
  "complete_run sx now rid wid turn answer reid xid eid db = Inr db' \<Longrightarrow>
    rd_runs db' = rd_runs db \<or> rd_runs db' = sql_update (run_row sx db rid) (\<lambda>r. r\<lparr>ar_status := ASucceeded\<rparr>) (rd_runs db)"
  by (erule complete_runE) (auto simp: same_defs write_resultD(1) ensure_extractionD(1))

lemma finish_run_kept: "finish_run sx now c answer reid xid eid db = (ok, db') \<Longrightarrow> runs_kept db db'"
proof (erule finish_run_cases)
  fix a assume "complete_run sx now (rc_run c) (rc_workspace c) (rc_turn c) a reid xid eid db = Inr db'"
  then consider "rd_runs db' = rd_runs db"
    | "rd_runs db' = sql_update (run_row sx db (rc_run c)) (\<lambda>r. r\<lparr>ar_status := ASucceeded\<rparr>) (rd_runs db)"
    using complete_run_runs by blast
  then show "runs_kept db db'"
    by cases (simp, erule runs_kept_update, simp add: run_kept_def)
next
  assume "db' = fail_run sx (rc_run c) (rc_turn c) db"
  then have "rd_runs db' = sql_update (\<lambda>r. run_row sx db (rc_run c) r \<and> ar_status r \<notin> {ASucceeded, AFailed})
      (\<lambda>r. r\<lparr>ar_status := AFailed\<rparr>) (rd_runs db)"
    by (simp add: fail_run_def)
  then show "runs_kept db db'"
    by (rule runs_kept_update) (simp add: run_kept_def)
qed

end
