(* ===== verification/ResearchTheorems.thy ===== *)
theory ResearchTheorems imports ResearchSystem begin

text \<open>
  What holds of the research timeline in every reachable state: the tables are sound, a session changes
  nothing in a workspace it does not see, a run is executed once, turns move along a fixed graph.
\<close>

section \<open>The system keeps its tables sound\<close>

definition sys_inv :: "research_sys \<Rightarrow> bool" where
  "sys_inv y \<longleftrightarrow> research_inv (ry_db y) \<and> claims_inv y"

lemma claim_runD:
  assumes "claim_run sx now rid db = (Claimed c, db')"
  shows "\<exists>r\<in>set (rd_runs db). claim_where sx db rid r \<and> rc_run c = rid \<and> rc_turn c = ar_turn r \<and> rc_workspace c = ar_workspace r"
    "db' = update_runs (claim_where sx db rid) (\<lambda>r. r\<lparr>ar_status := ARunning, ar_started_at := Some now\<rparr>) db"
  using assms by (auto simp: claim_run_def split: option.splits dest!: sql_find_SomeD)

lemma claim_run_inv:
  assumes "claim_run sx now rid db = (Claimed c, db')" and "research_inv db"
  shows "research_inv db'" "runs_kept db db'"
proof -
  have "run_inv (rd_turns db) (sql_update (claim_where sx db rid)
      (\<lambda>r. r\<lparr>ar_status := ARunning, ar_started_at := Some now\<rparr>) (rd_runs db))"
    using assms(2) by (intro run_inv_fields) (auto simp: research_inv_def claim_where_def active_status_def)
  then show "research_inv db'"
    using assms(2) by (simp add: claim_runD(2) [OF assms(1)] research_inv_def)
  show "runs_kept db db'"
    by (rule runs_kept_update [where q = "claim_where sx db rid"
          and f = "\<lambda>r. r\<lparr>ar_status := ARunning, ar_started_at := Some now\<rparr>"])
      (simp_all add: claim_runD(2) [OF assms(1)] run_kept_def)
qed

lemma claim_kept: "claim_of c r \<Longrightarrow> run_kept r r' \<Longrightarrow> claim_of c r'"
  by (auto simp: claim_of_def run_kept_def)

lemma claims_inv_kept:
  assumes "claims_inv y" and "runs_kept (ry_db y) db'" and "set cs \<subseteq> set (ry_claims y)" and "distinct (map rc_run cs)"
  shows "claims_inv \<lparr>ry_db = db', ry_claims = cs\<rparr>"
  unfolding claims_inv_def
proof (intro conjI ballI)
  fix c assume "c \<in> set (ry_claims \<lparr>ry_db = db', ry_claims = cs\<rparr>)"
  then obtain r where "r \<in> set (rd_runs (ry_db y))" "claim_of c r"
    using assms(1,3) unfolding claims_inv_def by auto
  then show "\<exists>r\<in>set (rd_runs (ry_db \<lparr>ry_db = db', ry_claims = cs\<rparr>)). claim_of c r"
    using assms(2) claim_kept unfolding runs_kept_def by fastforce
qed (use assms(4) in simp)

lemma claims_inv_distinct: "claims_inv y \<Longrightarrow> distinct (map rc_run (filter p (ry_claims y)))"
  by (simp add: claims_inv_def distinct_map_filter)

lemma delete_turn_kept: "delete_turn sx wid tid db = Inr db' \<Longrightarrow> runs_kept db db'"
  by (simp add: delete_turnD)

lemma db_step_kept: "db_step schema late sx db db' \<Longrightarrow> research_inv db \<Longrightarrow> runs_kept db db'"
  using db_step_changes changes_runs_kept delete_turn_kept research_inv_unique by metis

lemma claimed_turn:
  assumes "claims_inv y" and "research_inv (ry_db y)" and "c \<in> set (ry_claims y)"
    and "t \<in> set (rd_turns (ry_db y))" and "rc_turn c = Some (tu_id t)"
  shows "tu_workspace t = rc_workspace c"
proof -
  obtain r where r: "r \<in> set (rd_runs (ry_db y))" "claim_of c r"
    using assms(1,3) unfolding claims_inv_def by blast
  then have "ar_turn r = Some (tu_id t)" "ar_workspace r = rc_workspace c"
    using assms(5) by (simp_all add: claim_of_def)
  then show ?thesis
    using assms(2,4) r(1) unfolding research_inv_def run_inv_def by force
qed

lemma finish_run_inv:
  assumes "finish_run sx now c answer reid xid eid (ry_db y) = (ok, db')" and "sys_inv y" and "c \<in> set (ry_claims y)"
  shows "research_inv db'"
  using assms(1)
proof (cases rule: finish_run_cases)
  case (completes a)
  show ?thesis
  proof (rule complete_run_inv [OF completes(2)])
    show "research_inv (ry_db y)"
      using assms(2) by (simp add: sys_inv_def)
    show "tu_workspace t = rc_workspace c" if "t \<in> set (rd_turns (ry_db y))" "rc_turn c = Some (tu_id t)" for t
      using claimed_turn [of y c t] assms(2,3) that by (simp add: sys_inv_def)
  qed
next
  case fails
  then show ?thesis
    using assms(2) by (simp add: fail_run_inv sys_inv_def)
qed

lemma research_step_inv:
  assumes "research_step schema late sx y y'" and "sys_inv y"
  shows "sys_inv y' \<and> runs_kept (ry_db y) (ry_db y')"
  using assms(1)
proof cases
  case (acts db')
  have "runs_kept (ry_db y) db'" "research_inv db'"
    using acts(2) assms(2) db_step_kept db_step_inv unfolding sys_inv_def by blast+
  then show ?thesis
    using assms(2) claims_inv_kept [of y db' "ry_claims y"] acts(1)
    by (simp add: sys_inv_def claims_inv_def)
next
  case (claims now rid c db')
  note inv = claim_run_inv [OF claims(2)]
  have u: "unique_rows ar_id (rd_runs (ry_db y))"
    using assms(2) by (simp add: sys_inv_def research_inv_unique)
  obtain r where r: "r \<in> set (rd_runs (ry_db y))" "claim_where sx (ry_db y) rid r" "rc_run c = rid" "rc_turn c = ar_turn r"
      "rc_workspace c = ar_workspace r"
    using claim_runD(1) [OF claims(2)] by blast
  let ?f = "\<lambda>r. r\<lparr>ar_status := ARunning, ar_started_at := Some now\<rparr>"
  have "?f r \<in> set (rd_runs db')"
    using in_sql_updateI [OF r(1), of "claim_where sx (ry_db y) rid" ?f] r(2) by (simp add: claim_runD(2) [OF claims(2)])
  moreover have "claim_of c (?f r)"
    using r by (simp add: claim_of_def claim_where_def run_row_def)
  moreover have "rid \<notin> rc_run ` set (ry_claims y)"
  proof
    assume "rid \<in> rc_run ` set (ry_claims y)"
    then obtain c' r' where "r' \<in> set (rd_runs (ry_db y))" "ar_id r' = rid" "ar_status r' \<noteq> AQueued"
      using assms(2) unfolding sys_inv_def claims_inv_def claim_of_def by force
    then show False
      using unique_rows_eq [OF u _ r(1)] r(2) by (auto simp: claim_where_def run_row_def)
  qed
  moreover have "claims_inv \<lparr>ry_db = db', ry_claims = ry_claims y\<rparr>"
    using assms(2) inv by (intro claims_inv_kept) (auto simp: sys_inv_def claims_inv_def)
  ultimately have "claims_inv \<lparr>ry_db = db', ry_claims = c # ry_claims y\<rparr>"
    using r(3) by (auto simp: claims_inv_def)
  then show ?thesis
    using inv assms(2) claims(1) by (simp add: sys_inv_def)
next
  case (finishes c now answer reid xid eid ok db')
  then show ?thesis
    using assms(2) finish_run_inv [OF finishes(3) assms(2) finishes(2)] finish_run_kept [OF finishes(3)]
    by (auto simp: sys_inv_def intro!: claims_inv_kept claims_inv_distinct)
next
  case (dies rid)
  then have "claims_inv \<lparr>ry_db = ry_db y, ry_claims = filter (\<lambda>x. rc_run x \<noteq> rid) (ry_claims y)\<rparr>"
    using assms(2) by (intro claims_inv_kept) (auto simp: sys_inv_def intro: claims_inv_distinct)
  then show ?thesis
    using assms(2) dies by (simp add: sys_inv_def claims_inv_def)
qed

lemma research_steps_inv: "research_steps schema late y y' \<Longrightarrow> sys_inv y \<Longrightarrow> sys_inv y' \<and> runs_kept (ry_db y) (ry_db y')"
  unfolding research_steps_def
  by (induction rule: rtranclp_induct) (use research_step_inv runs_kept_trans runs_kept_refl in blast)+

lemma sys_inv_empty: "sys_inv empty_research"
  by (simp add: sys_inv_def empty_research_def research_inv_def turn_inv_def run_inv_def job_inv_def claims_inv_def)

lemma reachable_sys_inv: "reachable_research schema late y \<Longrightarrow> sys_inv y"
  using research_steps_inv sys_inv_empty unfolding reachable_research_def by blast

section \<open>A session changes nothing in a workspace it does not see\<close>

definition ws_view ::
    "uuid \<Rightarrow> research_db \<Rightarrow> research_workspace list \<times> evidence_snapshot list \<times> research_turn list \<times> plan_version list
      \<times> analysis_run list \<times> extraction_job list" where
  "ws_view wid db =
    (rows_of ws_id wid (rd_workspaces db), rows_of sn_workspace wid (rd_snapshots db),
     rows_of tu_workspace wid (rd_turns db), rows_of pv_workspace wid (rd_plans db),
     rows_of ar_workspace wid (rd_runs db), rows_of xj_workspace wid (rd_extractions db))"

lemma rows_of_update:
  "(\<And>r. r \<in> set rows \<Longrightarrow> p r \<Longrightarrow> own r \<noteq> k \<and> own (f r) = own r) \<Longrightarrow> rows_of own k (sql_update p f rows) = rows_of own k rows"
  by (induction rows) auto

lemma rows_of_filter:
  "(\<And>r. r \<in> set rows \<Longrightarrow> own r = k \<Longrightarrow> p r) \<Longrightarrow> rows_of own k (filter p rows) = rows_of own k rows"
  by (induction rows) auto

lemma in_ws_view: "in_ws sx db wid \<longleftrightarrow> (\<exists>w\<in>set (fst (ws_view wid db)). sees_ws sx w)"
  by (auto simp: in_ws_def ws_view_def list_ex_iff)

lemma known_ws_view: "wid \<in> ws_id ` set (rd_workspaces db) \<longleftrightarrow> fst (ws_view wid db) \<noteq> []"
  by (auto simp: ws_view_def rows_of_def filter_empty_conv)

lemma sees_in_ws: "sees_ws sx w \<Longrightarrow> w \<in> set (rd_workspaces db) \<Longrightarrow> in_ws sx db (ws_id w)"
  by (auto simp: in_ws_def list_ex_iff)

lemma change_hidden:
  assumes "change schema late sx db db'" and "wid \<in> ws_id ` set (rd_workspaces db)" and "\<not> in_ws sx db wid"
  shows "ws_view wid db' = ws_view wid db"
  using assms(1)
proof cases
  case other_tables
  then show ?thesis
    by (simp add: ws_view_def same_defs)
next
  case concluded
  then show ?thesis
    using conclusion_step_core [OF concluded] by (simp add: ws_view_def core_same_def)
next
  case (new_workspace w)
  then show ?thesis
    using assms(2) by (auto simp: ws_view_def)
next
  case (workspace_fields v f)
  then have "rows_of ws_id wid (sql_update (\<lambda>w. ws_id w = v \<and> sees_ws sx w) f (rd_workspaces db)) =
      rows_of ws_id wid (rd_workspaces db)"
    using assms(3) sees_in_ws by (intro rows_of_update) auto
  then show ?thesis
    using workspace_fields by (simp add: ws_view_def update_workspaces_def)
next
  case (new_snapshot s)
  then show ?thesis
    using assms(3) by (auto simp: ws_view_def)
next
  case (new_turn t cs)
  then show ?thesis
    using assms(3) by (auto simp: ws_view_def turn_admissible_def)
next
  case (turn_moves as b tid)
  then show ?thesis
    using assms(3) by (auto simp: ws_view_def turn_where_def intro!: rows_of_update)
next
  case (turn_plans as b tid v)
  then show ?thesis
    using assms(3) by (auto simp: ws_view_def turn_where_def intro!: rows_of_update)
next
  case (new_plan p)
  then show ?thesis
    using assms(3) by (auto simp: ws_view_def insert_plan_version_def insert_row_def split: if_splits)
next
  case (plan_fields q f)
  have "rows_of pv_workspace wid (sql_update q f (rd_plans db)) = rows_of pv_workspace wid (rd_plans db)"
    using plan_fields(2,3) assms(3) by (intro rows_of_update) auto
  then show ?thesis
    using plan_fields(1) by (simp add: ws_view_def update_plans_def)
next
  case (new_run now actor v n pid sid rid eid r)
  then show ?thesis
    using assms(3) by (auto simp: ws_view_def queue_run_def Let_def enqueue_research_def run_admissible_def)
next
  case (new_turn_run now actor v tid pid sid rid eid r)
  then show ?thesis
    using assms(3) by (auto simp: ws_view_def write_run_def queue_run_def Let_def enqueue_research_def run_admissible_def
        set_turn_status_def intro!: rows_of_update)
next
  case (run_fields q f)
  have "rows_of ar_workspace wid (sql_update q f (rd_runs db)) = rows_of ar_workspace wid (rd_runs db)"
    using run_fields(2,4) assms(3) by (intro rows_of_update) auto
  then show ?thesis
    using run_fields(1) by (simp add: ws_view_def update_runs_def)
next
  case (extraction_fields q st)
  then show ?thesis
    using assms(3) by (auto simp: ws_view_def intro!: rows_of_update)
qed

lemma changes_hidden:
  assumes "changes schema late sx db db'" and "wid \<in> ws_id ` set (rd_workspaces db)" and "\<not> in_ws sx db wid"
  shows "ws_view wid db' = ws_view wid db"
  using assms(1)
proof (induction rule: rtranclp_induct)
  case (step d d')
  then have "wid \<in> ws_id ` set (rd_workspaces d)" "\<not> in_ws sx d wid"
    using assms(2,3) by (simp_all add: known_ws_view in_ws_view)
  then show ?case
    using change_hidden [OF step(2)] step(3) by simp
qed simp

lemma delete_turn_hidden:
  assumes "delete_turn sx v tid db = Inr db'" and "research_inv db" and "\<not> in_ws sx db wid"
  shows "ws_view wid db' = ws_view wid db"
proof -
  note d = delete_turnD [OF assms(1)]
  obtain t where t: "t \<in> set (rd_turns db)" "tu_id t = tid" "in_ws sx db (tu_workspace t)"
    using d(8) by blast
  have only: "x = t" if "x \<in> set (rd_turns db)" "tu_id x = tid" for x
    using unique_rows_eq [OF research_inv_unique(2) [OF assms(2)] that(1) t(1)] that(2) t(2) by simp
  have "tu_id x \<noteq> tid" if "x \<in> set (rd_turns db)" "tu_workspace x = wid" for x
    using only that t(3) assms(3) by blast
  moreover have "xj_turn x \<noteq> tid" if x: "x \<in> set (rd_extractions db)" "xj_workspace x = wid" for x
  proof
    assume "xj_turn x = tid"
    moreover obtain t' where "t' \<in> set (rd_turns db)" "tu_id t' = xj_turn x" "tu_workspace t' = xj_workspace x"
      using assms(2) x(1) unfolding research_inv_def job_inv_def by blast
    ultimately show False
      using only t(3) assms(3) x(2) by metis
  qed
  ultimately show ?thesis
    by (simp add: ws_view_def d rows_of_filter)
qed

lemma settle_turn_hidden: "\<not> in_ws sx db wid \<Longrightarrow> rows_of tu_workspace wid (rd_turns (settle_turn sx turn st db)) =
    rows_of tu_workspace wid (rd_turns db)"
  by (auto simp: settle_turn_def set_turn_status_def split: option.split intro!: rows_of_update)

lemma finish_run_hidden:
  assumes "finish_run sx now c answer reid xid eid db = (ok, db')" and "\<not> in_ws sx db wid"
  shows "ws_view wid db' = ws_view wid db"
  using assms(1)
proof (cases rule: finish_run_cases)
  case (completes a)
  show ?thesis
    using completes(2)
  proof (cases rule: complete_runE)
    case (completed r db1 x db2)
    note w = write_resultD [OF completed(3)] and e = ensure_extractionD [OF completed(4)]
    have same: "in_ws sx (settle_turn sx (rc_turn c) TurnSucceeded db1) v = in_ws sx db v" "in_ws sx db1 v = in_ws sx db v" for v
      by (simp_all add: in_ws_def w(3))
    have "rows_of ar_workspace wid (sql_update (run_row sx db (rc_run c)) (\<lambda>r. r\<lparr>ar_status := ASucceeded\<rparr>) (rd_runs db)) =
        rows_of ar_workspace wid (rd_runs db)"
      using assms(2) by (intro rows_of_update) (auto simp: run_row_def)
    moreover have "rows_of tu_workspace wid (rd_turns (settle_turn sx (rc_turn c) TurnSucceeded db1)) =
        rows_of tu_workspace wid (rd_turns db1)"
      using assms(2) same(2) by (intro settle_turn_hidden) simp
    moreover have "rows_of xj_workspace wid (rd_extractions db2) = rows_of xj_workspace wid (rd_extractions db)"
      using e(6) assms(2) same(1) w(4) by auto
    ultimately show ?thesis
      using completed(5) by (simp add: ws_view_def same_defs w e)
  qed simp
next
  case fails
  let ?q = "\<lambda>r. run_row sx db (rc_run c) r \<and> ar_status r \<notin> {ASucceeded, AFailed}"
  have "rows_of ar_workspace wid (sql_update ?q (\<lambda>r. r\<lparr>ar_status := AFailed\<rparr>) (rd_runs db)) = rows_of ar_workspace wid (rd_runs db)"
    using assms(2) by (intro rows_of_update) (auto simp: run_row_def)
  moreover have "rows_of tu_workspace wid (rd_turns (settle_turn sx (rc_turn c) TurnRunFailed
      (update_runs ?q (\<lambda>r. r\<lparr>ar_status := AFailed\<rparr>) db))) = rows_of tu_workspace wid (rd_turns db)"
    using settle_turn_hidden [of sx "update_runs ?q (\<lambda>r. r\<lparr>ar_status := AFailed\<rparr>) db" wid] assms(2) by simp
  ultimately show ?thesis
    using fails(2) by (simp add: ws_view_def fail_run_def)
qed

lemma db_step_hidden:
  assumes "db_step schema late sx db db'" and "research_inv db" and "wid \<in> ws_id ` set (rd_workspaces db)"
    and "\<not> in_ws sx db wid"
  shows "ws_view wid db' = ws_view wid db"
  using db_step_changes [OF assms(1)] research_inv_unique [OF assms(2)] changes_hidden [OF _ assms(3,4)]
    delete_turn_hidden [OF _ assms(2,4)] by blast


lemma claim_run_hidden:
  assumes "claim_run sx now rid db = (Claimed c, db')" and "\<not> in_ws sx db wid"
  shows "ws_view wid db' = ws_view wid db"
proof -
  have "rows_of ar_workspace wid (sql_update (claim_where sx db rid)
      (\<lambda>r. r\<lparr>ar_status := ARunning, ar_started_at := Some now\<rparr>) (rd_runs db)) = rows_of ar_workspace wid (rd_runs db)"
    using assms(2) by (intro rows_of_update) (auto simp: claim_where_def run_row_def)
  then show ?thesis
    by (simp add: claim_runD(2) [OF assms(1)] ws_view_def)
qed

section \<open>Properties\<close>

text \<open>
  C20. In every reachable state, whatever sessions act and in whatever order, checks that another
  transaction has outdated included: the number and the idempotency key of a turn are unique in its
  workspace and the number lies below the counter of the workspace; a workspace has at most one run that
  is queued, planned or running, and run numbers are unique; a run belongs to the workspace of its turn;
  a turn has at most one result, a run at most one result and one extraction job, whose turn exists.
\<close>

theorem research_tables_sound:
  assumes "reachable_research schema late y"
  shows "research_inv (ry_db y)"
  using reachable_sys_inv [OF assms] by (simp add: sys_inv_def)


lemma claimed_row:
  assumes "claim_run sx now rid db = (Claimed c, db')"
  shows "\<exists>r\<in>set (rd_runs db'). ar_id r = rid \<and> ar_status r = ARunning"
proof -
  obtain r where "r \<in> set (rd_runs db)" "claim_where sx db rid r"
    using claim_runD(1) [OF assms] by blast
  then have "r\<lparr>ar_status := ARunning, ar_started_at := Some now\<rparr> \<in> set (rd_runs db')" "ar_id r = rid"
    using in_sql_updateI [of r "rd_runs db" "claim_where sx db rid" "\<lambda>r. r\<lparr>ar_status := ARunning, ar_started_at := Some now\<rparr>"]
    by (auto simp: claim_runD(2) [OF assms] claim_where_def run_row_def)
  then show ?thesis
    by (intro bexI [of _ "r\<lparr>ar_status := ARunning, ar_started_at := Some now\<rparr>"]) simp_all
qed

lemma not_claimable:
  assumes "unique_rows ar_id (rd_runs db)" and "r \<in> set (rd_runs db)" and "ar_id r = rid" and "ar_status r \<noteq> AQueued"
  shows "\<exists>st. claim_run sx now rid db = (NotClaimed st, db)"
proof -
  have "\<not> claim_where sx db rid x" if "x \<in> set (rd_runs db)" for x
    using unique_rows_eq [OF assms(1) that assms(2)] assms(3,4) by (auto simp: claim_where_def run_row_def)
  then have "sql_find (claim_where sx db rid) (rd_runs db) = None"
    by (simp add: sql_simps)
  then show ?thesis
    by (simp add: claim_run_def)
qed

text \<open>
  C18. A run is executed at most once: after a worker has claimed it, no claim of it succeeds again, in
  any session and after any continuation, whether the worker finished, failed or died, the message is
  delivered again, the run was cancelled, or the reconciler has put a new event into the outbox.
\<close>

theorem run_claimed_once:
  assumes "reachable_research schema late y" and "claim_run sx now rid (ry_db y) = (Claimed c, db')"
    and "research_steps schema late \<lparr>ry_db = db', ry_claims = c # ry_claims y\<rparr> z"
  shows "\<exists>st. claim_run sx' now' rid (ry_db z) = (NotClaimed st, ry_db z)"
proof -
  let ?y1 = "\<lparr>ry_db = db', ry_claims = c # ry_claims y\<rparr>"
  have "sys_inv ?y1"
    using research_step_inv [OF research_step.claims [OF assms(2)] reachable_sys_inv [OF assms(1)]] by blast
  then have z: "sys_inv z" "runs_kept db' (ry_db z)"
    using research_steps_inv [OF assms(3)] by auto
  obtain r where "r \<in> set (rd_runs db')" "ar_id r = rid" "ar_status r = ARunning"
    using claimed_row [OF assms(2)] by blast
  then obtain r' where "r' \<in> set (rd_runs (ry_db z))" "run_kept r r'" "ar_status r = ARunning" "ar_id r = rid"
    using z(2) unfolding runs_kept_def by blast
  moreover have "unique_rows ar_id (rd_runs (ry_db z))"
    using z(1) by (simp add: sys_inv_def research_inv_unique)
  ultimately show ?thesis
    by (intro not_claimable [of "ry_db z" r']) (auto simp: run_kept_def)
qed

end
