(* ===== verification/ResearchPaths.thy ===== *)
theory ResearchPaths imports ResearchTheorems begin

text \<open>
  How turns move. With each check and its writes in one transaction (\<open>late = False\<close>) a turn whose run is
  queued or in execution is queued itself, and it is only the worker that executes the run that moves it
  on. So the status of a turn follows a fixed graph, and a turn whose queued run is cancelled is stranded.
\<close>

section \<open>The graph\<close>

definition turn_graph :: "(turn_status \<times> turn_status) set" where
  "turn_graph = plan_moves \<union> {(PlanConfirmed, TurnQueued), (TurnRunFailed, TurnQueued), (TurnQueued, TurnSucceeded),
     (TurnQueued, TurnRunFailed)}"

definition used_statuses :: "turn_status set" where
  "used_statuses = {QuestionDraft, Planning, PlanningFailed, PlanReview, PlanConfirmed, TurnQueued, TurnRunFailed,
     TurnSucceeded}"

lemma turn_graph_used: "(a, b) \<in> turn_graph\<^sup>* \<Longrightarrow> a \<in> used_statuses \<Longrightarrow> b \<in> used_statuses"
  by (induction rule: rtrancl_induct) (auto simp: turn_graph_def plan_moves_def used_statuses_def)

section \<open>What an operation does to turns and queued runs\<close>

definition queued_runs :: "research_db \<Rightarrow> uuid \<Rightarrow> uuid set" where
  "queued_runs db tid = ar_id ` {r \<in> set (rd_runs db). ar_status r = AQueued \<and> ar_turn r = Some tid}"

inductive turn_change :: "research_db \<Rightarrow> research_db \<Rightarrow> bool" where
  quiet: "(\<And>tid. queued_runs db' tid \<subseteq> queued_runs db tid) \<Longrightarrow>
    (\<And>t'. t' \<in> set (rd_turns db') \<Longrightarrow> \<exists>t\<in>set (rd_turns db). tu_id t = tu_id t'
      \<and> (tu_status t, tu_status t') \<in> turn_graph\<^sup>* \<and> (tu_status t = TurnQueued \<longrightarrow> tu_status t' = TurnQueued)) \<Longrightarrow>
    turn_change db db'"
| drafted: "rd_runs db' = rd_runs db \<Longrightarrow> rd_turns db' = rd_turns db @ [t] \<Longrightarrow> tu_status t = QuestionDraft \<Longrightarrow>
    unused_turn (tu_id t) db \<Longrightarrow> tu_id t \<notin> tu_id ` set (rd_turns db) \<Longrightarrow> turn_change db db'"
| submitted: "rd_runs db' = rd_runs db @ [r] \<Longrightarrow> ar_turn r = Some (tu_id t) \<Longrightarrow> ar_status r = AQueued \<Longrightarrow>
    t \<in> set (rd_turns db) \<Longrightarrow> can_run (tu_status t) \<Longrightarrow>
    rd_turns db' = sql_update (\<lambda>x. tu_id x = tu_id t) (\<lambda>x. x\<lparr>tu_status := TurnQueued\<rparr>) (rd_turns db) \<Longrightarrow>
    turn_change db db'"

lemma quiet_same: "rd_turns db' = rd_turns db \<Longrightarrow> (\<And>tid. queued_runs db' tid \<subseteq> queued_runs db tid) \<Longrightarrow> turn_change db db'"
  by (rule quiet) auto

lemma queued_runs_update:
  assumes "rd_runs db' = sql_update q f (rd_runs db)" and "\<And>r. q r \<Longrightarrow> ar_status (f r) \<noteq> AQueued"
  shows "queued_runs db' tid \<subseteq> queued_runs db tid"
  using assms(2) by (auto simp: queued_runs_def assms(1) elim!: in_sql_updateE split: if_splits)

lemma quiet_turns:
  assumes "rd_runs db' = rd_runs db" and "rd_turns db' = sql_update p f (rd_turns db)"
    and "\<And>t. p t \<Longrightarrow> tu_id (f t) = tu_id t \<and> (tu_status t, tu_status (f t)) \<in> turn_graph \<and> tu_status t \<noteq> TurnQueued"
  shows "turn_change db db'"
proof (rule quiet)
  fix t' assume "t' \<in> set (rd_turns db')"
  then obtain t where "t \<in> set (rd_turns db)" "t' = (if p t then f t else t)"
    unfolding assms(2) by (auto simp: set_sql_update)
  then show "\<exists>t\<in>set (rd_turns db). tu_id t = tu_id t' \<and> (tu_status t, tu_status t') \<in> turn_graph\<^sup>*
      \<and> (tu_status t = TurnQueued \<longrightarrow> tu_status t' = TurnQueued)"
    using assms(3) [of t] by (intro bexI [of _ t]) auto
qed (simp add: queued_runs_def assms(1))

lemma find_turnD: "find_turn sx tid db = Some t \<Longrightarrow> t \<in> set (rd_turns db) \<and> tu_id t = tid \<and> in_ws sx db (tu_workspace t)"
  by (auto simp: find_turn_def dest!: sql_find_SomeD)

lemma plan_move_from: "\<forall>a\<in>set as. (a, b) \<in> plan_moves \<Longrightarrow> a \<in> set as \<Longrightarrow> (a, b) \<in> turn_graph \<and> a \<noteq> TurnQueued"
  by (auto simp: turn_graph_def plan_moves_def)

lemma change_turns:
  assumes "change schema False sx db db'" and "unique_rows tu_id (rd_turns db)"
  shows "turn_change db db'"
  using assms(1)
proof cases
  case other_tables
  then show ?thesis
    by (intro quiet_same) (auto simp: same_defs queued_runs_def)
next
  case concluded
  then show ?thesis
    using conclusion_step_core [OF concluded] by (intro quiet_same) (auto simp: core_same_def queued_runs_def)
next
  case (new_workspace w)
  then show ?thesis
    by (intro quiet_same) (auto simp: queued_runs_def)
next
  case (workspace_fields wid f)
  then show ?thesis
    by (intro quiet_same) (auto simp: queued_runs_def update_workspaces_def)
next
  case (new_snapshot s)
  then show ?thesis
    by (intro quiet_same) (auto simp: queued_runs_def)
next
  case (new_turn t cs)
  then show ?thesis
    by (intro drafted [of _ _ t]) (auto simp: turn_admissible_def list_ex_iff)
next
  case (turn_moves as b tid)
  have "tu_id ((\<lambda>t. t\<lparr>tu_status := b\<rparr>) t) = tu_id t \<and> (tu_status t, tu_status ((\<lambda>t. t\<lparr>tu_status := b\<rparr>) t)) \<in> turn_graph
      \<and> tu_status t \<noteq> TurnQueued" if "turn_where sx db tid as t" for t
    using plan_move_from [OF turn_moves(2)] that by (simp add: turn_where_def)
  then show ?thesis
    using turn_moves(1) by (intro quiet_turns [of db' db "turn_where sx db tid as" "\<lambda>t. t\<lparr>tu_status := b\<rparr>"]) simp_all
next
  case (turn_plans as b tid v)
  have "tu_id ((\<lambda>t. t\<lparr>tu_status := b, tu_versions := v t\<rparr>) t) = tu_id t \<and> (tu_status t, tu_status ((\<lambda>t. t\<lparr>tu_status := b, tu_versions := v t\<rparr>) t)) \<in> turn_graph
      \<and> tu_status t \<noteq> TurnQueued" if "turn_where sx db tid as t" for t
    using plan_move_from [OF turn_plans(2)] that by (simp add: turn_where_def)
  then show ?thesis
    using turn_plans(1) by (intro quiet_turns [of db' db "turn_where sx db tid as" "\<lambda>t. t\<lparr>tu_status := b, tu_versions := v t\<rparr>"]) simp_all
next
  case (new_plan p)
  then show ?thesis
    by (intro quiet_same) (auto simp: queued_runs_def insert_plan_version_def insert_row_def split: if_splits)
next
  case (plan_fields q f)
  then show ?thesis
    by (intro quiet_same) (auto simp: queued_runs_def)
next
  case (new_run now actor wid n pid sid rid eid r)
  then show ?thesis
    by (intro quiet_same) (auto simp: queued_runs_def queue_run_def Let_def enqueue_research_def)
next
  case (new_turn_run now actor wid tid pid sid rid eid r)
  then obtain t where t: "t \<in> set (rd_turns db)" "tu_id t = tid" "can_run (tu_status t)"
    by blast
  obtain x where x: "find_turn sx tid db = Some x" and r: "ar_turn r = Some tid" "ar_status r = AQueued"
    and db': "rd_runs db' = rd_runs db @ [r]"
      "rd_turns db' = sql_update (\<lambda>t. tu_id t = tid \<and> in_ws sx db (tu_workspace t)) (\<lambda>t. t\<lparr>tu_status := TurnQueued\<rparr>) (rd_turns db)"
    using new_turn_run(1) by (auto simp: write_run_def queue_run_def Let_def enqueue_research_def set_turn_status_def in_ws_def)
  have "rd_turns db' = sql_update (\<lambda>x. tu_id x = tu_id t) (\<lambda>x. x\<lparr>tu_status := TurnQueued\<rparr>) (rd_turns db)"
    unfolding db'(2) sql_update_def
  proof (rule map_cong [OF refl])
    fix y assume "y \<in> set (rd_turns db)"
    moreover have "x \<in> set (rd_turns db)" "tu_id x = tid" "in_ws sx db (tu_workspace x)"
      using find_turnD [OF x] by auto
    ultimately have "in_ws sx db (tu_workspace y)" if "tu_id y = tid"
      using unique_rows_eq [OF assms(2), of x y] that by simp
    then show "(if tu_id y = tid \<and> in_ws sx db (tu_workspace y) then y\<lparr>tu_status := TurnQueued\<rparr> else y) =
        (if tu_id y = tu_id t then y\<lparr>tu_status := TurnQueued\<rparr> else y)"
      using t(2) by simp
  qed
  then show ?thesis
    using t r db'(1) by (intro submitted [of _ _ r t]) auto
next
  case (run_fields q f)
  have "queued_runs (update_runs q f db) tid \<subseteq> queued_runs db tid" for tid
    using run_fields(3) by (intro queued_runs_update [of _ q f]) (auto simp: active_status_def)
  then show ?thesis
    using run_fields(1) by (intro quiet_same) auto
next
  case (extraction_fields q st)
  then show ?thesis
    by (intro quiet_same) (auto simp: queued_runs_def)
qed

lemma delete_turn_change: "delete_turn sx wid tid db = Inr db' \<Longrightarrow> turn_change db db'"
  using delete_turnD [of sx wid tid db db'] by (intro quiet) (auto simp: queued_runs_def)


section \<open>Runs in progress\<close>

definition busy :: "research_sys \<Rightarrow> uuid \<Rightarrow> uuid set" where
  "busy y tid = queued_runs (ry_db y) tid \<union> rc_run ` {c \<in> set (ry_claims y). rc_turn c = Some tid}"

definition turns_inv :: "research_sys \<Rightarrow> bool" where
  "turns_inv y \<longleftrightarrow> (\<forall>tid. (\<forall>i\<in>busy y tid. \<forall>j\<in>busy y tid. i = j)
    \<and> (busy y tid \<noteq> {} \<longrightarrow> (\<forall>t\<in>set (rd_turns (ry_db y)). tu_id t = tid \<longrightarrow> tu_status t = TurnQueued)))"

definition path_inv :: "research_sys \<Rightarrow> bool" where
  "path_inv y \<longleftrightarrow> sys_inv y \<and> turns_inv y \<and> (\<forall>t\<in>set (rd_turns (ry_db y)). tu_status t \<in> used_statuses)"

text \<open>A turn that stays queued because nothing of it is queued or in execution, and the run that did it.\<close>

definition stranded :: "uuid \<Rightarrow> research_sys \<Rightarrow> bool" where
  "stranded tid y \<longleftrightarrow> busy y tid = {} \<and> (\<exists>r\<in>set (rd_runs (ry_db y)). ar_turn r = Some tid)
    \<and> (\<forall>t\<in>set (rd_turns (ry_db y)). tu_id t = tid \<longrightarrow> tu_status t = TurnQueued)"

definition moved :: "research_db \<Rightarrow> research_db \<Rightarrow> bool" where
  "moved db db' \<longleftrightarrow> (\<forall>t\<in>set (rd_turns db). \<forall>t'\<in>set (rd_turns db'). tu_id t' = tu_id t \<longrightarrow>
    (tu_status t, tu_status t') \<in> turn_graph\<^sup>*)"

lemma turns_inv_queued:
  "turns_inv y \<Longrightarrow> i \<in> busy y tid \<Longrightarrow> t \<in> set (rd_turns (ry_db y)) \<Longrightarrow> tu_id t = tid \<Longrightarrow> tu_status t = TurnQueued"
  unfolding turns_inv_def by blast

lemma turns_inv_one: "turns_inv y \<Longrightarrow> i \<in> busy y tid \<Longrightarrow> j \<in> busy y tid \<Longrightarrow> i = j"
  unfolding turns_inv_def by blast

lemma turns_inv_mono:
  assumes "turns_inv y" and "\<And>tid. busy y' tid \<subseteq> busy y tid"
    and "\<And>t'. t' \<in> set (rd_turns (ry_db y')) \<Longrightarrow> busy y' (tu_id t') \<noteq> {} \<Longrightarrow>
      \<exists>t\<in>set (rd_turns (ry_db y)). tu_id t = tu_id t' \<and> (tu_status t = TurnQueued \<longrightarrow> tu_status t' = TurnQueued)"
  shows "turns_inv y'"
  unfolding turns_inv_def
proof (intro allI conjI impI ballI)
  fix tid i j assume "i \<in> busy y' tid" "j \<in> busy y' tid"
  then show "i = j"
    using assms(1,2) turns_inv_one by blast
next
  fix tid t' assume b: "busy y' tid \<noteq> {}" "t' \<in> set (rd_turns (ry_db y'))" "tu_id t' = tid"
  then obtain i t where "i \<in> busy y' tid" "t \<in> set (rd_turns (ry_db y))" "tu_id t = tid"
      "tu_status t = TurnQueued \<longrightarrow> tu_status t' = TurnQueued"
    using assms(3) [of t'] by auto
  then show "tu_status t' = TurnQueued"
    using assms(1,2) turns_inv_queued by blast
qed

lemma busy_claims: "busy \<lparr>ry_db = db, ry_claims = cs\<rparr> tid = queued_runs db tid \<union> rc_run ` {c \<in> set cs. rc_turn c = Some tid}"
  by (simp add: busy_def)

lemma unused_not_busy:
  assumes "claims_inv y" and "unused_turn tid (ry_db y)"
  shows "busy y tid = {}"
  using assms by (fastforce simp: busy_def queued_runs_def unused_turn_def claims_inv_def claim_of_def)

lemma queued_append:
  "rd_runs db' = rd_runs db @ [r] \<Longrightarrow> ar_turn r = Some i \<Longrightarrow> ar_status r = AQueued \<Longrightarrow>
    queued_runs db' tid = queued_runs db tid \<union> (if tid = i then {ar_id r} else {})"
  by (auto simp: queued_runs_def)

lemma turn_change_inv:
  assumes "turn_change (ry_db y) db'" and "turns_inv y" and "claims_inv y"
  shows "turns_inv (y\<lparr>ry_db := db'\<rparr>)"
  using assms(1)
proof cases
  case quiet
  then show ?thesis
    by (intro turns_inv_mono [OF assms(2)]) (unfold busy_def, fastforce, fastforce)
next
  case (drafted t)
  have b: "busy (y\<lparr>ry_db := db'\<rparr>) tid = busy y tid" for tid
    by (simp add: busy_def queued_runs_def drafted(1))
  show ?thesis
  proof (rule turns_inv_mono [OF assms(2)])
    fix t' assume t': "t' \<in> set (rd_turns (ry_db (y\<lparr>ry_db := db'\<rparr>)))" "busy (y\<lparr>ry_db := db'\<rparr>) (tu_id t') \<noteq> {}"
    then have "t' \<noteq> t"
      using unused_not_busy [OF assms(3) drafted(4)] b by auto
    then show "\<exists>t\<in>set (rd_turns (ry_db y)). tu_id t = tu_id t' \<and> (tu_status t = TurnQueued \<longrightarrow> tu_status t' = TurnQueued)"
      using t'(1) drafted(2) by auto
  qed (simp add: b)
next
  case (submitted r t)
  have free: "busy y (tu_id t) = {}"
    using turns_inv_queued [OF assms(2) _ submitted(4)] submitted(5) by (fastforce simp: can_run_def)
  have b: "busy (y\<lparr>ry_db := db'\<rparr>) tid = busy y tid \<union> (if tid = tu_id t then {ar_id r} else {})" for tid
    using queued_append [OF submitted(1,2,3)] by (auto simp: busy_def)
  show ?thesis
    unfolding turns_inv_def
  proof (intro allI conjI impI ballI)
    fix tid i j assume "i \<in> busy (y\<lparr>ry_db := db'\<rparr>) tid" "j \<in> busy (y\<lparr>ry_db := db'\<rparr>) tid"
    then show "i = j"
      using free turns_inv_one [OF assms(2)] by (cases "tid = tu_id t") (auto simp: b)
  next
    fix tid t' assume t': "busy (y\<lparr>ry_db := db'\<rparr>) tid \<noteq> {}" "t' \<in> set (rd_turns (ry_db (y\<lparr>ry_db := db'\<rparr>)))" "tu_id t' = tid"
    show "tu_status t' = TurnQueued"
    proof (cases "tid = tu_id t")
      case True
      then show ?thesis
        using t'(2,3) submitted(6) by (auto elim!: in_sql_updateE split: if_splits)
    next
      case False
      then have "t' \<in> set (rd_turns (ry_db y))"
        using t'(2,3) submitted(6) by (auto elim!: in_sql_updateE split: if_splits)
      then show ?thesis
        using t' False turns_inv_queued [OF assms(2)] by (auto simp: b)
    qed
  qed
qed

lemma turn_change_stranded:
  assumes "turn_change (ry_db y) db'" and "runs_kept (ry_db y) db'" and "stranded tid y"
  shows "stranded tid (y\<lparr>ry_db := db'\<rparr>)"
proof -
  obtain r0 where r0: "r0 \<in> set (rd_runs (ry_db y))" "ar_turn r0 = Some tid"
    using assms(3) by (auto simp: stranded_def)
  then have run: "\<exists>r\<in>set (rd_runs db'). ar_turn r = Some tid"
    using assms(2) by (fastforce simp: runs_kept_def run_kept_def)
  show ?thesis
    using assms(1)
  proof cases
    case quiet
    then show ?thesis
      using assms(3) run unfolding stranded_def busy_def by fastforce
  next
    case (drafted t)
    then have "tu_id t \<noteq> tid"
      using r0 by (auto simp: unused_turn_def)
    then show ?thesis
      using assms(3) drafted run by (auto simp: stranded_def busy_def queued_runs_def)
  next
    case (submitted r t)
    then have "tu_id t \<noteq> tid"
      using assms(3) by (auto simp: stranded_def can_run_def)
    then show ?thesis
      using assms(3) submitted run by (auto simp: stranded_def busy_def queued_append [OF submitted(1,2,3)] elim!: in_sql_updateE)
  qed
qed

lemma turn_change_moved:
  assumes "turn_change db db'" and "unique_rows tu_id (rd_turns db)"
  shows "moved db db'"
  unfolding moved_def
proof (intro ballI impI)
  fix t t' assume t: "t \<in> set (rd_turns db)" "t' \<in> set (rd_turns db')" "tu_id t' = tu_id t"
  note only = unique_rows_eq [OF assms(2) _ t(1)]
  show "(tu_status t, tu_status t') \<in> turn_graph\<^sup>*"
    using assms(1)
  proof cases
    case quiet
    obtain x where "x \<in> set (rd_turns db)" "tu_id x = tu_id t'" "(tu_status x, tu_status t') \<in> turn_graph\<^sup>*"
      using quiet(2) [OF t(2)] by blast
    then show ?thesis
      using only [of x] t(3) by simp
  next
    case (drafted x)
    then have "t' \<in> set (rd_turns db)"
      using t by auto
    then have "t' = t"
      using only [of t'] t(3) by simp
    then show ?thesis by simp
  next
    case (submitted r x)
    then obtain x0 where x0: "x0 \<in> set (rd_turns db)" "t' = (if tu_id x0 = tu_id x then x0\<lparr>tu_status := TurnQueued\<rparr> else x0)"
      using t(2) by (auto elim!: in_sql_updateE)
    then have "x0 = t"
      using only [of x0] t(3) by (auto split: if_splits)
    moreover have "x = t" if "tu_id t = tu_id x"
      using only [OF submitted(4)] that by simp
    ultimately show ?thesis
      using x0(2) submitted(5) by (auto simp: turn_graph_def can_run_def)
  qed
qed

lemma turn_change_used:
  assumes "turn_change db db'" and "\<forall>t\<in>set (rd_turns db). tu_status t \<in> used_statuses"
  shows "\<forall>t\<in>set (rd_turns db'). tu_status t \<in> used_statuses"
  using assms(1)
proof cases
  case quiet
  then show ?thesis
    using assms(2) turn_graph_used by blast
next
  case (drafted t)
  then show ?thesis
    using assms(2) by (simp add: used_statuses_def)
next
  case (submitted r t)
  moreover have "TurnQueued \<in> used_statuses"
    by (simp add: used_statuses_def)
  ultimately show ?thesis
    using assms(2) by (auto elim!: in_sql_updateE)
qed


section \<open>Steps of the system\<close>

lemma change_turn_ids: "change schema late sx db db' \<Longrightarrow> tu_id ` set (rd_turns db) \<subseteq> tu_id ` set (rd_turns db')"
proof (induction rule: change.induct)
  case (turn_moves as b db tid)
  then show ?case
    by (simp add: sql_update_ids)
next
  case (turn_plans as b db tid v)
  then show ?case
    by (simp add: sql_update_ids)
next
  case (new_turn_run now actor wid tid pid sid rid eid db r db')
  then have "rd_turns db' = sql_update (\<lambda>t. tu_id t = tid \<and> in_ws sx db (tu_workspace t)) (\<lambda>t. t\<lparr>tu_status := TurnQueued\<rparr>)
      (rd_turns db)"
    by (auto simp: write_run_def queue_run_def Let_def enqueue_research_def set_turn_status_def in_ws_def)
  then show ?case
    by (simp add: sql_update_ids)
next
  case (concluded db db')
  then show ?case
    using conclusion_step_core [OF concluded] by (simp add: core_same_def)
qed (auto simp: same_defs update_workspaces_def insert_plan_version_def queue_run_def Let_def enqueue_research_def)

lemma path_inv_change:
  assumes "turn_change (ry_db y) db'" and "research_inv db'" and "runs_kept (ry_db y) db'" and "path_inv y"
  shows "path_inv (y\<lparr>ry_db := db'\<rparr>)" "moved (ry_db y) db'" "stranded tid y \<Longrightarrow> stranded tid (y\<lparr>ry_db := db'\<rparr>)"
proof -
  have inv: "claims_inv y" "research_inv (ry_db y)" "turns_inv y"
    using assms(4) by (simp_all add: path_inv_def sys_inv_def)
  then have "claims_inv (y\<lparr>ry_db := db'\<rparr>)"
    using claims_inv_kept [OF inv(1) assms(3), of "ry_claims y"] by (simp add: claims_inv_def)
  moreover have "\<forall>t\<in>set (rd_turns db'). tu_status t \<in> used_statuses"
    using assms(4) by (intro turn_change_used [OF assms(1)]) (simp add: path_inv_def)
  ultimately show "path_inv (y\<lparr>ry_db := db'\<rparr>)"
    using assms(2) turn_change_inv [OF assms(1) inv(3) inv(1)] by (simp add: path_inv_def sys_inv_def)
  show "moved (ry_db y) db'"
    using turn_change_moved [OF assms(1)] inv(2) by (simp add: research_inv_unique)
  show "stranded tid y \<Longrightarrow> stranded tid (y\<lparr>ry_db := db'\<rparr>)"
    by (rule turn_change_stranded [OF assms(1,3)])
qed

lemma moved_trans:
  assumes "moved d0 d1" and "moved d1 d2" and "tu_id ` set (rd_turns d0) \<subseteq> tu_id ` set (rd_turns d1)"
  shows "moved d0 d2"
  unfolding moved_def
proof (intro ballI impI)
  fix t t2 assume t: "t \<in> set (rd_turns d0)" "t2 \<in> set (rd_turns d2)" "tu_id t2 = tu_id t"
  then obtain t1 where t1: "t1 \<in> set (rd_turns d1)" "tu_id t1 = tu_id t"
    using assms(3) by (metis image_eqI image_iff subset_iff)
  then have "(tu_status t, tu_status t1) \<in> turn_graph\<^sup>*" "(tu_status t1, tu_status t2) \<in> turn_graph\<^sup>*"
    using assms(1,2) t unfolding moved_def by auto
  then show "(tu_status t, tu_status t2) \<in> turn_graph\<^sup>*"
    by (rule rtrancl_trans)
qed

lemma moved_refl: "unique_rows tu_id (rd_turns db) \<Longrightarrow> rd_turns db' = rd_turns db \<Longrightarrow> moved db db'"
  unfolding moved_def using unique_rows_eq by fastforce

lemma path_inv_unique: "path_inv y \<Longrightarrow> unique_rows tu_id (rd_turns (ry_db y))" "path_inv y \<Longrightarrow> research_inv (ry_db y)"
  by (simp_all add: path_inv_def sys_inv_def research_inv_unique)

lemma changes_path:
  assumes "changes schema False sx (ry_db y) db'" and "path_inv y"
  shows "path_inv (y\<lparr>ry_db := db'\<rparr>) \<and> moved (ry_db y) db' \<and> (stranded tid y \<longrightarrow> stranded tid (y\<lparr>ry_db := db'\<rparr>))
    \<and> tu_id ` set (rd_turns (ry_db y)) \<subseteq> tu_id ` set (rd_turns db')"
  using assms(1)
proof (induction rule: rtranclp_induct)
  case base
  then show ?case
    using assms(2) moved_refl path_inv_unique(1) by simp
next
  case (step d d')
  let ?y = "y\<lparr>ry_db := d\<rparr>"
  have inv: "path_inv ?y" "unique_rows tu_id (rd_turns d)" "research_inv d"
    using step(3) path_inv_unique [of ?y] by simp_all
  note c = change_turns [OF step(2) inv(2)] and k = change_runs_kept [OF step(2)] and i = change_inv [OF step(2) inv(3)]
  have "path_inv (?y\<lparr>ry_db := d'\<rparr>)" "moved d d'" "stranded tid ?y \<Longrightarrow> stranded tid (?y\<lparr>ry_db := d'\<rparr>)"
    using path_inv_change [of ?y d'] c k i inv(1) by simp_all
  then show ?case
    using step(3) moved_trans change_turn_ids [OF step(2)] by fastforce
qed

lemma db_step_path:
  assumes "db_step schema False sx (ry_db y) db'" and "path_inv y"
  shows "path_inv (y\<lparr>ry_db := db'\<rparr>)" "moved (ry_db y) db'" "stranded tid y \<Longrightarrow> stranded tid (y\<lparr>ry_db := db'\<rparr>)"
proof -
  note inv = path_inv_unique(2) [OF assms(2)]
  have "changes schema False sx (ry_db y) db' \<or> (\<exists>wid tid. delete_turn sx wid tid (ry_db y) = Inr db')"
    using db_step_changes [OF assms(1)] inv by (simp add: research_inv_unique)
  then have "path_inv (y\<lparr>ry_db := db'\<rparr>) \<and> moved (ry_db y) db' \<and> (stranded tid y \<longrightarrow> stranded tid (y\<lparr>ry_db := db'\<rparr>))"
  proof
    assume "changes schema False sx (ry_db y) db'"
    then show ?thesis
      using changes_path [OF _ assms(2)] by blast
  next
    assume "\<exists>wid tid. delete_turn sx wid tid (ry_db y) = Inr db'"
    then obtain wid i where d: "delete_turn sx wid i (ry_db y) = Inr db'"
      by blast
    then show ?thesis
      using path_inv_change [OF delete_turn_change [OF d] delete_turn_inv [OF d inv] delete_turn_kept [OF d] assms(2)]
      by blast
  qed
  then show "path_inv (y\<lparr>ry_db := db'\<rparr>)" "moved (ry_db y) db'" "stranded tid y \<Longrightarrow> stranded tid (y\<lparr>ry_db := db'\<rparr>)"
    by simp_all
qed

lemma claim_run_path:
  assumes "claim_run sx now rid (ry_db y) = (Claimed c, db')" and "path_inv y"
  defines "y' \<equiv> \<lparr>ry_db = db', ry_claims = c # ry_claims y\<rparr>"
  shows "turns_inv y'" "stranded tid y \<Longrightarrow> stranded tid y'" "rd_turns db' = rd_turns (ry_db y)"
proof -
  obtain r where r: "r \<in> set (rd_runs (ry_db y))" "claim_where sx (ry_db y) rid r" "rc_run c = rid" "rc_turn c = ar_turn r"
    using claim_runD(1) [OF assms(1)] by blast
  note db' = claim_runD(2) [OF assms(1)]
  show turns: "rd_turns db' = rd_turns (ry_db y)"
    by (simp add: db')
  have "queued_runs db' i \<subseteq> queued_runs (ry_db y) i" for i
    by (rule queued_runs_update [of _ "claim_where sx (ry_db y) rid" "\<lambda>r. r\<lparr>ar_status := ARunning, ar_started_at := Some now\<rparr>"])
      (simp_all add: db')
  moreover have "rc_run c \<in> busy y i" if "rc_turn c = Some i" for i
  proof -
    have "r \<in> {r \<in> set (rd_runs (ry_db y)). ar_status r = AQueued \<and> ar_turn r = Some i}" "rc_run c = ar_id r"
      using r that by (simp_all add: claim_where_def run_row_def)
    then show ?thesis
      unfolding busy_def queued_runs_def by blast
  qed
  ultimately have b: "busy y' i \<subseteq> busy y i" for i
    by (auto simp: y'_def busy_def)
  have "turns_inv y"
    using assms(2) by (simp add: path_inv_def)
  then show "turns_inv y'"
    by (rule turns_inv_mono [OF _ b]) (auto simp: y'_def turns)
  have "runs_kept (ry_db y) db'"
    using claim_run_inv(2) [OF assms(1)] path_inv_unique(2) [OF assms(2)] by blast
  then show "stranded tid y \<Longrightarrow> stranded tid y'"
    using b [of tid] by (fastforce simp: stranded_def y'_def turns runs_kept_def run_kept_def)
qed


subsection \<open>Finishing a run\<close>

definition settles :: "uuid option \<Rightarrow> research_db \<Rightarrow> research_db \<Rightarrow> bool" where
  "settles turn db db' \<longleftrightarrow> (\<exists>p st. st \<in> {TurnSucceeded, TurnRunFailed} \<and> (\<forall>t. p t \<longrightarrow> turn = Some (tu_id t))
    \<and> rd_turns db' = sql_update p (\<lambda>t. t\<lparr>tu_status := st\<rparr>) (rd_turns db))"

lemma settles_same: "rd_turns db' = rd_turns db \<Longrightarrow> settles turn db db'"
  unfolding settles_def by (rule exI [of _ "\<lambda>_. False"]) (auto simp: sql_update_def)

lemma settle_turn_settles:
  assumes "st \<in> {TurnSucceeded, TurnRunFailed}" and "rd_turns d = rd_turns db" and "rd_turns db' = rd_turns (settle_turn sx turn st d)"
  shows "settles turn db db'"
proof (cases "rd_turns (settle_turn sx turn st d) = rd_turns d")
  case True
  then show ?thesis
    using assms(2,3) by (simp add: settles_same)
next
  case False
  then obtain tid where "turn = Some tid" "settle_turn sx turn st d = set_turn_status sx tid st d"
    by (auto simp: settle_turn_def split: option.splits if_splits)
  then show ?thesis
    using assms unfolding settles_def
    by (intro exI [of _ "\<lambda>t. tu_id t = tid \<and> in_ws sx d (tu_workspace t)"] exI [of _ st]) (simp add: set_turn_status_def)
qed

lemma finish_run_settles:
  assumes "finish_run sx now c answer reid xid eid db = (ok, db')"
  shows "settles (rc_turn c) db db'" "queued_runs db' tid \<subseteq> queued_runs db tid"
proof -
  show "settles (rc_turn c) db db'"
    using assms
  proof (cases rule: finish_run_cases)
    case (completes a)
    show ?thesis
      using completes(2)
    proof (cases rule: complete_runE)
      case (completed r db1 x db2)
      then show ?thesis
        by (intro settle_turn_settles [of TurnSucceeded db1 db db' sx])
          (simp_all add: write_resultD(2) [OF completed(3)] ensure_extractionD(2) [OF completed(4)] same_defs)
    qed (simp add: settles_same)
  next
    case fails
    then show ?thesis
      by (intro settle_turn_settles [of TurnRunFailed _ db db' sx]) (auto simp: fail_run_def)
  qed
  show "queued_runs db' tid \<subseteq> queued_runs db tid"
    using assms
  proof (cases rule: finish_run_cases)
    case (completes a)
    then consider "rd_runs db' = rd_runs db"
      | "rd_runs db' = sql_update (run_row sx db (rc_run c)) (\<lambda>r. r\<lparr>ar_status := ASucceeded\<rparr>) (rd_runs db)"
      using complete_run_runs by blast
    then show ?thesis
      by cases (simp add: queued_runs_def, erule queued_runs_update, simp)
  next
    case fails
    then have "rd_runs db' = sql_update (\<lambda>r. run_row sx db (rc_run c) r \<and> ar_status r \<notin> {ASucceeded, AFailed})
        (\<lambda>r. r\<lparr>ar_status := AFailed\<rparr>) (rd_runs db)"
      by (simp add: fail_run_def)
    then show ?thesis
      by (rule queued_runs_update) simp
  qed
qed

lemma claim_not_queued:
  assumes "sys_inv y" and "c \<in> set (ry_claims y)"
  shows "rc_run c \<notin> queued_runs (ry_db y) tid"
proof
  assume "rc_run c \<in> queued_runs (ry_db y) tid"
  then obtain r where r: "r \<in> set (rd_runs (ry_db y))" "ar_status r = AQueued" "ar_id r = rc_run c"
    by (auto simp: queued_runs_def)
  obtain r' where r': "r' \<in> set (rd_runs (ry_db y))" "claim_of c r'"
    using assms unfolding sys_inv_def claims_inv_def by blast
  have "r = r'"
    using unique_rows_eq [OF research_inv_unique(3) r(1) r'(1)] assms(1) r(3) r'(2) by (simp add: sys_inv_def claim_of_def)
  then show False
    using r(2) r'(2) by (simp add: claim_of_def)
qed

lemma settles_path:
  assumes "settles (rc_turn c) (ry_db y) db'" and "\<And>tid. queued_runs db' tid \<subseteq> queued_runs (ry_db y) tid"
    and "path_inv y" and "c \<in> set (ry_claims y)" and "runs_kept (ry_db y) db'"
  defines "y' \<equiv> \<lparr>ry_db = db', ry_claims = filter (\<lambda>x. rc_run x \<noteq> rc_run c) (ry_claims y)\<rparr>"
  shows "turns_inv y'" "moved (ry_db y) db'" "stranded tid y \<Longrightarrow> stranded tid y'"
    "\<forall>t\<in>set (rd_turns db'). tu_status t \<in> used_statuses"
proof -
  have inv: "sys_inv y" "turns_inv y"
    using assms(3) by (simp_all add: path_inv_def)
  obtain p st where st: "st \<in> {TurnSucceeded, TurnRunFailed}" and p: "\<And>t. p t \<Longrightarrow> rc_turn c = Some (tu_id t)"
    and T: "rd_turns db' = sql_update p (\<lambda>t. t\<lparr>tu_status := st\<rparr>) (rd_turns (ry_db y))"
    using assms(1) unfolding settles_def by blast
  have b: "busy y' i \<subseteq> busy y i - {rc_run c}" for i
    using assms(2) claim_not_queued [OF inv(1) assms(4)] by (auto simp: y'_def busy_def)
  have c: "rc_run c \<in> busy y i" if "rc_turn c = Some i" for i
    using that assms(4) by (auto simp: busy_def)
  have e: "busy y' i = {}" if "rc_turn c = Some i" for i
    using b [of i] turns_inv_one [OF inv(2) _ c [OF that]] by blast
  have src: "\<exists>t\<in>set (rd_turns (ry_db y)). tu_id t = tu_id t' \<and> (t' = t \<or> rc_turn c = Some (tu_id t) \<and> t' = t\<lparr>tu_status := st\<rparr>)"
    if t': "t' \<in> set (rd_turns db')" for t'
  proof -
    obtain t where "t \<in> set (rd_turns (ry_db y))" "t' = (if p t then t\<lparr>tu_status := st\<rparr> else t)"
      using t' unfolding T by (rule in_sql_updateE)
    then show ?thesis
      using p [of t] by (intro bexI [of _ t]) auto
  qed
  show "turns_inv y'"
  proof (rule turns_inv_mono [OF inv(2)])
    show "busy y' i \<subseteq> busy y i" for i
      using b [of i] by (rule order_trans) (rule Diff_subset)
    fix t' assume t': "t' \<in> set (rd_turns (ry_db y'))" "busy y' (tu_id t') \<noteq> {}"
    then obtain x where x: "x \<in> set (rd_turns (ry_db y))" "tu_id x = tu_id t'" "t' = x \<or> rc_turn c = Some (tu_id x)"
      using src [of t'] unfolding y'_def research_sys.simps by metis
    have "t' = x"
      using e [of "tu_id x"] t'(2) x(2,3) by metis
    then show "\<exists>t\<in>set (rd_turns (ry_db y)). tu_id t = tu_id t' \<and> (tu_status t = TurnQueued \<longrightarrow> tu_status t' = TurnQueued)"
      using x(1) by blast
  qed
  show "moved (ry_db y) db'"
    unfolding moved_def
  proof (intro ballI impI)
    fix t t' assume t: "t \<in> set (rd_turns (ry_db y))" "t' \<in> set (rd_turns db')" "tu_id t' = tu_id t"
    then obtain x where x: "x \<in> set (rd_turns (ry_db y))" "tu_id x = tu_id t'"
        "t' = x \<or> rc_turn c = Some (tu_id x) \<and> t' = x\<lparr>tu_status := st\<rparr>"
      using src by blast
    have "x = t"
      using unique_rows_eq [OF path_inv_unique(1) [OF assms(3)] x(1) t(1)] x(2) t(3) by simp
    moreover have "tu_status t = TurnQueued" if "rc_turn c = Some (tu_id t)"
      using turns_inv_queued [OF inv(2) c [OF that] t(1)] by simp
    ultimately show "(tu_status t, tu_status t') \<in> turn_graph\<^sup>*"
      using x(3) st by (auto simp: turn_graph_def)
  qed
  show "\<forall>t\<in>set (rd_turns db'). tu_status t \<in> used_statuses"
  proof
    fix t' assume "t' \<in> set (rd_turns db')"
    then obtain x where "x \<in> set (rd_turns (ry_db y))" "t' = x \<or> t' = x\<lparr>tu_status := st\<rparr>"
      using src by blast
    then show "tu_status t' \<in> used_statuses"
      using assms(3) st by (auto simp: path_inv_def used_statuses_def)
  qed
  assume s: "stranded tid y"
  then have n: "rc_turn c \<noteq> Some tid"
    using c by (auto simp: stranded_def)
  have "tu_status t' = TurnQueued" if t': "t' \<in> set (rd_turns db')" "tu_id t' = tid" for t'
  proof -
    obtain t where "t \<in> set (rd_turns (ry_db y))" "tu_id t = tu_id t'" "t' = t \<or> rc_turn c = Some (tu_id t)"
      using src [OF t'(1)] by metis
    then show ?thesis
      using s n t'(2) by (auto simp: stranded_def)
  qed
  moreover obtain r where r: "r \<in> set (rd_runs (ry_db y))" "ar_turn r = Some tid"
    using s by (auto simp: stranded_def)
  then have "\<exists>r\<in>set (rd_runs db'). ar_turn r = Some tid"
    using assms(5) unfolding runs_kept_def run_kept_def by metis
  moreover have "busy y' tid = {}"
    using s b [of tid] by (simp add: stranded_def)
  ultimately show "stranded tid y'"
    by (simp add: stranded_def y'_def)
qed

lemma research_step_path:
  assumes "research_step schema False sx y y'" and "path_inv y"
  shows "path_inv y' \<and> moved (ry_db y) (ry_db y') \<and> (stranded tid y \<longrightarrow> stranded tid y')"
proof -
  have sys: "sys_inv y'" "runs_kept (ry_db y) (ry_db y')"
    using research_step_inv [OF assms(1)] assms(2) by (simp_all add: path_inv_def)
  show ?thesis
    using assms(1)
  proof cases
    case (acts db')
    then show ?thesis
      using db_step_path [OF acts(2) assms(2)] by simp
  next
    case (claims now rid c db')
    then show ?thesis
      using claim_run_path [OF claims(2) assms(2)] sys(1) moved_refl [OF path_inv_unique(1) [OF assms(2)]] assms(2)
      by (simp add: path_inv_def)
  next
    case (finishes c now answer reid xid eid ok db')
    note f = finish_run_settles [OF finishes(3)]
    show ?thesis
      using settles_path [OF f(1) f(2) assms(2) finishes(2)] sys finishes(1) by (simp add: path_inv_def)
  next
    case (dies rid)
    have b: "busy y' i \<subseteq> busy y i" for i
      unfolding dies busy_def by auto
    have inv: "turns_inv y" "\<forall>t\<in>set (rd_turns (ry_db y)). tu_status t \<in> used_statuses"
      using assms(2) by (simp_all add: path_inv_def)
    have "turns_inv y'"
      by (rule turns_inv_mono [OF inv(1) b]) (auto simp: dies)
    moreover have "stranded tid y \<longrightarrow> stranded tid y'"
      using b [of tid] by (auto simp: stranded_def dies)
    ultimately show ?thesis
      using sys(1) moved_refl [OF path_inv_unique(1) [OF assms(2)]] inv(2) by (simp add: path_inv_def dies)
  qed
qed

lemma research_steps_path:
  "research_steps schema False y y' \<Longrightarrow> path_inv y \<Longrightarrow> path_inv y' \<and> (stranded tid y \<longrightarrow> stranded tid y')"
  unfolding research_steps_def
  by (induction rule: rtranclp_induct) (use research_step_path in blast)+

lemma reachable_path_inv: "reachable_research schema False y \<Longrightarrow> path_inv y"
proof -
  have "path_inv empty_research"
    using sys_inv_empty by (simp add: path_inv_def turns_inv_def busy_def queued_runs_def empty_research_def)
  then show "reachable_research schema False y \<Longrightarrow> path_inv y"
    using research_steps_path unfolding reachable_research_def by blast
qed


section \<open>Properties\<close>


lemma cancel_runD:
  assumes "cancel_run sx now rid db = Inr db'"
  shows "\<exists>r\<in>set (rd_runs db). run_row sx db rid r" "rd_turns db' = rd_turns db"
    "\<exists>w. rd_runs db' = sql_update (run_row sx db rid) (\<lambda>r. r\<lparr>ar_status := ACancelled, ar_cancelled := Some w\<rparr>) (rd_runs db)"
proof -
  obtain actor r where r: "find_analysis sx rid db = Some r" and audit: "research_audit sx ''research.run.cancel'' rid
      (update_runs (run_row sx db rid) (\<lambda>r. r\<lparr>ar_status := ACancelled, ar_cancelled := Some (now, actor)\<rparr>) db) = Inr db'"
    using assms by (auto simp: cancel_run_def)
  show "\<exists>r\<in>set (rd_runs db). run_row sx db rid r"
    using r by (auto simp: find_analysis_def run_row_def dest!: sql_find_SomeD)
  have "rd_runs db' = sql_update (run_row sx db rid) (\<lambda>r. r\<lparr>ar_status := ACancelled, ar_cancelled := Some (now, actor)\<rparr>) (rd_runs db)"
    "rd_turns db' = rd_turns db"
    using audit by (auto simp: research_audit_def split: if_splits)
  then show "rd_turns db' = rd_turns db"
    "\<exists>w. rd_runs db' = sql_update (run_row sx db rid) (\<lambda>r. r\<lparr>ar_status := ACancelled, ar_cancelled := Some w\<rparr>) (rd_runs db)"
    by blast+
qed

lemma cancel_strands:
  assumes "cancel_run sx now rid (ry_db y) = Inr db'" and "path_inv y"
    and "r \<in> set (rd_runs (ry_db y))" and "ar_id r = rid" and "ar_status r = AQueued" and "ar_turn r = Some tid"
  shows "stranded tid (y\<lparr>ry_db := db'\<rparr>)"
proof -
  note u = unique_rows_eq [OF research_inv_unique(3) [OF path_inv_unique(2) [OF assms(2)]]]
  have inv: "turns_inv y" "sys_inv y"
    using assms(2) by (simp_all add: path_inv_def)
  obtain w where runs: "rd_runs db' = sql_update (run_row sx (ry_db y) rid)
      (\<lambda>r. r\<lparr>ar_status := ACancelled, ar_cancelled := Some w\<rparr>) (rd_runs (ry_db y))"
    using cancel_runD(3) [OF assms(1)] by blast
  obtain x where "x \<in> set (rd_runs (ry_db y))" "run_row sx (ry_db y) rid x"
    using cancel_runD(1) [OF assms(1)] by blast
  then have vis: "run_row sx (ry_db y) rid r"
    using u [OF _ assms(3), of x] assms(4) by (simp add: run_row_def)
  have own: "rid \<in> busy y tid"
    using assms(3-6) by (force simp: busy_def queued_runs_def)
  have "rid \<notin> queued_runs db' tid"
  proof
    assume "rid \<in> queued_runs db' tid"
    then obtain z where z: "z \<in> set (rd_runs db')" "ar_status z = AQueued" "ar_id z = rid"
      by (auto simp: queued_runs_def)
    obtain z0 where z0: "z0 \<in> set (rd_runs (ry_db y))"
        "z = (if run_row sx (ry_db y) rid z0 then z0\<lparr>ar_status := ACancelled, ar_cancelled := Some w\<rparr> else z0)"
      using z(1) unfolding runs by (rule in_sql_updateE)
    then have "z0 = r"
      using u [OF z0(1) assms(3)] z(3) assms(4) by (auto split: if_splits)
    then show False
      using z0(2) vis z(2) by simp
  qed
  moreover have "rid \<notin> rc_run ` {c \<in> set (ry_claims y). rc_turn c = Some tid}"
  proof
    assume "rid \<in> rc_run ` {c \<in> set (ry_claims y). rc_turn c = Some tid}"
    then obtain c where "c \<in> set (ry_claims y)" "rid = rc_run c"
      by blast
    moreover have "rid \<in> queued_runs (ry_db y) tid"
      using assms(3-6) by (force simp: queued_runs_def)
    ultimately show False
      using claim_not_queued [OF inv(2)] by metis
  qed
  moreover have "queued_runs db' tid \<subseteq> queued_runs (ry_db y) tid"
    by (rule queued_runs_update [OF runs]) simp
  ultimately have "busy (y\<lparr>ry_db := db'\<rparr>) tid \<subseteq> busy y tid - {rid}"
    by (auto simp: busy_def)
  then have "busy (y\<lparr>ry_db := db'\<rparr>) tid = {}"
    using turns_inv_one [OF inv(1) _ own] by blast
  moreover have "\<forall>t\<in>set (rd_turns db'). tu_id t = tid \<longrightarrow> tu_status t = TurnQueued"
    using turns_inv_queued [OF inv(1) own] cancel_runD(2) [OF assms(1)] by simp
  moreover have "\<exists>r\<in>set (rd_runs db'). ar_turn r = Some tid"
    using in_sql_updateI [OF assms(3), of "run_row sx (ry_db y) rid" "\<lambda>r. r\<lparr>ar_status := ACancelled, ar_cancelled := Some w\<rparr>"]
      vis assms(6) unfolding runs by (intro bexI [of _ "r\<lparr>ar_status := ACancelled, ar_cancelled := Some w\<rparr>"]) simp_all
  ultimately show ?thesis
    by (simp add: stranded_def)
qed

lemma stranded_refused:
  assumes "stranded tid y"
  shows "\<exists>e. submit_turn_run schema sx now wid tid rid eid (ry_db y) = Inl e"
    "\<exists>e. start_planning sx now wid tid eid (ry_db y) = Inl e"
proof -
  have q: "tu_status t = TurnQueued" if "t \<in> set (rd_turns (ry_db y))" "tu_id t = tid" for t
    using assms that by (simp add: stranded_def)
  have "check_run sx wid tid (ry_db y) \<noteq> Inr (a, t, p)" for a t p
    using check_runD(1,2,4) [of sx wid tid "ry_db y" a t p] q [of t] by (auto simp: can_run_def)
  then show "\<exists>e. submit_turn_run schema sx now wid tid rid eid (ry_db y) = Inl e"
    by (cases "check_run sx wid tid (ry_db y)") (auto simp: submit_turn_run_def)
  show "\<exists>e. start_planning sx now wid tid eid (ry_db y) = Inl e"
  proof (cases "start_planning sx now wid tid eid (ry_db y)")
    case (Inr db')
    then obtain t where "require_owned_turn sx wid tid (ry_db y) = Inr t" "can_plan (tu_status t)"
      by (auto simp: start_planning_def)
    then have "t \<in> set (rd_turns (ry_db y))" "tu_id t = tid" "can_plan (tu_status t)"
      by (auto simp: require_owned_turn_def dest!: sql_find_SomeD)
    then show ?thesis
      using q [of t] by (simp add: can_plan_def)
  qed simp
qed


lemma death_strands:
  assumes "path_inv y" and "c \<in> set (ry_claims y)" and "rc_turn c = Some tid"
  shows "stranded tid (y\<lparr>ry_claims := filter (\<lambda>x. rc_run x \<noteq> rc_run c) (ry_claims y)\<rparr>)"
proof -
  let ?y = "y\<lparr>ry_claims := filter (\<lambda>x. rc_run x \<noteq> rc_run c) (ry_claims y)\<rparr>"
  have inv: "turns_inv y" "sys_inv y"
    using assms(1) by (simp_all add: path_inv_def)
  have own: "rc_run c \<in> busy y tid"
    using assms(2,3) by (auto simp: busy_def)
  have "busy ?y tid \<subseteq> busy y tid - {rc_run c}"
    using claim_not_queued [OF inv(2) assms(2)] by (auto simp: busy_def)
  then have "busy ?y tid = {}"
    using turns_inv_one [OF inv(1) _ own] by blast
  moreover have "\<forall>t\<in>set (rd_turns (ry_db y)). tu_id t = tid \<longrightarrow> tu_status t = TurnQueued"
    using turns_inv_queued [OF inv(1) own] by blast
  moreover have "\<exists>r\<in>set (rd_runs (ry_db y)). ar_turn r = Some tid"
    using inv(2) assms(2,3) unfolding sys_inv_def claims_inv_def claim_of_def by metis
  ultimately show ?thesis
    by (simp add: stranded_def)
qed


text \<open>A session whose user owns no workspace, like the one of the reconciler, reconciles nothing.\<close>

lemma reconciler_idle:
  assumes "\<forall>w\<in>set (rd_workspaces db). sx_actor sx \<noteq> Some (ws_owner w)"
  shows "reconcile_timeline sx locked now fresh db = db"
proof -
  have "\<not> in_ws sx db wid" for wid
    using assms by (auto simp: in_ws_def sees_ws_def list_ex_iff)
  then show ?thesis
    by (simp add: reconcile_timeline_def stale_run_def stale_extraction_def)
qed

section \<open>The migrated schema\<close>

definition no_plans :: "research_db \<Rightarrow> bool" where
  "no_plans db \<longleftrightarrow> rd_plans db = [] \<and> rd_runs db = []
    \<and> (\<forall>t\<in>set (rd_turns db). tu_status t \<in> {QuestionDraft, Planning, PlanningFailed})"

lemma sql_update_all: "\<forall>r\<in>set rows. P r \<Longrightarrow> (\<And>r. P (f r)) \<Longrightarrow> r \<in> set (sql_update p f rows) \<Longrightarrow> P r"
  by (auto elim!: in_sql_updateE)

lemma change_no_plans: "change Migrated late sx db db' \<Longrightarrow> no_plans db \<Longrightarrow> no_plans db'"
proof (induction rule: change.induct)
  case (new_plan p db db')
  then show ?case
    by (auto simp: insert_plan_version_def plan_admissible_def)
next
  case (new_run now actor wid n pid sid rid eid db r db')
  then show ?case
    by (auto simp: queue_run_def run_admissible_def)
next
  case (new_turn_run now actor wid tid pid sid rid eid db r db')
  then show ?case
    by (auto simp: write_run_def queue_run_def run_admissible_def no_plans_def)
next
  case (turn_plans as b db tid v)
  then show ?case
    using sql_update_all [of "rd_turns db" "\<lambda>t. tu_status t \<in> {QuestionDraft, Planning, PlanningFailed}"
        "\<lambda>t. t\<lparr>tu_status := b, tu_versions := v t\<rparr>" _ "turn_where sx db tid as"]
    by (simp add: no_plans_def)
next
  case (concluded db db')
  then show ?case
    using conclusion_step_core [OF concluded(1)] by (simp add: core_same_def no_plans_def)
qed (auto simp: no_plans_def same_defs update_workspaces_def)

lemma step_no_plans:
  assumes "db_step Migrated late sx db db'" and "no_plans db" and "research_inv db"
  shows "no_plans db'"
proof -
  have "no_plans db'" if "changes Migrated late sx db db'"
    using that assms(2) by (induction rule: rtranclp_induct) (auto intro: change_no_plans)
  moreover have "no_plans db'" if "delete_turn sx wid tid db = Inr db'" for wid tid
    using that assms(2) delete_turnD [OF that] by (auto simp: no_plans_def delete_turn_def)
  ultimately show ?thesis
    using db_step_changes [OF assms(1)] assms(3) research_inv_unique by blast
qed

text \<open>
  C23. On the database that the migrations create no plan is ever stored and no run is ever submitted:
  the column \<open>turn_id\<close> of a plan version must not be null and the plan service inserts it without one,
  so generating a plan fails always. Every turn stays a draft, in planning, or failed.
\<close>

theorem migrated_database_never_plans:
  assumes "reachable_research Migrated late y"
  shows "rd_plans (ry_db y) = [] \<and> rd_runs (ry_db y) = []
    \<and> (\<forall>t\<in>set (rd_turns (ry_db y)). tu_status t \<in> {QuestionDraft, Planning, PlanningFailed})"
proof -
  have "research_steps Migrated late empty_research y"
    using assms by (simp add: reachable_research_def)
  then have "no_plans (ry_db y) \<and> ry_claims y = [] \<and> sys_inv y"
    unfolding research_steps_def
  proof (induction rule: rtranclp_induct)
    case base
    then show ?case
      using sys_inv_empty by (simp add: no_plans_def empty_research_def)
  next
    case (step y y')
    then obtain sx where st: "research_step Migrated late sx y y'"
      by blast
    have inv: "sys_inv y'" "research_inv (ry_db y)"
      using research_step_inv [OF st] step(3) by (simp_all add: sys_inv_def)
    show ?case
      using st
    proof cases
      case (acts db')
      then show ?thesis
        using step_no_plans [OF acts(2)] inv step(3) by simp
    next
      case (claims now rid c db')
      then show ?thesis
        using step(3) claim_runD(1) [OF claims(2)] by (simp add: no_plans_def)
    qed (use step(3) inv in simp_all)
  qed
  then show ?thesis
    by (simp add: no_plans_def)
qed

end
