(* ===== verification/ConclusionHistory.thy ===== *)
theory ConclusionHistory imports ResearchTheorems begin

text \<open>
  The history of the conclusions in every reachable state of the research timeline: revisions are only
  added, numbered without gaps, and of two editors who start from the same version only one succeeds.
\<close>

section \<open>What an operation does to conclusions\<close>

definition revision_numbers :: "conclusion_revision list \<Rightarrow> uuid \<Rightarrow> nat set" where
  "revision_numbers rs cid = cr_number ` {r \<in> set rs. cr_conclusion r = cid}"

definition next_revision :: "conclusion_revision list \<Rightarrow> uuid \<Rightarrow> nat" where
  "next_revision rs cid =
    (case latest_by cr_number (filter (\<lambda>r. cr_conclusion r = cid) rs) of None \<Rightarrow> 1 | Some r \<Rightarrow> cr_number r + 1)"

inductive history_change :: "research_db \<Rightarrow> research_db \<Rightarrow> bool" where
  untouched: "notes_same db db' \<Longrightarrow> history_change db db'"
| started: "rd_conclusions db' = rd_conclusions db @ [c] \<Longrightarrow> rd_revisions db' = rd_revisions db @ [r] \<Longrightarrow>
    co_id c \<notin> co_id ` set (rd_conclusions db) \<Longrightarrow> cr_id r \<notin> cr_id ` set (rd_revisions db) \<Longrightarrow>
    cr_conclusion r = co_id c \<Longrightarrow> cr_number r = 1 \<Longrightarrow> co_current c = Some (cr_id r) \<Longrightarrow> history_change db db'"
| revised: "c \<in> set (rd_conclusions db) \<Longrightarrow> rd_conclusions db' = sql_update (\<lambda>x. co_id x = co_id c)
      (\<lambda>x. x\<lparr>co_lock_version := co_lock_version c + 1, co_current := Some (cr_id r)\<rparr>) (rd_conclusions db) \<Longrightarrow>
    rd_revisions db' = rd_revisions db @ [r] \<Longrightarrow> cr_id r \<notin> cr_id ` set (rd_revisions db) \<Longrightarrow> cr_conclusion r = co_id c \<Longrightarrow>
    cr_number r = next_revision (rd_revisions db) (co_id c) \<Longrightarrow> history_change db db'"
| conclusion_fields: "rd_revisions db' = rd_revisions db \<Longrightarrow> rd_conclusions db' = sql_update p f (rd_conclusions db) \<Longrightarrow>
    (\<And>c. p c \<Longrightarrow> co_id (f c) = co_id c \<and> co_current (f c) = co_current c \<and> co_lock_version c \<le> co_lock_version (f c)) \<Longrightarrow>
    history_change db db'"

lemma insert_conclusionD:
  assumes "insert_conclusion sx cid wid turn source evidence creator db = Inr db'"
  obtains c where "rd_conclusions db' = rd_conclusions db @ [c]" "co_id c = cid" "co_workspace c = wid"
    "cid \<notin> co_id ` set (rd_conclusions db)" "rd_revisions db' = rd_revisions db" "in_ws sx db wid"
    "\<And>v. in_ws sx db' v = in_ws sx db v"
  using assms by (force simp: insert_conclusion_def insert_row_def in_ws_def split: if_splits)

lemma insert_revisionD:
  assumes "insert_revision sx rid cid n statement scope refs limitations editor db = Inr db'"
  obtains r where "rd_revisions db' = rd_revisions db @ [r]" "cr_id r = rid" "cr_conclusion r = cid" "cr_number r = n"
    "rid \<notin> cr_id ` set (rd_revisions db)" "rd_conclusions db' = rd_conclusions db" "\<And>v. in_ws sx db' v = in_ws sx db v"
  using assms by (force simp: insert_revision_def insert_row_def in_ws_def split: if_splits)

lemma research_audit_notes: "research_audit sx a i db = Inr db' \<Longrightarrow> notes_same db db'"
  by (auto simp: research_audit_def notes_same_def split: if_splits)

lemma sql_update_none: "(\<And>x. x \<in> set rows \<Longrightarrow> \<not> p x) \<Longrightarrow> sql_update p f rows = rows"
  by (induction rows) auto

lemma sql_update_snoc [simp]: "sql_update p f (xs @ ys) = sql_update p f xs @ sql_update p f ys"
  by (simp add: sql_update_def)

lemma history_start:
  assumes "insert_conclusion sx cid wid turn source evidence creator db = Inr db1"
    and "insert_revision sx rid cid 1 statement scope refs limitations editor db1 = Inr db2"
    and "notes_same (set_current_revision sx cid rid db2) db'"
  shows "history_change db db'"
  using assms(1)
proof (rule insert_conclusionD)
  fix c assume c: "rd_conclusions db1 = rd_conclusions db @ [c]" "co_id c = cid" "co_workspace c = wid"
    "cid \<notin> co_id ` set (rd_conclusions db)" "rd_revisions db1 = rd_revisions db" "in_ws sx db wid"
    "\<And>v. in_ws sx db1 v = in_ws sx db v"
  show ?thesis
    using assms(2)
  proof (rule insert_revisionD)
    fix r assume r: "rd_revisions db2 = rd_revisions db1 @ [r]" "cr_id r = rid" "cr_conclusion r = cid" "cr_number r = 1"
      "rid \<notin> cr_id ` set (rd_revisions db1)" "rd_conclusions db2 = rd_conclusions db1" "\<And>v. in_ws sx db2 v = in_ws sx db1 v"
    have "sql_update (conclusion_row sx db2 cid) (\<lambda>c. c\<lparr>co_current := Some rid\<rparr>) (rd_conclusions db) = rd_conclusions db"
      using c(4) by (intro sql_update_none) (auto simp: conclusion_row_def)
    then have "rd_conclusions db' = rd_conclusions db @ [c\<lparr>co_current := Some rid\<rparr>]"
      using assms(3) c r by (simp add: notes_same_def set_current_revision_def conclusion_row_def)
    moreover have "rd_revisions db' = rd_revisions db @ [r]"
      using assms(3) c r by (simp add: notes_same_def set_current_revision_def)
    ultimately show ?thesis
      using c r by (intro started) auto
  qed
qed

lemma get_conclusionD: "get_conclusion sx cid db = Some c \<Longrightarrow> c \<in> set (rd_conclusions db) \<and> conclusion_row sx db cid c"
  by (auto simp: get_conclusion_def dest!: sql_find_SomeD)

lemma locked_updateD:
  assumes "locked_update sx cid expected f db = Inr db'"
  shows "\<exists>c\<in>set (rd_conclusions db). lock_where sx db cid expected c"
    "rd_conclusions db' = sql_update (lock_where sx db cid expected) f (rd_conclusions db)"
    "rd_revisions db' = rd_revisions db" "in_ws sx db' v = in_ws sx db v"
  using assms by (auto simp: locked_update_def sql_simps in_ws_def split: if_splits)

lemma lock_rows:
  assumes "unique_rows co_id rows" and "c \<in> set rows" and "lock_where sx db cid expected c"
    and "\<And>v. in_ws sx db' v = in_ws sx db v"
  shows "sql_update (conclusion_row sx db' cid) (\<lambda>x. x\<lparr>co_current := k\<rparr>)
      (sql_update (lock_where sx db cid expected) (\<lambda>x. x\<lparr>co_lock_version := nat (expected + 1)\<rparr>) rows) =
    sql_update (\<lambda>x. co_id x = co_id c) (\<lambda>x. x\<lparr>co_lock_version := co_lock_version c + 1, co_current := k\<rparr>) rows"
proof -
  have c: "co_id c = cid" "in_ws sx db (co_workspace c)" "expected = int (co_lock_version c)"
    using assms(3) by (auto simp: lock_where_def conclusion_row_def)
  have "(if conclusion_row sx db' cid (if lock_where sx db cid expected x then x\<lparr>co_lock_version := nat (expected + 1)\<rparr> else x)
        then (if lock_where sx db cid expected x then x\<lparr>co_lock_version := nat (expected + 1)\<rparr> else x)\<lparr>co_current := k\<rparr>
        else (if lock_where sx db cid expected x then x\<lparr>co_lock_version := nat (expected + 1)\<rparr> else x)) =
      (if co_id x = co_id c then x\<lparr>co_lock_version := co_lock_version c + 1, co_current := k\<rparr> else x)"
    if x: "x \<in> set rows" for x
  proof (cases "co_id x = cid")
    case True
    then have "x = c"
      using unique_rows_eq [OF assms(1) x assms(2)] c(1) by simp
    then show ?thesis
      using c assms(4) by (simp add: lock_where_def conclusion_row_def nat_add_distrib)
  next
    case False
    then show ?thesis
      using c assms(4) by (simp add: lock_where_def conclusion_row_def)
  qed
  then show ?thesis
    unfolding sql_update_def by simp
qed

lemma reviseE:
  assumes "revise sx wid cid statement expected scope limitations rid db = Inr db'"
  obtains db1 actor n refs db2 where "locked_update sx cid expected (\<lambda>c. c\<lparr>co_lock_version := nat (expected + 1)\<rparr>) db = Inr db1"
    and "n = (case get_latest_revision sx cid db1 of None \<Rightarrow> 1 | Some r \<Rightarrow> cr_number r + 1)"
    and "insert_revision sx rid cid n statement scope refs limitations actor db1 = Inr db2"
    and "notes_same (set_current_revision sx cid rid db2) db'"
  using assms unfolding revise_def update_conclusion_lock_def Let_def
  by (simp, elim exE conjE) (drule research_audit_notes, blast)

lemma revise_history:
  assumes "revise sx wid cid statement expected scope limitations rid db = Inr db'" and "unique_rows co_id (rd_conclusions db)"
  shows "history_change db db'"
  using assms(1)
proof (rule reviseE)
  fix db1 actor n refs db2
  assume lock: "locked_update sx cid expected (\<lambda>c. c\<lparr>co_lock_version := nat (expected + 1)\<rparr>) db = Inr db1"
    and n: "n = (case get_latest_revision sx cid db1 of None \<Rightarrow> 1 | Some r \<Rightarrow> cr_number r + 1)"
    and ins: "insert_revision sx rid cid n statement scope refs limitations actor db1 = Inr db2"
    and same: "notes_same (set_current_revision sx cid rid db2) db'"
  note l = locked_updateD [OF lock]
  obtain c where c: "c \<in> set (rd_conclusions db)" "lock_where sx db cid expected c"
    using l(1) by blast
  then have cc: "co_id c = cid" "in_ws sx db (co_workspace c)"
    by (simp_all add: lock_where_def conclusion_row_def)
  have "c\<lparr>co_lock_version := nat (expected + 1)\<rparr> \<in> set (rd_conclusions db1)"
    using in_sql_updateI [OF c(1), of "lock_where sx db cid expected" "\<lambda>c. c\<lparr>co_lock_version := nat (expected + 1)\<rparr>"] c(2) l(2) by simp
  then have "of_conclusion sx db1 cid"
    using cc l(4) unfolding of_conclusion_def list_ex_iff
    by (intro bexI [of _ "c\<lparr>co_lock_version := nat (expected + 1)\<rparr>"]) simp_all
  then have "get_latest_revision sx cid db1 = latest_by cr_number (filter (\<lambda>r. cr_conclusion r = cid) (rd_revisions db))"
    by (simp add: get_latest_revision_def l(3) cong: conj_cong)
  then have num: "n = next_revision (rd_revisions db) cid"
    by (simp add: n next_revision_def)
  show ?thesis
    using ins
  proof (rule insert_revisionD)
    fix r assume r: "rd_revisions db2 = rd_revisions db1 @ [r]" "cr_id r = rid" "cr_conclusion r = cid" "cr_number r = n"
      "rid \<notin> cr_id ` set (rd_revisions db1)" "rd_conclusions db2 = rd_conclusions db1" "\<And>v. in_ws sx db2 v = in_ws sx db1 v"
    have "in_ws sx db2 v = in_ws sx db v" for v
      using r(7) l(4) by simp
    then have "rd_conclusions db' = sql_update (\<lambda>x. co_id x = co_id c)
        (\<lambda>x. x\<lparr>co_lock_version := co_lock_version c + 1, co_current := Some (cr_id r)\<rparr>) (rd_conclusions db)"
      using same lock_rows [OF assms(2) c] r(2,6) l(2) by (simp add: notes_same_def set_current_revision_def)
    moreover have "rd_revisions db' = rd_revisions db @ [r]"
      using same r(1) l(3) by (simp add: notes_same_def set_current_revision_def)
    ultimately show ?thesis
      using c(1) r cc(1) l(3) num by (intro revised [of c]) auto
  qed
qed


lemma conclusion_step_history:
  assumes "conclusion_step sx db db'" and "unique_rows co_id (rd_conclusions db)"
  shows "history_change db db'"
  using assms(1)
proof cases
  case (creates_manual wid statement key scope limitations cid rid)
  then obtain actor db1 db2 where i: "insert_conclusion sx cid wid None ''manual'' ''manual_unverified'' actor db = Inr db1"
    "insert_revision sx rid cid 1 statement scope (JArr []) limitations actor db1 = Inr db2"
    and a: "research_audit sx ''research.conclusion.create_manual'' cid (set_current_revision sx cid rid db2) = Inr db'"
    by (auto simp: create_manual_def)
  show ?thesis
    by (rule history_start [OF i research_audit_notes [OF a]])
next
  case (revises wid cid statement expected scope limitations rid)
  then show ?thesis
    using revise_history assms(2) by blast
next
  case (archives wid cid expected)
  then obtain db1 where l: "locked_update sx cid expected
      (\<lambda>c. c\<lparr>co_status := ''archived'', co_lock_version := nat (expected + 1)\<rparr>) db = Inr db1"
    and a: "research_audit sx ''research.conclusion.archive'' cid db1 = Inr db'"
    by (auto simp: archive_def archive_conclusion_def)
  show ?thesis
    using locked_updateD(2,3) [OF l] research_audit_notes [OF a]
    by (intro conclusion_fields [of _ _ "lock_where sx db cid expected"
          "\<lambda>c. c\<lparr>co_status := ''archived'', co_lock_version := nat (expected + 1)\<rparr>"])
      (auto simp: notes_same_def lock_where_def)
next
  case (saves_block wid tid statement cid rid)
  then obtain actor db1 db2 where i: "insert_conclusion sx cid wid (Some tid) ''ai_original'' ''data_supported'' actor db = Inr db1"
    "insert_revision sx rid cid 1 statement None (JArr []) None actor db1 = Inr db2"
    and e: "db' = set_current_revision sx cid rid db2"
    by (auto simp: save_from_block_def)
  show ?thesis
    by (rule history_start [OF i]) (simp add: notes_same_def e)
next
  case (deletes_conclusion wid cid)
  then show ?thesis
    by (simp add: bare_deletes_nothing)
qed

section \<open>Every step of the system\<close>

lemma change_history:
  assumes "change schema late sx db db'" and "unique_rows co_id (rd_conclusions db)"
  shows "history_change db db'"
  using assms(1)
proof cases
  case concluded
  then show ?thesis
    using conclusion_step_history assms(2) by blast
qed (auto intro!: untouched simp: same_defs update_workspaces_def update_plans_def update_runs_def insert_plan_version_def
    insert_row_def write_run_def queue_run_def Let_def enqueue_research_def set_turn_status_def split: if_splits)

lemma delete_turn_history: "delete_turn sx wid tid db = Inr db' \<Longrightarrow> history_change db db'"
  by (rule conclusion_fields [of _ _ "\<lambda>c. co_source_turn c = Some tid" "\<lambda>c. c\<lparr>co_source_turn := None\<rparr>"])
    (auto simp: delete_turn_def)

lemma settle_turn_notes: "notes_same db (settle_turn sx turn st db)"
  by (simp add: notes_same_def settle_turn_def set_turn_status_def split: option.split)

lemma notes_same_trans: "notes_same a b \<Longrightarrow> notes_same b c \<Longrightarrow> notes_same a c"
  by (simp add: notes_same_def)

lemma finish_run_notes:
  assumes "finish_run sx now c answer reid xid eid db = (ok, db')"
  shows "notes_same db db'"
  using assms
proof (cases rule: finish_run_cases)
  case (completes a)
  show ?thesis
    using completes(2)
  proof (cases rule: complete_runE)
    case (completed r db1 x db2)
    have "notes_same db db1"
      using completed(3) by (auto simp: write_result_def notes_same_def update_runs_def split: if_splits)
    moreover have "notes_same (settle_turn sx (rc_turn c) TurnSucceeded db1) db2"
      using completed(4) by (auto simp: ensure_extraction_def notes_same_def Let_def split: option.splits)
    ultimately show ?thesis
      using completed(5) settle_turn_notes [of db1 sx "rc_turn c" TurnSucceeded] notes_same_trans
      unfolding same_tables_def by blast
  qed (simp add: notes_same_def)
next
  case fails
  have "notes_same db (update_runs (\<lambda>r. run_row sx db (rc_run c) r \<and> ar_status r \<notin> {ASucceeded, AFailed})
      (\<lambda>r. r\<lparr>ar_status := AFailed\<rparr>) db)"
    by (simp add: notes_same_def update_runs_def)
  then show ?thesis
    unfolding fails(2) fail_run_def using settle_turn_notes notes_same_trans by blast
qed

lemma claim_run_notes: "claim_run sx now rid db = (Claimed c, db') \<Longrightarrow> notes_same db db'"
  using claim_runD(2) [of sx now rid db c db'] by (simp add: notes_same_def update_runs_def)

section \<open>The invariant\<close>

definition conclusion_ok :: "conclusion_revision list \<Rightarrow> conclusion \<Rightarrow> bool" where
  "conclusion_ok rs c \<longleftrightarrow> (\<exists>r\<in>set rs. cr_conclusion r = co_id c \<and> co_current c = Some (cr_id r)
    \<and> revision_numbers rs (co_id c) = {1..cr_number r})"

definition history_inv :: "research_db \<Rightarrow> bool" where
  "history_inv db \<longleftrightarrow> unique_rows co_id (rd_conclusions db) \<and> unique_rows cr_id (rd_revisions db)
    \<and> unique_rows (\<lambda>r. (cr_conclusion r, cr_number r)) (rd_revisions db)
    \<and> (\<forall>r\<in>set (rd_revisions db). cr_conclusion r \<in> co_id ` set (rd_conclusions db))
    \<and> (\<forall>c\<in>set (rd_conclusions db). conclusion_ok (rd_revisions db) c)"

definition history_kept :: "research_db \<Rightarrow> research_db \<Rightarrow> bool" where
  "history_kept db db' \<longleftrightarrow> set (rd_revisions db) \<subseteq> set (rd_revisions db')
    \<and> (\<forall>c\<in>set (rd_conclusions db). \<exists>c'\<in>set (rd_conclusions db'). co_id c' = co_id c \<and> co_lock_version c \<le> co_lock_version c')"

lemma history_kept_refl [simp]: "history_kept db db"
  by (auto simp: history_kept_def)

lemma history_kept_trans:
  assumes "history_kept a b" and "history_kept b c"
  shows "history_kept a c"
  unfolding history_kept_def
proof (intro conjI ballI)
  show "set (rd_revisions a) \<subseteq> set (rd_revisions c)"
    using assms by (auto simp: history_kept_def)
  fix x assume "x \<in> set (rd_conclusions a)"
  then obtain y where y: "y \<in> set (rd_conclusions b)" "co_id y = co_id x" "co_lock_version x \<le> co_lock_version y"
    using assms(1) unfolding history_kept_def by blast
  obtain z where "z \<in> set (rd_conclusions c)" "co_id z = co_id y" "co_lock_version y \<le> co_lock_version z"
    using assms(2) y(1) unfolding history_kept_def by blast
  then show "\<exists>z\<in>set (rd_conclusions c). co_id z = co_id x \<and> co_lock_version x \<le> co_lock_version z"
    using y by (intro bexI [of _ z]) auto
qed

lemma history_update_kept:
  assumes "rd_conclusions db' = sql_update p f (rd_conclusions db)" and "set (rd_revisions db) \<subseteq> set (rd_revisions db')"
    and "\<And>c. c \<in> set (rd_conclusions db) \<Longrightarrow> p c \<Longrightarrow> co_id (f c) = co_id c \<and> co_lock_version c \<le> co_lock_version (f c)"
  shows "history_kept db db'"
  unfolding history_kept_def
proof (intro conjI ballI assms(2))
  fix c assume c: "c \<in> set (rd_conclusions db)"
  then show "\<exists>c'\<in>set (rd_conclusions db'). co_id c' = co_id c \<and> co_lock_version c \<le> co_lock_version c'"
    using in_sql_updateI [OF c, of p f] assms(3) [OF c] unfolding assms(1) by (intro bexI [of _ "if p c then f c else c"]) auto
qed

lemma latest_by_max:
  assumes "latest_by n rows = Some r" and "x \<in> set rows"
  shows "n x \<le> n r"
proof -
  obtain rs where s: "sort_key (\<lambda>r. - int (n r)) rows = r # rs"
    using assms(1) by (auto simp: latest_by_def split: list.splits)
  then have "sorted (map (\<lambda>r. - int (n r)) (r # rs))"
    by (metis sorted_sort_key)
  moreover have "x \<in> set (r # rs)"
    using assms(2) s by (metis set_sort)
  ultimately show ?thesis
    by auto
qed

lemma latest_by_None: "latest_by n rows = None \<longleftrightarrow> rows = []"
proof -
  have "length (sort_key (\<lambda>r. - int (n r)) rows) = length rows"
    by simp
  then show ?thesis
    by (cases "sort_key (\<lambda>r. - int (n r)) rows") (auto simp: latest_by_def)
qed

lemma next_revision_ok:
  assumes "conclusion_ok rs c"
  shows "revision_numbers rs (co_id c) = {1..next_revision rs (co_id c) - 1}" "1 \<le> next_revision rs (co_id c)"
proof -
  obtain r where r: "r \<in> set rs" "cr_conclusion r = co_id c" "revision_numbers rs (co_id c) = {1..cr_number r}"
    using assms unfolding conclusion_ok_def by blast
  let ?rows = "filter (\<lambda>r. cr_conclusion r = co_id c) rs"
  have "r \<in> set ?rows"
    using r by simp
  then have "latest_by cr_number ?rows \<noteq> None"
    unfolding latest_by_None by (metis empty_iff empty_set)
  then obtain x where x: "latest_by cr_number ?rows = Some x"
    by blast
  have "x \<in> set ?rows" "cr_number r \<le> cr_number x"
    by (rule latest_by_SomeD [OF x], rule latest_by_max [OF x \<open>r \<in> set ?rows\<close>])
  moreover from this have "cr_number x \<in> revision_numbers rs (co_id c)"
    by (auto simp: revision_numbers_def)
  ultimately have "cr_number x = cr_number r"
    using r(3) by auto
  then show "revision_numbers rs (co_id c) = {1..next_revision rs (co_id c) - 1}" "1 \<le> next_revision rs (co_id c)"
    using x r(3) by (simp_all add: next_revision_def)
qed


lemma history_change_kept:
  assumes "history_change db db'" and "unique_rows co_id (rd_conclusions db)"
  shows "history_kept db db'"
  using assms(1)
proof cases
  case untouched
  then show ?thesis
    by (auto simp: history_kept_def notes_same_def)
next
  case (started c r)
  then show ?thesis
    by (auto simp: history_kept_def)
next
  case (revised c r)
  have "co_lock_version x \<le> co_lock_version c + 1" if "x \<in> set (rd_conclusions db)" "co_id x = co_id c" for x
    using unique_rows_eq [OF assms(2) that(1) revised(1) that(2)] by simp
  then show ?thesis
    using revised by (intro history_update_kept [OF revised(2)]) auto
next
  case (conclusion_fields p f)
  then show ?thesis
    by (intro history_update_kept [OF conclusion_fields(2)]) auto
qed

lemma conclusion_ok_other:
  assumes "conclusion_ok rs c" and "cr_conclusion r \<noteq> co_id c"
  shows "conclusion_ok (rs @ [r]) c"
proof -
  have "revision_numbers (rs @ [r]) (co_id c) = revision_numbers rs (co_id c)"
    using assms(2) by (auto simp: revision_numbers_def)
  then show ?thesis
    using assms(1) by (auto simp: conclusion_ok_def)
qed

lemma conclusion_ok_cong: "co_id c' = co_id c \<Longrightarrow> co_current c' = co_current c \<Longrightarrow> conclusion_ok rs c' \<longleftrightarrow> conclusion_ok rs c"
  by (simp add: conclusion_ok_def)

lemma revision_fresh:
  assumes "conclusion_ok rs c" and "cr_conclusion r = co_id c" and "cr_number r = next_revision rs (co_id c)"
  shows "(cr_conclusion r, cr_number r) \<notin> (\<lambda>r. (cr_conclusion r, cr_number r)) ` set rs"
    "conclusion_ok (rs @ [r]) (c\<lparr>co_lock_version := k, co_current := Some (cr_id r)\<rparr>)"
proof -
  note n = next_revision_ok [OF assms(1)]
  have "cr_number r \<notin> revision_numbers rs (co_id c)"
    unfolding n(1) using n(2) assms(3) by simp
  then show "(cr_conclusion r, cr_number r) \<notin> (\<lambda>r. (cr_conclusion r, cr_number r)) ` set rs"
    using assms(2) by (auto simp: revision_numbers_def)
  have "revision_numbers (rs @ [r]) (co_id c) = insert (cr_number r) (revision_numbers rs (co_id c))"
    using assms(2) by (auto simp: revision_numbers_def)
  also have "\<dots> = {1..cr_number r}"
    unfolding n(1) using n(2) assms(3) by auto
  finally show "conclusion_ok (rs @ [r]) (c\<lparr>co_lock_version := k, co_current := Some (cr_id r)\<rparr>)"
    using assms(2) by (auto simp: conclusion_ok_def)
qed

lemma history_change_inv:
  assumes "history_change db db'" and "history_inv db"
  shows "history_inv db'"
  using assms(1)
proof cases
  case untouched
  then show ?thesis
    using assms(2) by (simp add: history_inv_def notes_same_def)
next
  case (started c r)
  have old: "cr_conclusion x \<noteq> co_id c" if "x \<in> set (rd_revisions db)" for x
    using that assms(2) started(3) unfolding history_inv_def by metis
  have "revision_numbers (rd_revisions db @ [r]) (co_id c) = {1..cr_number r}"
  proof -
    have "{x \<in> set (rd_revisions db @ [r]). cr_conclusion x = co_id c} = {r}"
      using old started(5) by auto
    then show ?thesis
      by (simp add: revision_numbers_def started(6))
  qed
  then have "conclusion_ok (rd_revisions db @ [r]) c"
    using started(5,7) by (auto simp: conclusion_ok_def)
  moreover have "conclusion_ok (rd_revisions db @ [r]) x" if "x \<in> set (rd_conclusions db)" for x
    using that assms(2) started(3,5) by (intro conclusion_ok_other) (auto simp: history_inv_def)
  ultimately show ?thesis
    using assms(2) started old by (auto simp: history_inv_def unique_rows_snoc)
next
  case (revised c r)
  have ok: "conclusion_ok (rd_revisions db) c"
    using assms(2) revised(1) by (simp add: history_inv_def)
  note fresh = revision_fresh [OF ok revised(5,6)]
  have "conclusion_ok (rd_revisions db @ [r]) x" if x: "x \<in> set (rd_conclusions db')" for x
  proof -
    obtain x0 where x0: "x0 \<in> set (rd_conclusions db)"
      "x = (if co_id x0 = co_id c then x0\<lparr>co_lock_version := co_lock_version c + 1, co_current := Some (cr_id r)\<rparr> else x0)"
      using x unfolding revised(2) by (rule in_sql_updateE)
    show ?thesis
    proof (cases "co_id x0 = co_id c")
      case True
      then have "x0 = c"
        using unique_rows_eq [of co_id, OF _ x0(1) revised(1)] assms(2) by (simp add: history_inv_def)
      then show ?thesis
        using x0(2) fresh(2) by simp
    next
      case False
      then show ?thesis
        using x0 assms(2) revised(5) by (auto simp: history_inv_def intro: conclusion_ok_other)
    qed
  qed
  then have "\<forall>x\<in>set (rd_conclusions db'). conclusion_ok (rd_revisions db') x"
    by (simp add: revised(3))
  moreover have "co_id ` set (rd_conclusions db') = co_id ` set (rd_conclusions db)"
    unfolding revised(2) set_sql_update image_image by (rule image_cong) auto
  moreover have "unique_rows co_id (rd_conclusions db')"
    using assms(2) unfolding revised(2) by (simp add: history_inv_def unique_sql_update)
  moreover have "\<forall>x\<in>set (rd_revisions db'). cr_conclusion x \<in> co_id ` set (rd_conclusions db)"
    using assms(2) revised(1,5) by (auto simp: revised(3) history_inv_def)
  moreover have "unique_rows cr_id (rd_revisions db')" "unique_rows (\<lambda>r. (cr_conclusion r, cr_number r)) (rd_revisions db')"
    unfolding revised(3) unique_rows_snoc using assms(2) revised(4) fresh(1) unfolding history_inv_def by blast+
  ultimately show ?thesis
    unfolding history_inv_def by metis
next
  case (conclusion_fields p f)
  define g where "g c = (if p c then f c else c)" for c
  have f: "rd_conclusions db' = sql_update (\<lambda>_. True) g (rd_conclusions db)"
    by (simp add: conclusion_fields(2) sql_update_def g_def)
  have keys: "co_id (g c) = co_id c" "conclusion_ok rs (g c) = conclusion_ok rs c" for c rs
    using conclusion_fields(3) [of c] conclusion_ok_cong [of "f c" c rs] by (simp_all add: g_def)
  show ?thesis
    using assms(2) unfolding history_inv_def conclusion_fields(1) f unique_sql_update [of co_id g, OF keys(1)]
      sql_update_ids [of co_id g, OF keys(1)] ball_sql_update [of "conclusion_ok (rd_revisions db)" g, OF keys(2)] .
qed

section \<open>The system\<close>

lemma history_change_both:
  assumes "history_change db db'" and "history_inv db"
  shows "history_inv db' \<and> history_kept db db'"
  using history_change_inv [OF assms] history_change_kept [OF assms(1)] assms(2) by (simp add: history_inv_def)

lemma changes_history:
  "changes schema late sx db db' \<Longrightarrow> history_inv db \<Longrightarrow> history_inv db' \<and> history_kept db db'"
proof (induction rule: rtranclp_induct)
  case (step d d')
  then have "history_change d d'"
    by (intro change_history) (auto simp: history_inv_def)
  then show ?case
    using step history_change_both history_kept_trans by blast
qed simp

lemma research_step_history:
  assumes "research_step schema late sx y y'" and "sys_inv y" and "history_inv (ry_db y)"
  shows "history_inv (ry_db y') \<and> history_kept (ry_db y) (ry_db y')"
  using assms(1)
proof cases
  case (acts db')
  have "changes schema late sx (ry_db y) db' \<or> (\<exists>wid tid. delete_turn sx wid tid (ry_db y) = Inr db')"
    using db_step_changes [OF acts(2)] assms(2) by (simp add: research_inv_unique sys_inv_def)
  then show ?thesis
    using changes_history [OF _ assms(3)] history_change_both [OF delete_turn_history assms(3)] acts(1) by auto
next
  case (claims now rid c db')
  then show ?thesis
    using history_change_both [OF untouched [OF claim_run_notes] assms(3)] by simp
next
  case (finishes c now answer reid xid eid ok db')
  then show ?thesis
    using history_change_both [OF untouched [OF finish_run_notes] assms(3)] by simp
next
  case (dies rid)
  then show ?thesis
    using assms(3) by simp
qed

lemma research_steps_history:
  assumes "research_steps schema late y z" and "sys_inv y" and "history_inv (ry_db y)"
  shows "sys_inv z \<and> history_inv (ry_db z) \<and> history_kept (ry_db y) (ry_db z)"
  using assms(1) unfolding research_steps_def
proof (induction rule: rtranclp_induct)
  case base
  then show ?case
    using assms(2,3) by simp
next
  case (step x z)
  then obtain sx where "research_step schema late sx x z"
    by blast
  then show ?case
    using step(3) research_step_history research_step_inv history_kept_trans by blast
qed

lemma reachable_history: "reachable_research schema late y \<Longrightarrow> sys_inv y \<and> history_inv (ry_db y)"
proof -
  have "history_inv (ry_db empty_research)"
    by (simp add: history_inv_def empty_research_def)
  then show "reachable_research schema late y \<Longrightarrow> sys_inv y \<and> history_inv (ry_db y)"
    using research_steps_history sys_inv_empty unfolding reachable_research_def by blast
qed

section \<open>Properties\<close>


lemma lock_raised:
  assumes "locked_update sx cid v f db = Inr db1" and "\<And>c. co_id (f c) = co_id c \<and> co_lock_version (f c) = nat (v + 1)"
  shows "\<exists>c\<in>set (rd_conclusions db1). co_id c = cid \<and> v < int (co_lock_version c)"
proof -
  obtain c where c: "c \<in> set (rd_conclusions db)" "lock_where sx db cid v c"
    using locked_updateD(1) [OF assms(1)] by blast
  then have "f c \<in> set (rd_conclusions db1)"
    using in_sql_updateI [OF c(1), of "lock_where sx db cid v" f] locked_updateD(2) [OF assms(1)] by simp
  then show ?thesis
    using c(2) assms(2) by (intro bexI [of _ "f c"]) (auto simp: lock_where_def conclusion_row_def)
qed

lemma revise_raises:
  assumes "revise sx wid cid statement v scope limitations rid db = Inr db'"
  shows "\<exists>c\<in>set (rd_conclusions db'). co_id c = cid \<and> v < int (co_lock_version c)"
  using assms
proof (rule reviseE)
  fix db1 actor n refs db2
  assume lock: "locked_update sx cid v (\<lambda>c. c\<lparr>co_lock_version := nat (v + 1)\<rparr>) db = Inr db1"
    and ins: "insert_revision sx rid cid n statement scope refs limitations actor db1 = Inr db2"
    and same: "notes_same (set_current_revision sx cid rid db2) db'"
  obtain c where c: "c \<in> set (rd_conclusions db1)" "co_id c = cid" "v < int (co_lock_version c)"
    using lock_raised [OF lock] by auto
  have "rd_conclusions db2 = rd_conclusions db1"
    using ins by (rule insert_revisionD)
  then have "rd_conclusions db' = sql_update (conclusion_row sx db2 cid) (\<lambda>c. c\<lparr>co_current := Some rid\<rparr>) (rd_conclusions db1)"
    using same by (simp add: notes_same_def set_current_revision_def)
  then show ?thesis
    using in_sql_updateI [OF c(1), of "conclusion_row sx db2 cid" "\<lambda>c. c\<lparr>co_current := Some rid\<rparr>"] c(2,3)
    by (intro bexI [of _ "if conclusion_row sx db2 cid c then c\<lparr>co_current := Some rid\<rparr> else c"]) auto
qed

lemma stale_lock:
  assumes "history_inv db" and "c \<in> set (rd_conclusions db)" and "co_id c = cid" and "v < int (co_lock_version c)"
  shows "locked_update sx cid v f db = Inl (lock_conflict cid v)"
proof -
  have "\<not> lock_where sx db cid v x" if "x \<in> set (rd_conclusions db)" for x
    using unique_rows_eq [of co_id, OF _ that assms(2)] assms by (auto simp: history_inv_def lock_where_def conclusion_row_def)
  then show ?thesis
    by (simp add: locked_update_def sql_simps)
qed

text \<open>
  C25. No update of a conclusion is lost: once a session has revised a conclusion from some version of it,
  every later attempt to revise or archive it from the same version is refused, in every continuation and
  by every session.
\<close>

theorem stale_edit_refused:
  assumes "reachable_research schema late y" and "revise sx wid cid statement v scope limitations rid (ry_db y) = Inr db'"
    and "research_steps schema late (y\<lparr>ry_db := db'\<rparr>) z"
  shows "(\<exists>e. revise sx' wid' cid statement' v scope' limitations' rid' (ry_db z) = Inl e)
    \<and> (\<exists>e. archive sx' wid' cid v (ry_db z) = Inl e)"
proof -
  note inv = reachable_history [OF assms(1)]
  have "research_step schema late sx y (y\<lparr>ry_db := db'\<rparr>)"
    by (rule research_step.acts [OF db_step.concludes [OF conclusion_step.revises [OF assms(2)]]])
  then have "sys_inv (y\<lparr>ry_db := db'\<rparr>) \<and> history_inv db'"
    using research_step_inv research_step_history inv by fastforce
  then have z: "history_inv (ry_db z)" "history_kept db' (ry_db z)"
    using research_steps_history [OF assms(3)] by simp_all
  obtain c where "c \<in> set (rd_conclusions db')" "co_id c = cid" "v < int (co_lock_version c)"
    using revise_raises [OF assms(2)] by blast
  then obtain c' where c': "c' \<in> set (rd_conclusions (ry_db z))" "co_id c' = cid" "v < int (co_lock_version c')"
    using z(2) unfolding history_kept_def by fastforce
  note stale = stale_lock [OF z(1) c']
  have "\<exists>e. revise sx' wid' cid statement' v scope' limitations' rid' (ry_db z) = Inl e"
  proof (cases "revise sx' wid' cid statement' v scope' limitations' rid' (ry_db z)")
    case (Inr d)
    then show ?thesis
      by (rule reviseE) (simp add: stale)
  qed simp
  moreover have "\<exists>e. archive sx' wid' cid v (ry_db z) = Inl e"
  proof (cases "archive sx' wid' cid v (ry_db z)")
    case (Inr d)
    then show ?thesis
      by (auto simp: archive_def archive_conclusion_def stale)
  qed simp
  ultimately show ?thesis ..
qed

end
