(* ===== verification/ResearchDemo.thy ===== *)
theory ResearchDemo imports ResearchPaths ConclusionHistory begin

text \<open>
  One workspace with one turn, from the question to the run, on which the theorems about the research
  timeline are applied: user 1 of department 10, workspace 5, snapshot 6, turn 9, plan 11, run 12.
\<close>

section \<open>States\<close>

definition demo_owner :: session_ctx where
  "demo_owner = \<lparr>sx_visible = [10], sx_dept = 10, sx_rls_dept = None, sx_actor = Some 1\<rparr>"

definition stranger :: session_ctx where
  "stranger = \<lparr>sx_visible = [10], sx_dept = 10, sx_rls_dept = None, sx_actor = Some 2\<rparr>"

definition question :: turn_command where
  "question = \<lparr>tc_workspace = 5, tc_question = ''why'', tc_snapshot = 6, tc_revisions = [], tc_item = None, tc_key = ''k''\<rparr>"

definition advice :: plan_advisor where
  "advice q inputs = Some (JObj [], JObj [])"

definition r0 :: research_db where
  "r0 = ry_db empty_research"

definition demo_ws :: research_workspace where
  "demo_ws = \<lparr>ws_id = 5, ws_owner = 1, ws_dept = 10, ws_name = ''w'', ws_status = ''draft'', ws_latest_snapshot = None,
         ws_next_turn = 1\<rparr>"

definition r1 :: research_db where
  "r1 = r0\<lparr>rd_workspaces := [demo_ws], rd_audit := [(''research.workspace.create'', 5)]\<rparr>"

definition r2 :: research_db where
  "r2 = snd (projr (freeze_snapshot demo_owner 0 5 [JNull] 6 7 8 r1))"

definition r3 :: research_db where
  "r3 = snd (projr (create_analysis_turn demo_owner question 9 r2))"

definition r4 :: research_db where
  "r4 = projr (start_planning demo_owner 0 5 9 20 r3)"

definition r5 :: research_db where
  "r5 = snd (projr (generate_plan FromEntities demo_owner advice 5 6 11 r4))"

definition r6 :: research_db where
  "r6 = projr (bind_plan demo_owner 9 11 r5)"

definition r7 :: research_db where
  "r7 = projr (confirm_turn_plan demo_owner 0 5 9 11 r6)"

definition r8 :: research_db where
  "r8 = snd (projr (submit_turn_run FromEntities demo_owner 0 5 9 12 21 r7))"

lemma demo_owner_simps [simp]: "sx_visible demo_owner = [10]" "sx_dept demo_owner = 10" "sx_actor demo_owner = Some 1" "sees_b demo_owner 10"
  by (simp_all add: demo_owner_def sees_b_def policy_b_def)

lemma demo_owner_sees [simp]: "sees_ws demo_owner w \<longleftrightarrow> ws_owner w = 1 \<and> ws_dept w = 10"
  by (auto simp: sees_ws_def)

lemma r0_simps: "r0 = \<lparr>rd_workspaces = [], rd_snapshots = [], rd_batches = [], rd_turns = [], rd_contexts = [], rd_plans = [],
    rd_runs = [], rd_results = [], rd_extractions = [], rd_conclusions = [], rd_revisions = [], rd_outbox = [], rd_audit = []\<rparr>"
  by (simp add: r0_def empty_research_def)

lemma made1: "create_workspace demo_owner 5 ''w'' r0 = Inr (demo_ws, r1)"
  by (simp add: create_workspace_def require_actor_def Let_def insert_row_def research_audit_def r1_def demo_ws_def r0_simps)

lemma demo_latest_one [simp]: "latest_by n [r] = Some r" "latest_by n [] = None"
  by (simp_all add: latest_by_def)

lemmas run_demo = and_then_simps require_simps require_actor_def require_owned_workspace_def Let_def insert_row_def
  research_audit_def sql_find_def in_ws_def update_workspaces_def enqueue_research_def sql_update_def

definition demo_snap :: evidence_snapshot where
  "demo_snap = \<lparr>sn_id = 6, sn_workspace = 5, sn_number = 1, sn_refs = JArr [JNull]\<rparr>"

lemma made2: "freeze_snapshot demo_owner 0 5 [JNull] 6 7 8 r1 = Inr (demo_snap, r2)"
  "rd_workspaces r2 = [demo_ws\<lparr>ws_latest_snapshot := Some 6\<rparr>]" "rd_snapshots r2 = [demo_snap]"
  "rd_turns r2 = []" "rd_plans r2 = []" "rd_runs r2 = []" "rd_conclusions r2 = []" "rd_revisions r2 = []" "rd_contexts r2 = []"
  by (simp_all add: r2_def freeze_snapshot_def run_demo r1_def r0_simps demo_ws_def demo_snap_def workspace_snapshots_def initial_batch_def)


definition demo_turn :: "turn_status \<Rightarrow> (string \<times> string) option \<Rightarrow> research_turn" where
  "demo_turn st v = \<lparr>tu_id = 9, tu_workspace = 5, tu_number = 1, tu_kind = ''analysis'', tu_status = st, tu_question = ''why'',
     tu_origin = ''manual'', tu_item = None, tu_snapshot = 6, tu_versions = v, tu_key = ''k''\<rparr>"

definition demo_wsn :: research_workspace where
  "demo_wsn = demo_ws\<lparr>ws_latest_snapshot := Some 6, ws_next_turn := 2\<rparr>"

lemma demo_turn_simps [simp]:
  "tu_id (demo_turn st v) = 9" "tu_workspace (demo_turn st v) = 5" "tu_number (demo_turn st v) = 1" "tu_status (demo_turn st v) = st"
  "tu_snapshot (demo_turn st v) = 6" "demo_turn st v\<lparr>tu_status := st'\<rparr> = demo_turn st' v" "demo_turn st v\<lparr>tu_versions := v'\<rparr> = demo_turn st v'"
  by (simp_all add: demo_turn_def)

lemma demo_wsn_simps [simp]: "ws_id demo_wsn = 5" "ws_owner demo_wsn = 1" "ws_dept demo_wsn = 10"
  by (simp_all add: demo_wsn_def demo_ws_def)

lemma made3: "create_analysis_turn demo_owner question 9 r2 = Inr (demo_turn QuestionDraft None, r3)"
  "rd_workspaces r3 = [demo_wsn]" "rd_snapshots r3 = [demo_snap]"
  "rd_turns r3 = [demo_turn QuestionDraft None]" "rd_plans r3 = []" "rd_runs r3 = []" "rd_contexts r3 = []" "rd_revisions r3 = []"
  by (simp_all add: r3_def create_analysis_turn_def analysis_command_ok_def key_ok_def code_points_def question_def
      check_turn_def made2 demo_ws_def demo_snap_def write_analysis_turn_def write_turn_def allocate_turn_number_def turn_admissible_def
      run_demo demo_turn_def derive_origin_def MAX_CONCLUSION_REVISIONS_def context_rows_def demo_wsn_def)

lemma made4: "start_planning demo_owner 0 5 9 20 r3 = Inr r4" "rd_workspaces r4 = [demo_wsn]" "rd_snapshots r4 = [demo_snap]"
  "rd_turns r4 = [demo_turn Planning (Some (RECOMMENDATION_PROMPT_VERSION, ''plan-output-v1''))]" "rd_plans r4 = []" "rd_runs r4 = []"
  "rd_contexts r4 = []"
  by (simp_all add: r4_def start_planning_def require_owned_turn_def made3 can_plan_def lock_turn_inputs_def sql_rowcount_def
      turn_where_def run_demo)

definition demo_plan :: "uuid option \<Rightarrow> plan_status \<Rightarrow> (timestamp \<times> uuid) option \<Rightarrow> plan_version" where
  "demo_plan tid st cf = \<lparr>pv_id = 11, pv_workspace = 5, pv_turn = tid, pv_number = 1, pv_dag = JObj [], pv_coverage = JObj [],
     pv_status = st, pv_confirmed = cf, pv_created_by = 1\<rparr>"

lemma demo_plan_simps [simp]:
  "pv_id (demo_plan t s c) = 11" "pv_workspace (demo_plan t s c) = 5" "pv_turn (demo_plan t s c) = t" "pv_number (demo_plan t s c) = 1"
  "pv_status (demo_plan t s c) = s" "demo_plan t s c\<lparr>pv_turn := t'\<rparr> = demo_plan t' s c" "demo_plan t s c\<lparr>pv_status := s'\<rparr> = demo_plan t s' c"
  "demo_plan t s c\<lparr>pv_confirmed := c'\<rparr> = demo_plan t s c'"
  by (simp_all add: demo_plan_def)

lemma made5: "generate_plan FromEntities demo_owner advice 5 6 11 r4 = Inr (demo_plan None PlanDraft None, r5)"
  "rd_workspaces r5 = [demo_wsn]" "rd_snapshots r5 = [demo_snap]"
  "rd_turns r5 = rd_turns r4" "rd_plans r5 = [demo_plan None PlanDraft None]" "rd_runs r5 = []"
  by (simp_all add: r5_def generate_plan_def workspace_snapshots_def demo_snap_def made4 asked_turn_def advice_def workspace_plans_def
      insert_plan_version_def plan_admissible_def demo_plan_def run_demo)

lemma made6: "bind_plan demo_owner 9 11 r5 = Inr r6" "rd_workspaces r6 = [demo_wsn]" "rd_snapshots r6 = [demo_snap]"
  "rd_turns r6 = [demo_turn PlanReview (Some (RECOMMENDATION_PROMPT_VERSION, ''plan-output-v1''))]"
  "rd_plans r6 = [demo_plan (Some 9) PlanDraft None]" "rd_runs r6 = []"
  by (simp_all add: r6_def bind_plan_def made4 made5 update_plans_def plan_where_def try_turn_status_def update_turn_status_def
      turn_where_def sql_rowcount_def run_demo)

lemma made7: "confirm_turn_plan demo_owner 0 5 9 11 r6 = Inr r7" "rd_workspaces r7 = [demo_wsn]" "rd_snapshots r7 = [demo_snap]"
  "rd_turns r7 = [demo_turn PlanConfirmed (Some (RECOMMENDATION_PROMPT_VERSION, ''plan-output-v1''))]"
  "rd_plans r7 = [demo_plan (Some 9) PlanIsConfirmed (Some (0, 1))]" "rd_runs r7 = []"
  by (simp_all add: r7_def confirm_turn_plan_def require_owned_turn_def made6 find_plan_version_def update_plans_def plan_where_def
      update_turn_status_def turn_where_def sql_rowcount_def run_demo)

definition demo_job :: "analysis_status \<Rightarrow> timestamp option \<Rightarrow> (timestamp \<times> uuid) option \<Rightarrow> analysis_run" where
  "demo_job st started cancelled = \<lparr>ar_id = 12, ar_workspace = 5, ar_plan = 11, ar_snapshot = 6, ar_number = 1, ar_status = st,
     ar_submitted_at = 0, ar_started_at = started, ar_cancelled = cancelled, ar_created_by = 1, ar_turn = Some 9, ar_attempt = 1\<rparr>"

lemma demo_job_simps [simp]:
  "ar_id (demo_job s b c) = 12" "ar_workspace (demo_job s b c) = 5" "ar_plan (demo_job s b c) = 11" "ar_snapshot (demo_job s b c) = 6"
  "ar_status (demo_job s b c) = s" "ar_turn (demo_job s b c) = Some 9" "demo_job s b c\<lparr>ar_status := s'\<rparr> = demo_job s' b c"
  "demo_job s b c\<lparr>ar_started_at := b'\<rparr> = demo_job s b' c" "demo_job s b c\<lparr>ar_cancelled := c'\<rparr> = demo_job s b c'"
  by (simp_all add: demo_job_def)

lemma made8: "submit_turn_run FromEntities demo_owner 0 5 9 12 21 r7 = Inr (demo_job AQueued None None, r8)"
  "rd_workspaces r8 = [demo_wsn]" "rd_turns r8 = [demo_turn TurnQueued (Some (RECOMMENDATION_PROMPT_VERSION, ''plan-output-v1''))]"
  "rd_plans r8 = rd_plans r7" "rd_runs r8 = [demo_job AQueued None None]"
  by (simp_all add: r8_def submit_turn_run_def check_run_def require_owned_turn_def made7 can_run_def active_run_def write_run_def
      queue_run_def next_run_number_def next_attempt_def run_admissible_def demo_job_def demo_snap_def max_number_def find_turn_def
      set_turn_status_def run_demo)

section \<open>They are reachable\<close>

lemma steps_refl: "research_steps schema late y y"
  by (simp add: research_steps_def)

lemma reachable_acts:
  assumes "reachable_research schema late \<lparr>ry_db = db, ry_claims = cs\<rparr>" and "db_step schema late sx db db'"
  shows "reachable_research schema late \<lparr>ry_db = db', ry_claims = cs\<rparr>"
  using assms(1) research_step.acts [of schema late sx "\<lparr>ry_db = db, ry_claims = cs\<rparr>" db'] assms(2)
  unfolding reachable_research_def research_steps_def by (auto intro: rtranclp.rtrancl_into_rtrancl)

lemma reachable_empty: "reachable_research schema late \<lparr>ry_db = r0, ry_claims = []\<rparr>"
proof -
  have "\<lparr>ry_db = r0, ry_claims = []\<rparr> = empty_research"
    by (simp add: r0_def empty_research_def)
  then show ?thesis
    by (simp add: reachable_research_def research_steps_def)
qed

lemma reachable4: "reachable_research schema late \<lparr>ry_db = r4, ry_claims = []\<rparr>"
proof -
  have "reachable_research schema late \<lparr>ry_db = r1, ry_claims = []\<rparr>"
    by (rule reachable_acts [OF reachable_empty creates_workspace [OF made1]])
  then have "reachable_research schema late \<lparr>ry_db = r2, ry_claims = []\<rparr>"
    by (rule reachable_acts [OF _ freezes_snapshot [OF made2(1)]])
  then have "reachable_research schema late \<lparr>ry_db = r3, ry_claims = []\<rparr>"
    by (rule reachable_acts [OF _ creates_turn [OF made3(1)]]) (simp add: unused_turn_def made2)
  then show ?thesis
    by (rule reachable_acts [OF _ starts_planning [OF made4(1)]])
qed

lemma reachable7: "reachable_research FromEntities late \<lparr>ry_db = r7, ry_claims = []\<rparr>"
proof -
  have "reachable_research FromEntities late \<lparr>ry_db = r5, ry_claims = []\<rparr>"
    by (rule reachable_acts [OF reachable4 generates_plan [OF made5(1)]])
  then have "reachable_research FromEntities late \<lparr>ry_db = r6, ry_claims = []\<rparr>"
    by (rule reachable_acts [OF _ binds_plan [OF made6(1)]]) (simp add: made5)
  then show ?thesis
    by (rule reachable_acts [OF _ confirms_turn_plan [OF made7(1)]])
qed

lemma reachable8: "reachable_research FromEntities late \<lparr>ry_db = r8, ry_claims = []\<rparr>"
  by (rule reachable_acts [OF reachable7 submits_turn_run [OF made8(1)]])


section \<open>The theorems applied\<close>

definition r9 :: research_db where
  "r9 = snd (claim_run demo_owner 3 12 r8)"

definition the_claim :: run_claim where
  "the_claim = \<lparr>rc_run = 12, rc_turn = Some 9, rc_workspace = 5, rc_plan = 11, rc_snapshot = 6\<rparr>"

definition r10 :: research_db where
  "r10 = projr (cancel_run demo_owner 3 12 r8)"

lemma made9: "claim_run demo_owner 3 12 r8 = (Claimed the_claim, r9)" "map tu_id (rd_turns r9) = [9]"
  by (simp_all add: r9_def claim_run_def made8 claim_where_def run_row_def run_demo the_claim_def demo_job_def)

lemma made10: "cancel_run demo_owner 3 12 r8 = Inr r10" "map tu_id (rd_turns r10) = [9]"
  by (simp_all add: r10_def cancel_run_def find_analysis_def made8 active_status_def run_demo)

lemma one_turn: "map tu_id ts = [i] \<Longrightarrow> \<forall>t\<in>set ts. tu_id t = i \<longrightarrow> tu_status t = st \<Longrightarrow> map tu_status ts = [st]"
  by auto

lemma research_tables_sound_witness: "research_inv r8 \<and> rd_runs r8 \<noteq> []"
  using research_tables_sound [OF reachable8 [of True]] by (simp add: made8)

lemma acts8: "research_step FromEntities False demo_owner \<lparr>ry_db = r7, ry_claims = []\<rparr> \<lparr>ry_db = r8, ry_claims = []\<rparr>"
  using research_step.acts [where schema = FromEntities and late = False and y = "\<lparr>ry_db = r7, ry_claims = []\<rparr>",
      OF submits_turn_run] made8(1) by fastforce

lemma stranger_acts: "research_step Migrated False stranger \<lparr>ry_db = r4, ry_claims = []\<rparr>
    \<lparr>ry_db = try_turn_status stranger 9 Planning PlanningFailed r4, ry_claims = []\<rparr>"
  using research_step.acts [where schema = Migrated and late = False and y = "\<lparr>ry_db = r4, ry_claims = []\<rparr>",
      OF fails_planning] by fastforce


lemma run_claimed_once_witness: "\<exists>st. claim_run demo_owner 4 12 r9 = (NotClaimed st, r9)"
  using run_claimed_once [where sx = demo_owner and now = 3 and rid = 12 and z = "\<lparr>ry_db = r9, ry_claims = [the_claim]\<rparr>",
      OF reachable8 [of False]] made9 steps_refl by simp



lemma reachable9: "reachable_research FromEntities False \<lparr>ry_db = r9, ry_claims = [the_claim]\<rparr>"
  using reachable8 [of False] research_step.claims [where schema = FromEntities and late = False
      and y = "\<lparr>ry_db = r8, ry_claims = []\<rparr>" and sx = demo_owner and now = 3 and rid = 12 and c = the_claim and db' = r9] made9
  unfolding reachable_research_def research_steps_def by (auto intro: rtranclp.rtrancl_into_rtrancl)


lemma migrated_database_never_plans_witness: "rd_plans r4 = [] \<and> rd_runs r4 = [] \<and> rd_turns r4 \<noteq> []"
  using migrated_database_never_plans [OF reachable4 [where late = False]] by (simp add: made4)


section \<open>A conclusion and its revision\<close>

definition k1 :: research_db where
  "k1 = projr (create_manual demo_owner 5 ''s'' ''k'' None None 30 31 r1)"

definition k2 :: research_db where
  "k2 = projr (revise demo_owner 5 30 ''t'' 0 None None 32 k1)"

lemma not_blank [simp]: "\<not> is_blank ''s''" "\<not> is_blank ''t''"
  by (simp_all add: is_blank_def py_strip_def strip_by_def is_py_space_def)

lemma concluded1: "create_manual demo_owner 5 ''s'' ''k'' None None 30 31 r1 = Inr k1"
  "rd_revisions k1 \<noteq> []"
  by (simp_all add: k1_def create_manual_def key_ok_def code_points_def insert_conclusion_def insert_revision_def
      set_current_revision_def of_conclusion_def run_demo r1_def r0_simps demo_ws_def)

lemma concluded2: "revise demo_owner 5 30 ''t'' 0 None None 32 k1 = Inr k2"
  by (simp add: k2_def k1_def revise_def get_conclusion_def update_conclusion_lock_def locked_update_def sql_rowcount_def
      lock_where_def conclusion_row_def get_latest_revision_def create_manual_def key_ok_def code_points_def insert_conclusion_def
      insert_revision_def set_current_revision_def of_conclusion_def run_demo r1_def r0_simps demo_ws_def)

lemma reachable_k1: "reachable_research schema late \<lparr>ry_db = k1, ry_claims = []\<rparr>"
proof -
  have "reachable_research schema late \<lparr>ry_db = r1, ry_claims = []\<rparr>"
    by (rule reachable_acts [OF reachable_empty creates_workspace [OF made1]])
  then show ?thesis
    by (rule reachable_acts [OF _ concludes [OF creates_manual [OF concluded1(1)]]])
qed

lemma steps_k2: "research_steps schema late \<lparr>ry_db = k1, ry_claims = []\<rparr> \<lparr>ry_db = k2, ry_claims = []\<rparr>"
  unfolding research_steps_def
  using research_step.acts [where y = "\<lparr>ry_db = k1, ry_claims = []\<rparr>", OF concludes [OF revises]] concluded2 by fastforce


lemma stale_edit_refused_witness: "\<exists>e. revise demo_owner 5 30 ''s'' 0 None None 33 k2 = Inl e"
  using stale_edit_refused [where y = "\<lparr>ry_db = k1, ry_claims = []\<rparr>" and z = "\<lparr>ry_db = k2, ry_claims = []\<rparr>",
      OF reachable_k1 [where late = True]] concluded2 steps_refl by fastforce

end
