(* ===== verification/Spec2Isabelle.thy ===== *)
theory Spec2Isabelle imports JobSystem FlowStore ParameterSystem AuthDemo ResearchDemo
begin

text \<open>
  A verification library for IRIP, a research data platform: a FastAPI application
  (\<open>apps/api\<close>), Celery workers (\<open>apps/worker\<close>) and the packages they share (\<open>packages\<close>), over
  PostgreSQL with row-level security, Redis, an object store and language-model providers. The library
  models the parts in which the platform's own rules live, as executable definitions translated from
  the Python (and, for the row policies, the SQL of the migrations), and proves what makes them correct.

  \<^bold>\<open>The parts and how they meet.\<close> A request arrives with an access token; \<open>get_current_user\<close> turns it
  into a user, \<open>require_permission\<close> checks the roles, and a service is built whose sessions carry the
  user's department and identity. The database evaluates \<open>current_visible_dept_ids()\<close> on them and the
  row policies hide what the user may not see. Long work is accepted as a job: a row and an event of the
  outbox in one transaction. The dispatcher sends events to the broker, a worker leases the job with a
  fencing token, runs its handler and commits; reaper and requeue task bring lost jobs back. The flow
  engine is such a handler: it sorts the graph of a flow, feeds the nodes with bindings and snapshot and
  records what they did. Evidence, recipes and derivation runs lead to parameter candidates, which a
  second person approves into numbered versions.

  \<^bold>\<open>Theories and sources.\<close>

  \<^item> \<^bold>\<open>Foundations.\<close> \<open>PyText\<close>, \<open>PyJson\<close>: the parts of Python's strings (\<open>int\<close>, \<open>split\<close>), UUID texts and JSON
    values that the code uses. \<open>Prelude\<close>: identifiers, time stamps, \<open>AppError\<close> (\<open>packages/common/errors.py\<close>),
    dictionaries, tables as lists with the statements of SQLAlchemy (\<open>sql_find\<close>, \<open>sql_update\<close>,
    \<open>sql_rowcount\<close>), and the locales \<open>row_update\<close> and \<open>versioned_update\<close>, the contracts of an
    \<open>UPDATE\<close> that keeps the key and of one that raises a version. \<open>Pagination\<close>: keyset cursors and
    the locale \<open>keyset\<close> with its theorem that following the cursors visits every row once.
    \<open>Sessions\<close>: \<open>ScopedSessionMixin\<close> of \<open>packages/common/database.py\<close>, the errors of a
    transaction, insertion under a row policy, and rows numbered per owner (what holds of numbers
    chosen as the maximum plus one).
  \<^item> \<^bold>\<open>Jobs\<close> (\<open>packages/jobs\<close>, \<open>packages/common/job_policy.py\<close>, \<open>apps/worker\<close>). \<open>JobModel\<close>: statuses,
    rows, kinds. \<open>JobStore\<close>: the repository, one definition per statement. \<open>JobService\<close>: accept,
    cancel, get, list; accept and cancel are split where another transaction can come between.
    \<open>JobOutbox\<close>: events, routing, the dispatcher. \<open>JobWorker\<close>: leases, the three commits, one
    execution. \<open>JobSystem\<close>: any interleaving of workers, periodic tasks and users as the step relation
    \<open>sys_step\<close>; its locale \<open>versioned_rows\<close> says what follows for rows that change only with a
    higher version.
  \<^item> \<^bold>\<open>Flows\<close> (\<open>packages/components/flow\<close>). \<open>FlowGraph\<close>: nodes, edges, their JSON form and digest, the
    topological sort, validation. \<open>FlowEngine\<close>: execute, resume, cancel, retry. \<open>FlowRuns\<close>: a reference
    evaluator and the theorems that the engine carries it out. \<open>FlowDefinitions\<close>: flows, drafts,
    versions and runs (\<open>definition_service.py\<close>, creation and listing of \<open>run_service.py\<close>, the endpoints
    of \<open>apps/api/routers/flows.py\<close> that start runs). \<open>FlowStore\<close>: any sequence of them as
    \<open>flow_step\<close>, with its invariant.
  \<^item> \<^bold>\<open>Components\<close> (\<open>packages/components\<close>). \<open>ComponentRegistry\<close>: the manifest
    (\<open>manifest.py\<close>, \<open>flow/manifest_utils.py\<close>) and the registry (\<open>registry/registry.py\<close>); YAML, the JSON
    schema and SHA-256 are parameters. \<open>RegistrySystem\<close>: any sequence of registry operations.
  \<^item> \<^bold>\<open>Tenancy\<close> (\<open>packages/departments\<close>, migrations 0064 and 0065, \<open>apps/api/dependencies/dept_scope.py\<close>).
    \<open>Departments\<close>: table, trigger, memberships. \<open>Tenancy\<close>: visibility, row policies, management.
  \<^item> \<^bold>\<open>Science tables\<close> (\<open>packages/provenance\<close>, \<open>packages/parameters\<close>). \<open>Provenance\<close>: evidence sets,
    recipes, derivation runs, the graph. \<open>Parameters\<close>: the operations of \<open>ParameterService\<close>.
    \<open>ParameterSystem\<close>: any sequence of all of them, its invariant, and what no operation rewrites.
  \<^item> \<^bold>\<open>Accounts\<close> (\<open>packages/auth\<close>, \<open>packages/audit\<close>, \<open>packages/governance\<close>, the dependencies and routers
    of \<open>apps/api\<close> named in the theories). \<open>Accounts\<close>: users, refresh sessions, \<open>AuthService\<close>.
    \<open>AccessControl\<close>: permission matrix, \<open>get_current_user\<close>. \<open>Governance\<close>: the administration of users
    with its guards and audit events. \<open>AuthSystem\<close>: any sequence of all of them with the replay of a
    token split in two. \<open>AuthTheorems\<close>: what holds. \<open>AuthDemo\<close>: a small organisation to apply it to.
  \<^item> \<^bold>\<open>Research\<close> (\<open>packages/research\<close>, \<open>apps/worker/research_timeline_tasks.py\<close>, migrations 0075, 0084 and
    0088). \<open>ResearchTimeline\<close>: the state machines, the tables with their row policies, workspaces,
    snapshots, turns. \<open>ResearchRuns\<close>: plan versions, the task that plans a turn, the submission,
    cancellation, claim and completion of runs, extraction jobs, the reconciler. \<open>Conclusions\<close>:
    conclusions and their revisions. \<open>ResearchSystem\<close>: any interleaving of users, tasks, workers that
    may die, and reconciler as \<open>research_step\<close>; every operation is shown to be a sequence of a few kinds of
    \<open>change\<close>, and the invariants are proved for these. \<open>ResearchTheorems\<close>: isolation, single execution.
    \<open>ResearchPaths\<close>: how turns move and get stuck. \<open>ConclusionHistory\<close>: revisions and their lock.
    \<open>ResearchDemo\<close>: a workspace with a turn on its way from question to run.

  \<^bold>\<open>What is shown.\<close> Of jobs: fencing (a stale worker never commits), one commit at most, terminal states
  are final, the status machine, bounded retries, recovery from crashes, idempotent acceptance, the outbox
  drains. Of flows: the sort is right exactly on acyclic graphs, validation accepts exactly what can be
  sorted, execution and resumption compute what the reference evaluator computes, which values reach a
  node, stored graphs always parse and sort, so that no run stops for the shape of its flow. Of
  components: versions are numbered without gaps and never rewritten, a publication is served at once. Of tenancy: exactly which departments are visible and that management goes down only. Of the
  science tables: versions are approved by a second person, numbered without gaps, immutable; runs can
  be replayed; frozen evidence reads back. Of accounts: refresh tokens are single use, a replay ends its
  family, old access tokens die, nobody gives away more than their rights. Of research: nobody changes
  anything in a workspace that is not theirs, a run is executed once, turns move along a fixed graph, no
  revision of a conclusion changes and no edit is lost. Properties of kind
  \<open>error\<close> state, just as exactly, where the code does not do what its documents say (a job result lost
  between engine and worker, an endless recursive query after a department is moved below itself,
  a turn that is stranded for ever when its run is cancelled or its worker dies, plans that cannot be
  stored in the migrated database); each is proved of the same
  definitions as the others.

  \<^bold>\<open>How the code is represented.\<close>

  \<^item> A table is a list of rows in insertion order; a transaction is a function on the tables, and an
    exception leaves them unchanged. Steps of the systems are committed transactions, split where the
    isolation level of PostgreSQL (\<open>READ COMMITTED\<close>) lets others come between and a property depends
    on it. Row-level security is a visibility predicate given to a definition, or computed by the
    modelled policies from the session.
  \<^item> Two facts about the research tables are parameters of their system: which schema the database has
    (\<open>Migrated\<close>, or \<open>FromEntities\<close>, where a plan may lack its turn), and whether the writes of a request
    may come after its checks are outdated (\<open>late\<close>). A property that needs one of them names it.
  \<^item> A UUID is a natural number, a time stamp a number of seconds, a string a list of bytes (UTF-8);
    literals are ASCII. A Python \<open>int\<close> is an integer, unbounded as there; counters that the code only
    raises are natural numbers. A float is a rational or one of the three special values. Decimals are
    kept as their text. Error messages are left out, codes and fields are kept.
  \<^item> The clock, new identifiers, random tokens and salts are arguments; where freshness matters the
    system keeps the history of those already used.
  \<^item> Code that is not in the repository is a parameter: SHA-256, Argon2, PyJWT, the broker, JSON Schema,
    the component code and the manifest parser, the floating-point branch of the estimator. What is
    assumed of it stands in the hypotheses by name (\<open>jwt_honest\<close>, \<open>jwt_works\<close>, \<open>steady\<close>,
    \<open>quiet\<close>), and a witness instantiates it.
  \<^item> Nothing runs on fuel. Loops are structural or have a measure; the recursive queries, which need
    not end, are \<open>partial_function (option)\<close> with \<open>None\<close> for a query that never returns, and
    that they return is proved where it is claimed.

  \<^bold>\<open>Not modelled\<close>, and why: HTTP parsing and response shapes, engine and pool construction, logging and
  metrics (glue); connectors, converters, backups, object store, model providers (I/O over third-party
  code); read-only list queries with aggregates; \<open>transfer_data\<close> and the statistics of the root
  department; grants of scopes, whose table migration 0036 drops. Of research: prompts and the calls of
  models (a parameter), derived products, publication and lineage (tables with owner and access list),
  the deletion of a workspace, the execution of recommendations, the step orchestrator, which no task
  calls, and the saving of extracted candidates, whose table nothing fills. The numeric expression engine
  (\<open>packages/ai/numeric\<close>) computes with floating point and decimals of the host; models, facts and
  equipment are tables with create, read and update. These are left for an extension.
\<close>

end
